(* ===== verification/Prelude.thy ===== *)
theory Prelude
  imports Complex_Main "HOL-Library.Word"
begin

unbundle bit_operations_syntax

text \<open>
  What the components share: the JavaScript idioms the TypeScript sources use everywhere
  (truthiness of a nullable string, the in-place update of the element that
  \<open>Array.find\<close> returned, \<open>slice\<close> and \<open>includes\<close>), the standard library's UTC calendar and
  \<open>Date.prototype.toISOString\<close>, decimal printing and reading, and the generic lemmas about
  them. Nothing here is code of the repository: it is the language and its standard library.

  Strings are \<open>char list\<close>; where a component counts UTF-16 units or code points it uses a
  list of numbers instead and says so. Times are whole milliseconds since the epoch in \<open>int\<close>.
\<close>

named_theorems leg_simps \<open>how an operation on a list of legs changes what is read from it\<close>
named_theorems frame_simps \<open>the fields an operation leaves alone\<close>

type_synonym ms = int


section \<open>Nullable strings\<close>

text \<open>JavaScript's truth value of a \<open>string | null | undefined\<close>: null and \<open>""\<close> are false.\<close>

fun truthy :: "string option \<Rightarrow> bool" where
  "truthy None = False"
| "truthy (Some s) = (s \<noteq> [])"

text \<open>\<open>if (x) push(f(x))\<close>.\<close>

definition when_truthy :: "string option \<Rightarrow> (string \<Rightarrow> 'a list) \<Rightarrow> 'a list" where
  "when_truthy x f = (case x of None \<Rightarrow> [] | Some s \<Rightarrow> if s = [] then [] else f s)"

lemma when_truthy_simps [simp]:
  "when_truthy None f = []"
  "when_truthy (Some s) f = (if s = [] then [] else f s)"
  by (simp_all add: when_truthy_def)

lemma truthy_iff: "truthy x \<longleftrightarrow> (\<exists>s. x = Some s \<and> s \<noteq> [])"
  by (cases x) auto

lemma set_when_truthy: "e \<in> set (when_truthy x f) \<longleftrightarrow> (\<exists>s. x = Some s \<and> s \<noteq> [] \<and> e \<in> set (f s))"
  by (cases x) auto

text \<open>\<open>x ?? y\<close>.\<close>

fun or_else :: "'a option \<Rightarrow> 'a option \<Rightarrow> 'a option" where
  "or_else None y = y"
| "or_else (Some x) y = Some x"


section \<open>The element that find returned, updated in place\<close>

fun update_first :: "('a \<Rightarrow> bool) \<Rightarrow> ('a \<Rightarrow> 'a) \<Rightarrow> 'a list \<Rightarrow> 'a list" where
  "update_first p f [] = []"
| "update_first p f (x # xs) = (if p x then f x # xs else x # update_first p f xs)"

lemma length_update_first [simp]: "length (update_first p f xs) = length xs"
  by (induction xs) auto

lemma update_first_None: "List.find p xs = None \<Longrightarrow> update_first p f xs = xs"
  by (induction xs) (auto split: if_splits)

lemma set_update_first:
  "y \<in> set (update_first p f xs) \<Longrightarrow> y \<in> set xs \<or> (\<exists>x \<in> set xs. p x \<and> y = f x)"
  by (induction xs) (auto split: if_splits)

lemma map_update_first: "(\<And>x. g (f x) = g x) \<Longrightarrow> map g (update_first p f xs) = map g xs"
  by (induction xs) auto

lemma find_SomeD: "List.find p xs = Some x \<Longrightarrow> x \<in> set xs \<and> p x"
  by (induction xs) (auto split: if_splits)

lemma find_NoneD: "List.find p xs = None \<Longrightarrow> x \<in> set xs \<Longrightarrow> \<not> p x"
  by (induction xs) (auto split: if_splits)

lemma update_first_split:
  "List.find p xs = Some x \<Longrightarrow>
     \<exists>us vs. xs = us @ x # vs \<and> update_first p f xs = us @ f x # vs \<and> p x \<and> (\<forall>u \<in> set us. \<not> p u)"
proof (induction xs)
  case Nil
  then show ?case by simp
next
  case (Cons y ys)
  show ?case
  proof (cases "p y")
    case True
    with Cons.prems show ?thesis by (intro exI [of _ "[]"] exI [of _ ys]) simp
  next
    case False
    with Cons obtain us vs where "ys = us @ x # vs" "update_first p f ys = us @ f x # vs" "p x"
      "\<forall>u \<in> set us. \<not> p u" by auto
    with False show ?thesis by (intro exI [of _ "y # us"] exI [of _ vs]) simp
  qed
qed


section \<open>Decimal digits\<close>

fun digit_char :: "nat \<Rightarrow> char" where
  "digit_char n = char_of (48 + n mod 10)"

fun show_nat :: "nat \<Rightarrow> string" where
  "show_nat n = (if n < 10 then [digit_char n] else show_nat (n div 10) @ [digit_char n])"

declare show_nat.simps [simp del]
declare digit_char.simps [simp del]

definition is_digit :: "char \<Rightarrow> bool" where
  "is_digit c \<longleftrightarrow> 48 \<le> (of_char c :: nat) \<and> (of_char c :: nat) \<le> 57"

definition digit_val :: "char \<Rightarrow> nat" where
  "digit_val c = of_char c - 48"

text \<open>\<open>Number(s)\<close> on a string of decimal digits.\<close>

definition read_nat :: "string \<Rightarrow> nat" where
  "read_nat s = foldl (\<lambda>n c. 10 * n + digit_val c) 0 s"

lemma of_char_digit: "n < 10 \<Longrightarrow> (of_char (digit_char n) :: nat) = 48 + n"
  by (simp add: digit_char.simps)

lemma is_digit_digit_char [simp]: "is_digit (digit_char n)"
proof -
  have "digit_char n = digit_char (n mod 10)" by (simp add: digit_char.simps)
  moreover have "n mod 10 < 10" by simp
  ultimately have "(of_char (digit_char n) :: nat) = 48 + n mod 10"
    using of_char_digit [of "n mod 10"] by simp
  then show ?thesis using \<open>n mod 10 < 10\<close> by (simp add: is_digit_def)
qed

lemma digit_val_digit_char [simp]: "digit_val (digit_char n) = n mod 10"
proof -
  have "digit_char n = digit_char (n mod 10)" by (simp add: digit_char.simps)
  then show ?thesis by (simp add: digit_val_def of_char_digit)
qed

lemma read_nat_snoc [simp]: "read_nat (s @ [c]) = 10 * read_nat s + digit_val c"
  by (simp add: read_nat_def)

lemma read_show_nat [simp]: "read_nat (show_nat n) = n"
proof (induction n rule: show_nat.induct)
  case (1 n)
  show ?case
  proof (cases "n < 10")
    case True
    then show ?thesis by (simp add: show_nat.simps [of n] read_nat_def)
  next
    case False
    with "1.IH" have "read_nat (show_nat (n div 10)) = n div 10" by simp
    with False show ?thesis by (simp add: show_nat.simps [of n])
  qed
qed

lemma show_nat_digits: "\<forall>c \<in> set (show_nat n). is_digit c"
proof (induction n rule: show_nat.induct)
  case (1 n)
  then show ?case by (cases "n < 10") (auto simp: show_nat.simps [of n])
qed

lemma show_nat_nonempty [simp]: "show_nat n \<noteq> []"
  by (subst show_nat.simps) simp

definition pad :: "nat \<Rightarrow> nat \<Rightarrow> string" where
  "pad w n = (let s = show_nat n in replicate (w - length s) (CHR ''0'') @ s)"


section \<open>The UTC calendar\<close>

text \<open>
  Days since 1970-01-01 of a proleptic Gregorian date and back. The day argument may run past
  the end of the month, as \<open>Date.UTC\<close> lets it.
\<close>

definition days_from_civil :: "int \<Rightarrow> int \<Rightarrow> int \<Rightarrow> int" where
  "days_from_civil y m d =
     (let y' = (if m \<le> 2 then y - 1 else y);
          era = y' div 400;
          yoe = y' mod 400;
          doy = (153 * (if m > 2 then m - 3 else m + 9) + 2) div 5 + d - 1
      in era * 146097 + (yoe * 365 + yoe div 4 - yoe div 100 + doy) - 719468)"

definition civil_from_days :: "int \<Rightarrow> int \<times> int \<times> int" where
  "civil_from_days n =
     (let z = n + 719468;
          era = z div 146097;
          doe = z mod 146097;
          yoe = (doe - doe div 1460 + doe div 36524 - doe div 146096) div 365;
          doy = doe - (365 * yoe + yoe div 4 - yoe div 100);
          mp = (5 * doy + 2) div 153;
          d = doy - (153 * mp + 2) div 5 + 1;
          m = (if mp < 10 then mp + 3 else mp - 9)
      in (yoe + era * 400 + (if m \<le> 2 then 1 else 0), m, d))"

definition show_year :: "int \<Rightarrow> string" where
  "show_year y =
     (if 0 \<le> y \<and> y \<le> 9999 then pad 4 (nat y)
      else (if y < 0 then CHR ''-'' else CHR ''+'') # pad 6 (nat \<bar>y\<bar>))"

definition day_ms :: int where
  "day_ms = 86400000"

text \<open>\<open>new Date(t).toISOString()\<close> for a time value in range.\<close>

definition to_iso_string :: "ms \<Rightarrow> string" where
  "to_iso_string t =
     (let (y, m, d) = civil_from_days (t div day_ms);
          r = t mod day_ms
      in show_year y @ ''-'' @ pad 2 (nat m) @ ''-'' @ pad 2 (nat d) @ ''T'' @
         pad 2 (nat (r div 3600000)) @ '':'' @ pad 2 (nat (r div 60000 mod 60)) @ '':'' @
         pad 2 (nat (r div 1000 mod 60)) @ ''.'' @ pad 3 (nat (r mod 1000)) @ ''Z'')"

lemma to_iso_string_nonempty [simp]: "to_iso_string t \<noteq> []"
  by (auto simp: to_iso_string_def Let_def split: prod.splits)

end
