(* ===== verification/Call_Types.thy ===== *)
theory Call_Types
  imports Prelude
begin

text \<open>
  The data of the calls state machine, \<open>apps/api/src/calls/transitions.ts\<close>: its constants, the
  call states and their names, the leg record, the machine record, the contexts the shell
  resolves before it admits an initiated event, the events, the effects and the replies.

  Conventions: \<open>string | null\<close> is \<open>string option\<close>; an optional property that may also be
  null is \<open>string option option\<close>, where \<open>None\<close> is "absent" and \<open>Some None\<close> is "null". The field
  \<open>locale\<close> is named \<open>localeTag\<close> here (the word is reserved), and \<open>queuedTargets\<close> is a list: every
  read of it in the source is \<open>?? []\<close>, so an absent queue and an empty one behave alike. A raw
  Telnyx payload is passed through unread. The text of a warning is named by a
  constructor that carries the values the text interpolates.
\<close>

type_synonym payload = "(string \<times> string) list"
type_synonym user_id = string
type_synonym call_control_id = string


section \<open>Constants\<close>

definition RING_WINDOW_SECS :: int where "RING_WINDOW_SECS = 45"
definition RING_STEP_SECS :: int where "RING_STEP_SECS = 12"
definition RING_ME_DEBOUNCE_MS :: ms where "RING_ME_DEBOUNCE_MS = 4000"
definition MAX_LEGS_PER_SESSION :: nat where "MAX_LEGS_PER_SESSION = 24"
definition MAX_TELNYX_COMMANDS_PER_SESSION :: nat where
  "MAX_TELNYX_COMMANDS_PER_SESSION = 3 * MAX_LEGS_PER_SESSION + 16"
definition DIAL_BATCH_SIZE :: nat where "DIAL_BATCH_SIZE = 6"
definition JOURNAL_RESUME_MS :: ms where "JOURNAL_RESUME_MS = 2000"
definition FANOUT_SETTLE_MS :: ms where "FANOUT_SETTLE_MS = 10000"
definition PURGE_DELAY_MS :: ms where "PURGE_DELAY_MS = 15 * 60000"
definition JANITOR_MS :: ms where "JANITOR_MS = 4 * 60 * 60000"
definition INTENT_EXPIRY_MS :: ms where "INTENT_EXPIRY_MS = (25 + 15) * 1000"


section \<open>Call states\<close>

datatype call_state =
    Dialing
  | Ringing
  | Answered
  | VoicemailGreeting
  | VoicemailRecording
  | EndedAnswered
  | EndedVoicemail
  | EndedMissed
  | EndedRejected

fun call_state_name :: "call_state \<Rightarrow> string" where
  "call_state_name Dialing = ''dialing''"
| "call_state_name Ringing = ''ringing''"
| "call_state_name Answered = ''answered''"
| "call_state_name VoicemailGreeting = ''voicemail_greeting''"
| "call_state_name VoicemailRecording = ''voicemail_recording''"
| "call_state_name EndedAnswered = ''ended_answered''"
| "call_state_name EndedVoicemail = ''ended_voicemail''"
| "call_state_name EndedMissed = ''ended_missed''"
| "call_state_name EndedRejected = ''ended_rejected''"

definition TERMINAL_STATES :: "call_state list" where
  "TERMINAL_STATES = [EndedAnswered, EndedVoicemail, EndedMissed, EndedRejected]"

text \<open>\<open>state.startsWith("ended_")\<close>.\<close>

definition isTerminal :: "call_state \<Rightarrow> bool" where
  "isTerminal s \<longleftrightarrow> take 6 (call_state_name s) = ''ended_''"

datatype call_outcome = OutcomeAnswered | OutcomeVoicemail | OutcomeMissed

fun outcomeForState :: "call_state \<Rightarrow> call_outcome option" where
  "outcomeForState EndedAnswered = Some OutcomeAnswered"
| "outcomeForState EndedVoicemail = Some OutcomeVoicemail"
| "outcomeForState EndedMissed = Some OutcomeMissed"
| "outcomeForState EndedRejected = Some OutcomeMissed"
| "outcomeForState _ = None"

lemma isTerminal_simps [simp]:
  "\<not> isTerminal Dialing" "\<not> isTerminal Ringing" "\<not> isTerminal Answered"
  "\<not> isTerminal VoicemailGreeting" "\<not> isTerminal VoicemailRecording"
  "isTerminal EndedAnswered" "isTerminal EndedVoicemail" "isTerminal EndedMissed"
  "isTerminal EndedRejected"
  by (simp_all add: isTerminal_def)

lemma isTerminal_iff: "isTerminal s \<longleftrightarrow> s \<in> set TERMINAL_STATES"
  by (cases s) (simp_all add: TERMINAL_STATES_def)

lemma call_state_name_inject [simp]: "call_state_name s = call_state_name t \<longleftrightarrow> s = t"
  by (cases s; cases t) simp_all


section \<open>Legs\<close>

datatype leg_status = LDialing | LRinging | LCanceling | LAnswered | LDead | LAmbiguous

datatype leg_source = Engine | RingMeSource

definition LIVE_LEG_STATUSES :: "leg_status list" where
  "LIVE_LEG_STATUSES = [LDialing, LRinging, LCanceling]"

record leg_record =
  key :: string
  ccid :: "call_control_id option"
  legUserId :: user_id
  status :: leg_status
  source :: leg_source
  dialedAtMs :: ms
  sipTarget :: string

definition is_live :: "leg_record \<Rightarrow> bool" where
  "is_live l \<longleftrightarrow> status l \<in> set LIVE_LEG_STATUSES"

lemma is_live_iff: "is_live l \<longleftrightarrow> status l = LDialing \<or> status l = LRinging \<or> status l = LCanceling"
  by (auto simp: is_live_def LIVE_LEG_STATUSES_def)


section \<open>The machine\<close>

datatype intent_kind = Transfer | Consult

record session_intent =
  intentKind :: intent_kind
  targetUserId :: user_id

record answer_intent =
  memberCcid :: call_control_id
  intentUserId :: user_id
  intentAnsweredAtIso :: string

datatype direction_tag = Inbound | Outbound

record dial_target =
  targetUser :: user_id
  sipUsername :: string

record session_machine =
  state :: call_state
  callSessionId :: string
  companyId :: string
  phoneNumberId :: "string option"
  companyName :: string
  localeTag :: "string option"
  greeting :: "string option"
  callerE164 :: "string option"
  businessNumberE164 :: "string option"
  customerCcid :: "call_control_id option"
  direction :: direction_tag
  startedAtMs :: ms
  answeredByUserId :: "user_id option"
  answeredAtIso :: "string option"
  rejectedForCap :: bool
  unattended :: bool
  noticeSpoken :: bool
  wakeAttempted :: bool
  ownerLegDeadDuringIntent :: "user_id option"
  afterHours :: bool
  nextOpenLabel :: "string option"
  adopted :: bool
  pushCapableUserIds :: "user_id list"
  declinedUserIds :: "user_id list"
  ringDeadlineMs :: "ms option"
  queuedTargets :: "dial_target list"
  telnyxCommandCount :: nat
  legs :: "leg_record list"
  intent :: "session_intent option"
  answerIntent :: "answer_intent option"


section \<open>What the shell resolved before an initiated event\<close>

datatype ring_strategy = RingAll | RingInTurn

text \<open>\<open>ic_ringSeconds\<close> is \<open>None\<close> for a number that is not finite.\<close>

record initiated_context =
  ic_callSessionId :: string
  ic_inboundCcid :: call_control_id
  ic_companyId :: string
  ic_phoneNumberId :: string
  ic_companyName :: string
  ic_locale :: "string option"
  ic_greeting :: "string option"
  ic_callerE164 :: "string option"
  ic_businessNumberE164 :: string
  ic_lineBusy :: bool
  ic_screeningDivert :: bool
  ic_afterHours :: bool
  ic_nextOpenLabel :: "string option"
  ic_ringStrategy :: ring_strategy
  ic_ringSeconds :: "rat option"
  ic_afterHoursVoicemail :: bool
  ic_suspendedOrInactive :: bool
  ic_noticeAllowed :: bool
  ic_overCap :: bool
  ic_dialTargets :: "dial_target list"
  ic_pushAudience :: "user_id list"

record outbound_context =
  oc_callSessionId :: string
  oc_customerCcid :: call_control_id
  oc_companyId :: string
  oc_phoneNumberId :: string
  oc_userId :: "user_id option"
  oc_placerSipUsername :: "string option"
  oc_customer :: "string option"
  oc_businessNumberE164 :: "string option"


section \<open>Events\<close>

datatype inbound_tag = Untagged | Bri | Vmi

datatype dial_failure = KnownDead | Ambiguous

datatype session_event =
    Initiated initiated_context
  | MemberLegAnswered call_control_id user_id "string option"
  | MemberLegHangup call_control_id user_id "string option"
  | InboundHangup inbound_tag "string option" "payload option"
  | SpeakEnded
  | NoticeAnswerOutcome bool
  | RecordingSaved payload
  | RingMe user_id string bool
  | SetOwner user_id
  | RegisterIntent intent_kind user_id
  | ClearIntent
  | Decline user_id
  | AlarmRing
  | AlarmRingStep
  | AlarmJanitor
  | AlarmIntentExpiry
  | AnswerOutcome bool call_control_id user_id string
  | VmAnswerOutcome bool
  | PushFanoutSettled "user_id list"
  | DialOutcome string "call_control_id option" "dial_failure option"
  | MemberProbeOutcome call_control_id user_id bool
  | InboundLegGone
  | OutboundInitiated outbound_context
  | OutboundAnswered
  | OutboundHangup "payload option"
  | OutboundPlacerAnswered call_control_id user_id "string option"
  | OutboundPlacerHangup call_control_id user_id


section \<open>Effects and replies\<close>

datatype alarm_kind = RingAlarm | RingStepAlarm | JanitorAlarm | PurgeAlarm | IntentExpiryAlarm
  | FanoutSettleAlarm

record mirror_set =
  mirrorState :: "call_state option"
  mirrorAnsweredBy :: "user_id option option"
  mirrorAnsweredAt :: "string option option"
  mirrorUnattended :: "bool option"
  mirrorNoticeSpoken :: "bool option"

definition no_mirror :: mirror_set where
  "no_mirror = \<lparr>mirrorState = None, mirrorAnsweredBy = None, mirrorAnsweredAt = None,
     mirrorUnattended = None, mirrorNoticeSpoken = None\<rparr>"

record dial_leg =
  pendingKey :: string
  dialUserId :: user_id
  dialSipTarget :: string
  dialSource :: leg_source

datatype speak_script = VoicemailGreetingScript | UnavailableNoticeScript

datatype merge_mode = EventMerge | SyntheticMerge

datatype warning =
    WarnRingStartOverLegCap nat
  | WarnRingMeAtLegCap
  | WarnNoPlacerCredential string
  | WarnOrphanMemberAnswer user_id
  | WarnUpgradeUnattributed
  | WarnAnsweredUnattributed
  | WarnUntaggedInAnswered

datatype effect =
    Mirror mirror_set bool
  | TelnyxDial "dial_leg list"
  | TelnyxDialPlacer string user_id string
  | TelnyxAnswerInbound call_control_id answer_intent
  | TelnyxAnswerVm call_control_id
  | TelnyxAnswerNotice call_control_id
  | TelnyxBridge call_control_id call_control_id
  | TelnyxHangup call_control_id bool
  | TelnyxReject call_control_id
  | TelnyxSpeak call_control_id speak_script
  | TelnyxRecordStart call_control_id
  | TelnyxProbeMemberLeg call_control_id user_id
  | PushFanout "user_id list"
  | PushCallEnd call_outcome
  | ThreadAtAnswer
  | TerminalMerge merge_mode call_outcome "payload option" "string option"
  | VoicemailPipeline payload
  | Warn warning
  | ArmAlarm alarm_kind ms
  | ClearAlarm alarm_kind

datatype ring_me_reason = NotRinging | LiveLeg | RecentLeg | DialFailed | Declined

datatype decline_reason = DeclineNotRinging | NotATarget

datatype reply =
    RingMeReply bool call_state "ring_me_reason option" "string option"
  | DeclineReply bool call_state "decline_reason option"
  | StateReply call_state

type_synonym reduce_result = "session_machine option \<times> effect list \<times> reply option"

text \<open>Projections the properties read an effect list by.\<close>

fun is_hangup :: "effect \<Rightarrow> bool" where
  "is_hangup (TelnyxHangup _ _) = True"
| "is_hangup _ = False"

fun dialed_users :: "effect \<Rightarrow> user_id list" where
  "dialed_users (TelnyxDial ls) = map dialUserId ls"
| "dialed_users _ = []"

fun is_purge_arm :: "effect \<Rightarrow> bool" where
  "is_purge_arm (ArmAlarm PurgeAlarm _) = True"
| "is_purge_arm _ = False"

fun is_terminal_merge :: "effect \<Rightarrow> bool" where
  "is_terminal_merge (TerminalMerge _ _ _ _) = True"
| "is_terminal_merge _ = False"

end
