(* ===== verification/Call_Machine.thy ===== *)
theory Call_Machine
  imports Call_Types
begin

text \<open>
  The pure call state machine of \<open>apps/api/src/calls/transitions.ts\<close>: \<open>reduce\<close> and every handler
  it dispatches to. A handler takes the machine (the source's clone \<open>next\<close>) and returns the
  machine after its assignments together with the effects it pushes, in the order of the pushes.

  The parameters \<open>now\<close>, \<open>wall\<close> and \<open>pk\<close> are the source's \<open>nowMs\<close>, the clock that
  \<open>reduceMemberAnswered\<close> reads by itself (\<open>new Date()\<close>), and \<open>pendingKeyFor\<close>: \<open>pk i\<close> is what its
  \<open>i\<close>-th call inside one reduction returns.
\<close>

type_synonym step_result = "session_machine \<times> effect list"
type_synonym key_supply = "nat \<Rightarrow> string"


section \<open>Fairness rotation\<close>

text \<open>
  FNV-1a over the seed's characters. \<open>hash ^= c\<close> and \<open>Math.imul\<close> both end in a signed 32-bit
  value, so after the first character the hash is the two's complement reading of a word; for an
  empty seed it is still the positive start value.
\<close>

definition fnv_step :: "32 word \<Rightarrow> char \<Rightarrow> 32 word" where
  "fnv_step h c = (h XOR of_nat (of_char c)) * 16777619"

definition fnv_hash :: "string \<Rightarrow> int" where
  "fnv_hash seed = (if seed = [] then 2166136261 else sint (foldl fnv_step 2166136261 seed))"

definition rotateForFairness :: "'a list \<Rightarrow> string \<Rightarrow> 'a list" where
  "rotateForFairness items seed =
     (if items = [] then []
      else let offset = nat (\<bar>fnv_hash seed\<bar> mod int (length items))
           in drop offset items @ take offset items)"


section \<open>Shared steps\<close>

definition liveLegs :: "session_machine \<Rightarrow> leg_record list" where
  "liveLegs m = filter is_live (legs m)"

definition cancel_leg :: "leg_record \<Rightarrow> leg_record" where
  "cancel_leg l = (if is_live l \<and> status l \<noteq> LCanceling then l\<lparr>status := LCanceling\<rparr> else l)"

definition cancel_effects :: "bool \<Rightarrow> leg_record list \<Rightarrow> effect list" where
  "cancel_effects terminal ls =
     concat (map (\<lambda>l. if is_live l \<and> status l \<noteq> LCanceling
                       then when_truthy (ccid l) (\<lambda>c. [TelnyxHangup c terminal]) else []) ls)"

definition cancelAllLiveLegs :: "session_machine \<Rightarrow> bool \<Rightarrow> step_result" where
  "cancelAllLiveLegs m terminal =
     (m\<lparr>legs := map cancel_leg (legs m)\<rparr>, cancel_effects terminal (legs m))"

definition mirror_state :: "call_state \<Rightarrow> mirror_set" where
  "mirror_state s = no_mirror\<lparr>mirrorState := Some s\<rparr>"

definition vmEntry :: "session_machine \<Rightarrow> step_result" where
  "vmEntry m =
     (m\<lparr>state := VoicemailGreeting, ringDeadlineMs := None, queuedTargets := []\<rparr>,
      [Mirror (mirror_state VoicemailGreeting) False, ClearAlarm RingAlarm, ClearAlarm RingStepAlarm]
      @ when_truthy (customerCcid m) (\<lambda>c. [TelnyxAnswerVm c])
      @ [PushCallEnd OutcomeVoicemail])"

definition runAvenueLadder :: "session_machine \<Rightarrow> step_result" where
  "runAvenueLadder m =
     (if state m \<noteq> Ringing then (m, [])
      else if liveLegs m \<noteq> [] then (m, [])
      else if queuedTargets m \<noteq> [] then (m, [])
      else if pushCapableUserIds m \<noteq> [] then (m, [])
      else vmEntry m)"

definition reap_leg :: "leg_record \<Rightarrow> leg_record" where
  "reap_leg l = (if status l = LAnswered \<and> truthy (ccid l) then l\<lparr>status := LDead\<rparr> else l)"

definition reap_effects :: "leg_record list \<Rightarrow> effect list" where
  "reap_effects ls =
     concat (map (\<lambda>l. if status l = LAnswered
                       then when_truthy (ccid l) (\<lambda>c. [TelnyxHangup c True]) else []) ls)"

definition terminalize ::
  "session_machine \<Rightarrow> ms \<Rightarrow> call_state \<Rightarrow> effect option \<Rightarrow> call_outcome option \<Rightarrow> mirror_set
     \<Rightarrow> step_result" where
  "terminalize m now target mrg callEndReason extraMirror =
     (let wasRinging = (state m = Ringing);
          upgrade = isTerminal (state m);
          m1 = m\<lparr>state := target, ringDeadlineMs := None\<rparr>;
          (m2, e2) = cancelAllLiveLegs m1 True;
          (m3, e3) = (if direction m2 = Outbound
                      then (m2\<lparr>legs := map reap_leg (legs m2)\<rparr>, reap_effects (legs m2))
                      else (m2, []))
      in (m3,
          e2 @ e3
          @ [Mirror (extraMirror\<lparr>mirrorState := Some target\<rparr>) True]
          @ (case mrg of None \<Rightarrow> [] | Some e \<Rightarrow> [e])
          @ (case callEndReason of None \<Rightarrow> [] | Some r \<Rightarrow> if wasRinging then [PushCallEnd r] else [])
          @ (if upgrade then []
             else [ClearAlarm RingAlarm, ClearAlarm RingStepAlarm, ClearAlarm FanoutSettleAlarm,
                   ArmAlarm PurgeAlarm (now + PURGE_DELAY_MS)])))"

definition synthetic_missed :: effect where
  "synthetic_missed = TerminalMerge SyntheticMerge OutcomeMissed None None"

definition missed_or_rejected :: "session_machine \<Rightarrow> call_state" where
  "missed_or_rejected m = (if rejectedForCap m then EndedRejected else EndedMissed)"

definition ownerDeathTeardown :: "session_machine \<Rightarrow> step_result" where
  "ownerDeathTeardown m =
     (m\<lparr>ownerLegDeadDuringIntent := None\<rparr>,
      when_truthy (customerCcid m) (\<lambda>c. [TelnyxHangup c True]))"

definition answeredPlacerCcid :: "session_machine \<Rightarrow> call_control_id option" where
  "answeredPlacerCcid m =
     (case List.find (\<lambda>l. status l = LAnswered \<and> ccid l \<noteq> None) (legs m) of
        None \<Rightarrow> None | Some l \<Rightarrow> ccid l)"

text \<open>
  The \<open>leg\<close> that an answered or hung-up event names, or the pending record it may adopt: one
  with no ccid yet, still dialing or ambiguous, of the same user, and dialed to the destination
  the event reports.
\<close>

definition has_ccid :: "call_control_id \<Rightarrow> leg_record \<Rightarrow> bool" where
  "has_ccid c l \<longleftrightarrow> ccid l = Some c"

definition adoptable :: "user_id \<Rightarrow> string option \<Rightarrow> leg_record \<Rightarrow> bool" where
  "adoptable u dest l \<longleftrightarrow>
     ccid l = None \<and> (status l = LDialing \<or> status l = LAmbiguous) \<and> legUserId l = u
     \<and> (dest = None \<or> Some (sipTarget l) = dest)"

definition stamp_ccid :: "call_control_id \<Rightarrow> leg_record \<Rightarrow> leg_record" where
  "stamp_ccid c l = l\<lparr>ccid := Some c, key := ''leg:'' @ c\<rparr>"

definition set_status :: "leg_status \<Rightarrow> leg_record \<Rightarrow> leg_record" where
  "set_status s l = l\<lparr>status := s\<rparr>"

definition on_leg :: "(leg_record \<Rightarrow> bool) \<Rightarrow> (leg_record \<Rightarrow> leg_record) \<Rightarrow> session_machine
    \<Rightarrow> session_machine" where
  "on_leg p f m = m\<lparr>legs := update_first p f (legs m)\<rparr>"


section \<open>Dialing a leg, the cascade and the window\<close>

definition sip_uri :: "string \<Rightarrow> string" where
  "sip_uri u = ''sip:'' @ u @ ''@sip.telnyx.com''"

definition pending_leg :: "string \<Rightarrow> user_id \<Rightarrow> leg_source \<Rightarrow> ms \<Rightarrow> string \<Rightarrow> leg_record" where
  "pending_leg k u src now sip =
     \<lparr>key = k, ccid = None, legUserId = u, status = LDialing, source = src, dialedAtMs = now,
      sipTarget = sip\<rparr>"

definition dialLegFor :: "session_machine \<Rightarrow> dial_target \<Rightarrow> ms \<Rightarrow> string
    \<Rightarrow> session_machine \<times> dial_leg" where
  "dialLegFor m t now uuid =
     (let pkey = ''leg:pending:'' @ uuid;
          sip = sip_uri (sipUsername t)
      in (m\<lparr>legs := legs m @ [pending_leg pkey (targetUser t) Engine now sip]\<rparr>,
          \<lparr>pendingKey = pkey, dialUserId = targetUser t, dialSipTarget = sip, dialSource = Engine\<rparr>))"

text \<open>\<open>ringNow.map((target) => dialLegFor(base, target, ...))\<close>, the keys taken in order.\<close>

fun dialLegs :: "session_machine \<Rightarrow> dial_target list \<Rightarrow> ms \<Rightarrow> key_supply \<Rightarrow> nat
    \<Rightarrow> session_machine \<times> dial_leg list" where
  "dialLegs m [] now pk i = (m, [])"
| "dialLegs m (t # ts) now pk i =
     (let (m1, d) = dialLegFor m t now (pk i);
          (m2, ds) = dialLegs m1 ts now pk (Suc i)
      in (m2, d # ds))"

definition armRingStep :: "session_machine \<Rightarrow> ms \<Rightarrow> effect list" where
  "armRingStep m now =
     (if queuedTargets m = [] then []
      else let atMs = now + RING_STEP_SECS * 1000
           in case ringDeadlineMs m of
                Some d \<Rightarrow> if d \<le> atMs then [] else [ArmAlarm RingStepAlarm atMs]
              | None \<Rightarrow> [ArmAlarm RingStepAlarm atMs])"

text \<open>\<open>Math.round\<close> rounds half up.\<close>

definition js_round :: "rat \<Rightarrow> int" where
  "js_round x = \<lfloor>x + 1 / 2\<rfloor>"

definition ringWindowMs :: "rat option \<Rightarrow> ms" where
  "ringWindowMs seconds =
     (case seconds of
        Some s \<Rightarrow> min RING_WINDOW_SECS (max 10 (js_round s))
      | None \<Rightarrow> RING_WINDOW_SECS) * 1000"


section \<open>T1: minting an inbound machine\<close>

definition inbound_base :: "initiated_context \<Rightarrow> ms \<Rightarrow> session_machine" where
  "inbound_base cx now =
     \<lparr>state = Ringing, callSessionId = ic_callSessionId cx, companyId = ic_companyId cx,
      phoneNumberId = Some (ic_phoneNumberId cx), companyName = ic_companyName cx,
      localeTag = ic_locale cx, greeting = ic_greeting cx, callerE164 = ic_callerE164 cx,
      businessNumberE164 = Some (ic_businessNumberE164 cx),
      customerCcid = Some (ic_inboundCcid cx), direction = Inbound, startedAtMs = now,
      answeredByUserId = None, answeredAtIso = None, rejectedForCap = False, unattended = False,
      noticeSpoken = False, wakeAttempted = False, ownerLegDeadDuringIntent = None,
      afterHours = ic_afterHours cx, nextOpenLabel = ic_nextOpenLabel cx, adopted = False,
      pushCapableUserIds = ic_pushAudience cx, declinedUserIds = [], ringDeadlineMs = None,
      queuedTargets = [], telnyxCommandCount = 0, legs = [], intent = None, answerIntent = None\<rparr>"

definition ring_targets :: "initiated_context \<Rightarrow> dial_target list" where
  "ring_targets cx =
     (let targets = ic_dialTargets cx
      in if length targets > MAX_LEGS_PER_SESSION
         then take MAX_LEGS_PER_SESSION (rotateForFairness targets (ic_callSessionId cx))
         else targets)"

definition ring_start :: "initiated_context \<Rightarrow> session_machine \<Rightarrow> ms \<Rightarrow> key_supply \<Rightarrow> step_result" where
  "ring_start cx base now pk =
     (let targets = ring_targets cx;
          ringNow = (if ic_ringStrategy cx = RingInTurn \<and> length targets > 1
                     then take 1 targets else targets);
          base1 = base\<lparr>queuedTargets := drop (length ringNow) targets\<rparr>;
          (base2, dials) = dialLegs base1 ringNow now pk 0;
          deadline = now + ringWindowMs (ic_ringSeconds cx);
          base3 = base2\<lparr>ringDeadlineMs := Some deadline\<rparr>
      in (base3,
          (if length (ic_dialTargets cx) > MAX_LEGS_PER_SESSION
           then [Warn (WarnRingStartOverLegCap (length (ic_dialTargets cx)))] else [])
          @ [Mirror (mirror_state Ringing) False]
          @ (if dials = [] then [] else [TelnyxDial dials])
          @ [PushFanout (ic_pushAudience cx),
             ArmAlarm FanoutSettleAlarm (now + FANOUT_SETTLE_MS),
             ArmAlarm RingAlarm deadline]
          @ armRingStep base3 now))"

definition suspended_start :: "initiated_context \<Rightarrow> session_machine \<Rightarrow> step_result" where
  "suspended_start cx base =
     (let speak = (ic_noticeAllowed cx \<and> ic_inboundCcid cx \<noteq> [])
      in (base\<lparr>unattended := True, noticeSpoken := speak\<rparr>,
          Mirror (no_mirror\<lparr>mirrorState := Some Ringing, mirrorUnattended := Some True,
                            mirrorNoticeSpoken := Some speak\<rparr>) False
          # (if speak then [TelnyxAnswerNotice (ic_inboundCcid cx)] else [])))"

definition reduceInitiated :: "initiated_context \<Rightarrow> ms \<Rightarrow> key_supply \<Rightarrow> step_result" where
  "reduceInitiated cx now pk =
     (let base = inbound_base cx now;
          (m, effs) =
            (if ic_lineBusy cx \<or> ic_screeningDivert cx \<or> ic_afterHoursVoicemail cx then vmEntry base
             else if ic_suspendedOrInactive cx then suspended_start cx base
             else if ic_overCap cx
             then (base\<lparr>rejectedForCap := True\<rparr>,
                   [TelnyxReject (ic_inboundCcid cx), Mirror (mirror_state Ringing) False])
             else if ic_dialTargets cx = [] \<and> ic_pushAudience cx = [] then vmEntry base
             else ring_start cx base now pk)
      in (m, ArmAlarm JanitorAlarm (now + JANITOR_MS) # effs))"


section \<open>T-O1: minting an outbound machine\<close>

definition outbound_base :: "outbound_context \<Rightarrow> ms \<Rightarrow> session_machine" where
  "outbound_base cx now =
     \<lparr>state = Dialing, callSessionId = oc_callSessionId cx, companyId = oc_companyId cx,
      phoneNumberId = Some (oc_phoneNumberId cx), companyName = [], localeTag = None,
      greeting = None, callerE164 = oc_customer cx,
      businessNumberE164 = oc_businessNumberE164 cx,
      customerCcid = Some (oc_customerCcid cx), direction = Outbound, startedAtMs = now,
      answeredByUserId = oc_userId cx, answeredAtIso = None, rejectedForCap = False,
      unattended = False, noticeSpoken = False, wakeAttempted = False,
      ownerLegDeadDuringIntent = None, afterHours = False, nextOpenLabel = None, adopted = False,
      pushCapableUserIds = [], declinedUserIds = [], ringDeadlineMs = None, queuedTargets = [],
      telnyxCommandCount = 0, legs = [], intent = None, answerIntent = None\<rparr>"

definition reduceOutboundInitiated :: "outbound_context \<Rightarrow> ms \<Rightarrow> key_supply \<Rightarrow> step_result" where
  "reduceOutboundInitiated cx now pk =
     (let m = outbound_base cx now;
          effs = [Mirror ((mirror_state Dialing)\<lparr>mirrorAnsweredBy := Some (oc_userId cx)\<rparr>) False,
                  ArmAlarm JanitorAlarm (now + JANITOR_MS)]
      in case (oc_placerSipUsername cx, oc_userId cx) of
           (Some sipu, Some u) \<Rightarrow>
             if sipu \<noteq> [] \<and> u \<noteq> []
             then (let pkey = ''leg:pending:'' @ pk 0
                   in (m\<lparr>legs := [pending_leg pkey u Engine now (sip_uri sipu)]\<rparr>,
                       effs @ [TelnyxDialPlacer pkey u (sip_uri sipu)]))
             else (m, effs @ [Warn (WarnNoPlacerCredential (oc_callSessionId cx))])
         | _ \<Rightarrow> (m, effs @ [Warn (WarnNoPlacerCredential (oc_callSessionId cx))]))"

end
