(* ===== verification/Call_Handlers.thy ===== *)
theory Call_Handlers
  imports Call_Machine
begin

text \<open>
  The handlers of \<open>reduce\<close> in \<open>apps/api/src/calls/transitions.ts\<close>, one definition per case of its
  switch or per \<open>reduce...\<close> function it calls, and \<open>reduce\<close> itself.
\<close>


section \<open>Outbound (oc and op) legs\<close>

definition on_outbound_answered :: "session_machine \<Rightarrow> ms \<Rightarrow> step_result" where
  "on_outbound_answered m now =
     (if direction m \<noteq> Outbound \<or> state m \<noteq> Dialing then (m, [])
      else let ts = to_iso_string now;
               m1 = m\<lparr>state := Answered, answeredAtIso := Some ts\<rparr>
           in (m1,
               Mirror ((mirror_state Answered)\<lparr>mirrorAnsweredAt := Some (Some ts)\<rparr>) False
               # when_truthy (answeredPlacerCcid m1)
                   (\<lambda>p. when_truthy (customerCcid m1) (\<lambda>c. [TelnyxBridge p c]))))"

definition reduceOutboundPlacerAnswered ::
  "session_machine \<Rightarrow> call_control_id \<Rightarrow> user_id \<Rightarrow> string option \<Rightarrow> step_result" where
  "reduceOutboundPlacerAnswered m c u dest =
     (if direction m \<noteq> Outbound \<or> isTerminal (state m) then (m, [TelnyxHangup c True])
      else
        let m1 = (if List.find (has_ccid c) (legs m) = None
                  then on_leg (adoptable u dest) (stamp_ccid c) m else m)
        in case List.find (has_ccid c) (legs m1) of
             None \<Rightarrow> (m1, [TelnyxHangup c False])
           | Some leg \<Rightarrow>
               if status leg = LAnswered then (m1, [])
               else (on_leg (has_ccid c) (set_status LAnswered) m1,
                     when_truthy (customerCcid m1) (\<lambda>cust. [TelnyxBridge c cust])))"

definition reduceOutboundPlacerHangup ::
  "session_machine \<Rightarrow> call_control_id \<Rightarrow> user_id \<Rightarrow> ms \<Rightarrow> step_result" where
  "reduceOutboundPlacerHangup m c u now =
     (if isTerminal (state m) then (m, [])
      else
        let m1 = on_leg (has_ccid c) (set_status LDead) m
        in if answeredByUserId m1 \<noteq> None \<and> answeredByUserId m1 \<noteq> Some u then (m1, [])
           else if state m1 = Answered
           then (if intent m1 \<noteq> None then (m1\<lparr>ownerLegDeadDuringIntent := Some u\<rparr>, [])
                 else ownerDeathTeardown m1)
           else let (m2, effs) = terminalize m1 now EndedMissed (Some synthetic_missed) None no_mirror
                in (m2, effs @ when_truthy (customerCcid m2) (\<lambda>cust. [TelnyxHangup cust True])))"

definition reduceOutboundHangup ::
  "session_machine \<Rightarrow> payload option \<Rightarrow> ms \<Rightarrow> step_result" where
  "reduceOutboundHangup m p now =
     (if isTerminal (state m) then (m, [])
      else let answered = (answeredAtIso m \<noteq> None)
           in terminalize m now (if answered then EndedAnswered else EndedMissed)
                (Some (TerminalMerge EventMerge (if answered then OutcomeAnswered else OutcomeMissed)
                         p (answeredAtIso m)))
                None no_mirror)"


section \<open>Voicemail, recording and the unavailable notice\<close>

definition on_speak_ended :: "session_machine \<Rightarrow> step_result" where
  "on_speak_ended m =
     (if noticeSpoken m then (m, when_truthy (customerCcid m) (\<lambda>c. [TelnyxHangup c True]))
      else if state m \<noteq> VoicemailGreeting then (m, [])
      else (m\<lparr>state := VoicemailRecording\<rparr>,
            Mirror (mirror_state VoicemailRecording) False
            # when_truthy (customerCcid m) (\<lambda>c. [TelnyxRecordStart c])))"

definition on_recording_saved :: "session_machine \<Rightarrow> payload \<Rightarrow> ms \<Rightarrow> step_result" where
  "on_recording_saved m p now =
     (if state m \<noteq> VoicemailRecording \<and> state m \<noteq> EndedMissed then (m, [])
      else (m\<lparr>state := EndedVoicemail, ringDeadlineMs := None\<rparr>,
            [VoicemailPipeline p, Mirror (mirror_state EndedVoicemail) True]
            @ (if state m = VoicemailRecording then [ArmAlarm PurgeAlarm (now + PURGE_DELAY_MS)]
               else [])))"

definition on_notice_answer_outcome :: "session_machine \<Rightarrow> bool \<Rightarrow> step_result" where
  "on_notice_answer_outcome m ok =
     (if \<not> noticeSpoken m then (m, [])
      else if ok \<and> truthy (customerCcid m)
      then (m, when_truthy (customerCcid m) (\<lambda>c. [TelnyxSpeak c UnavailableNoticeScript]))
      else (m\<lparr>noticeSpoken := False\<rparr>,
            [Mirror (no_mirror\<lparr>mirrorNoticeSpoken := Some False\<rparr>) False]))"

definition on_vm_answer_outcome :: "session_machine \<Rightarrow> bool \<Rightarrow> ms \<Rightarrow> step_result" where
  "on_vm_answer_outcome m ok now =
     (if state m \<noteq> VoicemailGreeting then (m, [])
      else if ok
      then let (m1, effs) = cancelAllLiveLegs m True
           in (m1, when_truthy (customerCcid m) (\<lambda>c. [TelnyxSpeak c VoicemailGreetingScript]) @ effs)
      else terminalize m now (missed_or_rejected m) (Some synthetic_missed) None no_mirror)"


section \<open>Ownership and transfer intents\<close>

definition on_set_owner :: "session_machine \<Rightarrow> user_id \<Rightarrow> step_result" where
  "on_set_owner m u =
     (m\<lparr>answeredByUserId := Some u, ownerLegDeadDuringIntent := None\<rparr>,
      [Mirror (no_mirror\<lparr>mirrorAnsweredBy := Some (Some u)\<rparr>) False])"

definition on_register_intent :: "session_machine \<Rightarrow> intent_kind \<Rightarrow> user_id \<Rightarrow> ms \<Rightarrow> step_result" where
  "on_register_intent m k u now =
     (m\<lparr>intent := Some \<lparr>intentKind = k, targetUserId = u\<rparr>\<rparr>,
      [ArmAlarm IntentExpiryAlarm (now + INTENT_EXPIRY_MS)])"

definition on_clear_intent :: "session_machine \<Rightarrow> step_result" where
  "on_clear_intent m =
     (let m1 = m\<lparr>intent := None\<rparr>
      in if state m1 = Answered \<and> ownerLegDeadDuringIntent m1 \<noteq> None
            \<and> ownerLegDeadDuringIntent m1 = answeredByUserId m1
         then let (m2, effs) = ownerDeathTeardown m1 in (m2, ClearAlarm IntentExpiryAlarm # effs)
         else (m1\<lparr>ownerLegDeadDuringIntent := None\<rparr>, [ClearAlarm IntentExpiryAlarm]))"


section \<open>Alarms\<close>

definition on_alarm_ring_step :: "session_machine \<Rightarrow> ms \<Rightarrow> key_supply \<Rightarrow> step_result" where
  "on_alarm_ring_step m now pk =
     (if state m \<noteq> Ringing then (m, [])
      else
        let queue = queuedTargets m;
            waiting = filter (\<lambda>t. targetUser t \<notin> set (declinedUserIds m)) queue;
            droppedDecliners = (length waiting < length queue);
            m1 = (if droppedDecliners then m\<lparr>queuedTargets := waiting\<rparr> else m)
        in case waiting of
             [] \<Rightarrow> if droppedDecliners then runAvenueLadder m1 else (m1, [])
           | target # rest \<Rightarrow>
               (let m2 = m1\<lparr>queuedTargets := rest\<rparr>
                in if length (legs m2) \<ge> MAX_LEGS_PER_SESSION then (m2, [])
                   else let (m3, d) = dialLegFor m2 target now (pk 0)
                        in (m3, TelnyxDial [d] # armRingStep m3 now)))"

definition on_alarm_ring :: "session_machine \<Rightarrow> step_result" where
  "on_alarm_ring m = (if state m \<noteq> Ringing then (m, []) else vmEntry m)"

definition on_alarm_janitor :: "session_machine \<Rightarrow> ms \<Rightarrow> step_result" where
  "on_alarm_janitor m now =
     (if isTerminal (state m) then (m, [])
      else if state m = Ringing
      then terminalize m now (missed_or_rejected m) (Some synthetic_missed) (Some OutcomeMissed)
             no_mirror
      else if state m = Answered
      then terminalize m now EndedAnswered
             (Some (TerminalMerge SyntheticMerge OutcomeAnswered None (answeredAtIso m))) None no_mirror
      else if state m = Dialing
      then terminalize m now EndedMissed (Some synthetic_missed) None no_mirror
      else terminalize m now EndedMissed (Some synthetic_missed) None no_mirror)"


section \<open>Outcomes of effects that re-enter\<close>

definition on_push_fanout_settled :: "session_machine \<Rightarrow> user_id list \<Rightarrow> step_result" where
  "on_push_fanout_settled m gone =
     (let m1 = m\<lparr>wakeAttempted := True,
                 pushCapableUserIds := filter (\<lambda>u. u \<notin> set gone) (pushCapableUserIds m)\<rparr>;
          (m2, effs) = runAvenueLadder m1
      in (m2, ClearAlarm FanoutSettleAlarm # effs))"

definition dial_landed :: "call_control_id \<Rightarrow> leg_record \<Rightarrow> leg_record" where
  "dial_landed c l =
     (let l1 = stamp_ccid c l in if status l1 = LDialing then l1\<lparr>status := LRinging\<rparr> else l1)"

definition has_key :: "string \<Rightarrow> leg_record \<Rightarrow> bool" where
  "has_key k l \<longleftrightarrow> key l = k"

definition on_dial_outcome ::
  "session_machine \<Rightarrow> string \<Rightarrow> call_control_id option \<Rightarrow> dial_failure option \<Rightarrow> ms \<Rightarrow> step_result" where
  "on_dial_outcome m k c failure now =
     (if List.find (has_key k) (legs m) = None then (m, [])
      else case (if truthy c then c else None) of
        Some cc \<Rightarrow> (on_leg (has_key k) (dial_landed cc) m, [])
      | None \<Rightarrow>
          let m1 = on_leg (has_key k)
                     (set_status (if failure = Some Ambiguous then LAmbiguous else LDead)) m
          in if direction m1 = Outbound
             then (if failure = Some KnownDead \<and> \<not> isTerminal (state m1)
                   then let (m2, effs) =
                              terminalize m1 now EndedMissed (Some synthetic_missed) None no_mirror
                        in (m2, effs @ when_truthy (customerCcid m2) (\<lambda>cust. [TelnyxHangup cust True]))
                   else (m1, []))
             else runAvenueLadder m1)"

definition on_inbound_leg_gone :: "session_machine \<Rightarrow> ms \<Rightarrow> step_result" where
  "on_inbound_leg_gone m now =
     (if state m \<noteq> Answered then (m, [])
      else terminalize m now EndedAnswered
             (Some (TerminalMerge SyntheticMerge OutcomeAnswered None (answeredAtIso m))) None no_mirror)"

text \<open>T2 step 1 and 2: keep the answer intent, answer the customer's leg.\<close>

definition answer_customer :: "session_machine \<Rightarrow> call_control_id \<Rightarrow> user_id \<Rightarrow> string \<Rightarrow> step_result" where
  "answer_customer m c u ts =
     (let ai = \<lparr>memberCcid = c, intentUserId = u, intentAnsweredAtIso = ts\<rparr>
      in (m\<lparr>answerIntent := Some ai\<rparr>,
          when_truthy (customerCcid m) (\<lambda>cust. [TelnyxAnswerInbound cust ai])))"

definition on_member_probe_outcome ::
  "session_machine \<Rightarrow> call_control_id \<Rightarrow> user_id \<Rightarrow> bool \<Rightarrow> ms \<Rightarrow> step_result" where
  "on_member_probe_outcome m c u alive now =
     (if state m \<noteq> Ringing then (m, [])
      else if List.find (has_ccid c) (legs m) = None then (m, [])
      else if \<not> alive then runAvenueLadder (on_leg (has_ccid c) (set_status LDead) m)
      else answer_customer m c u (to_iso_string now))"


section \<open>Member (brm) legs\<close>

definition adopt_answered :: "call_control_id \<Rightarrow> leg_record \<Rightarrow> leg_record" where
  "adopt_answered c l =
     (let l1 = stamp_ccid c l in if status l1 = LAmbiguous then l1\<lparr>status := LRinging\<rparr> else l1)"

definition reduceMemberAnswered ::
  "session_machine \<Rightarrow> call_control_id \<Rightarrow> user_id \<Rightarrow> string option \<Rightarrow> ms \<Rightarrow> step_result" where
  "reduceMemberAnswered m c u dest wall =
     (let m1 = (if List.find (has_ccid c) (legs m) = None \<and> state m = Ringing
                then on_leg (adoptable u dest) (adopt_answered c) m else m)
      in case List.find (has_ccid c) (legs m1) of
           None \<Rightarrow> (m1, [TelnyxHangup c False, Warn (WarnOrphanMemberAnswer u)])
         | Some leg \<Rightarrow>
             if state m1 \<noteq> Ringing \<or> \<not> is_live leg
             then (m1, if \<not> isTerminal (state m1) \<and> state m1 \<noteq> Ringing then [TelnyxHangup c False]
                       else [])
             else if status leg = LCanceling then (m1, [TelnyxProbeMemberLeg c u])
             else answer_customer m1 c u (to_iso_string wall))"

definition cancel_sibling :: "call_control_id \<Rightarrow> leg_record \<Rightarrow> leg_record" where
  "cancel_sibling c l = (if has_ccid c l then l else cancel_leg l)"

definition sibling_hangups :: "call_control_id \<Rightarrow> leg_record list \<Rightarrow> effect list" where
  "sibling_hangups c ls = cancel_effects False (filter (\<lambda>l. \<not> has_ccid c l) ls)"

definition reduceAnswerOutcome ::
  "session_machine \<Rightarrow> bool \<Rightarrow> call_control_id \<Rightarrow> user_id \<Rightarrow> string \<Rightarrow> ms \<Rightarrow> step_result" where
  "reduceAnswerOutcome m ok c u ts now =
     (if state m \<noteq> Ringing then (m, [])
      else if \<not> ok
      then let dropped = (case List.find (has_ccid c) (legs m) of
                            None \<Rightarrow> False | Some leg \<Rightarrow> status leg \<noteq> LDead);
               m1 = (if dropped then on_leg (has_ccid c) (set_status LCanceling) m else m);
               (m2, effs) = terminalize m1 now (missed_or_rejected m1) (Some synthetic_missed)
                              (Some OutcomeMissed) no_mirror
           in (m2, (if dropped then [TelnyxHangup c True] else []) @ effs)
      else let m1 = m\<lparr>state := Answered, answeredByUserId := Some u, answeredAtIso := Some ts,
                      ringDeadlineMs := None\<rparr>;
               m2 = on_leg (has_ccid c) (set_status LAnswered) m1;
               m3 = m2\<lparr>legs := map (cancel_sibling c) (legs m2), answerIntent := None\<rparr>
           in (m3,
               [Mirror ((mirror_state Answered)\<lparr>mirrorAnsweredBy := Some (Some u),
                          mirrorAnsweredAt := Some (Some ts)\<rparr>) False]
               @ when_truthy (customerCcid m2) (\<lambda>cust. [TelnyxBridge c cust])
               @ sibling_hangups c (legs m2)
               @ [ThreadAtAnswer, ClearAlarm RingAlarm, ClearAlarm FanoutSettleAlarm,
                  PushCallEnd OutcomeAnswered]))"

definition reduceMemberHangup ::
  "session_machine \<Rightarrow> call_control_id \<Rightarrow> user_id \<Rightarrow> string option \<Rightarrow> step_result" where
  "reduceMemberHangup m c u dest =
     (let m1 = (if List.find (has_ccid c) (legs m) = None \<and> state m = Ringing
                then on_leg (adoptable u dest) (stamp_ccid c) m else m)
      in case List.find (has_ccid c) (legs m1) of
           None \<Rightarrow> (m1, [])
         | Some leg \<Rightarrow>
             let m2 = on_leg (has_ccid c) (set_status LDead) m1
             in if state m1 = Answered \<and> status leg = LAnswered
                then (if answeredByUserId m2 \<noteq> Some u then (m2, [])
                      else if intent m2 \<noteq> None then (m2\<lparr>ownerLegDeadDuringIntent := Some u\<rparr>, [])
                      else ownerDeathTeardown m2)
                else if state m1 \<noteq> Ringing then (m2, [])
                else runAvenueLadder m2)"


section \<open>The customer's own leg\<close>

definition answer_stamp :: "session_machine \<Rightarrow> mirror_set" where
  "answer_stamp m =
     (if truthy (answeredByUserId m)
      then no_mirror\<lparr>mirrorAnsweredBy := Some (answeredByUserId m),
                     mirrorAnsweredAt := Some (answeredAtIso m)\<rparr>
      else no_mirror)"

definition bri_anchor :: "session_machine \<Rightarrow> string option \<Rightarrow> string option" where
  "bri_anchor m stamp = or_else stamp (map_option intentAnsweredAtIso (answerIntent m))"

text \<open>A bri hangup in a terminal state: the upgrade of \<open>ended_missed\<close>, else nothing.\<close>

definition upgrade_missed :: "session_machine \<Rightarrow> string option \<Rightarrow> payload option \<Rightarrow> step_result" where
  "upgrade_missed m stamp p =
     (let (m1, warns) =
            (case answerIntent m of
               Some ai \<Rightarrow> (m\<lparr>answeredByUserId := Some (intentUserId ai),
                             answeredAtIso := Some (intentAnsweredAtIso ai)\<rparr>, [])
             | None \<Rightarrow> (m, [Warn WarnUpgradeUnattributed]));
          m2 = m1\<lparr>state := EndedAnswered\<rparr>
      in (m2, warns
            @ [Mirror ((answer_stamp m2)\<lparr>mirrorState := Some EndedAnswered\<rparr>) True,
               TerminalMerge EventMerge OutcomeAnswered p (bri_anchor m2 stamp)]))"

definition bri_hangup :: "session_machine \<Rightarrow> string option \<Rightarrow> payload option \<Rightarrow> ms \<Rightarrow> step_result" where
  "bri_hangup m stamp p now =
     (let m1 = (case answerIntent m of
                  Some ai \<Rightarrow> if answeredByUserId m = None
                             then m\<lparr>answeredByUserId := Some (intentUserId ai),
                                    answeredAtIso := Some (intentAnsweredAtIso ai)\<rparr>
                             else m
                | None \<Rightarrow> m);
          warns = (if answeredByUserId m1 = None then [Warn WarnAnsweredUnattributed] else []);
          (m2, effs) = terminalize m1 now EndedAnswered
                         (Some (TerminalMerge EventMerge OutcomeAnswered p (bri_anchor m1 stamp)))
                         (Some OutcomeAnswered) (answer_stamp m1)
      in (m2, warns @ effs))"

definition missed_event_merge :: "payload option \<Rightarrow> effect option" where
  "missed_event_merge p = Some (TerminalMerge EventMerge OutcomeMissed p None)"

definition untagged_hangup :: "session_machine \<Rightarrow> payload option \<Rightarrow> ms \<Rightarrow> step_result" where
  "untagged_hangup m p now =
     (if state m = Answered
      then let (m1, effs) = terminalize m now EndedAnswered
                  (Some (TerminalMerge EventMerge OutcomeAnswered p (answeredAtIso m))) None no_mirror
           in (m1, Warn WarnUntaggedInAnswered # effs)
      else if state m = VoicemailGreeting \<or> state m = VoicemailRecording
      then terminalize m now EndedMissed (missed_event_merge p) None no_mirror
      else terminalize m now (missed_or_rejected m) (missed_event_merge p) (Some OutcomeMissed)
             no_mirror)"

definition reduceInboundHangup ::
  "session_machine \<Rightarrow> inbound_tag \<Rightarrow> string option \<Rightarrow> payload option \<Rightarrow> ms \<Rightarrow> step_result" where
  "reduceInboundHangup m tag stamp p now =
     (if isTerminal (state m)
      then (if tag = Bri \<and> state m = EndedMissed then upgrade_missed m stamp p else (m, []))
      else case tag of
             Bri \<Rightarrow> bri_hangup m stamp p now
           | Vmi \<Rightarrow> terminalize m now EndedMissed (missed_event_merge p) (Some OutcomeMissed) no_mirror
           | Untagged \<Rightarrow> untagged_hangup m p now)"


section \<open>ring-me\<close>

definition reduceRingMe ::
  "session_machine \<Rightarrow> user_id \<Rightarrow> string \<Rightarrow> bool \<Rightarrow> ms \<Rightarrow> key_supply
     \<Rightarrow> session_machine \<times> effect list \<times> reply" where
  "reduceRingMe m u sipu noLocalLeg now pk =
     (let refuse = (\<lambda>why effs. (m, effs, RingMeReply False (state m) (Some why) None));
          memberLive = filter (\<lambda>l. legUserId l = u \<and> is_live l) (legs m)
      in if state m \<noteq> Ringing then refuse NotRinging []
         else if u \<in> set (declinedUserIds m) then refuse Declined []
         else if \<not> noLocalLeg \<and> memberLive \<noteq> [] then refuse LiveLeg []
         else if noLocalLeg \<and> (\<exists>l \<in> set memberLive. source l = RingMeSource
                                  \<and> now - dialedAtMs l < RING_ME_DEBOUNCE_MS)
         then refuse RecentLeg []
         else if length (legs m) \<ge> MAX_LEGS_PER_SESSION then refuse DialFailed [Warn WarnRingMeAtLegCap]
         else let pkey = ''leg:pending:'' @ pk 0;
                  sip = sip_uri sipu
              in (m\<lparr>legs := legs m @ [pending_leg pkey u RingMeSource now sip]\<rparr>,
                  [TelnyxDial [\<lparr>pendingKey = pkey, dialUserId = u, dialSipTarget = sip,
                                dialSource = RingMeSource\<rparr>]],
                  RingMeReply True Ringing None (Some pkey)))"


section \<open>Decline\<close>

definition wasRingTarget :: "session_machine \<Rightarrow> user_id \<Rightarrow> bool" where
  "wasRingTarget m u \<longleftrightarrow>
     (\<exists>l \<in> set (legs m). legUserId l = u) \<or> (\<exists>t \<in> set (queuedTargets m). targetUser t = u)
     \<or> u \<in> set (pushCapableUserIds m) \<or> u \<in> set (declinedUserIds m)"

definition drop_user_leg :: "user_id \<Rightarrow> leg_record \<Rightarrow> leg_record" where
  "drop_user_leg u l = (if legUserId l = u \<and> is_live l then l\<lparr>status := LDead\<rparr> else l)"

definition drop_user_hangups :: "user_id \<Rightarrow> leg_record list \<Rightarrow> effect list" where
  "drop_user_hangups u ls =
     concat (map (\<lambda>l. if legUserId l = u \<and> is_live l
                       then when_truthy (ccid l) (\<lambda>c. [TelnyxHangup c False]) else []) ls)"

definition remove_avenues :: "session_machine \<Rightarrow> user_id \<Rightarrow> session_machine" where
  "remove_avenues m u =
     m\<lparr>declinedUserIds := (if u \<in> set (declinedUserIds m) then declinedUserIds m
                           else declinedUserIds m @ [u]),
       legs := map (drop_user_leg u) (legs m),
       pushCapableUserIds := filter (\<lambda>v. v \<noteq> u) (pushCapableUserIds m),
       queuedTargets := filter (\<lambda>t. targetUser t \<noteq> u) (queuedTargets m)\<rparr>"

definition reduceDecline :: "session_machine \<Rightarrow> user_id \<Rightarrow> session_machine \<times> effect list \<times> reply" where
  "reduceDecline m u =
     (if state m \<noteq> Ringing then (m, [], DeclineReply False (state m) (Some DeclineNotRinging))
      else if \<not> wasRingTarget m u then (m, [], DeclineReply False (state m) (Some NotATarget))
      else let (m1, effs) = runAvenueLadder (remove_avenues m u)
           in (m1, drop_user_hangups u (legs m) @ effs, DeclineReply True (state m1) None))"


section \<open>reduce\<close>

definition plain :: "step_result \<Rightarrow> reduce_result" where
  "plain r = (Some (fst r), snd r, None)"

definition with_reply :: "session_machine \<times> effect list \<times> reply \<Rightarrow> reduce_result" where
  "with_reply r = (Some (fst r), fst (snd r), Some (snd (snd r)))"

fun reduce_live :: "session_machine \<Rightarrow> session_event \<Rightarrow> ms \<Rightarrow> ms \<Rightarrow> key_supply \<Rightarrow> reduce_result" where
  "reduce_live m (Initiated cx) now wall pk = (Some m, [], None)"
| "reduce_live m (OutboundInitiated cx) now wall pk = (Some m, [], None)"
| "reduce_live m (MemberLegAnswered c u dest) now wall pk = plain (reduceMemberAnswered m c u dest wall)"
| "reduce_live m (MemberLegHangup c u dest) now wall pk = plain (reduceMemberHangup m c u dest)"
| "reduce_live m (InboundHangup tag stamp p) now wall pk = plain (reduceInboundHangup m tag stamp p now)"
| "reduce_live m OutboundAnswered now wall pk = plain (on_outbound_answered m now)"
| "reduce_live m (OutboundHangup p) now wall pk = plain (reduceOutboundHangup m p now)"
| "reduce_live m (OutboundPlacerAnswered c u dest) now wall pk =
     plain (reduceOutboundPlacerAnswered m c u dest)"
| "reduce_live m (OutboundPlacerHangup c u) now wall pk = plain (reduceOutboundPlacerHangup m c u now)"
| "reduce_live m SpeakEnded now wall pk = plain (on_speak_ended m)"
| "reduce_live m (RecordingSaved p) now wall pk = plain (on_recording_saved m p now)"
| "reduce_live m (RingMe u sipu nl) now wall pk = with_reply (reduceRingMe m u sipu nl now pk)"
| "reduce_live m (SetOwner u) now wall pk = plain (on_set_owner m u)"
| "reduce_live m (RegisterIntent k u) now wall pk =
     (let r = on_register_intent m k u now in (Some (fst r), snd r, Some (StateReply (state (fst r)))))"
| "reduce_live m ClearIntent now wall pk = plain (on_clear_intent m)"
| "reduce_live m AlarmIntentExpiry now wall pk = plain (on_clear_intent m)"
| "reduce_live m (Decline u) now wall pk = with_reply (reduceDecline m u)"
| "reduce_live m AlarmRingStep now wall pk = plain (on_alarm_ring_step m now pk)"
| "reduce_live m AlarmRing now wall pk = plain (on_alarm_ring m)"
| "reduce_live m AlarmJanitor now wall pk = plain (on_alarm_janitor m now)"
| "reduce_live m (AnswerOutcome ok c u ts) now wall pk = plain (reduceAnswerOutcome m ok c u ts now)"
| "reduce_live m (NoticeAnswerOutcome ok) now wall pk = plain (on_notice_answer_outcome m ok)"
| "reduce_live m (VmAnswerOutcome ok) now wall pk = plain (on_vm_answer_outcome m ok now)"
| "reduce_live m (PushFanoutSettled gone) now wall pk = plain (on_push_fanout_settled m gone)"
| "reduce_live m (DialOutcome k c f) now wall pk = plain (on_dial_outcome m k c f now)"
| "reduce_live m InboundLegGone now wall pk = plain (on_inbound_leg_gone m now)"
| "reduce_live m (MemberProbeOutcome c u alive) now wall pk =
     plain (on_member_probe_outcome m c u alive now)"

definition reduce :: "session_machine option \<Rightarrow> session_event \<Rightarrow> ms \<Rightarrow> ms \<Rightarrow> key_supply \<Rightarrow> reduce_result" where
  "reduce mo e now wall pk =
     (case mo of
        None \<Rightarrow> (case e of
                   Initiated cx \<Rightarrow> plain (reduceInitiated cx now pk)
                 | OutboundInitiated cx \<Rightarrow> plain (reduceOutboundInitiated cx now pk)
                 | _ \<Rightarrow> (None, [], None))
      | Some m \<Rightarrow> reduce_live m e now wall pk)"

end
