(* ===== verification/Call_Facts.thy ===== *)
theory Call_Facts
  imports Call_Handlers
begin

text \<open>
  The facts every property of the calls machine rests on: what the shared steps (the avenue
  ladder, voicemail entry, terminal resolution, leg updates) change and what they leave alone,
  and the effects they emit. The collections \<open>leg_simps\<close> and \<open>frame_simps\<close> carry them into the
  proofs of the later theories.
\<close>


section \<open>Leg updates\<close>

lemma on_leg_frame [frame_simps]:
  "state (on_leg p f m) = state m"
  "direction (on_leg p f m) = direction m"
  "customerCcid (on_leg p f m) = customerCcid m"
  "answeredByUserId (on_leg p f m) = answeredByUserId m"
  "answeredAtIso (on_leg p f m) = answeredAtIso m"
  "rejectedForCap (on_leg p f m) = rejectedForCap m"
  "noticeSpoken (on_leg p f m) = noticeSpoken m"
  "pushCapableUserIds (on_leg p f m) = pushCapableUserIds m"
  "declinedUserIds (on_leg p f m) = declinedUserIds m"
  "queuedTargets (on_leg p f m) = queuedTargets m"
  "intent (on_leg p f m) = intent m"
  "answerIntent (on_leg p f m) = answerIntent m"
  "ownerLegDeadDuringIntent (on_leg p f m) = ownerLegDeadDuringIntent m"
  "length (legs (on_leg p f m)) = length (legs m)"
  by (simp_all add: on_leg_def)

lemma leg_user_simps [leg_simps]:
  "legUserId (stamp_ccid c l) = legUserId l"
  "legUserId (set_status s l) = legUserId l"
  "legUserId (dial_landed c l) = legUserId l"
  "legUserId (adopt_answered c l) = legUserId l"
  "legUserId (cancel_leg l) = legUserId l"
  "legUserId (reap_leg l) = legUserId l"
  "legUserId (drop_user_leg u l) = legUserId l"
  "legUserId (cancel_sibling c l) = legUserId l"
  by (simp_all add: stamp_ccid_def set_status_def dial_landed_def adopt_answered_def cancel_leg_def
      reap_leg_def drop_user_leg_def cancel_sibling_def Let_def)

lemma leg_ccid_simps [leg_simps]:
  "ccid (stamp_ccid c l) = Some c"
  "ccid (dial_landed c l) = Some c"
  "ccid (adopt_answered c l) = Some c"
  "ccid (set_status s l) = ccid l"
  "ccid (cancel_leg l) = ccid l"
  "ccid (reap_leg l) = ccid l"
  "ccid (drop_user_leg u l) = ccid l"
  "ccid (cancel_sibling c l) = ccid l"
  by (simp_all add: stamp_ccid_def set_status_def dial_landed_def adopt_answered_def cancel_leg_def
      reap_leg_def drop_user_leg_def cancel_sibling_def Let_def)

lemma set_status_status [leg_simps]: "status (set_status s l) = s"
  by (simp add: set_status_def)

lemma cancel_leg_quiet [leg_simps]:
  "status (cancel_leg l) \<noteq> LDialing" "status (cancel_leg l) \<noteq> LRinging"
  by (auto simp: cancel_leg_def is_live_iff)

lemma reap_cancel_quiet [leg_simps]:
  "status (reap_leg (cancel_leg l)) \<noteq> LDialing" "status (reap_leg (cancel_leg l)) \<noteq> LRinging"
  by (auto simp: reap_leg_def leg_simps)

lemma drop_user_leg_not_live [leg_simps]:
  "legUserId l = u \<Longrightarrow> \<not> is_live (drop_user_leg u l)"
  by (auto simp: drop_user_leg_def is_live_iff)

lemma is_live_drop_user_leg [leg_simps]:
  "is_live (drop_user_leg u l) \<longleftrightarrow> legUserId l \<noteq> u \<and> is_live l"
  by (auto simp: drop_user_leg_def is_live_iff)

lemma users_on_leg:
  "(\<And>l. legUserId (f l) = legUserId l) \<Longrightarrow> map legUserId (legs (on_leg p f m)) = map legUserId (legs m)"
  by (simp add: on_leg_def map_update_first)


section \<open>Hangups that cancel legs\<close>

text \<open>Every ringing phone that Telnyx knows by a ccid is hung up.\<close>

lemma cancel_effects_complete:
  assumes "l \<in> set ls" "status l = LDialing \<or> status l = LRinging" "ccid l = Some c" "c \<noteq> []"
  shows "TelnyxHangup c t \<in> set (cancel_effects t ls)"
proof -
  have "is_live l \<and> status l \<noteq> LCanceling" using assms(2) by (auto simp: is_live_iff)
  with assms show ?thesis unfolding cancel_effects_def by force
qed

lemma cancel_effects_sound:
  "e \<in> set (cancel_effects t ls) \<Longrightarrow>
     \<exists>l \<in> set ls. \<exists>c. ccid l = Some c \<and> is_live l \<and> status l \<noteq> LCanceling \<and> e = TelnyxHangup c t"
  by (auto simp: cancel_effects_def set_when_truthy split: if_splits)

lemma reap_effects_sound:
  "e \<in> set (reap_effects ls) \<Longrightarrow>
     \<exists>l \<in> set ls. \<exists>c. ccid l = Some c \<and> status l = LAnswered \<and> e = TelnyxHangup c True"
  by (auto simp: reap_effects_def set_when_truthy split: if_splits)

lemma drop_user_hangups_sound:
  "e \<in> set (drop_user_hangups u ls) \<Longrightarrow>
     \<exists>l \<in> set ls. \<exists>c. ccid l = Some c \<and> legUserId l = u \<and> e = TelnyxHangup c False"
  by (auto simp: drop_user_hangups_def set_when_truthy split: if_splits)


section \<open>Voicemail entry and the avenue ladder\<close>

lemma vmEntry_frame [frame_simps]:
  "state (fst (vmEntry m)) = VoicemailGreeting"
  "legs (fst (vmEntry m)) = legs m"
  "direction (fst (vmEntry m)) = direction m"
  "customerCcid (fst (vmEntry m)) = customerCcid m"
  "answeredByUserId (fst (vmEntry m)) = answeredByUserId m"
  "answeredAtIso (fst (vmEntry m)) = answeredAtIso m"
  "rejectedForCap (fst (vmEntry m)) = rejectedForCap m"
  "noticeSpoken (fst (vmEntry m)) = noticeSpoken m"
  "pushCapableUserIds (fst (vmEntry m)) = pushCapableUserIds m"
  "declinedUserIds (fst (vmEntry m)) = declinedUserIds m"
  "queuedTargets (fst (vmEntry m)) = []"
  "ringDeadlineMs (fst (vmEntry m)) = None"
  "intent (fst (vmEntry m)) = intent m"
  by (simp_all add: vmEntry_def)

lemma vmEntry_effects:
  "set (snd (vmEntry m)) \<subseteq>
     {Mirror (mirror_state VoicemailGreeting) False, ClearAlarm RingAlarm, ClearAlarm RingStepAlarm,
      PushCallEnd OutcomeVoicemail} \<union> {TelnyxAnswerVm c | c. customerCcid m = Some c \<and> c \<noteq> []}"
  by (auto simp: vmEntry_def set_when_truthy)

definition exhausted :: "session_machine \<Rightarrow> bool" where
  "exhausted m \<longleftrightarrow> liveLegs m = [] \<and> queuedTargets m = [] \<and> pushCapableUserIds m = []"

lemma ladder_cases:
  obtains (stay) "runAvenueLadder m = (m, [])" "state m = Ringing \<Longrightarrow> \<not> exhausted m"
  | (enter) "state m = Ringing" "exhausted m" "runAvenueLadder m = vmEntry m"
  by (cases "state m = Ringing \<and> exhausted m") (auto simp: runAvenueLadder_def exhausted_def)

lemma ladder_state:
  "state (fst (runAvenueLadder m)) =
     (if state m = Ringing \<and> exhausted m then VoicemailGreeting else state m)"
  by (auto simp: runAvenueLadder_def exhausted_def frame_simps)

lemma ladder_frame [frame_simps]:
  "legs (fst (runAvenueLadder m)) = legs m"
  "direction (fst (runAvenueLadder m)) = direction m"
  "customerCcid (fst (runAvenueLadder m)) = customerCcid m"
  "answeredByUserId (fst (runAvenueLadder m)) = answeredByUserId m"
  "answeredAtIso (fst (runAvenueLadder m)) = answeredAtIso m"
  "rejectedForCap (fst (runAvenueLadder m)) = rejectedForCap m"
  "noticeSpoken (fst (runAvenueLadder m)) = noticeSpoken m"
  "pushCapableUserIds (fst (runAvenueLadder m)) = pushCapableUserIds m"
  "declinedUserIds (fst (runAvenueLadder m)) = declinedUserIds m"
  "intent (fst (runAvenueLadder m)) = intent m"
  by (simp_all add: runAvenueLadder_def frame_simps)

lemma ladder_queue: "set (queuedTargets (fst (runAvenueLadder m))) \<subseteq> set (queuedTargets m)"
  by (cases rule: ladder_cases [of m]) (simp_all add: frame_simps)

lemma ladder_effects:
  "set (snd (runAvenueLadder m)) \<subseteq> set (snd (vmEntry m))"
  by (cases rule: ladder_cases [of m]) simp_all


section \<open>Terminal resolution\<close>

definition settle_leg :: "direction_tag \<Rightarrow> leg_record \<Rightarrow> leg_record" where
  "settle_leg d l = (if d = Outbound then reap_leg (cancel_leg l) else cancel_leg l)"

lemma settle_leg_simps [leg_simps]:
  "legUserId (settle_leg d l) = legUserId l"
  "ccid (settle_leg d l) = ccid l"
  "status (settle_leg d l) \<noteq> LDialing"
  "status (settle_leg d l) \<noteq> LRinging"
  by (simp_all add: settle_leg_def leg_simps)

definition terminal_tail ::
  "session_machine \<Rightarrow> ms \<Rightarrow> call_state \<Rightarrow> effect option \<Rightarrow> call_outcome option \<Rightarrow> mirror_set
     \<Rightarrow> effect list" where
  "terminal_tail m now target mrg reason extra =
     [Mirror (extra\<lparr>mirrorState := Some target\<rparr>) True]
     @ (case mrg of None \<Rightarrow> [] | Some e \<Rightarrow> [e])
     @ (case reason of None \<Rightarrow> [] | Some r \<Rightarrow> if state m = Ringing then [PushCallEnd r] else [])
     @ (if isTerminal (state m) then []
        else [ClearAlarm RingAlarm, ClearAlarm RingStepAlarm, ClearAlarm FanoutSettleAlarm,
              ArmAlarm PurgeAlarm (now + PURGE_DELAY_MS)])"

lemma terminalize_eq:
  "terminalize m now target mrg reason extra =
     (m\<lparr>state := target, ringDeadlineMs := None, legs := map (settle_leg (direction m)) (legs m)\<rparr>,
      cancel_effects True (legs m)
      @ (if direction m = Outbound then reap_effects (map cancel_leg (legs m)) else [])
      @ terminal_tail m now target mrg reason extra)"
proof (cases "direction m")
  case Inbound
  have "settle_leg Inbound = cancel_leg" by (simp add: settle_leg_def fun_eq_iff)
  with Inbound show ?thesis
    by (simp add: terminalize_def cancelAllLiveLegs_def terminal_tail_def Let_def)
next
  case Outbound
  have "settle_leg Outbound = reap_leg \<circ> cancel_leg" by (simp add: settle_leg_def fun_eq_iff)
  with Outbound show ?thesis
    by (simp add: terminalize_def cancelAllLiveLegs_def terminal_tail_def Let_def)
qed

lemma terminalize_frame [frame_simps]:
  "state (fst (terminalize m now t mrg r x)) = t"
  "legs (fst (terminalize m now t mrg r x)) = map (settle_leg (direction m)) (legs m)"
  "direction (fst (terminalize m now t mrg r x)) = direction m"
  "customerCcid (fst (terminalize m now t mrg r x)) = customerCcid m"
  "answeredByUserId (fst (terminalize m now t mrg r x)) = answeredByUserId m"
  "answeredAtIso (fst (terminalize m now t mrg r x)) = answeredAtIso m"
  "pushCapableUserIds (fst (terminalize m now t mrg r x)) = pushCapableUserIds m"
  "declinedUserIds (fst (terminalize m now t mrg r x)) = declinedUserIds m"
  "queuedTargets (fst (terminalize m now t mrg r x)) = queuedTargets m"
  "answerIntent (fst (terminalize m now t mrg r x)) = answerIntent m"
  "noticeSpoken (fst (terminalize m now t mrg r x)) = noticeSpoken m"
  by (simp_all add: terminalize_eq)

lemma terminalize_pair:
  "terminalize m now t mrg r x =
     (fst (terminalize m now t mrg r x), snd (terminalize m now t mrg r x))"
  by simp

lemma terminalize_hangs_up:
  assumes "l \<in> set (legs m)" "status l = LDialing \<or> status l = LRinging" "ccid l = Some c" "c \<noteq> []"
  shows "TelnyxHangup c True \<in> set (snd (terminalize m now t mrg r x))"
  using cancel_effects_complete [OF assms] by (simp add: terminalize_eq)

text \<open>Which effects a terminal resolution can emit, by kind.\<close>

lemma terminalize_effects:
  assumes "e \<in> set (snd (terminalize m now t mrg r x))"
  shows "(\<exists>c. e = TelnyxHangup c True) \<or> e \<in> set (terminal_tail m now t mrg r x)"
  using assms cancel_effects_sound [of e True "legs m"]
    reap_effects_sound [of e "map cancel_leg (legs m)"]
  by (auto simp: terminalize_eq split: if_splits)

lemma teardown_frame [frame_simps]:
  "state (fst (ownerDeathTeardown m)) = state m"
  "legs (fst (ownerDeathTeardown m)) = legs m"
  "direction (fst (ownerDeathTeardown m)) = direction m"
  "customerCcid (fst (ownerDeathTeardown m)) = customerCcid m"
  "answeredByUserId (fst (ownerDeathTeardown m)) = answeredByUserId m"
  "answeredAtIso (fst (ownerDeathTeardown m)) = answeredAtIso m"
  "pushCapableUserIds (fst (ownerDeathTeardown m)) = pushCapableUserIds m"
  "declinedUserIds (fst (ownerDeathTeardown m)) = declinedUserIds m"
  "queuedTargets (fst (ownerDeathTeardown m)) = queuedTargets m"
  by (simp_all add: ownerDeathTeardown_def)

lemma answer_customer_frame [frame_simps]:
  "state (fst (answer_customer m c u ts)) = state m"
  "legs (fst (answer_customer m c u ts)) = legs m"
  "direction (fst (answer_customer m c u ts)) = direction m"
  "answeredByUserId (fst (answer_customer m c u ts)) = answeredByUserId m"
  "answeredAtIso (fst (answer_customer m c u ts)) = answeredAtIso m"
  "pushCapableUserIds (fst (answer_customer m c u ts)) = pushCapableUserIds m"
  "declinedUserIds (fst (answer_customer m c u ts)) = declinedUserIds m"
  "queuedTargets (fst (answer_customer m c u ts)) = queuedTargets m"
  by (simp_all add: answer_customer_def Let_def)


section \<open>Dialing\<close>

lemma dialLegFor_frame [frame_simps]:
  "state (fst (dialLegFor m t now k)) = state m"
  "direction (fst (dialLegFor m t now k)) = direction m"
  "answeredAtIso (fst (dialLegFor m t now k)) = answeredAtIso m"
  "declinedUserIds (fst (dialLegFor m t now k)) = declinedUserIds m"
  "queuedTargets (fst (dialLegFor m t now k)) = queuedTargets m"
  "pushCapableUserIds (fst (dialLegFor m t now k)) = pushCapableUserIds m"
  "ringDeadlineMs (fst (dialLegFor m t now k)) = ringDeadlineMs m"
  "length (legs (fst (dialLegFor m t now k))) = Suc (length (legs m))"
  "dialUserId (snd (dialLegFor m t now k)) = targetUser t"
  by (simp_all add: dialLegFor_def Let_def)

lemma dialLegs_frame [frame_simps]:
  "state (fst (dialLegs m ts now pk i)) = state m
   \<and> direction (fst (dialLegs m ts now pk i)) = direction m
   \<and> answeredAtIso (fst (dialLegs m ts now pk i)) = answeredAtIso m
   \<and> declinedUserIds (fst (dialLegs m ts now pk i)) = declinedUserIds m
   \<and> queuedTargets (fst (dialLegs m ts now pk i)) = queuedTargets m
   \<and> pushCapableUserIds (fst (dialLegs m ts now pk i)) = pushCapableUserIds m"
by (induction ts arbitrary: m i) (simp_all add: Let_def split_beta frame_simps)

lemma dialLegs_length: "length (legs (fst (dialLegs m ts now pk i))) = length (legs m) + length ts"
by (induction ts arbitrary: m i) (simp_all add: Let_def split_beta frame_simps)

lemma dialLegs_users: "map dialUserId (snd (dialLegs m ts now pk i)) = map targetUser ts"
by (induction ts arbitrary: m i) (simp_all add: Let_def split_beta frame_simps)

lemma armRingStep_effects: "e \<in> set (armRingStep m now) \<Longrightarrow> \<exists>t. e = ArmAlarm RingStepAlarm t"
  by (auto simp: armRingStep_def Let_def split: option.splits if_splits)

lemma armRingStep_bound:
  "ArmAlarm RingStepAlarm t \<in> set (armRingStep m now) \<Longrightarrow> ringDeadlineMs m = Some d \<Longrightarrow> t < d"
  by (auto simp: armRingStep_def Let_def split: option.splits if_splits)

lemma plain_simps [simp]:
  "plain (m, es) = (Some m, es, None)"
  "fst (plain r) = Some (fst r)"
  "fst (snd (plain r)) = snd r"
  "snd (snd (plain r)) = None"
  by (simp_all add: plain_def)

lemma with_reply_simps [simp]:
  "with_reply (m, es, y) = (Some m, es, Some y)"
  "fst (with_reply r) = Some (fst r)"
  "fst (snd (with_reply r)) = fst (snd r)"
  "snd (snd (with_reply r)) = Some (snd (snd r))"
  by (simp_all add: with_reply_def)

end
