(* ===== verification/Call_Invariants.thy ===== *)
theory Call_Invariants
  imports Call_Facts
begin

text \<open>
  What every step of the calls machine keeps, and what whole runs of it inherit. A stimulus is an
  event with the two clocks and the key supply of its reduction; \<open>step\<close> is one reduction of a live
  session, \<open>run\<close> a sequence of them. The locale \<open>call_invariant\<close> is the contract between a
  property of one step and the runs of the shell; each invariant of the machine is an
  interpretation of it.
\<close>

type_synonym stimulus = "session_event \<times> ms \<times> ms \<times> key_supply"

definition step :: "session_machine \<Rightarrow> stimulus \<Rightarrow> session_machine \<times> effect list" where
  "step m s =
     (case s of (e, now, wall, pk) \<Rightarrow>
        (case reduce (Some m) e now wall pk of
           (Some m', effs, _) \<Rightarrow> (m', effs)
         | (None, effs, _) \<Rightarrow> (m, effs)))"

fun run :: "session_machine \<Rightarrow> stimulus list \<Rightarrow> session_machine \<times> effect list" where
  "run m [] = (m, [])"
| "run m (s # ss) =
     (let (m1, e1) = step m s; (m2, e2) = run m1 ss in (m2, e1 @ e2))"

lemma reduce_Some [simp]: "reduce (Some m) e now wall pk = reduce_live m e now wall pk"
  by (simp add: reduce_def)

lemma reduce_live_Some: "\<exists>m'. fst (reduce_live m e now wall pk) = Some m'"
  by (cases e) (simp_all add: Let_def)

lemma reduce_ex: "\<exists>m' effs r. reduce (Some m) e now wall pk = (Some m', effs, r)"
  using reduce_live_Some [of m e now wall pk] by (cases "reduce_live m e now wall pk") auto

lemma step_reduce:
  "step m (e, now, wall, pk) =
     (the (fst (reduce_live m e now wall pk)), fst (snd (reduce_live m e now wall pk)))"
  using reduce_live_Some [of m e now wall pk]
  by (auto simp: step_def split: prod.splits option.splits)

text \<open>One equation per event: the step is its handler.\<close>

lemma step_simps [simp]:
  "step m (Initiated cx, now, wall, pk) = (m, [])"
  "step m (OutboundInitiated ox, now, wall, pk) = (m, [])"
  "step m (MemberLegAnswered c u dest, now, wall, pk) = reduceMemberAnswered m c u dest wall"
  "step m (MemberLegHangup c u dest, now, wall, pk) = reduceMemberHangup m c u dest"
  "step m (InboundHangup tag stamp p, now, wall, pk) = reduceInboundHangup m tag stamp p now"
  "step m (OutboundAnswered, now, wall, pk) = on_outbound_answered m now"
  "step m (OutboundHangup p, now, wall, pk) = reduceOutboundHangup m p now"
  "step m (OutboundPlacerAnswered c u dest, now, wall, pk) = reduceOutboundPlacerAnswered m c u dest"
  "step m (OutboundPlacerHangup c u, now, wall, pk) = reduceOutboundPlacerHangup m c u now"
  "step m (SpeakEnded, now, wall, pk) = on_speak_ended m"
  "step m (RecordingSaved pl, now, wall, pk) = on_recording_saved m pl now"
  "step m (RingMe u sipu nl, now, wall, pk) =
     (fst (reduceRingMe m u sipu nl now pk), fst (snd (reduceRingMe m u sipu nl now pk)))"
  "step m (SetOwner u, now, wall, pk) = on_set_owner m u"
  "step m (RegisterIntent ik u, now, wall, pk) = on_register_intent m ik u now"
  "step m (ClearIntent, now, wall, pk) = on_clear_intent m"
  "step m (AlarmIntentExpiry, now, wall, pk) = on_clear_intent m"
  "step m (Decline u, now, wall, pk) =
     (fst (reduceDecline m u), fst (snd (reduceDecline m u)))"
  "step m (AlarmRingStep, now, wall, pk) = on_alarm_ring_step m now pk"
  "step m (AlarmRing, now, wall, pk) = on_alarm_ring m"
  "step m (AlarmJanitor, now, wall, pk) = on_alarm_janitor m now"
  "step m (AnswerOutcome ok c u ts, now, wall, pk) = reduceAnswerOutcome m ok c u ts now"
  "step m (NoticeAnswerOutcome ok, now, wall, pk) = on_notice_answer_outcome m ok"
  "step m (VmAnswerOutcome ok, now, wall, pk) = on_vm_answer_outcome m ok now"
  "step m (PushFanoutSettled gone, now, wall, pk) = on_push_fanout_settled m gone"
  "step m (DialOutcome k dc f, now, wall, pk) = on_dial_outcome m k dc f now"
  "step m (InboundLegGone, now, wall, pk) = on_inbound_leg_gone m now"
  "step m (MemberProbeOutcome c u alive, now, wall, pk) = on_member_probe_outcome m c u alive now"
  by (simp_all add: step_reduce Let_def)

lemma run_append: "run m (xs @ ys) =
    (fst (run (fst (run m xs)) ys), snd (run m xs) @ snd (run (fst (run m xs)) ys))"
  by (induction xs arbitrary: m) (simp_all add: Let_def split_beta)

locale call_invariant =
  fixes inv :: "session_machine \<Rightarrow> bool"
  assumes step_inv: "inv m \<Longrightarrow> inv (fst (step m s))"
begin

lemma run_inv: "inv m \<Longrightarrow> inv (fst (run m ss))"
  by (induction ss arbitrary: m) (simp_all add: Let_def split_beta step_inv)

lemma run_effects:
  assumes "\<And>m s e. inv m \<Longrightarrow> e \<in> set (snd (step m s)) \<Longrightarrow> P e"
  shows "inv m \<Longrightarrow> e \<in> set (snd (run m ss)) \<Longrightarrow> P e"
proof (induction ss arbitrary: m)
  case Nil
  then show ?case by simp
next
  case (Cons s ss)
  from Cons.prems(2) have "e \<in> set (snd (step m s)) \<or> e \<in> set (snd (run (fst (step m s)) ss))"
    by (simp add: Let_def split_beta)
  then show ?case
    using assms [OF Cons.prems(1)] Cons.IH [OF step_inv [OF Cons.prems(1)]] by blast
qed

end


section \<open>The state graph\<close>

text \<open>The abstract automaton: the moves a call may make, without the data.\<close>

inductive call_edge :: "call_state \<Rightarrow> call_state \<Rightarrow> bool" where
  outbound_answer: "call_edge Dialing Answered"
| member_answer: "call_edge Ringing Answered"
| to_voicemail: "call_edge Ringing VoicemailGreeting"
| greeting_over: "call_edge VoicemailGreeting VoicemailRecording"
| recorded: "call_edge VoicemailRecording EndedVoicemail"
| resolve: "\<not> isTerminal s \<Longrightarrow> t \<in> {EndedAnswered, EndedMissed, EndedRejected} \<Longrightarrow> call_edge s t"
| late_recording: "call_edge EndedMissed EndedVoicemail"
| late_answer: "call_edge EndedMissed EndedAnswered"

inductive_simps call_edge_from [simp]:
  "call_edge EndedAnswered t" "call_edge EndedVoicemail t" "call_edge EndedRejected t"
  "call_edge EndedMissed t"

definition edge_ok :: "call_state \<Rightarrow> call_state \<Rightarrow> bool" where
  "edge_ok s t \<longleftrightarrow> t = s \<or> call_edge s t"

lemma edge_refl [intro!, simp]: "edge_ok s s"
  by (simp add: edge_ok_def)

lemma edge_okI: "call_edge s t \<Longrightarrow> edge_ok s t"
  by (simp add: edge_ok_def)

lemma missed_or_rejected_cases: "missed_or_rejected m = EndedMissed \<or> missed_or_rejected m = EndedRejected"
  by (simp add: missed_or_rejected_def)

lemma terminalize_edge:
  "\<not> isTerminal (state m) \<Longrightarrow> t \<in> {EndedAnswered, EndedMissed, EndedRejected} \<Longrightarrow>
     edge_ok (state m) (state (fst (terminalize m now t mrg r x)))"
  by (auto simp: frame_simps intro: edge_okI call_edge.resolve)

lemma ladder_edge: "edge_ok (state m) (state (fst (runAvenueLadder m)))"
  by (auto simp: ladder_state intro: edge_okI call_edge.intros)

lemma teardown_edge: "edge_ok (state m) (state (fst (ownerDeathTeardown m)))"
  by (simp add: frame_simps)

lemmas edge_defs = on_outbound_answered_def reduceOutboundPlacerAnswered_def
  reduceOutboundPlacerHangup_def reduceOutboundHangup_def on_speak_ended_def on_recording_saved_def
  on_notice_answer_outcome_def on_vm_answer_outcome_def on_set_owner_def on_register_intent_def
  on_clear_intent_def on_alarm_ring_step_def on_alarm_ring_def on_alarm_janitor_def
  on_push_fanout_settled_def on_dial_outcome_def on_inbound_leg_gone_def on_member_probe_outcome_def
  reduceMemberAnswered_def reduceAnswerOutcome_def reduceMemberHangup_def reduceInboundHangup_def
  upgrade_missed_def bri_hangup_def untagged_hangup_def reduceRingMe_def reduceDecline_def

lemma member_edges:
  "edge_ok (state m) (state (fst (reduceMemberAnswered m c u dest wall)))"
  "edge_ok (state m) (state (fst (reduceMemberHangup m c u dest)))"
  using ladder_edge [of "on_leg (has_ccid c) (set_status LDead) m"]
    ladder_edge [of "on_leg (has_ccid c) (set_status LDead) (on_leg (adoptable u dest) (stamp_ccid c) m)"]
  by (auto simp: edge_defs Let_def frame_simps split: option.splits)

lemma answer_edge: "edge_ok (state m) (state (fst (reduceAnswerOutcome m ok c u ts now)))"
  using missed_or_rejected_cases [of m]
  by (auto simp: reduceAnswerOutcome_def Let_def split_beta frame_simps missed_or_rejected_def
      intro!: edge_okI intro: call_edge.intros)

lemma outbound_edges:
  "edge_ok (state m) (state (fst (on_outbound_answered m now)))"
  "edge_ok (state m) (state (fst (reduceOutboundHangup m p now)))"
  "edge_ok (state m) (state (fst (reduceOutboundPlacerAnswered m c u dest)))"
  "edge_ok (state m) (state (fst (reduceOutboundPlacerHangup m c u now)))"
  by (auto simp: edge_defs Let_def split_beta frame_simps split: option.splits
      intro!: edge_okI intro: call_edge.intros)

lemma voicemail_edges:
  "edge_ok (state m) (state (fst (on_speak_ended m)))"
  "edge_ok (state m) (state (fst (on_recording_saved m pl now)))"
  "edge_ok (state m) (state (fst (on_notice_answer_outcome m ok)))"
  "edge_ok (state m) (state (fst (on_vm_answer_outcome m ok now)))"
  using missed_or_rejected_cases [of m]
  by (auto simp: edge_defs Let_def split_beta frame_simps cancelAllLiveLegs_def
      intro!: edge_okI intro: call_edge.intros)

lemma rpc_edges:
  "edge_ok (state m) (state (fst (on_set_owner m u)))"
  "edge_ok (state m) (state (fst (on_register_intent m ik u now)))"
  "edge_ok (state m) (state (fst (on_clear_intent m)))"
  "edge_ok (state m) (state (fst (reduceRingMe m u sipu nl now pk)))"
  by (simp_all add: edge_defs Let_def split_beta frame_simps)

lemma decline_edge: "edge_ok (state m) (state (fst (reduceDecline m u)))"
  using ladder_edge [of "remove_avenues m u"]
  by (auto simp: reduceDecline_def Let_def split_beta remove_avenues_def)

lemma alarm_edges:
  "edge_ok (state m) (state (fst (on_alarm_ring m)))"
  "edge_ok (state m) (state (fst (on_alarm_janitor m now)))"
  using missed_or_rejected_cases [of m]
  by (auto simp: edge_defs Let_def split_beta frame_simps intro!: edge_okI intro: call_edge.intros)

lemma ring_step_edge: "edge_ok (state m) (state (fst (on_alarm_ring_step m now pk)))"
  using ladder_edge [of "m\<lparr>queuedTargets := []\<rparr>"]
  by (auto simp: on_alarm_ring_step_def Let_def split_beta frame_simps split: list.splits)

lemma outcome_edges:
  "edge_ok (state m) (state (fst (on_push_fanout_settled m gone)))"
  "edge_ok (state m) (state (fst (on_dial_outcome m k dc f now)))"
  "edge_ok (state m) (state (fst (on_inbound_leg_gone m now)))"
  "edge_ok (state m) (state (fst (on_member_probe_outcome m c u alive now)))"
  by (auto simp: edge_defs Let_def split_beta frame_simps ladder_state split: option.splits
      intro!: edge_okI intro: call_edge.intros)

lemma inbound_hangup_edge: "edge_ok (state m) (state (fst (reduceInboundHangup m tag stamp p now)))"
  using missed_or_rejected_cases [of m]
  by (cases tag; cases "answerIntent m")
     (auto simp: edge_defs Let_def split_beta frame_simps
      intro!: edge_okI intro: call_edge.intros)

lemma step_edge: "edge_ok (state m) (state (fst (step m s)))"
proof -
  obtain e now wall pk where s: "s = (e, now, wall, pk)" by (cases s)
  show ?thesis unfolding s
    by (cases e) (simp_all add: member_edges answer_edge outbound_edges voicemail_edges rpc_edges
        decline_edge alarm_edges ring_step_edge outcome_edges inbound_hangup_edge)
qed


section \<open>A rank that every move raises\<close>

fun rank :: "call_state \<Rightarrow> nat" where
  "rank Dialing = 0"
| "rank Ringing = 0"
| "rank Answered = 1"
| "rank VoicemailGreeting = 1"
| "rank VoicemailRecording = 2"
| "rank EndedMissed = 3"
| "rank EndedAnswered = 4"
| "rank EndedVoicemail = 4"
| "rank EndedRejected = 4"

lemma rank_le: "rank s \<le> 4"
  by (cases s) simp_all

lemma rank_edge: "call_edge s t \<Longrightarrow> rank s < rank t"
  by (induction rule: call_edge.induct) (auto, (case_tac s; simp)+)

fun state_changes :: "session_machine \<Rightarrow> stimulus list \<Rightarrow> nat" where
  "state_changes m [] = 0"
| "state_changes m (s # ss) =
     (if state (fst (step m s)) = state m then 0 else 1) + state_changes (fst (step m s)) ss"

lemma rank_step: "rank (state m) + (if state (fst (step m s)) = state m then 0 else 1)
    \<le> rank (state (fst (step m s)))"
proof (cases "state (fst (step m s)) = state m")
  case True
  then show ?thesis by simp
next
  case False
  then have "call_edge (state m) (state (fst (step m s)))"
    using step_edge [of m s] by (auto simp: edge_ok_def)
  from rank_edge [OF this] False show ?thesis by simp
qed

lemma state_changes_bound: "rank (state m) + state_changes m ss \<le> rank (state (fst (run m ss)))"
proof (induction ss arbitrary: m)
  case Nil
  then show ?case by simp
next
  case (Cons s ss)
  show ?case using rank_step [of m s] Cons.IH [of "fst (step m s)"]
    by (cases "state (fst (step m s)) = state m") (simp_all add: Let_def split_beta)
qed


section \<open>Terminal states are absorbing, the two upgrades apart\<close>

lemma terminal_step:
  "isTerminal (state m) \<Longrightarrow>
     state (fst (step m s)) = state m
     \<or> state m = EndedMissed \<and> state (fst (step m s)) \<in> {EndedAnswered, EndedVoicemail}"
  using step_edge [of m s] by (cases "state m") (auto simp: edge_ok_def)

interpretation terminal: call_invariant "\<lambda>m. isTerminal (state m)"
proof
  fix m s
  show "isTerminal (state m) \<Longrightarrow> isTerminal (state (fst (step m s)))"
    using terminal_step [of m s] by auto
qed

interpretation ended_answered: call_invariant "\<lambda>m. state m = EndedAnswered"
proof
  fix m s
  show "state m = EndedAnswered \<Longrightarrow> state (fst (step m s)) = EndedAnswered"
    using step_edge [of m s] by (auto simp: edge_ok_def)
qed


section \<open>The number of legs\<close>

lemma legs_length_simps:
  "length (legs (fst (reduceMemberAnswered m c u dest wall))) = length (legs m)"
  "length (legs (fst (reduceMemberHangup m c u dest))) = length (legs m)"
  "length (legs (fst (reduceAnswerOutcome m ok c u ts now))) = length (legs m)"
  "length (legs (fst (on_outbound_answered m now))) = length (legs m)"
  "length (legs (fst (reduceOutboundHangup m p now))) = length (legs m)"
  "length (legs (fst (reduceOutboundPlacerAnswered m c u dest))) = length (legs m)"
  "length (legs (fst (reduceOutboundPlacerHangup m c u now))) = length (legs m)"
  "length (legs (fst (on_speak_ended m))) = length (legs m)"
  "length (legs (fst (on_recording_saved m pl now))) = length (legs m)"
  "length (legs (fst (on_notice_answer_outcome m ok))) = length (legs m)"
  "length (legs (fst (on_vm_answer_outcome m ok now))) = length (legs m)"
  "length (legs (fst (on_set_owner m u))) = length (legs m)"
  "length (legs (fst (on_register_intent m ik u now))) = length (legs m)"
  "length (legs (fst (on_clear_intent m))) = length (legs m)"
  "length (legs (fst (reduceDecline m u))) = length (legs m)"
  "length (legs (fst (on_alarm_ring m))) = length (legs m)"
  "length (legs (fst (on_alarm_janitor m now))) = length (legs m)"
  "length (legs (fst (on_push_fanout_settled m gone))) = length (legs m)"
  "length (legs (fst (on_dial_outcome m k dc f now))) = length (legs m)"
  "length (legs (fst (on_inbound_leg_gone m now))) = length (legs m)"
  "length (legs (fst (on_member_probe_outcome m c u alive now))) = length (legs m)"
  by (simp_all add: edge_defs Let_def split_beta frame_simps cancelAllLiveLegs_def
      remove_avenues_def split: option.splits)

lemma inbound_hangup_legs_length:
  "length (legs (fst (reduceInboundHangup m tag stamp p now))) = length (legs m)"
  by (cases tag; cases "answerIntent m") (simp_all add: edge_defs Let_def split_beta frame_simps)

lemma dialing_legs_length:
  "length (legs (fst (reduceRingMe m u sipu nl now pk))) \<le> max (length (legs m)) MAX_LEGS_PER_SESSION"
  "length (legs (fst (on_alarm_ring_step m now pk))) \<le> max (length (legs m)) MAX_LEGS_PER_SESSION"
  by (auto simp: reduceRingMe_def on_alarm_ring_step_def Let_def split_beta frame_simps
      split: list.splits)

lemma step_legs_length:
  "length (legs (fst (step m s))) \<le> max (length (legs m)) MAX_LEGS_PER_SESSION"
proof -
  obtain e now wall pk where s: "s = (e, now, wall, pk)" by (cases s)
  show ?thesis unfolding s
    by (cases e) (simp_all add: legs_length_simps inbound_hangup_legs_length dialing_legs_length)
qed

interpretation leg_cap: call_invariant "\<lambda>m. length (legs m) \<le> MAX_LEGS_PER_SESSION"
proof
  fix m s
  show "length (legs m) \<le> MAX_LEGS_PER_SESSION \<Longrightarrow>
      length (legs (fst (step m s))) \<le> MAX_LEGS_PER_SESSION"
    using step_legs_length [of m s] by simp
qed

lemma initiated_leg_cap: "length (legs (fst (reduceInitiated cx now pk))) \<le> MAX_LEGS_PER_SESSION"
proof -
  have "length (ring_targets cx) \<le> MAX_LEGS_PER_SESSION"
    by (simp add: ring_targets_def Let_def)
  then show ?thesis
    by (auto simp: reduceInitiated_def ring_start_def suspended_start_def inbound_base_def Let_def
        split_beta frame_simps dialLegs_length min_def)
qed

lemma outbound_leg_cap: "length (legs (fst (reduceOutboundInitiated ox now pk))) \<le> 1"
  by (auto simp: reduceOutboundInitiated_def outbound_base_def Let_def split: option.splits)


section \<open>Declined members\<close>

lemma declined_simps:
  "declinedUserIds (fst (reduceMemberAnswered m c u dest wall)) = declinedUserIds m"
  "declinedUserIds (fst (reduceMemberHangup m c u dest)) = declinedUserIds m"
  "declinedUserIds (fst (reduceAnswerOutcome m ok c u ts now)) = declinedUserIds m"
  "declinedUserIds (fst (on_outbound_answered m now)) = declinedUserIds m"
  "declinedUserIds (fst (reduceOutboundHangup m p now)) = declinedUserIds m"
  "declinedUserIds (fst (reduceOutboundPlacerAnswered m c u dest)) = declinedUserIds m"
  "declinedUserIds (fst (reduceOutboundPlacerHangup m c u now)) = declinedUserIds m"
  "declinedUserIds (fst (on_speak_ended m)) = declinedUserIds m"
  "declinedUserIds (fst (on_recording_saved m pl now)) = declinedUserIds m"
  "declinedUserIds (fst (on_notice_answer_outcome m ok)) = declinedUserIds m"
  "declinedUserIds (fst (on_vm_answer_outcome m ok now)) = declinedUserIds m"
  "declinedUserIds (fst (on_set_owner m u)) = declinedUserIds m"
  "declinedUserIds (fst (on_register_intent m ik u now)) = declinedUserIds m"
  "declinedUserIds (fst (on_clear_intent m)) = declinedUserIds m"
  "declinedUserIds (fst (on_alarm_ring m)) = declinedUserIds m"
  "declinedUserIds (fst (on_alarm_ring_step m now pk)) = declinedUserIds m"
  "declinedUserIds (fst (on_alarm_janitor m now)) = declinedUserIds m"
  "declinedUserIds (fst (reduceRingMe m u sipu nl now pk)) = declinedUserIds m"
  "declinedUserIds (fst (on_push_fanout_settled m gone)) = declinedUserIds m"
  "declinedUserIds (fst (on_dial_outcome m k dc f now)) = declinedUserIds m"
  "declinedUserIds (fst (on_inbound_leg_gone m now)) = declinedUserIds m"
  "declinedUserIds (fst (on_member_probe_outcome m c u alive now)) = declinedUserIds m"
  by (simp_all add: edge_defs Let_def split_beta frame_simps cancelAllLiveLegs_def
      split: option.splits list.splits)

lemma inbound_hangup_declined:
  "declinedUserIds (fst (reduceInboundHangup m tag stamp p now)) = declinedUserIds m"
  by (cases tag; cases "answerIntent m") (simp_all add: edge_defs Let_def split_beta frame_simps)

lemma decline_declined: "set (declinedUserIds m) \<subseteq> set (declinedUserIds (fst (reduceDecline m u)))"
  by (auto simp: reduceDecline_def Let_def split_beta frame_simps remove_avenues_def)

lemma step_declined: "set (declinedUserIds m) \<subseteq> set (declinedUserIds (fst (step m s)))"
proof -
  obtain e now wall pk where s: "s = (e, now, wall, pk)" by (cases s)
  show ?thesis unfolding s
    by (cases e) (simp_all add: declined_simps inbound_hangup_declined decline_declined)
qed

interpretation declined: call_invariant "\<lambda>m. u \<in> set (declinedUserIds m)" for u
proof
  fix m s
  show "u \<in> set (declinedUserIds m) \<Longrightarrow> u \<in> set (declinedUserIds (fst (step m s)))"
    using step_declined [of m s] by auto
qed


section \<open>Who is dialed\<close>

definition silent :: "effect list \<Rightarrow> bool" where
  "silent es \<longleftrightarrow> (\<forall>e \<in> set es. dialed_users e = [])"

lemma silent_simps [simp]:
  "silent []"
  "silent (e # es) \<longleftrightarrow> dialed_users e = [] \<and> silent es"
  "silent (es @ fs) \<longleftrightarrow> silent es \<and> silent fs"
  by (auto simp: silent_def)

lemma silent_when_truthy [simp]: "(\<And>c. silent (f c)) \<Longrightarrow> silent (when_truthy x f)"
  by (cases x) auto

lemma silent_cancel [simp]: "silent (cancel_effects t ls)"
  by (auto simp: silent_def dest!: cancel_effects_sound)

lemma silent_reap [simp]: "silent (reap_effects ls)"
  by (auto simp: silent_def dest!: reap_effects_sound)

lemma silent_drop [simp]: "silent (drop_user_hangups u ls)"
  by (auto simp: silent_def dest!: drop_user_hangups_sound)

lemma silent_ring_step_arm [simp]: "silent (armRingStep m now)"
  by (auto simp: silent_def dest!: armRingStep_effects)

lemma silent_vmEntry [simp]: "silent (snd (vmEntry m))"
  by (simp add: vmEntry_def)

lemma silent_ladder [simp]: "silent (snd (runAvenueLadder m))"
  by (cases rule: ladder_cases [of m]) simp_all

lemma silent_teardown [simp]: "silent (snd (ownerDeathTeardown m))"
  by (simp add: ownerDeathTeardown_def)

lemma silent_answer_customer [simp]: "silent (snd (answer_customer m c u ts))"
  by (simp add: answer_customer_def Let_def)

lemma silent_terminalize [simp]:
  "silent (snd (terminalize m now t None r x))"
  "dialed_users e = [] \<Longrightarrow> silent (snd (terminalize m now t (Some e) r x))"
  by (auto simp: terminalize_eq terminal_tail_def split: option.splits)

lemma silent_handlers:
  "silent (snd (reduceMemberAnswered m c u dest wall))"
  "silent (snd (reduceMemberHangup m c u dest))"
  "silent (snd (reduceAnswerOutcome m ok c u ts now))"
  "silent (snd (on_outbound_answered m now))"
  "silent (snd (reduceOutboundHangup m p now))"
  "silent (snd (reduceOutboundPlacerAnswered m c u dest))"
  "silent (snd (reduceOutboundPlacerHangup m c u now))"
  "silent (snd (on_speak_ended m))"
  "silent (snd (on_recording_saved m pl now))"
  "silent (snd (on_notice_answer_outcome m ok))"
  "silent (snd (on_vm_answer_outcome m ok now))"
  "silent (snd (on_set_owner m u))"
  "silent (snd (on_register_intent m ik u now))"
  "silent (snd (on_clear_intent m))"
  "silent (fst (snd (reduceDecline m u)))"
  "silent (snd (on_alarm_ring m))"
  "silent (snd (on_alarm_janitor m now))"
  "silent (snd (on_push_fanout_settled m gone))"
  "silent (snd (on_dial_outcome m k dc f now))"
  "silent (snd (on_inbound_leg_gone m now))"
  "silent (snd (on_member_probe_outcome m c u alive now))"
  by (simp_all add: edge_defs Let_def split_beta cancelAllLiveLegs_def synthetic_missed_def
      sibling_hangups_def split: option.splits)

lemma silent_inbound_hangup: "silent (snd (reduceInboundHangup m tag stamp p now))"
  by (cases tag; cases "answerIntent m")
     (simp_all add: edge_defs missed_event_merge_def Let_def split_beta)

lemma ring_me_dials:
  "e \<in> set (fst (snd (reduceRingMe m u sipu nl now pk))) \<Longrightarrow> v \<in> set (dialed_users e) \<Longrightarrow>
     v = u \<and> u \<notin> set (declinedUserIds m)"
  by (auto simp: reduceRingMe_def Let_def split: if_splits)

lemma ring_step_dials:
  assumes "e \<in> set (snd (on_alarm_ring_step m now pk))" "v \<in> set (dialed_users e)"
  shows "v \<notin> set (declinedUserIds m)"
proof (cases "filter (\<lambda>t. targetUser t \<notin> set (declinedUserIds m)) (queuedTargets m)")
  case Nil
  with assms have "e \<in> set (snd (runAvenueLadder (m\<lparr>queuedTargets := []\<rparr>)))"
    by (auto simp: on_alarm_ring_step_def Let_def split: if_splits)
  with silent_ladder assms(2) show ?thesis by (fastforce simp: silent_def)
next
  case (Cons t ts)
  then have t: "targetUser t \<notin> set (declinedUserIds m)"
    by (metis (no_types, lifting) list.set_intros(1) mem_Collect_eq set_filter)
  from assms Cons have "v = targetUser t"
    by (auto simp: on_alarm_ring_step_def Let_def split_beta frame_simps split: if_splits
        dest!: armRingStep_effects)
  with t show ?thesis by simp
qed

lemma step_dials:
  assumes "e \<in> set (snd (step m s))" "v \<in> set (dialed_users e)"
  shows "v \<notin> set (declinedUserIds m)"
proof -
  have quiet: "silent (snd (step m s)) \<Longrightarrow> False" using assms by (fastforce simp: silent_def)
  obtain ev now wall pk where s: "s = (ev, now, wall, pk)" by (cases s)
  show ?thesis
  proof (cases ev)
    case (RingMe u sipu nl)
    with assms ring_me_dials [of e m u sipu nl now pk v] show ?thesis by (simp add: s)
  next
    case AlarmRingStep
    with assms ring_step_dials [of e m now pk v] show ?thesis by (simp add: s)
  qed (use quiet in \<open>simp_all add: s silent_handlers silent_inbound_hangup\<close>)
qed


section \<open>The answer stamp\<close>

definition answer_anchored :: "session_machine \<Rightarrow> bool" where
  "answer_anchored m \<longleftrightarrow> (state m = Answered \<longrightarrow> answeredAtIso m \<noteq> None)"

lemma anchored_ladder: "answer_anchored m \<Longrightarrow> answer_anchored (fst (runAvenueLadder m))"
  by (auto simp: answer_anchored_def ladder_state frame_simps)

lemma anchored_handlers:
  assumes "answer_anchored m"
  shows "answer_anchored (fst (reduceMemberAnswered m c u dest wall))"
    "answer_anchored (fst (reduceMemberHangup m c u dest))"
    "answer_anchored (fst (reduceAnswerOutcome m ok c u ts now))"
    "answer_anchored (fst (on_outbound_answered m now))"
    "answer_anchored (fst (reduceOutboundHangup m p now))"
    "answer_anchored (fst (reduceOutboundPlacerAnswered m c u dest))"
    "answer_anchored (fst (reduceOutboundPlacerHangup m c u now))"
    "answer_anchored (fst (on_speak_ended m))"
    "answer_anchored (fst (on_recording_saved m pl now))"
    "answer_anchored (fst (on_notice_answer_outcome m ok))"
    "answer_anchored (fst (on_vm_answer_outcome m ok now))"
    "answer_anchored (fst (on_set_owner m u))"
    "answer_anchored (fst (on_register_intent m ik u now))"
    "answer_anchored (fst (on_clear_intent m))"
    "answer_anchored (fst (reduceDecline m u))"
    "answer_anchored (fst (reduceRingMe m u sipu nl now pk))"
    "answer_anchored (fst (on_alarm_ring m))"
    "answer_anchored (fst (on_alarm_ring_step m now pk))"
    "answer_anchored (fst (on_alarm_janitor m now))"
    "answer_anchored (fst (on_push_fanout_settled m gone))"
    "answer_anchored (fst (on_dial_outcome m k dc f now))"
    "answer_anchored (fst (on_inbound_leg_gone m now))"
    "answer_anchored (fst (on_member_probe_outcome m c u alive now))"
  using assms
  by (auto simp: answer_anchored_def edge_defs Let_def split_beta frame_simps ladder_state
      cancelAllLiveLegs_def remove_avenues_def missed_or_rejected_def split: option.splits list.splits)

lemma anchored_inbound_hangup:
  "answer_anchored m \<Longrightarrow> answer_anchored (fst (reduceInboundHangup m tag stamp p now))"
  by (cases tag; cases "answerIntent m")
     (auto simp: answer_anchored_def edge_defs Let_def split_beta frame_simps missed_or_rejected_def)

interpretation anchored: call_invariant answer_anchored
proof
  fix m and s :: stimulus assume inv: "answer_anchored m"
  obtain e now wall pk where s: "s = (e, now, wall, pk)" by (cases s)
  show "answer_anchored (fst (step m s))" unfolding s
    by (cases e) (simp_all add: inv anchored_handlers anchored_inbound_hangup)
qed

lemma initiated_anchored: "answer_anchored (fst (reduceInitiated cx now pk))"
  by (auto simp: answer_anchored_def reduceInitiated_def ring_start_def suspended_start_def
      inbound_base_def Let_def split_beta frame_simps)

end
