(* ===== verification/Call_Properties.thy ===== *)
theory Call_Properties
  imports Call_Invariants
begin

text \<open>
  The properties of the calls machine: the three the source's header pins (an inbound hangup is
  always terminal, voicemail is entered under a licence only, ring-me is additive and never
  re-rings a decliner), the refinement of the abstract state graph, and the bounds and the
  hand-over of legs, outcomes and stamps that the shell and the billing rest on.
\<close>

lemma reduce_step:
  "reduce (Some m) e now wall pk = (Some m', effs, r) \<Longrightarrow> step m (e, now, wall, pk) = (m', effs)"
  by (simp add: step_def)


section \<open>What a terminal resolution hands over\<close>

lemma filter_merge_quiet [simp]:
  "filter is_terminal_merge (cancel_effects t ls) = []"
  "filter is_terminal_merge (reap_effects ls) = []"
  "(\<And>c. filter is_terminal_merge (f c) = []) \<Longrightarrow> filter is_terminal_merge (when_truthy x f) = []"
  by (auto simp: filter_empty_conv set_when_truthy dest!: cancel_effects_sound reap_effects_sound)

text \<open>
  A resolved session: one terminal merge, whose outcome is the outcome of the new state, a
  terminal mirror of the new state, and the purge alarm.
\<close>

definition settled :: "ms \<Rightarrow> step_result \<Rightarrow> bool" where
  "settled now r \<longleftrightarrow>
     (\<exists>mode out p a. filter is_terminal_merge (snd r) = [TerminalMerge mode out p a]
        \<and> outcomeForState (state (fst r)) = Some out)
     \<and> (\<exists>ms. Mirror ms True \<in> set (snd r) \<and> mirrorState ms = Some (state (fst r)))
     \<and> ArmAlarm PurgeAlarm (now + PURGE_DELAY_MS) \<in> set (snd r)"

lemma settled_terminalize:
  assumes "\<not> isTerminal (state m)" "outcomeForState t = Some out"
    "filter is_terminal_merge ws = []" "filter is_terminal_merge ys = []"
  shows "settled now
     (fst (terminalize m now t (Some (TerminalMerge mode out p a)) r x),
      ws @ snd (terminalize m now t (Some (TerminalMerge mode out p a)) r x) @ ys)"
proof -
  have "filter is_terminal_merge
          (snd (terminalize m now t (Some (TerminalMerge mode out p a)) r x))
        = [TerminalMerge mode out p a]"
    by (simp add: terminalize_eq terminal_tail_def split: option.splits)
  moreover have "Mirror (x\<lparr>mirrorState := Some t\<rparr>) True
      \<in> set (snd (terminalize m now t (Some (TerminalMerge mode out p a)) r x))"
    and "ArmAlarm PurgeAlarm (now + PURGE_DELAY_MS)
      \<in> set (snd (terminalize m now t (Some (TerminalMerge mode out p a)) r x))"
    using assms(1) by (auto simp: terminalize_eq terminal_tail_def)
  moreover have "mirrorState (x\<lparr>mirrorState := Some t\<rparr>) = Some t" by simp
  ultimately show ?thesis using assms by (fastforce simp: settled_def frame_simps)
qed

lemma settled_terminalize_plain:
  assumes "\<not> isTerminal (state m)" "outcomeForState t = Some out"
  shows "settled now (terminalize m now t (Some (TerminalMerge mode out p a)) r x)"
  using settled_terminalize [OF assms, of "[]" "[]"] by simp

lemma settled_terminalize_pre:
  assumes "\<not> isTerminal (state m)" "outcomeForState t = Some out"
    "filter is_terminal_merge ws = []"
  shows "settled now
     (fst (terminalize m now t (Some (TerminalMerge mode out p a)) r x),
      ws @ snd (terminalize m now t (Some (TerminalMerge mode out p a)) r x))"
  using settled_terminalize [OF assms, of "[]"] by simp

lemma settled_terminalize_post:
  assumes "\<not> isTerminal (state m)" "outcomeForState t = Some out"
    "filter is_terminal_merge ys = []"
  shows "settled now
     (fst (terminalize m now t (Some (TerminalMerge mode out p a)) r x),
      snd (terminalize m now t (Some (TerminalMerge mode out p a)) r x) @ ys)"
  using settled_terminalize [OF assms(1,2) _ assms(3), of "[]"] by simp

lemma settled_terminalize_cons:
  assumes "\<not> isTerminal (state m)" "outcomeForState t = Some out" "\<not> is_terminal_merge w"
  shows "settled now
     (fst (terminalize m now t (Some (TerminalMerge mode out p a)) r x),
      w # snd (terminalize m now t (Some (TerminalMerge mode out p a)) r x))"
  using settled_terminalize_pre [OF assms(1,2), of "[w]"] assms(3) by simp

lemma outcome_missed_or_rejected [simp]: "outcomeForState (missed_or_rejected m) = Some OutcomeMissed"
  by (simp add: missed_or_rejected_def)

lemmas settled_intros = settled_terminalize_cons settled_terminalize_plain settled_terminalize_pre settled_terminalize_post

lemma settled_hangup:
  assumes "\<not> isTerminal (state m)"
  shows "settled now (reduceInboundHangup m tag stamp p now)"
proof (cases tag)
  case Untagged
  have "settled now (untagged_hangup m p now)"
    using assms settled_terminalize_pre [OF assms, of EndedAnswered OutcomeAnswered "[Warn WarnUntaggedInAnswered]"]
    by (simp add: untagged_hangup_def missed_event_merge_def Let_def split_beta
        settled_terminalize_plain)
  with assms Untagged show ?thesis by (simp add: reduceInboundHangup_def)
next
  case Bri
  have "settled now (bri_hangup m stamp p now)"
    unfolding bri_hangup_def Let_def split_beta
    by (rule settled_terminalize_pre) (use assms in \<open>auto split: option.splits\<close>)
  with assms Bri show ?thesis by (simp add: reduceInboundHangup_def)
next
  case Vmi
  with assms show ?thesis
    by (simp add: reduceInboundHangup_def missed_event_merge_def settled_terminalize_plain)
qed

definition resolves :: "session_machine \<Rightarrow> ms \<Rightarrow> step_result \<Rightarrow> bool" where
  "resolves m now r \<longleftrightarrow>
     (\<not> isTerminal (state m) \<and> isTerminal (state (fst r)) \<longrightarrow> settled now r)"

lemma resolves_unchanged: "state (fst r) = state m \<Longrightarrow> resolves m now r"
  by (simp add: resolves_def)

lemma resolves_ladder:
  "state (fst r) = state (fst (runAvenueLadder n)) \<Longrightarrow> state n = state m \<Longrightarrow> resolves m now r"
  by (auto simp: resolves_def ladder_state)

lemma resolves_outbound:
  "resolves m now (on_outbound_answered m now)"
  "resolves m now (reduceOutboundHangup m p now)"
  "resolves m now (reduceOutboundPlacerAnswered m c u dest)"
  "resolves m now (reduceOutboundPlacerHangup m c u now)"
  by (auto simp: resolves_def edge_defs synthetic_missed_def Let_def split_beta frame_simps
      split: option.splits intro!: settled_intros)

lemma resolves_voicemail:
  "resolves m now (on_speak_ended m)"
  "resolves m now (on_notice_answer_outcome m ok)"
  "resolves m now (on_vm_answer_outcome m ok now)"
  by (auto simp: resolves_def edge_defs synthetic_missed_def cancelAllLiveLegs_def Let_def split_beta
      frame_simps intro!: settled_intros)

lemma resolves_alarms:
  "resolves m now (on_alarm_ring m)"
  "resolves m now (on_alarm_janitor m now)"
  "resolves m now (on_inbound_leg_gone m now)"
  by (auto simp: resolves_def edge_defs synthetic_missed_def Let_def split_beta frame_simps
      intro!: settled_intros)

lemma resolves_dial_outcome: "resolves m now (on_dial_outcome m k dc f now)"
  by (auto simp: resolves_def on_dial_outcome_def synthetic_missed_def Let_def split_beta frame_simps
      ladder_state split: option.splits intro!: settled_intros)

lemma resolves_answer_outcome: "resolves m now (reduceAnswerOutcome m ok c u ts now)"
  by (auto simp: resolves_def reduceAnswerOutcome_def synthetic_missed_def Let_def split_beta
      frame_simps intro!: settled_intros)

lemma resolves_member:
  "resolves m now (reduceMemberAnswered m c u dest wall)"
  "resolves m now (reduceMemberHangup m c u dest)"
  "resolves m now (on_member_probe_outcome m c u alive now)"
  "resolves m now (on_push_fanout_settled m gone)"
  "resolves m now (on_alarm_ring_step m now pk)"
  by (auto simp: resolves_def edge_defs Let_def split_beta frame_simps ladder_state
      split: option.splits list.splits)

lemma resolves_rpc:
  "resolves m now (on_set_owner m u)"
  "resolves m now (on_register_intent m ik u now)"
  "resolves m now (on_clear_intent m)"
  "resolves m now (fst (reduceDecline m u), es)"
  "resolves m now (fst (reduceRingMe m u sipu nl now pk), es)"
  by (auto simp: resolves_def edge_defs Let_def split_beta frame_simps ladder_state
      remove_avenues_def)

lemma step_resolves:
  "(\<forall>p. e \<noteq> RecordingSaved p) \<Longrightarrow> resolves m now (step m (e, now, wall, pk))"
  by (cases e) (simp_all add: resolves_outbound resolves_voicemail resolves_alarms
      resolves_dial_outcome resolves_answer_outcome resolves_member resolves_rpc
      resolves_unchanged, simp add: resolves_def settled_hangup)


section \<open>No phone is left ringing\<close>

text \<open>The legs Telnyx is still ringing, by the ccid the machine knows.\<close>

definition rings :: "leg_record \<Rightarrow> call_control_id \<Rightarrow> bool" where
  "rings l c \<longleftrightarrow> (status l = LDialing \<or> status l = LRinging) \<and> ccid l = Some c \<and> c \<noteq> []"

definition hung_up :: "call_control_id \<Rightarrow> effect list \<Rightarrow> bool" where
  "hung_up c es \<longleftrightarrow> (\<exists>t. TelnyxHangup c t \<in> set es)"

lemma hung_up_simps [simp]:
  "hung_up c (es @ fs) \<longleftrightarrow> hung_up c es \<or> hung_up c fs"
  "hung_up c (e # es) \<longleftrightarrow> (\<exists>t. e = TelnyxHangup c t) \<or> hung_up c es"
  by (auto simp: hung_up_def)

lemma terminalize_silences:
  "l \<in> set (legs m) \<Longrightarrow> rings l c \<Longrightarrow> hung_up c (snd (terminalize m now t mrg r x))"
  using terminalize_hangs_up [of l m c now t mrg r x] by (auto simp: rings_def hung_up_def)

lemma update_first_keeps: "x \<in> set xs \<Longrightarrow> x \<in> set (update_first p f xs) \<or> p x"
  by (induction xs) auto

lemma on_leg_silences:
  "l \<in> set (legs m) \<Longrightarrow> rings l c \<Longrightarrow> \<not> p l \<Longrightarrow>
     hung_up c (snd (terminalize (on_leg p f m) now t mrg r x))"
  using update_first_keeps [of l "legs m" p f] terminalize_silences [of l "on_leg p f m"]
  by (auto simp: on_leg_def)

definition silences :: "(leg_record \<Rightarrow> bool) \<Rightarrow> session_machine \<Rightarrow> step_result \<Rightarrow> bool" where
  "silences exempt m r \<longleftrightarrow>
     (\<not> isTerminal (state m) \<and> isTerminal (state (fst r)) \<longrightarrow>
       (\<forall>l \<in> set (legs m). \<forall>c. rings l c \<and> \<not> exempt l \<longrightarrow> hung_up c (snd r)))"

text \<open>The leg that the event itself reports dead needs no hangup.\<close>

fun reported_dead :: "session_event \<Rightarrow> leg_record \<Rightarrow> bool" where
  "reported_dead (OutboundPlacerHangup c u) l = has_ccid c l"
| "reported_dead (DialOutcome k c f) l = has_key k l"
| "reported_dead _ l = False"

lemma silences_hangup: "silences ex m (reduceInboundHangup m tag stamp p now)"
  by (cases tag; cases "answerIntent m")
     (auto simp: silences_def edge_defs Let_def split_beta terminalize_silences)

lemma silences_outbound:
  "silences ex m (on_outbound_answered m now)"
  "silences ex m (reduceOutboundHangup m p now)"
  "silences ex m (reduceOutboundPlacerAnswered m c u dest)"
  "silences (has_ccid c) m (reduceOutboundPlacerHangup m c u now)"
  by (auto simp: silences_def edge_defs Let_def split_beta frame_simps terminalize_silences
      on_leg_silences split: option.splits)

lemma silences_voicemail:
  "silences ex m (on_speak_ended m)"
  "silences ex m (on_notice_answer_outcome m ok)"
  "silences ex m (on_vm_answer_outcome m ok now)"
  "silences ex m (on_alarm_ring m)"
  "silences ex m (on_alarm_janitor m now)"
  "silences ex m (on_inbound_leg_gone m now)"
  by (auto simp: silences_def edge_defs Let_def split_beta frame_simps terminalize_silences
      cancelAllLiveLegs_def)

lemma silences_dial_outcome: "silences (has_key k) m (on_dial_outcome m k dc f now)"
  by (auto simp: silences_def on_dial_outcome_def Let_def split_beta frame_simps ladder_state
      on_leg_silences split: option.splits)

lemma silences_answer_outcome: "silences ex m (reduceAnswerOutcome m ok c u ts now)"
proof -
  have named: "rings l d \<Longrightarrow> has_ccid c l \<Longrightarrow> d = c" for l d
    by (simp add: rings_def has_ccid_def)
  have "hung_up d (snd (terminalize (on_leg (has_ccid c) (set_status LCanceling) m) now t mrg r x))
      \<or> c = d" if "l \<in> set (legs m)" "rings l d" for l d t mrg r x
    using on_leg_silences [OF that, of "has_ccid c"] named [OF that(2)] by blast
  then show ?thesis
    by (auto simp: silences_def reduceAnswerOutcome_def Let_def split_beta frame_simps
        terminalize_silences) blast
qed

lemma silences_rest:
  "silences ex m (reduceMemberAnswered m c u dest wall)"
  "silences ex m (reduceMemberHangup m c u dest)"
  "silences ex m (on_member_probe_outcome m c u alive now)"
  "silences ex m (on_push_fanout_settled m gone)"
  "silences ex m (on_alarm_ring_step m now pk)"
  "silences ex m (on_set_owner m u)"
  "silences ex m (on_register_intent m ik u now)"
  "silences ex m (on_clear_intent m)"
  "silences ex m (fst (reduceDecline m u), es)"
  "silences ex m (fst (reduceRingMe m u sipu nl now pk), es)"
  by (auto simp: silences_def edge_defs Let_def split_beta frame_simps ladder_state
      remove_avenues_def split: option.splits list.splits)

lemma step_silences:
  assumes "\<forall>p. e \<noteq> RecordingSaved p"
  shows "silences (reported_dead e) m (step m (e, now, wall, pk))"
proof -
  have eta: "reported_dead (OutboundPlacerHangup c u) = has_ccid c"
    "reported_dead (DialOutcome k dc f) = has_key k" for c u k dc f by (auto simp: fun_eq_iff)
  have unchanged: "silences ex m (m, es)" for ex es by (simp add: silences_def)
  show ?thesis using assms
    by (cases e) (simp_all add: eta unchanged silences_hangup silences_outbound silences_voicemail
        silences_dial_outcome silences_answer_outcome silences_rest)
qed

end
