(* ===== verification/Call_Claims.thy ===== *)
theory Call_Claims
  imports Call_Properties "HOL-Library.Multiset"
begin

text \<open>
  The claims about \<open>apps/api/src/calls/transitions.ts\<close>, each with a witness on a concrete session:
  a line with two members, one of whom can also be woken by push.
\<close>


section \<open>A concrete session for the witnesses\<close>

definition demo_keys :: key_supply where
  "demo_keys i = show_nat i"

definition demo_context :: initiated_context where
  "demo_context =
     \<lparr>ic_callSessionId = ''s1'', ic_inboundCcid = ''cust'', ic_companyId = ''co'',
      ic_phoneNumberId = ''pn'', ic_companyName = ''Acme'', ic_locale = None, ic_greeting = None,
      ic_callerE164 = Some ''+15550001'', ic_businessNumberE164 = ''+15550002'',
      ic_lineBusy = False, ic_screeningDivert = False, ic_afterHours = False,
      ic_nextOpenLabel = None, ic_ringStrategy = RingAll, ic_ringSeconds = None,
      ic_afterHoursVoicemail = False, ic_suspendedOrInactive = False, ic_noticeAllowed = True,
      ic_overCap = False,
      ic_dialTargets = [\<lparr>targetUser = ''ann'', sipUsername = ''ann1''\<rparr>,
                        \<lparr>targetUser = ''bob'', sipUsername = ''bob1''\<rparr>],
      ic_pushAudience = [''ann'']\<rparr>"

definition demo_leg :: "user_id \<Rightarrow> call_control_id \<Rightarrow> leg_status \<Rightarrow> leg_record" where
  "demo_leg u c s =
     \<lparr>key = ''leg:'' @ c, ccid = Some c, legUserId = u, status = s, source = Engine, dialedAtMs = 0,
      sipTarget = sip_uri u\<rparr>"

text \<open>The session a moment later: both phones ring, Telnyx has named both legs.\<close>

definition demo_ringing :: session_machine where
  "demo_ringing =
     (inbound_base demo_context 0)\<lparr>ringDeadlineMs := Some 45000,
        legs := [demo_leg ''ann'' ''c1'' LRinging, demo_leg ''bob'' ''c2'' LRinging]\<rparr>"

definition demo_answered :: session_machine where
  "demo_answered =
     demo_ringing\<lparr>state := Answered, answeredByUserId := Some ''ann'', answeredAtIso := Some ''t'',
        legs := [demo_leg ''ann'' ''c1'' LAnswered, demo_leg ''bob'' ''c2'' LCanceling]\<rparr>"

lemmas demo_defs = demo_answered_def demo_ringing_def demo_leg_def inbound_base_def demo_context_def

lemma demo_states [simp]: "state demo_ringing = Ringing" "state demo_answered = Answered"
  by (simp_all add: demo_defs)


section \<open>Totality and licences\<close>

lemma inbound_hangup_state:
  assumes "\<not> isTerminal (state m)"
  shows "state (fst (reduceInboundHangup m tag stamp p now)) =
      (case tag of Bri \<Rightarrow> EndedAnswered | Vmi \<Rightarrow> EndedMissed
       | Untagged \<Rightarrow> (if state m = Answered then EndedAnswered
           else if state m \<in> {VoicemailGreeting, VoicemailRecording} then EndedMissed
           else missed_or_rejected m))"
  using assms by (cases tag; cases "answerIntent m")
    (auto simp: reduceInboundHangup_def bri_hangup_def untagged_hangup_def Let_def split_beta
      frame_simps)

text \<open>
  C1. T17 totality: an inbound-leg hangup, whatever its tag, resolves the session from every
  non-terminal state. A bri tag means answered, a vmi tag missed; the session hands over one
  terminal merge whose outcome is the new state's, mirrors the new state, arms the purge alarm and
  hangs up every phone that is still ringing.
\<close>

theorem t17_totality:
  assumes "\<not> isTerminal (state m)"
  shows "\<exists>m' effs. reduce (Some m) (InboundHangup tag stamp p) now wall pk = (Some m', effs, None)
     \<and> isTerminal (state m') \<and> settled now (m', effs)
     \<and> (tag = Bri \<longrightarrow> state m' = EndedAnswered) \<and> (tag = Vmi \<longrightarrow> state m' = EndedMissed)
     \<and> (tag = Untagged \<longrightarrow> state m' = (if state m = Answered then EndedAnswered
          else if state m \<in> {VoicemailGreeting, VoicemailRecording} then EndedMissed
          else missed_or_rejected m))
     \<and> (\<forall>l \<in> set (legs m). \<forall>c. rings l c \<longrightarrow> hung_up c effs)"
proof -
  let ?r = "reduceInboundHangup m tag stamp p now"
  have st: "state (fst ?r) =
      (case tag of Bri \<Rightarrow> EndedAnswered | Vmi \<Rightarrow> EndedMissed
       | Untagged \<Rightarrow> (if state m = Answered then EndedAnswered
           else if state m \<in> {VoicemailGreeting, VoicemailRecording} then EndedMissed
           else missed_or_rejected m))"
    by (rule inbound_hangup_state [OF assms])
  then have "isTerminal (state (fst ?r))"
    by (cases tag) (auto simp: missed_or_rejected_def)
  moreover from this have "\<forall>l \<in> set (legs m). \<forall>c. rings l c \<longrightarrow> hung_up c (snd ?r)"
    using silences_hangup [of "\<lambda>_. False" m tag stamp p now] assms by (simp add: silences_def)
  moreover note settled_hangup [OF assms, of now tag stamp p] st
  ultimately show ?thesis
    by (intro exI [of _ "fst ?r"] exI [of _ "snd ?r"]) (cases tag, simp_all add: plain_def)
qed

theorem t17_totality_witness:
  "\<exists>m' effs. reduce (Some demo_ringing) (InboundHangup Untagged None None) 7 7 demo_keys
      = (Some m', effs, None)
     \<and> state m' = EndedMissed \<and> hung_up ''c1'' effs \<and> hung_up ''c2'' effs"
proof -
  have "\<not> isTerminal (state demo_ringing)" by simp
  from t17_totality [OF this, of Untagged None None 7 7 demo_keys] obtain m' effs where
    r: "reduce (Some demo_ringing) (InboundHangup Untagged None None) 7 7 demo_keys
          = (Some m', effs, None)"
    and "state m' = missed_or_rejected demo_ringing"
    and h: "\<forall>l \<in> set (legs demo_ringing). \<forall>c. rings l c \<longrightarrow> hung_up c effs"
    by auto
  then show ?thesis by (auto simp: demo_defs missed_or_rejected_def rings_def)
qed

text \<open>
  C2. Voicemail is entered under a licence only: a step that takes a session into
  \<open>voicemail_greeting\<close> started in \<open>ringing\<close>, and either it is the ring alarm (the one clock-based
  trigger) or no avenue was left: no live leg, no member a push can wake, and nobody waiting in
  the cascade's queue but members who declined.
\<close>

theorem vm_entry_licensed:
  assumes "reduce (Some m) e now wall pk = (Some m', effs, r)"
    and "state m \<noteq> VoicemailGreeting" "state m' = VoicemailGreeting"
  shows "state m = Ringing \<and>
     (e = AlarmRing \<or>
      (\<forall>l \<in> set (legs m'). \<not> is_live l) \<and> pushCapableUserIds m' = []
      \<and> (\<forall>t \<in> set (queuedTargets m). targetUser t \<in> set (declinedUserIds m')))"
proof -
  have s: "step m (e, now, wall, pk) = (m', effs)" by (rule reduce_step [OF assms(1)])
  have "edge_ok (state m) (state m')" using step_edge [of m "(e, now, wall, pk)"] s by simp
  with assms(2,3) have ring: "state m = Ringing"
    by (auto simp: edge_ok_def elim: call_edge.cases)
  show ?thesis
  proof (cases e)
    case (InboundHangup tag stamp p)
    with s ring assms(3) inbound_hangup_state [of m tag stamp p now] show ?thesis
      by (auto simp: missed_or_rejected_def split: inbound_tag.splits if_splits)
  next
    case AlarmRingStep
    let ?w = "filter (\<lambda>t. targetUser t \<notin> set (declinedUserIds m)) (queuedTargets m)"
    show ?thesis
    proof (cases ?w)
      case Nil
      with s AlarmRingStep ring assms(3) show ?thesis
        by (auto simp: on_alarm_ring_step_def Let_def ladder_state exhausted_def liveLegs_def
            filter_empty_conv frame_simps split: if_splits dest!: arg_cong [of _ _ fst])
    next
      case (Cons t ts)
      with s AlarmRingStep ring assms(3) show ?thesis
        by (auto simp: on_alarm_ring_step_def Let_def split_beta frame_simps
            dest!: arg_cong [of _ _ fst] arg_cong [of _ _ state] split: if_splits)
    qed
  qed (use s ring assms(3) in \<open>auto simp: edge_defs Let_def split_beta frame_simps ladder_state
        exhausted_def liveLegs_def filter_empty_conv remove_avenues_def missed_or_rejected_def
        dest!: arg_cong [of _ _ fst] split: if_splits option.splits\<close>)
qed


theorem vm_entry_licensed_witness:
  "\<exists>m' effs r.
     reduce (Some (demo_ringing\<lparr>pushCapableUserIds := [], legs := [demo_leg ''ann'' ''c1'' LRinging]\<rparr>))
       (MemberLegHangup ''c1'' ''ann'' None) 7 7 demo_keys = (Some m', effs, r)
     \<and> state m' = VoicemailGreeting \<and> (\<forall>l \<in> set (legs m'). \<not> is_live l)"
proof -
  let ?m = "demo_ringing\<lparr>pushCapableUserIds := [], legs := [demo_leg ''ann'' ''c1'' LRinging]\<rparr>"
  let ?r = "reduceMemberHangup ?m ''c1'' ''ann'' None"
  have r: "reduce (Some ?m) (MemberLegHangup ''c1'' ''ann'' None) 7 7 demo_keys
      = (Some (fst ?r), snd ?r, None)" by (simp add: plain_def)
  have vm: "state (fst ?r) = VoicemailGreeting"
    by (simp add: reduceMemberHangup_def demo_defs has_ccid_def on_leg_def set_status_def
        runAvenueLadder_def liveLegs_def is_live_iff vmEntry_def Let_def)
  have "state ?m \<noteq> VoicemailGreeting" by (simp add: demo_defs)
  from vm_entry_licensed [OF r this vm] r vm show ?thesis by blast
qed


section \<open>Decliners\<close>

text \<open>
  C3. A member who declined is never dialed again: once a decline was accepted, no run of the
  session, whatever the events, dials a leg for that member, and the refusal stays recorded.
\<close>

theorem decliner_never_dialed:
  assumes "reduce (Some m) (Decline u) now wall pk = (Some m1, effs, Some (DeclineReply True s why))"
    and "e \<in> set (snd (run m1 ss))"
  shows "u \<notin> set (dialed_users e) \<and> u \<in> set (declinedUserIds (fst (run m1 ss)))"
proof -
  have m1: "m1 = fst (reduceDecline m u)" "snd (snd (reduceDecline m u)) = DeclineReply True s why"
    using assms(1) by (simp_all add: with_reply_def)
  then have d: "u \<in> set (declinedUserIds m1)"
    by (auto simp: reduceDecline_def Let_def split_beta frame_simps remove_avenues_def
        split: if_splits)
  have "u \<notin> set (dialed_users e)"
    by (rule declined.run_effects [OF _ d assms(2)]) (auto dest: step_dials)
  with declined.run_inv [OF d] show ?thesis by simp
qed

definition demo_in_turn :: session_machine where
  "demo_in_turn =
     demo_ringing\<lparr>legs := [demo_leg ''ann'' ''c1'' LRinging],
        queuedTargets := [\<lparr>targetUser = ''bob'', sipUsername = ''bob1''\<rparr>,
                          \<lparr>targetUser = ''cy'', sipUsername = ''cy1''\<rparr>]\<rparr>"

theorem decliner_never_dialed_witness:
  "\<exists>m1 effs e. reduce (Some demo_in_turn) (Decline ''bob'') 1 1 demo_keys
      = (Some m1, effs, Some (DeclineReply True Ringing None))
     \<and> e \<in> set (snd (run m1 [(AlarmRingStep, 12000, 12000, demo_keys)]))
     \<and> dialed_users e = [''cy''] \<and> ''bob'' \<notin> set (dialed_users e)"
proof -
  let ?r = "reduceDecline demo_in_turn ''bob''"
  let ?d = "\<lparr>pendingKey = ''leg:pending:'' @ demo_keys 0, dialUserId = ''cy'',
              dialSipTarget = sip_uri ''cy1'', dialSource = Engine\<rparr>"
  have r: "reduce (Some demo_in_turn) (Decline ''bob'') 1 1 demo_keys
      = (Some (fst ?r), fst (snd ?r), Some (DeclineReply True Ringing None))"
    by (simp add: with_reply_def reduceDecline_def wasRingTarget_def remove_avenues_def
        runAvenueLadder_def liveLegs_def drop_user_leg_def is_live_iff demo_in_turn_def demo_defs)
  have e: "TelnyxDial [?d] \<in> set (snd (run (fst ?r) [(AlarmRingStep, 12000, 12000, demo_keys)]))"
    by (simp add: reduceDecline_def wasRingTarget_def remove_avenues_def runAvenueLadder_def
        liveLegs_def drop_user_leg_def is_live_iff demo_in_turn_def demo_defs on_alarm_ring_step_def
        dialLegFor_def MAX_LEGS_PER_SESSION_def Let_def)
  have "dialed_users (TelnyxDial [?d]) = [''cy'']" by simp
  with decliner_never_dialed [OF r e] r e show ?thesis by blast
qed

definition avenues :: "session_machine \<Rightarrow> user_id set" where
  "avenues m = legUserId ` set (liveLegs m) \<union> targetUser ` set (queuedTargets m)
     \<union> set (pushCapableUserIds m)"

lemma exhausted_avenues: "exhausted m \<longleftrightarrow> avenues m = {}"
  by (auto simp: exhausted_def avenues_def)

lemma live_users_drop:
  "map legUserId (filter is_live (map (drop_user_leg u) ls))
     = filter (\<lambda>v. v \<noteq> u) (map legUserId (filter is_live ls))"
  by (induction ls) (auto simp: leg_simps)

lemma avenues_remove: "avenues (remove_avenues m u) = avenues m - {u}"
proof -
  have "legUserId ` set (filter is_live (map (drop_user_leg u) (legs m)))
      = legUserId ` set (filter is_live (legs m)) - {u}"
    using arg_cong [OF live_users_drop [of u "legs m"], of set] by (auto simp only: set_map set_filter)
  then show ?thesis by (auto simp: avenues_def remove_avenues_def liveLegs_def)
qed

lemma avenues_ladder: "avenues (fst (runAvenueLadder m)) = avenues m"
proof (cases rule: ladder_cases [of m])
  case stay
  then show ?thesis by simp
next
  case enter
  then have "avenues m = {}" by (simp add: exhausted_avenues)
  with enter show ?thesis by (auto simp: avenues_def liveLegs_def vmEntry_def)
qed

text \<open>
  C4. A decline is exactly the removal of one member from the avenues of the call. The avenues are
  the members behind a live leg, a queued phone or a push; an accepted decline removes the
  decliner from them and nobody else, sends the caller to voicemail precisely when none is left,
  and hangs up no leg but the decliner's own. A member the ring never reached is refused, and a
  session that is not ringing answers so; both leave everything as it was.
\<close>

theorem decline_removes_one_avenue:
  "reduce (Some m) (Decline u) now wall pk =
     (let m1 = fst (reduceDecline m u)
      in (Some m1, fst (snd (reduceDecline m u)),
          Some (if state m \<noteq> Ringing then DeclineReply False (state m) (Some DeclineNotRinging)
                else if \<not> wasRingTarget m u then DeclineReply False Ringing (Some NotATarget)
                else DeclineReply True
                       (if avenues m - {u} = {} then VoicemailGreeting else Ringing) None)))
   \<and> (if state m = Ringing \<and> wasRingTarget m u
      then avenues (fst (reduceDecline m u)) = avenues m - {u}
           \<and> state (fst (reduceDecline m u))
             = (if avenues m - {u} = {} then VoicemailGreeting else Ringing)
           \<and> {c. hung_up c (fst (snd (reduceDecline m u)))}
             = {c. \<exists>l \<in> set (legs m). legUserId l = u \<and> is_live l \<and> ccid l = Some c \<and> c \<noteq> []}
      else fst (reduceDecline m u) = m \<and> fst (snd (reduceDecline m u)) = [])"
proof -
  let ?n = "remove_avenues m u"
  have st: "state (fst (runAvenueLadder ?n))
      = (if avenues m - {u} = {} then VoicemailGreeting else Ringing)" if "state m = Ringing"
    using that by (simp add: ladder_state exhausted_avenues avenues_remove) (simp add: remove_avenues_def)
  have quiet: "\<not> hung_up c (snd (runAvenueLadder ?n))" for c
    using ladder_effects [of ?n] vmEntry_effects [of ?n] by (fastforce simp: hung_up_def)
  have own: "hung_up c (drop_user_hangups u (legs m)) \<longleftrightarrow>
      (\<exists>l \<in> set (legs m). legUserId l = u \<and> is_live l \<and> ccid l = Some c \<and> c \<noteq> [])" for c
    by (auto simp: hung_up_def drop_user_hangups_def set_when_truthy split: if_splits)
  show ?thesis
    by (auto simp: with_reply_def reduceDecline_def Let_def split_beta st quiet own avenues_ladder
        avenues_remove)
qed


section \<open>ring-me\<close>

definition ring_me_admits :: "session_machine \<Rightarrow> user_id \<Rightarrow> bool \<Rightarrow> ms \<Rightarrow> bool" where
  "ring_me_admits m u nl now \<longleftrightarrow>
     state m = Ringing \<and> u \<notin> set (declinedUserIds m)
     \<and> \<not> (\<not> nl \<and> filter (\<lambda>l. legUserId l = u \<and> is_live l) (legs m) \<noteq> [])
     \<and> \<not> (nl \<and> (\<exists>l \<in> set (filter (\<lambda>l. legUserId l = u \<and> is_live l) (legs m)).
           source l = RingMeSource \<and> now - dialedAtMs l < RING_ME_DEBOUNCE_MS))
     \<and> \<not> MAX_LEGS_PER_SESSION \<le> length (legs m)"

lemma ring_me_refusal:
  assumes "\<not> ring_me_admits m u nl now"
  shows "\<exists>why. reduceRingMe m u sipu nl now pk = (m, [], RingMeReply False (state m) (Some why) None)
     \<or> reduceRingMe m u sipu nl now pk
       = (m, [Warn WarnRingMeAtLegCap], RingMeReply False (state m) (Some why) None)"
proof -
  let ?live = "filter (\<lambda>l. legUserId l = u \<and> is_live l) (legs m)"
  let ?recent = "\<exists>l \<in> set ?live. source l = RingMeSource \<and> now - dialedAtMs l < RING_ME_DEBOUNCE_MS"
  consider "state m \<noteq> Ringing" | "state m = Ringing" "u \<in> set (declinedUserIds m)"
    | "state m = Ringing" "u \<notin> set (declinedUserIds m)" "\<not> nl \<and> ?live \<noteq> []"
    | "state m = Ringing" "u \<notin> set (declinedUserIds m)" "\<not> (\<not> nl \<and> ?live \<noteq> [])" "nl \<and> ?recent"
    | "state m = Ringing" "u \<notin> set (declinedUserIds m)" "\<not> (\<not> nl \<and> ?live \<noteq> [])"
      "\<not> (nl \<and> ?recent)" "MAX_LEGS_PER_SESSION \<le> length (legs m)"
    using assms unfolding ring_me_admits_def by argo
  then show ?thesis
  proof cases
    case 1
    then show ?thesis by (intro exI [of _ NotRinging]) (simp add: reduceRingMe_def Let_def)
  next
    case 2
    then show ?thesis by (intro exI [of _ Declined]) (simp add: reduceRingMe_def Let_def)
  next
    case 3
    then show ?thesis
      unfolding reduceRingMe_def Let_def
      by (intro exI [of _ LiveLeg] disjI1) (simp only: if_True if_False not_True_eq_False simp_thms)
  next
    case 4
    then show ?thesis
      unfolding reduceRingMe_def Let_def
      by (intro exI [of _ RecentLeg] disjI1) (simp only: if_True if_False not_True_eq_False simp_thms)
  next
    case 5
    then show ?thesis
      unfolding reduceRingMe_def Let_def
      by (intro exI [of _ DialFailed] disjI2) (simp only: if_True if_False not_True_eq_False simp_thms)
  qed
qed

text \<open>
  ring-me is additive. It changes nothing of a session but may append one dialing leg of the
  requester's; it never hangs up, cancels, answers or mirrors anything; it dials exactly when it
  replies that it rang, and then only for a ringing session below the leg cap and a requester who
  never declined.
\<close>

theorem ring_me_additive:
  "(\<exists>why effs. reduce (Some m) (RingMe u sipu nl) now wall pk
        = (Some m, effs, Some (RingMeReply False (state m) (Some why) None))
      \<and> set effs \<subseteq> {Warn WarnRingMeAtLegCap})
   \<or> (\<exists>l d. reduce (Some m) (RingMe u sipu nl) now wall pk
        = (Some (m\<lparr>legs := legs m @ [l]\<rparr>), [TelnyxDial [d]],
           Some (RingMeReply True Ringing None (Some (pendingKey d))))
      \<and> state m = Ringing \<and> u \<notin> set (declinedUserIds m) \<and> length (legs m) < MAX_LEGS_PER_SESSION
      \<and> l = pending_leg (pendingKey d) u RingMeSource now (dialSipTarget d)
      \<and> dialUserId d = u \<and> dialSource d = RingMeSource
      \<and> (\<not> nl \<longrightarrow> (\<forall>k \<in> set (legs m). legUserId k = u \<longrightarrow> \<not> is_live k)))"
  (is "?refused \<or> ?rang")
proof (cases "ring_me_admits m u nl now")
  case False
  from ring_me_refusal [OF this, of sipu pk] obtain why where
    "reduceRingMe m u sipu nl now pk = (m, [], RingMeReply False (state m) (Some why) None)
     \<or> reduceRingMe m u sipu nl now pk
       = (m, [Warn WarnRingMeAtLegCap], RingMeReply False (state m) (Some why) None)" by blast
  then have ?refused by (elim disjE) (simp_all add: with_reply_def)
  then show ?thesis ..
next
  case True
  note True = True [unfolded ring_me_admits_def]
  then have live: "\<not> nl \<longrightarrow> (\<forall>k \<in> set (legs m). legUserId k = u \<longrightarrow> \<not> is_live k)"
    by (auto simp: filter_empty_conv)
  let ?key = "''leg:pending:'' @ pk 0"
  from True have "reduceRingMe m u sipu nl now pk =
      (m\<lparr>legs := legs m @ [pending_leg ?key u RingMeSource now (sip_uri sipu)]\<rparr>,
       [TelnyxDial [\<lparr>pendingKey = ?key, dialUserId = u, dialSipTarget = sip_uri sipu,
                     dialSource = RingMeSource\<rparr>]],
       RingMeReply True Ringing None (Some ?key))"
    unfolding reduceRingMe_def Let_def by simp
  with True live have ?rang
    by (intro exI [of _ "pending_leg ?key u RingMeSource now (sip_uri sipu)"]
        exI [of _ "\<lparr>pendingKey = ?key, dialUserId = u, dialSipTarget = sip_uri sipu,
                    dialSource = RingMeSource\<rparr>"]) (simp add: with_reply_def)
  then show ?thesis ..
qed

theorem ring_me_additive_witness:
  "\<exists>why effs. reduce (Some demo_ringing) (RingMe ''ann'' ''ann1'' False) 7 7 demo_keys
     = (Some demo_ringing, effs, Some (RingMeReply False Ringing (Some why) None))"
  using ring_me_additive [of demo_ringing "''ann''" "''ann1''" False 7 7 demo_keys]
  by (auto simp: demo_defs is_live_iff)


section \<open>The abstract state graph\<close>

text \<open>
  C6. The machine refines the abstract state graph: whatever the event, a live session stays a
  session, and its state either stays or moves along an edge of \<open>call_edge\<close>. In particular
  \<open>ended_answered\<close>, \<open>ended_voicemail\<close> and \<open>ended_rejected\<close> are final, and \<open>ended_missed\<close> can only be
  upgraded.
\<close>

theorem call_graph_refined:
  "\<exists>m' effs r. reduce (Some m) e now wall pk = (Some m', effs, r)
     \<and> (state m' = state m \<or> call_edge (state m) (state m'))
     \<and> (state m \<in> {EndedAnswered, EndedVoicemail, EndedRejected} \<longrightarrow> state m' = state m)
     \<and> (state m = EndedMissed \<longrightarrow> state m' \<in> {EndedMissed, EndedAnswered, EndedVoicemail})"
proof -
  obtain m' effs r where r: "reduce (Some m) e now wall pk = (Some m', effs, r)"
    using reduce_live_Some [of m e now wall pk] by (metis prod.collapse reduce_Some)
  have "edge_ok (state m) (state m')"
    using step_edge [of m "(e, now, wall, pk)"] reduce_step [OF r] by simp
  with r show ?thesis by (intro exI [of _ m'] exI [of _ effs] exI [of _ r]) (auto simp: edge_ok_def)
qed

theorem call_graph_refined_witness:
  "\<exists>m' effs r. reduce (Some (demo_ringing\<lparr>state := EndedRejected\<rparr>)) AlarmRing 7 7 demo_keys
     = (Some m', effs, r) \<and> state m' = EndedRejected"
proof -
  have "state (demo_ringing\<lparr>state := EndedRejected\<rparr>) = EndedRejected" by simp
  with call_graph_refined [of "demo_ringing\<lparr>state := EndedRejected\<rparr>" AlarmRing 7 7 demo_keys]
  show ?thesis by auto
qed

text \<open>
  A call changes state at most four times, in any run of any length: the machine cannot
  oscillate, so a row's state column converges whatever Telnyx redelivers.
\<close>

theorem at_most_four_moves:
  "state_changes m ss + rank (state m) \<le> 4"
  using state_changes_bound [of m ss] rank_le [of "state (fst (run m ss))"] by simp




section \<open>Bounds and stamps over whole runs\<close>

text \<open>
  No run of a session that began with an inbound call holds more than
  \<open>MAX_LEGS_PER_SESSION\<close> legs: not the ring start, not ring-me, not the cascade.
\<close>

theorem inbound_leg_cap:
  "length (legs (fst (run (fst (reduceInitiated cx now pk)) ss))) \<le> MAX_LEGS_PER_SESSION"
  by (rule leg_cap.run_inv [OF initiated_leg_cap])

lemma outbound_anchored: "answer_anchored (fst (reduceOutboundInitiated ox now pk))"
  by (auto simp: answer_anchored_def reduceOutboundInitiated_def outbound_base_def Let_def
      split: option.splits)

text \<open>
  The billing anchor: in every run of a session, inbound or outbound, a session in
  \<open>answered\<close> carries the instant at which it was answered.
\<close>

theorem answered_is_stamped:
  assumes "reduce None e now wall pk = (Some m, effs, r)" "state (fst (run m ss)) = Answered"
  shows "\<exists>ts. answeredAtIso (fst (run m ss)) = Some ts"
proof -
  have "answer_anchored m"
    using assms(1) initiated_anchored outbound_anchored
    by (cases e) (auto simp: reduce_def plain_def)
  then have "answer_anchored (fst (run m ss))" by (rule anchored.run_inv)
  with assms(2) show ?thesis by (auto simp: answer_anchored_def)
qed

definition demo_outbound :: outbound_context where
  "demo_outbound =
     \<lparr>oc_callSessionId = ''s2'', oc_customerCcid = ''oc'', oc_companyId = ''co'',
      oc_phoneNumberId = ''pn'', oc_userId = Some ''ann'', oc_placerSipUsername = Some ''ann1'',
      oc_customer = Some ''+15550001'', oc_businessNumberE164 = Some ''+15550002''\<rparr>"

theorem answered_is_stamped_witness:
  "\<exists>m effs ts. reduce None (OutboundInitiated demo_outbound) 0 0 demo_keys = (Some m, effs, None)
     \<and> answeredAtIso (fst (run m [(OutboundAnswered, 5, 5, demo_keys)])) = Some ts"
proof -
  let ?r = "reduceOutboundInitiated demo_outbound 0 demo_keys"
  have r: "reduce None (OutboundInitiated demo_outbound) 0 0 demo_keys = (Some (fst ?r), snd ?r, None)"
    by (simp add: reduce_def plain_def)
  have "state (fst (run (fst ?r) [(OutboundAnswered, 5, 5, demo_keys)])) = Answered"
    by (simp add: reduceOutboundInitiated_def demo_outbound_def outbound_base_def Let_def
        on_outbound_answered_def)
  from answered_is_stamped [OF r this] r show ?thesis by blast
qed

end
