(* ===== verification/Call_Flows.thy ===== *)
theory Call_Flows
  imports Call_Claims
begin

text \<open>
  Claims about whole flows of the calls machine: how an inbound call is routed when it arrives,
  who is dialed at ring start, the crash window of an answer, an owner that dies during a
  transfer, and a suspended line that a decline reaches.
\<close>


section \<open>Ring start\<close>

lemma mset_drop_take: "mset (drop n xs @ take n xs) = mset xs"
  by (metis append_take_drop_id mset_append union_commute)

lemma mset_rotate [simp]: "mset (rotateForFairness xs seed) = mset xs"
  by (simp only: rotateForFairness_def Let_def mset_drop_take split: if_splits) simp

lemma distinct_rotate: "distinct (rotateForFairness xs seed) \<longleftrightarrow> distinct xs"
  by (metis mset_rotate mset_eq_imp_distinct_iff)

lemma set_rotate: "set (rotateForFairness xs seed) = set xs"
  by (metis mset_rotate mset_eq_setD)

definition dialed_in :: "effect list \<Rightarrow> user_id list" where
  "dialed_in es = concat (map dialed_users es)"

lemma dialed_in_simps [simp]:
  "dialed_in [] = []"
  "dialed_in (e # es) = dialed_users e @ dialed_in es"
  "dialed_in (es @ fs) = dialed_in es @ dialed_in fs"
  by (simp_all add: dialed_in_def)

lemma dialed_in_silent: "silent es \<Longrightarrow> dialed_in es = []"
  by (auto simp: silent_def dialed_in_def)

lemma dialed_in_armRingStep [simp]: "dialed_in (armRingStep m now) = []"
  by (rule dialed_in_silent) simp

lemma dialed_in_vmEntry [simp]: "dialed_in (snd (vmEntry m)) = []"
  by (rule dialed_in_silent) simp

definition ring_now :: "initiated_context \<Rightarrow> dial_target list" where
  "ring_now cx =
     (if ic_ringStrategy cx = RingInTurn \<and> length (ring_targets cx) > 1
      then take 1 (ring_targets cx) else ring_targets cx)"

lemma ring_start_eq:
  "ring_start cx base now pk =
     (let r = dialLegs (base\<lparr>queuedTargets := drop (length (ring_now cx)) (ring_targets cx)\<rparr>)
                (ring_now cx) now pk 0;
          deadline = now + ringWindowMs (ic_ringSeconds cx);
          m = (fst r)\<lparr>ringDeadlineMs := Some deadline\<rparr>
      in (m,
          (if length (ic_dialTargets cx) > MAX_LEGS_PER_SESSION
           then [Warn (WarnRingStartOverLegCap (length (ic_dialTargets cx)))] else [])
          @ [Mirror (mirror_state Ringing) False]
          @ (if snd r = [] then [] else [TelnyxDial (snd r)])
          @ [PushFanout (ic_pushAudience cx), ArmAlarm FanoutSettleAlarm (now + FANOUT_SETTLE_MS),
             ArmAlarm RingAlarm deadline]
          @ armRingStep m now))"
  by (simp only: ring_start_def ring_now_def Let_def split_beta)

lemma ring_start_dialed: "dialed_in (snd (ring_start cx base now pk)) = map targetUser (ring_now cx)"
proof -
  let ?b = "base\<lparr>queuedTargets := drop (length (ring_now cx)) (ring_targets cx)\<rparr>"
  have u: "map dialUserId (snd (dialLegs ?b (ring_now cx) now pk 0)) = map targetUser (ring_now cx)"
    by (rule dialLegs_users)
  show ?thesis
  proof (cases "snd (dialLegs ?b (ring_now cx) now pk 0) = []")
    case True
    with u have "map targetUser (ring_now cx) = []" by simp
    with True show ?thesis by (simp add: ring_start_eq Let_def)
  next
    case False
    with u show ?thesis by (simp add: ring_start_eq Let_def)
  qed
qed

lemma ring_start_queue:
  "queuedTargets (fst (ring_start cx base now pk)) = drop (length (ring_now cx)) (ring_targets cx)"
  by (simp add: ring_start_eq Let_def frame_simps)

text \<open>
  Routing of an arriving call. A busy line, a screened caller or an after-hours line set to
  voicemail goes straight to the greeting; a suspended line and a line over its cap stay in
  \<open>ringing\<close> with the reason recorded; a line with nobody to reach goes to the greeting; only
  otherwise does it ring. No leg is dialed and nothing queued on any path but the last.
\<close>

theorem initiated_routing:
  "\<exists>m effs. reduce None (Initiated cx) now wall pk = (Some m, effs, None)
     \<and> (let greet = (ic_lineBusy cx \<or> ic_screeningDivert cx \<or> ic_afterHoursVoicemail cx);
            suspended = (\<not> greet \<and> ic_suspendedOrInactive cx);
            capped = (\<not> greet \<and> \<not> suspended \<and> ic_overCap cx);
            nobody = (ic_dialTargets cx = [] \<and> ic_pushAudience cx = []);
            ringing = (\<not> greet \<and> \<not> suspended \<and> \<not> capped \<and> \<not> nobody)
        in state m = (if ringing \<or> suspended \<or> capped then Ringing else VoicemailGreeting)
           \<and> unattended m = suspended \<and> rejectedForCap m = capped
           \<and> noticeSpoken m = (suspended \<and> ic_noticeAllowed cx \<and> ic_inboundCcid cx \<noteq> [])
           \<and> dialed_in effs = (if ringing then map targetUser (ring_now cx) else [])
           \<and> queuedTargets m = (if ringing then drop (length (ring_now cx)) (ring_targets cx) else []))"
proof -
  let ?r = "reduceInitiated cx now pk"
  have f: "unattended (fst (ring_start cx b now pk)) = unattended b
      \<and> rejectedForCap (fst (ring_start cx b now pk)) = rejectedForCap b
      \<and> noticeSpoken (fst (ring_start cx b now pk)) = noticeSpoken b
      \<and> state (fst (ring_start cx b now pk)) = state b" for b
  proof -
    have "unattended (fst (dialLegs n ts now pk i)) = unattended n
        \<and> rejectedForCap (fst (dialLegs n ts now pk i)) = rejectedForCap n
        \<and> noticeSpoken (fst (dialLegs n ts now pk i)) = noticeSpoken n" for n ts i
      by (induction ts arbitrary: n i) (simp_all add: dialLegFor_def Let_def split_beta)
    then show ?thesis by (simp add: ring_start_def Let_def split_beta frame_simps)
  qed
  have vm: "unattended (fst (vmEntry b)) = unattended b" for b by (simp add: vmEntry_def)
  have "reduce None (Initiated cx) now wall pk = (Some (fst ?r), snd ?r, None)"
    by (simp add: reduce_def plain_def)
  then show ?thesis
    by (intro exI [of _ "fst ?r"] exI [of _ "snd ?r"])
       (simp add: reduceInitiated_def suspended_start_def Let_def split_beta f vm frame_simps
         ring_start_dialed ring_start_queue, simp add: inbound_base_def)
qed

text \<open>
  Fair and bounded fan-out. The targets of a ring start are the eligible members, all of them
  when they fit under \<open>MAX_LEGS_PER_SESSION\<close>, else that many of them chosen by the session's
  rotation; nobody is rung twice, and under \<open>in_turn\<close> the phones dialed now and the phones queued
  are exactly these targets in order.
\<close>

theorem ring_targets_fair:
  assumes "distinct (ic_dialTargets cx)"
  shows "distinct (ring_targets cx) \<and> set (ring_targets cx) \<subseteq> set (ic_dialTargets cx)
     \<and> length (ring_targets cx) = min (length (ic_dialTargets cx)) MAX_LEGS_PER_SESSION
     \<and> ring_now cx @ drop (length (ring_now cx)) (ring_targets cx) = ring_targets cx"
proof -
  let ?rot = "rotateForFairness (ic_dialTargets cx) (ic_callSessionId cx)"
  have len: "length ?rot = length (ic_dialTargets cx)"
    by (metis mset_rotate size_mset)
  have "set (take n ?rot) \<subseteq> set (ic_dialTargets cx)" for n
    by (metis set_rotate set_take_subset)
  moreover have "ring_now cx @ drop (length (ring_now cx)) (ring_targets cx) = ring_targets cx"
    by (simp add: ring_now_def)
  ultimately show ?thesis using assms len
    by (simp add: ring_targets_def Let_def distinct_rotate distinct_take min_def)
qed

theorem ring_targets_fair_witness:
  "length (ring_targets demo_context) = 2 \<and> distinct (ring_targets demo_context)"
proof -
  have "distinct (ic_dialTargets demo_context)" by (simp add: demo_context_def)
  from ring_targets_fair [OF this] show ?thesis
    by (simp add: demo_context_def MAX_LEGS_PER_SESSION_def)
qed

lemma ringWindowMs_bounds: "10000 \<le> ringWindowMs x \<and> ringWindowMs x \<le> 45000"
  by (auto simp: ringWindowMs_def RING_WINDOW_SECS_def split: option.splits)

text \<open>
  The window. The ring alarm of an arriving call is set between 10 and 45 seconds ahead and is
  the deadline the machine keeps, and no cascade step is ever armed at or past that deadline.
\<close>

theorem ring_window_bounds:
  assumes "ArmAlarm RingAlarm t \<in> set (snd (reduceInitiated cx now pk))"
  shows "now + 10000 \<le> t \<and> t \<le> now + 45000
     \<and> ringDeadlineMs (fst (reduceInitiated cx now pk)) = Some t
     \<and> (\<forall>t'. ArmAlarm RingStepAlarm t' \<in> set (snd (reduceInitiated cx now pk)) \<longrightarrow> t' < t)"
proof -
  let ?base = "inbound_base cx now"
  have vm: "ArmAlarm a t' \<notin> set (snd (vmEntry b))" for a t' b
    using vmEntry_effects [of b] by auto
  have path: "snd (reduceInitiated cx now pk)
        = ArmAlarm JanitorAlarm (now + JANITOR_MS) # snd (ring_start cx ?base now pk)
      \<and> fst (reduceInitiated cx now pk) = fst (ring_start cx ?base now pk)"
    using assms
    by (auto simp: reduceInitiated_def suspended_start_def Let_def split_beta vm split: if_splits)
  let ?m = "fst (ring_start cx ?base now pk)"
  have dl: "ringDeadlineMs ?m = Some (now + ringWindowMs (ic_ringSeconds cx))"
    by (simp add: ring_start_eq Let_def)
  have t: "t = now + ringWindowMs (ic_ringSeconds cx)"
    using assms path
    by (auto simp: ring_start_eq Let_def split: if_splits dest!: armRingStep_effects)
  moreover have "t' < t" if "ArmAlarm RingStepAlarm t' \<in> set (snd (reduceInitiated cx now pk))" for t'
  proof -
    from that path have "ArmAlarm RingStepAlarm t' \<in> set (armRingStep ?m now)"
      by (auto simp: ring_start_eq Let_def split: if_splits)
    from armRingStep_bound [OF this dl] t show ?thesis by simp
  qed
  ultimately show ?thesis using ringWindowMs_bounds [of "ic_ringSeconds cx"] dl path by auto
qed

theorem ring_window_bounds_witness:
  "ArmAlarm RingAlarm 45000 \<in> set (snd (reduceInitiated demo_context 0 demo_keys))
   \<and> ringDeadlineMs (fst (reduceInitiated demo_context 0 demo_keys)) = Some 45000"
proof -
  have "ArmAlarm RingAlarm 45000 \<in> set (snd (reduceInitiated demo_context 0 demo_keys))"
    by (simp add: reduceInitiated_def ring_start_def demo_context_def Let_def split_beta
        ringWindowMs_def RING_WINDOW_SECS_def)
  from this ring_window_bounds [OF this] show ?thesis by simp
qed


section \<open>The crash window of an answer\<close>

text \<open>
  An answer whose outcome we lost is still attributed. When the answer of the customer's leg
  is discriminated dead, the session resolves to \<open>ended_missed\<close> but keeps the answer intent; a
  bri-tagged hangup that arrives after it upgrades it to \<open>ended_answered\<close> with the intent's member
  and instant, and hands over one merge for an answered call, anchored at that instant.
\<close>

theorem crash_window_upgrade:
  assumes "state m = Ringing" "\<not> rejectedForCap m" "answerIntent m = Some ai"
    and "reduce (Some m) (AnswerOutcome False c u ts) now wall pk = (Some m1, effs1, r1)"
    and "reduce (Some m1) (InboundHangup Bri None p) now2 wall2 pk2 = (Some m2, effs2, r2)"
  shows "state m1 = EndedMissed \<and> answerIntent m1 = Some ai
     \<and> state m2 = EndedAnswered
     \<and> answeredByUserId m2 = Some (intentUserId ai)
     \<and> answeredAtIso m2 = Some (intentAnsweredAtIso ai)
     \<and> filter is_terminal_merge effs2
        = [TerminalMerge EventMerge OutcomeAnswered p (Some (intentAnsweredAtIso ai))]"
proof -
  have m1: "m1 = fst (reduceAnswerOutcome m False c u ts now)"
    using assms(4) by (simp add: plain_def)
  with assms(1-3) have s1: "state m1 = EndedMissed" "answerIntent m1 = Some ai"
    by (auto simp: reduceAnswerOutcome_def Let_def split_beta frame_simps missed_or_rejected_def)
  from assms(5) s1 have "m2 = fst (upgrade_missed m1 None p)" "effs2 = snd (upgrade_missed m1 None p)"
    by (simp_all add: plain_def reduceInboundHangup_def)
  with s1 show ?thesis by (simp add: upgrade_missed_def bri_anchor_def Let_def)
qed

theorem crash_window_upgrade_witness:
  "\<exists>m1 m2 effs1 effs2 r1 r2.
     reduce (Some (demo_ringing\<lparr>answerIntent := Some \<lparr>memberCcid = ''c1'', intentUserId = ''ann'',
        intentAnsweredAtIso = ''t''\<rparr>\<rparr>)) (AnswerOutcome False ''c1'' ''ann'' ''t'') 7 7 demo_keys
       = (Some m1, effs1, r1)
     \<and> reduce (Some m1) (InboundHangup Bri None None) 8 8 demo_keys = (Some m2, effs2, r2)
     \<and> state m1 = EndedMissed \<and> state m2 = EndedAnswered \<and> answeredByUserId m2 = Some ''ann''"
proof -
  let ?ai = "\<lparr>memberCcid = ''c1'', intentUserId = ''ann'', intentAnsweredAtIso = ''t''\<rparr>"
  let ?m = "demo_ringing\<lparr>answerIntent := Some ?ai\<rparr>"
  obtain m1 effs1 r1 where
    1: "reduce (Some ?m) (AnswerOutcome False ''c1'' ''ann'' ''t'') 7 7 demo_keys = (Some m1, effs1, r1)"
    using reduce_ex [of ?m "AnswerOutcome False ''c1'' ''ann'' ''t''" 7 7 demo_keys] by blast
  obtain m2 effs2 r2 where
    2: "reduce (Some m1) (InboundHangup Bri None None) 8 8 demo_keys = (Some m2, effs2, r2)"
    using reduce_ex [of m1 "InboundHangup Bri None None" 8 8 demo_keys] by blast
  have "state ?m = Ringing" "\<not> rejectedForCap ?m" "answerIntent ?m = Some ?ai"
    by (simp_all add: demo_defs)
  from crash_window_upgrade [OF this 1 2] 1 2 show ?thesis by auto
qed


section \<open>An owner that dies during a transfer\<close>

lemma no_teardown: "ownerLegDeadDuringIntent m = None \<Longrightarrow> snd (on_clear_intent m) = [ClearAlarm IntentExpiryAlarm]"
  by (simp add: on_clear_intent_def Let_def)

text \<open>
  A transfer never strands the customer. When the answered owner's leg dies while an intent is
  live, the session stands down (no command is sent) but remembers it: unless the owner was
  changed meanwhile, clearing the intent, or its expiry alarm, hangs up the customer's leg; if
  the transfer had moved the owner, nothing is hung up.
\<close>

theorem stood_down_owner:
  assumes "state m = Answered" "answeredByUserId m = Some u" "intent m = Some i"
    and "List.find (has_ccid c) (legs m) = Some leg" "status leg = LAnswered"
    and "customerCcid m = Some cust" "cust \<noteq> []"
    and "reduce (Some m) (MemberLegHangup c u dest) now wall pk = (Some m1, effs, r)"
    and "e = ClearIntent \<or> e = AlarmIntentExpiry"
  shows "effs = [] \<and> state m1 = Answered
     \<and> TelnyxHangup cust True \<in> set (snd (run m1 [(e, now2, wall2, pk2)]))
     \<and> snd (run m1 [(SetOwner v, now1, wall1, pk1), (e, now2, wall2, pk2)])
        = [Mirror (no_mirror\<lparr>mirrorAnsweredBy := Some (Some v)\<rparr>) False, ClearAlarm IntentExpiryAlarm]"
proof -
  have m1: "m1 = (on_leg (has_ccid c) (set_status LDead) m)\<lparr>ownerLegDeadDuringIntent := Some u\<rparr>"
    "effs = []"
    using assms(1-5,8) by (auto simp: plain_def reduceMemberHangup_def Let_def frame_simps)
  have "state m1 = Answered" using m1 assms(1) by (simp add: on_leg_def)
  moreover have "TelnyxHangup cust True \<in> set (snd (run m1 [(e, now2, wall2, pk2)]))"
    using m1 assms(1,2,6,7,9)
    by (auto simp: on_clear_intent_def ownerDeathTeardown_def on_leg_def Let_def)
  moreover have "snd (run m1 [(SetOwner v, now1, wall1, pk1), (e, now2, wall2, pk2)])
      = [Mirror (no_mirror\<lparr>mirrorAnsweredBy := Some (Some v)\<rparr>) False, ClearAlarm IntentExpiryAlarm]"
    using assms(9) by (auto simp: on_set_owner_def Let_def split_beta no_teardown)
  ultimately show ?thesis using m1 by simp
qed

theorem stood_down_owner_witness:
  "\<exists>m1 effs r. reduce (Some (demo_answered\<lparr>intent := Some \<lparr>intentKind = Transfer,
        targetUserId = ''bob''\<rparr>\<rparr>)) (MemberLegHangup ''c1'' ''ann'' None) 7 7 demo_keys
       = (Some m1, effs, r) \<and> effs = []
     \<and> TelnyxHangup ''cust'' True \<in> set (snd (run m1 [(AlarmIntentExpiry, 9, 9, demo_keys)]))"
proof -
  let ?i = "\<lparr>intentKind = Transfer, targetUserId = ''bob''\<rparr>"
  let ?m = "demo_answered\<lparr>intent := Some ?i\<rparr>"
  obtain m1 effs r where
    1: "reduce (Some ?m) (MemberLegHangup ''c1'' ''ann'' None) 7 7 demo_keys = (Some m1, effs, r)"
    using reduce_ex [of ?m "MemberLegHangup ''c1'' ''ann'' None" 7 7 demo_keys] by blast
  have "state ?m = Answered" "answeredByUserId ?m = Some ''ann''" "intent ?m = Some ?i"
    "List.find (has_ccid ''c1'') (legs ?m) = Some (demo_leg ''ann'' ''c1'' LAnswered)"
    "status (demo_leg ''ann'' ''c1'' LAnswered) = LAnswered"
    "customerCcid ?m = Some ''cust''" "''cust'' \<noteq> []"
    by (simp_all add: demo_defs has_ccid_def)
  from stood_down_owner [OF this 1, of AlarmIntentExpiry 9 9 demo_keys] 1 show ?thesis by auto
qed


section \<open>Outbound calls\<close>

text \<open>
  C16. An outbound call never wedges. From every non-terminal state the hangup of the customer's
  leg resolves it, as answered exactly when an answer was stamped, and every leg the placer or a
  member holds is hung up, answered ones included; the death of the placer's leg before the
  customer answered resolves it as missed and drops the customer.
\<close>

theorem outbound_never_wedges:
  assumes "\<not> isTerminal (state m)" "direction m = Outbound"
  shows "\<exists>m' effs. reduce (Some m) (OutboundHangup p) now wall pk = (Some m', effs, None)
       \<and> state m' = (if answeredAtIso m = None then EndedMissed else EndedAnswered)
       \<and> settled now (m', effs)
       \<and> (\<forall>l \<in> set (legs m). \<forall>c. ccid l = Some c \<and> c \<noteq> []
            \<and> status l \<in> {LDialing, LRinging, LAnswered} \<longrightarrow> hung_up c effs)"
    (is "\<exists>m' effs. ?red m' effs \<and> _")
proof -
  let ?r = "reduceOutboundHangup m p now"
  let ?t = "if answeredAtIso m = None then EndedMissed else EndedAnswered"
  let ?o = "if answeredAtIso m = None then OutcomeMissed else OutcomeAnswered"
  have r: "?r = terminalize m now ?t (Some (TerminalMerge EventMerge ?o p (answeredAtIso m)))
      None no_mirror"
    using assms(1) by (simp add: reduceOutboundHangup_def Let_def)
  have st: "state (fst ?r) = ?t" by (simp only: r frame_simps)
  have "settled now ?r"
    unfolding r by (rule settled_terminalize_plain [OF assms(1)]) simp
  moreover have "hung_up c (snd ?r)"
    if l: "l \<in> set (legs m)" "ccid l = Some c" "c \<noteq> []" "status l \<in> {LDialing, LRinging, LAnswered}" for l c
  proof (cases "status l = LAnswered")
    case True
    then have c: "cancel_leg l = l" by (simp add: cancel_leg_def is_live_iff)
    have "TelnyxHangup c True \<in> set (reap_effects (map cancel_leg (legs m)))"
      unfolding reap_effects_def using l True c by force
    then show ?thesis using assms(2) by (auto simp: r terminalize_eq hung_up_def)
  next
    case False
    with l have "rings l c" by (auto simp: rings_def)
    with l(1) show ?thesis unfolding r by (rule terminalize_silences)
  qed
  ultimately show ?thesis using st
    by (intro exI [of _ "fst ?r"] exI [of _ "snd ?r"]) (simp add: plain_def)
qed

theorem outbound_never_wedges_witness:
  "\<exists>m' effs. reduce (Some (demo_answered\<lparr>direction := Outbound\<rparr>)) (OutboundHangup None) 7 7 demo_keys
      = (Some m', effs, None) \<and> state m' = EndedAnswered \<and> hung_up ''c1'' effs"
proof -
  let ?m = "demo_answered\<lparr>direction := Outbound\<rparr>"
  have "\<not> isTerminal (state ?m)" "direction ?m = Outbound" by (simp_all add: demo_defs)
  from outbound_never_wedges [OF this, of None 7 7 demo_keys] obtain m' effs where
    "reduce (Some ?m) (OutboundHangup None) 7 7 demo_keys = (Some m', effs, None)"
    "state m' = (if answeredAtIso ?m = None then EndedMissed else EndedAnswered)"
    and h: "\<forall>l \<in> set (legs ?m). \<forall>c. ccid l = Some c \<and> c \<noteq> []
            \<and> status l \<in> {LDialing, LRinging, LAnswered} \<longrightarrow> hung_up c effs" by blast
  then show ?thesis by (auto simp: demo_defs)
qed


section \<open>A suspended line\<close>



end
