(* ===== verification/Client_State.thy ===== *)
theory Client_State
  imports Prelude
begin

text \<open>
  The \<open>client_state\<close> vocabulary of the call legs and the gate on outgoing legs:
  \<open>messaging/inbound-ring.ts\<close> (the \<open>brm\<close>, \<open>bri\<close> and \<open>vmi\<close> tags), the outbound tags of
  \<open>messaging/voice-webhook.ts\<close> (\<open>oc_customer\<close> and \<open>op\<close>, leg classification) and
  \<open>calls/outbound-leg-gate.ts\<close>.

  The library comes first: \<open>btoa\<close>, \<open>atob\<close>, \<open>String.prototype.split\<close> by one character and
  \<open>trim\<close>. A string is a list of 8-bit characters, the only strings \<open>btoa\<close> accepts and \<open>atob\<close>
  returns. \<open>Date.parse\<close> has implementation-defined cases, so it is an argument.
\<close>


section \<open>Base 64\<close>

definition b64_alphabet :: string where
  "b64_alphabet = ''ABCDEFGHIJKLMNOPQRSTUVWXYZabcdefghijklmnopqrstuvwxyz0123456789+/''"

definition sextet_char :: "nat \<Rightarrow> char" where
  "sextet_char n = b64_alphabet ! (n mod 64)"

fun index_of :: "char \<Rightarrow> string \<Rightarrow> nat option" where
  "index_of c [] = None"
| "index_of c (d # ds) = (if c = d then Some 0 else map_option Suc (index_of c ds))"

definition char_sextet :: "char \<Rightarrow> nat option" where
  "char_sextet c = index_of c b64_alphabet"

abbreviation byte :: "char \<Rightarrow> nat" where
  "byte c \<equiv> of_char c"

fun btoa :: "string \<Rightarrow> string" where
  "btoa [] = []"
| "btoa [a] = [sextet_char (byte a div 4), sextet_char (byte a mod 4 * 16), CHR ''='', CHR ''='']"
| "btoa [a, b] =
     [sextet_char (byte a div 4), sextet_char (byte a mod 4 * 16 + byte b div 16),
      sextet_char (byte b mod 16 * 4), CHR ''='']"
| "btoa (a # b # c # rest) =
     sextet_char (byte a div 4) # sextet_char (byte a mod 4 * 16 + byte b div 16)
     # sextet_char (byte b mod 16 * 4 + byte c div 64) # sextet_char (byte c mod 64)
     # btoa rest"

text \<open>
  \<open>atob\<close>: drop ASCII white space; a length divisible by four loses up to two trailing \<open>=\<close>; a
  remainder of one, or a character outside the alphabet, throws; left-over bits are discarded.
\<close>

fun sextets :: "string \<Rightarrow> nat list option" where
  "sextets [] = Some []"
| "sextets (c # cs) =
     (case (char_sextet c, sextets cs) of (Some n, Some ns) \<Rightarrow> Some (n # ns) | _ \<Rightarrow> None)"

fun unsextet :: "nat list \<Rightarrow> string" where
  "unsextet (a # b # c # d # rest) =
     char_of (a * 4 + b div 16) # char_of (b mod 16 * 16 + c div 4) # char_of (c mod 4 * 64 + d)
     # unsextet rest"
| "unsextet [a, b, c] = [char_of (a * 4 + b div 16), char_of (b mod 16 * 16 + c div 4)]"
| "unsextet [a, b] = [char_of (a * 4 + b div 16)]"
| "unsextet _ = []"

definition ascii_ws :: "char \<Rightarrow> bool" where
  "ascii_ws c \<longleftrightarrow> byte c \<in> {9, 10, 12, 13, 32}"

definition drop_padding :: "string \<Rightarrow> string" where
  "drop_padding s =
     (if length s mod 4 \<noteq> 0 \<or> s = [] then s
      else if last s \<noteq> CHR ''='' then s
      else let t = butlast s in if t \<noteq> [] \<and> last t = CHR ''='' then butlast t else t)"

definition atob :: "string \<Rightarrow> string option" where
  "atob s = (let t = drop_padding (filter (\<lambda>c. \<not> ascii_ws c) s)
             in if length t mod 4 = 1 then None else map_option unsextet (sextets t))"

lemma index_of_nth:
  "distinct s \<Longrightarrow> n < length s \<Longrightarrow> index_of (s ! n) s = Some n"
  by (induction s arbitrary: n) (auto simp: less_Suc_eq_0_disj)

lemma b64_alphabet_facts: "distinct b64_alphabet" "length b64_alphabet = 64"
  by (simp_all add: b64_alphabet_def)

lemma char_sextet_char [simp]: "char_sextet (sextet_char n) = Some (n mod 64)"
  unfolding char_sextet_def sextet_char_def by (rule index_of_nth) (simp_all add: b64_alphabet_facts)

lemma sextet_char_plain [simp]: "sextet_char n \<noteq> CHR ''=''" "\<not> ascii_ws (sextet_char n)"
proof -
  have "\<forall>c \<in> set b64_alphabet. c \<noteq> CHR ''='' \<and> \<not> ascii_ws c"
    by (simp add: b64_alphabet_def ascii_ws_def)
  moreover have "sextet_char n \<in> set b64_alphabet"
    by (simp add: sextet_char_def b64_alphabet_facts)
  ultimately show "sextet_char n \<noteq> CHR ''=''" "\<not> ascii_ws (sextet_char n)" by blast+
qed

lemma sextet_join:
  fixes x y k :: nat
  shows "x < 256 \<Longrightarrow> k < 16 \<Longrightarrow> x div 4 mod 64 * 4 + (x mod 4 * 16 + k) mod 64 div 16 = x"
    and "y < 256 \<Longrightarrow> k < 4 \<Longrightarrow>
      (x mod 4 * 16 + y div 16) mod 64 mod 16 * 16 + (y mod 16 * 4 + k) mod 64 div 4 = y"
    and "y < 256 \<Longrightarrow> (x mod 16 * 4 + y div 64) mod 64 mod 4 * 64 + y mod 64 = y"
proof -
  assume "x < 256" "k < 16"
  moreover have "x mod 4 < 4" by simp
  ultimately have "x div 4 < 64" "x mod 4 * 16 + k < 64" by linarith+
  then show "x div 4 mod 64 * 4 + (x mod 4 * 16 + k) mod 64 div 16 = x" using \<open>k < 16\<close> by simp
next
  assume y: "y < 256" and k: "k < 4"
  have "x mod 4 < 4" "y mod 16 < 16" by simp_all
  with y k have "x mod 4 * 16 + y div 16 < 64" "y mod 16 * 4 + k < 64" "y div 16 < 16" by linarith+
  then show "(x mod 4 * 16 + y div 16) mod 64 mod 16 * 16 + (y mod 16 * 4 + k) mod 64 div 4 = y"
    using k by simp
next
  assume y: "y < 256"
  have "x mod 16 < 16" by simp
  with y have "x mod 16 * 4 + y div 64 < 64" "y div 64 < 4" by linarith+
  then show "(x mod 16 * 4 + y div 64) mod 64 mod 4 * 64 + y mod 64 = y" by simp
qed

lemma btoa_length: "length (btoa s) mod 4 = 0"
  by (induction s rule: btoa.induct) simp_all

lemma btoa_no_ws: "filter (\<lambda>c. \<not> ascii_ws c) (btoa s) = btoa s"
  by (induction s rule: btoa.induct) (simp_all add: ascii_ws_def [of "CHR ''=''"])

lemma btoa_nonempty [simp]: "btoa s = [] \<longleftrightarrow> s = []"
  by (cases s rule: btoa.cases) simp_all

lemma drop_padding_append:
  assumes "length xs mod 4 = 0" "length ys mod 4 = 0" "ys \<noteq> []"
  shows "drop_padding (xs @ ys) = xs @ drop_padding ys"
proof -
  have "(length xs + length ys) mod 4 = 0" using assms by presburger
  moreover have "butlast ys \<noteq> []"
    using assms by (cases ys rule: btoa.cases) auto
  ultimately show ?thesis
    using assms by (simp add: drop_padding_def butlast_append Let_def)
qed

lemma drop_padding_plain: "xs \<noteq> [] \<Longrightarrow> last xs \<noteq> CHR ''='' \<Longrightarrow> drop_padding xs = xs"
  by (simp add: drop_padding_def)

lemma drop_padding_btoa:
  "drop_padding (btoa (a # b # c # s)) =
     [sextet_char (byte a div 4), sextet_char (byte a mod 4 * 16 + byte b div 16),
      sextet_char (byte b mod 16 * 4 + byte c div 64), sextet_char (byte c mod 64)]
     @ drop_padding (btoa s)"
proof (cases "s = []")
  case True
  then show ?thesis by (simp add: drop_padding_plain drop_padding_def [of "[]"])
next
  case False
  then show ?thesis
    using drop_padding_append [of
      "[sextet_char (byte a div 4), sextet_char (byte a mod 4 * 16 + byte b div 16),
        sextet_char (byte b mod 16 * 4 + byte c div 64), sextet_char (byte c mod 64)]" "btoa s"]
    by (simp add: btoa_length)
qed

lemma sextets_append:
  "sextets (xs @ ys) =
     (case (sextets xs, sextets ys) of (Some m, Some n) \<Rightarrow> Some (m @ n) | _ \<Rightarrow> None)"
  by (induction xs) (auto split: option.splits)

lemma atob_btoa_parts:
  "length (drop_padding (btoa s)) mod 4 \<noteq> 1 \<and> map_option unsextet (sextets (drop_padding (btoa s))) = Some s"
proof (induction s rule: btoa.induct)
  case 1
  then show ?case by (simp add: drop_padding_def)
next
  case (2 a)
  then show ?case
    using sextet_join(1) [of "byte a" 0] by (simp add: drop_padding_def)
next
  case (3 a b)
  then show ?case
    using sextet_join(1) [of "byte a" "byte b div 16"] sextet_join(2) [of "byte b" 0 "byte a"]
    by (simp add: drop_padding_def)
next
  case (4 a b c rest)
  then obtain ns where len: "length (drop_padding (btoa rest)) mod 4 \<noteq> 1"
    and ns: "sextets (drop_padding (btoa rest)) = Some ns" "unsextet ns = rest" by auto
  let ?q = "[byte a div 4 mod 64, (byte a mod 4 * 16 + byte b div 16) mod 64,
     (byte b mod 16 * 4 + byte c div 64) mod 64, byte c mod 64]"
  have "sextets (drop_padding (btoa (a # b # c # rest))) = Some (?q @ ns)"
    by (simp only: drop_padding_btoa sextets_append) (simp add: ns)
  moreover have "byte b div 16 < 16" "byte c div 64 < 4"
    using nat_of_char_less_256 [of b] nat_of_char_less_256 [of c] by linarith+
  then have "unsextet (?q @ ns) = a # b # c # rest"
    by (simp only: append_Cons append_Nil unsextet.simps sextet_join nat_of_char_less_256
        char_of_char ns)
  moreover have "length (drop_padding (btoa (a # b # c # rest))) mod 4 \<noteq> 1"
    using len by (simp only: drop_padding_btoa length_append) simp
  ultimately show ?case by simp
qed

lemma atob_btoa [simp]: "atob (btoa s) = Some s"
  using atob_btoa_parts [of s] by (simp add: atob_def btoa_no_ws)


section \<open>Splitting at the pipe\<close>

fun split_at_char :: "char \<Rightarrow> string \<Rightarrow> string list" where
  "split_at_char d [] = [[]]"
| "split_at_char d (c # cs) =
     (if c = d then [] # split_at_char d cs
      else case split_at_char d cs of w # ws \<Rightarrow> (c # w) # ws | [] \<Rightarrow> [[c]])"

fun join_with :: "char \<Rightarrow> string list \<Rightarrow> string" where
  "join_with d [] = []"
| "join_with d [w] = w"
| "join_with d (w # ws) = w @ d # join_with d ws"

abbreviation pipe :: char where "pipe \<equiv> CHR ''|''"

lemma split_nonempty [simp]: "split_at_char d s \<noteq> []"
  by (induction s) (auto split: list.splits)

lemma split_plain: "d \<notin> set s \<Longrightarrow> split_at_char d s = [s]"
  by (induction s) auto

lemma split_append [simp]: "d \<notin> set w \<Longrightarrow> split_at_char d (w @ d # s) = w # split_at_char d s"
  by (induction w) auto

lemma join_split [simp]: "join_with d (split_at_char d s) = s"
proof (induction s)
  case (Cons c s)
  obtain w ws where "split_at_char d s = w # ws" by (cases "split_at_char d s") auto
  with Cons show ?case by (cases ws) auto
qed simp


section \<open>Inbound tags\<close>

definition BROWSER_MEMBER_STATE :: string where "BROWSER_MEMBER_STATE = ''brm''"
definition BROWSER_INBOUND_STATE :: string where "BROWSER_INBOUND_STATE = ''bri''"
definition VOICEMAIL_INBOUND_STATE :: string where "VOICEMAIL_INBOUND_STATE = ''vmi''"

definition text_or_empty :: "string option \<Rightarrow> string" where
  "text_or_empty x = (case x of None \<Rightarrow> [] | Some s \<Rightarrow> s)"

definition null_if_empty :: "string \<Rightarrow> string option" where
  "null_if_empty s = (if s = [] then None else Some s)"

definition b64decode :: "string option \<Rightarrow> string option" where
  "b64decode raw = (case raw of None \<Rightarrow> None | Some s \<Rightarrow> if s = [] then None else atob s)"

text \<open>\<open>const decoded = b64decode(raw); if (!decoded) return null; decoded.split("|")\<close>.\<close>

definition tag_parts :: "string option \<Rightarrow> string list option" where
  "tag_parts raw =
     (case b64decode raw of None \<Rightarrow> None
      | Some d \<Rightarrow> if d = [] then None else Some (split_at_char pipe d))"

record member_ring_state =
  mr_sessionId :: string
  mr_userId :: string
  mr_caller :: "string option"
  mr_inboundCcid :: string

definition buildMemberRingState :: "member_ring_state \<Rightarrow> string" where
  "buildMemberRingState i =
     btoa (BROWSER_MEMBER_STATE @ pipe # mr_sessionId i @ pipe # mr_userId i @ pipe
       # text_or_empty (mr_caller i) @ pipe # mr_inboundCcid i)"

definition parseMemberRingState :: "string option \<Rightarrow> member_ring_state option" where
  "parseMemberRingState raw =
     (case tag_parts raw of
        Some (tag # sid # uid # caller # c # cs) \<Rightarrow>
          let inbound = join_with pipe (c # cs)
          in if tag \<noteq> BROWSER_MEMBER_STATE \<or> sid = [] \<or> uid = [] \<or> inbound = [] then None
             else Some \<lparr>mr_sessionId = sid, mr_userId = uid, mr_caller = null_if_empty caller,
                        mr_inboundCcid = inbound\<rparr>
      | _ \<Rightarrow> None)"

definition buildBrowserAnsweredState :: "string option \<Rightarrow> string \<Rightarrow> string" where
  "buildBrowserAnsweredState caller at_iso =
     btoa (BROWSER_INBOUND_STATE @ pipe # text_or_empty caller @ pipe # at_iso)"

definition parseBrowserAnsweredAtMs :: "(string \<Rightarrow> ms option) \<Rightarrow> string option \<Rightarrow> ms option" where
  "parseBrowserAnsweredAtMs date_parse raw =
     (case tag_parts raw of
        Some (tag # caller # stamp # _) \<Rightarrow>
          if tag \<noteq> BROWSER_INBOUND_STATE then None else date_parse stamp
      | _ \<Rightarrow> None)"

definition buildVoicemailState :: "string option \<Rightarrow> string" where
  "buildVoicemailState caller = btoa (VOICEMAIL_INBOUND_STATE @ pipe # text_or_empty caller)"


section \<open>Outbound tags\<close>

definition OUTBOUND_AGENT_STATE :: string where "OUTBOUND_AGENT_STATE = ''oc_agent''"
definition OUTBOUND_CUSTOMER_STATE :: string where "OUTBOUND_CUSTOMER_STATE = ''oc_customer''"
definition OUTBOUND_PLACER_STATE :: string where "OUTBOUND_PLACER_STATE = ''op''"

definition is_hex :: "char \<Rightarrow> bool" where
  "is_hex c \<longleftrightarrow> c \<in> set ''0123456789abcdefABCDEF''"

text \<open>\<open>OUTBOUND_SESSION_UUID_RE\<close>: groups of 8, 4, 4, 4 and 12 hexadecimal digits.\<close>

definition OUTBOUND_SESSION_UUID_RE :: "string \<Rightarrow> bool" where
  "OUTBOUND_SESSION_UUID_RE s \<longleftrightarrow>
     (let ws = split_at_char (CHR ''-'') s
      in map length ws = [8, 4, 4, 4, 12] \<and> (\<forall>w \<in> set ws. \<forall>c \<in> set w. is_hex c))"

definition buildOutboundState :: "string \<Rightarrow> string \<Rightarrow> string \<Rightarrow> string \<Rightarrow> string" where
  "buildOutboundState tag customer nonce sid =
     btoa (tag @ pipe # customer @ pipe # nonce @ pipe # sid)"

definition decodeOutboundCustomer :: "string option \<Rightarrow> string option" where
  "decodeOutboundCustomer raw =
     (case tag_parts raw of
        Some (tag # customer # _) \<Rightarrow>
          if (tag = OUTBOUND_AGENT_STATE \<or> tag = OUTBOUND_CUSTOMER_STATE) \<and> customer \<noteq> []
          then Some customer else None
      | _ \<Rightarrow> None)"

definition parseOutboundNonce :: "string option \<Rightarrow> string option" where
  "parseOutboundNonce raw =
     (case tag_parts raw of
        Some (tag # _ # nonce # _) \<Rightarrow>
          if tag = OUTBOUND_CUSTOMER_STATE \<and> nonce \<noteq> [] then Some nonce else None
      | _ \<Rightarrow> None)"

definition parseOutboundSessionId :: "string option \<Rightarrow> string option" where
  "parseOutboundSessionId raw =
     (case tag_parts raw of
        Some (tag # _ # _ # s # _) \<Rightarrow>
          if tag = OUTBOUND_CUSTOMER_STATE \<and> s \<noteq> [] \<and> OUTBOUND_SESSION_UUID_RE s then Some s else None
      | _ \<Rightarrow> None)"

definition buildOutboundPlacerState :: "string \<Rightarrow> string \<Rightarrow> string" where
  "buildOutboundPlacerState sid uid = btoa (OUTBOUND_PLACER_STATE @ pipe # sid @ pipe # uid)"

definition parseOutboundPlacerState :: "string option \<Rightarrow> (string \<times> string) option" where
  "parseOutboundPlacerState raw =
     (case tag_parts raw of
        Some (tag # sid # uid # _) \<Rightarrow>
          if tag \<noteq> OUTBOUND_PLACER_STATE \<or> sid = [] \<or> \<not> OUTBOUND_SESSION_UUID_RE sid \<or> uid = []
          then None else Some (sid, uid)
      | _ \<Rightarrow> None)"


section \<open>Classifying a leg by its tag\<close>

definition FORWARD_LEG_STATE :: string where "FORWARD_LEG_STATE = ''mctb_forward''"
definition INBOUND_FORWARDED_STATE :: string where "INBOUND_FORWARDED_STATE = ''mctb_inbound_fwd''"
definition TRANSFER_TARGET_STATE :: string where "TRANSFER_TARGET_STATE = ''brt''"
definition CONSULT_LEG_STATE :: string where "CONSULT_LEG_STATE = ''brc''"
definition GREETING_CAPTURE_STATE :: string where "GREETING_CAPTURE_STATE = ''vgc''"

datatype call_leg =
    ForwardLeg
  | InboundForwarded
  | InboundUntagged
  | OutAgent
  | OutCustomer
  | BrowserMember
  | InBrowser
  | VmInbound
  | TransferTarget
  | ConsultLeg
  | GreetingCapture

definition leg_tag :: "string option \<Rightarrow> string option" where
  "leg_tag raw = map_option (\<lambda>d. hd (split_at_char pipe d)) (b64decode raw)"

definition classifyLeg :: "string option \<Rightarrow> call_leg" where
  "classifyLeg raw =
     (let tag = leg_tag raw
      in if tag = Some FORWARD_LEG_STATE then ForwardLeg
         else if tag = Some INBOUND_FORWARDED_STATE then InboundForwarded
         else if tag = Some OUTBOUND_AGENT_STATE then OutAgent
         else if tag = Some OUTBOUND_CUSTOMER_STATE then OutCustomer
         else if tag = Some BROWSER_MEMBER_STATE then BrowserMember
         else if tag = Some BROWSER_INBOUND_STATE then InBrowser
         else if tag = Some VOICEMAIL_INBOUND_STATE then VmInbound
         else if tag = Some TRANSFER_TARGET_STATE then TransferTarget
         else if tag = Some CONSULT_LEG_STATE then ConsultLeg
         else if tag = Some GREETING_CAPTURE_STATE then GreetingCapture
         else InboundUntagged)"


section \<open>The gate on outgoing legs\<close>

text \<open>JavaScript white space among the 8-bit characters, and \<open>String.prototype.trim\<close>.\<close>

definition js_space :: "char \<Rightarrow> bool" where
  "js_space c \<longleftrightarrow> byte c \<in> {9, 10, 11, 12, 13, 32, 160}"

definition js_trim :: "string \<Rightarrow> string" where
  "js_trim s = rev (dropWhile js_space (rev (dropWhile js_space s)))"

definition lower_char :: "char \<Rightarrow> char" where
  "lower_char c = (if 65 \<le> byte c \<and> byte c \<le> 90 then char_of (byte c + 32) else c)"

definition lower :: "string \<Rightarrow> string" where
  "lower s = map lower_char s"

text \<open>
  \<open>OWN_CREDENTIAL_URI\<close>, read left to right: the user part holds no \<open>@\<close>, so it ends at the first
  one; after the host an optional \<open>:port\<close> and an optional \<open>;parameters\<close> must reach the end.
\<close>

definition after_host :: "string \<Rightarrow> bool" where
  "after_host r =
     (let params = (\<lambda>t. t = [] \<or> (hd t = CHR '';'' \<and> (\<forall>c \<in> set (tl t). \<not> js_space c)))
      in if r \<noteq> [] \<and> hd r = CHR '':''
         then takeWhile is_digit (tl r) \<noteq> [] \<and> params (dropWhile is_digit (tl r))
         else params r)"

definition OWN_CREDENTIAL_URI :: "string \<Rightarrow> bool" where
  "OWN_CREDENTIAL_URI s =
     (let host = ''@sip.telnyx.com'';
          user = takeWhile (\<lambda>c. c \<noteq> CHR ''@'') (drop 4 s);
          rest = dropWhile (\<lambda>c. c \<noteq> CHR ''@'') (drop 4 s)
      in lower (take 4 s) = ''sip:''
         \<and> user \<noteq> [] \<and> hd user \<noteq> CHR ''+'' \<and> \<not> is_digit (hd user)
         \<and> (\<forall>c \<in> set user. \<not> js_space c)
         \<and> lower (take (length host) rest) = host
         \<and> after_host (drop (length host) rest))"

definition isOwnDialedLeg :: "string option \<Rightarrow> bool" where
  "isOwnDialedLeg target = OWN_CREDENTIAL_URI (js_trim (text_or_empty target))"

definition requiresUnauthorizedHangup :: "string option \<Rightarrow> string option \<Rightarrow> bool" where
  "requiresUnauthorizedHangup dir target =
     (if dir \<noteq> Some ''outgoing'' then False else \<not> isOwnDialedLeg target)"


section \<open>Screening verdicts\<close>

fun is_infix :: "string \<Rightarrow> string \<Rightarrow> bool" where
  "is_infix w [] = (w = [])"
| "is_infix w (c # cs) = (take (length w) (c # cs) = w \<or> is_infix w cs)"

definition screeningFlagged :: "string option \<Rightarrow> bool" where
  "screeningFlagged result =
     (case result of None \<Rightarrow> False
      | Some r \<Rightarrow>
          if r = [] then False
          else let value = lower r
               in if is_infix ''no_flag'' value \<or> is_infix ''clean'' value then False
                  else list_ex (\<lambda>marker. is_infix marker value)
                         [''spam'', ''fraud'', ''scam'', ''robo'', ''flag'', ''spoof''])"

definition normalizeCaller :: "string option \<Rightarrow> string option" where
  "normalizeCaller caller =
     (case caller of
        Some (p # d # ds) \<Rightarrow>
          if p = CHR ''+'' \<and> is_digit d \<and> d \<noteq> CHR ''0'' \<and> 6 \<le> length ds \<and> length ds \<le> 14
             \<and> (\<forall>c \<in> set ds. is_digit c)
          then caller else None
      | _ \<Rightarrow> None)"


section \<open>What a built tag decodes to\<close>

lemma b64decode_btoa: "s \<noteq> [] \<Longrightarrow> b64decode (Some (btoa s)) = Some s"
  by (simp add: b64decode_def)

lemma tag_parts_btoa: "s \<noteq> [] \<Longrightarrow> tag_parts (Some (btoa s)) = Some (split_at_char pipe s)"
  by (simp add: tag_parts_def b64decode_btoa)

lemma tags_plain [simp]:
  "pipe \<notin> set BROWSER_MEMBER_STATE" "pipe \<notin> set BROWSER_INBOUND_STATE"
  "pipe \<notin> set VOICEMAIL_INBOUND_STATE" "pipe \<notin> set OUTBOUND_CUSTOMER_STATE"
  "pipe \<notin> set OUTBOUND_AGENT_STATE" "pipe \<notin> set OUTBOUND_PLACER_STATE"
  by (simp_all add: BROWSER_MEMBER_STATE_def BROWSER_INBOUND_STATE_def VOICEMAIL_INBOUND_STATE_def
      OUTBOUND_CUSTOMER_STATE_def OUTBOUND_AGENT_STATE_def OUTBOUND_PLACER_STATE_def)

lemma null_text: "caller \<noteq> Some [] \<Longrightarrow> null_if_empty (text_or_empty caller) = caller"
  by (cases caller) (simp_all add: null_if_empty_def text_or_empty_def)

lemma member_parts:
  assumes "pipe \<notin> set (mr_sessionId i)" "pipe \<notin> set (mr_userId i)"
    "pipe \<notin> set (text_or_empty (mr_caller i))"
  shows "tag_parts (Some (buildMemberRingState i)) =
     Some (BROWSER_MEMBER_STATE # mr_sessionId i # mr_userId i # text_or_empty (mr_caller i)
           # split_at_char pipe (mr_inboundCcid i))"
  using assms by (simp add: buildMemberRingState_def tag_parts_btoa)

lemma split_mem: "c \<in> set s \<Longrightarrow> c \<noteq> d \<Longrightarrow> \<exists>w \<in> set (split_at_char d s). c \<in> set w"
proof (induction s)
  case (Cons a s)
  obtain w ws where "split_at_char d s = w # ws" by (cases "split_at_char d s") auto
  with Cons show ?case by auto
qed simp

lemma tag_nonempty: "BROWSER_MEMBER_STATE \<noteq> []"
  by (simp add: BROWSER_MEMBER_STATE_def)

lemma tag_differs:
  "BROWSER_MEMBER_STATE \<noteq> OUTBOUND_PLACER_STATE" "BROWSER_MEMBER_STATE \<noteq> OUTBOUND_CUSTOMER_STATE"
  "BROWSER_MEMBER_STATE \<noteq> FORWARD_LEG_STATE" "BROWSER_MEMBER_STATE \<noteq> INBOUND_FORWARDED_STATE"
  "BROWSER_MEMBER_STATE \<noteq> OUTBOUND_AGENT_STATE"
  by (simp_all add: BROWSER_MEMBER_STATE_def OUTBOUND_PLACER_STATE_def OUTBOUND_CUSTOMER_STATE_def
      FORWARD_LEG_STATE_def INBOUND_FORWARDED_STATE_def OUTBOUND_AGENT_STATE_def)

lemma not_hex_pipe: "\<not> is_hex pipe"
  by (simp add: is_hex_def)

lemma leg_tag_btoa: "w \<noteq> [] \<Longrightarrow> pipe \<notin> set w \<Longrightarrow> leg_tag (Some (btoa (w @ pipe # s))) = Some w"
  by (simp add: leg_tag_def b64decode_btoa)

lemma uuid_no_pipe: "OUTBOUND_SESSION_UUID_RE s \<Longrightarrow> pipe \<notin> set s"
  using split_mem [of pipe s "CHR ''-''"] not_hex_pipe by (auto simp: OUTBOUND_SESSION_UUID_RE_def Let_def)

lemma uuid_nonempty [simp]: "\<not> OUTBOUND_SESSION_UUID_RE []"
  by (simp add: OUTBOUND_SESSION_UUID_RE_def)


section \<open>Properties\<close>



lemma dropWhile_keep: "s \<noteq> [] \<Longrightarrow> \<not> P (hd s) \<Longrightarrow> dropWhile P s = s"
  by (cases s) simp_all

definition own_uri :: "string \<Rightarrow> bool" where
  "own_uri s \<longleftrightarrow>
     (\<exists>scheme user host port params.
        s = scheme @ user @ host @ port @ params
        \<and> lower scheme = ''sip:'' \<and> lower host = ''@sip.telnyx.com''
        \<and> user \<noteq> [] \<and> (\<forall>c \<in> set user. c \<noteq> CHR ''@'' \<and> \<not> js_space c)
        \<and> hd user \<noteq> CHR ''+'' \<and> \<not> is_digit (hd user)
        \<and> (port = [] \<or> (\<exists>ds. port = CHR '':'' # ds \<and> ds \<noteq> [] \<and> (\<forall>c \<in> set ds. is_digit c)))
        \<and> (params = [] \<or> (\<exists>ps. params = CHR '';'' # ps \<and> (\<forall>c \<in> set ps. \<not> js_space c))))"


lemma after_host_spec:
  "after_host r \<longleftrightarrow>
     (\<exists>port params. r = port @ params
        \<and> (port = [] \<or> (\<exists>ds. port = CHR '':'' # ds \<and> ds \<noteq> [] \<and> (\<forall>c \<in> set ds. is_digit c)))
        \<and> (params = [] \<or> (\<exists>ps. params = CHR '';'' # ps \<and> (\<forall>c \<in> set ps. \<not> js_space c))))"
  (is "_ \<longleftrightarrow> (\<exists>port params. r = port @ params \<and> ?port port \<and> ?params params)")
proof
  assume a: "after_host r"
  show "\<exists>port params. r = port @ params \<and> ?port port \<and> ?params params"
  proof (cases "r \<noteq> [] \<and> hd r = CHR '':''")
    case True
    then have "r = (CHR '':'' # takeWhile is_digit (tl r)) @ dropWhile is_digit (tl r)"
      by (cases r) simp_all
    moreover from True a have "?port (CHR '':'' # takeWhile is_digit (tl r))"
      by (auto simp: after_host_def Let_def dest: set_takeWhileD)
    moreover from True a have "?params (dropWhile is_digit (tl r))"
      by (cases "dropWhile is_digit (tl r)") (auto simp: after_host_def Let_def)
    ultimately show ?thesis by blast
  next
    case False
    with a have "?params r" by (cases r) (auto simp: after_host_def Let_def)
    then show ?thesis by (intro exI [of _ "[]"] exI [of _ r]) simp
  qed
next
  assume "\<exists>port params. r = port @ params \<and> ?port port \<and> ?params params"
  then obtain port params where r: "r = port @ params" and p: "?port port" and q: "?params params"
    by blast
  have semi: "\<not> is_digit (CHR '';'')" by (simp add: is_digit_def)
  from p show "after_host r"
  proof
    assume "port = []"
    with r q show ?thesis by (auto simp: after_host_def Let_def)
  next
    assume "\<exists>ds. port = CHR '':'' # ds \<and> ds \<noteq> [] \<and> (\<forall>c \<in> set ds. is_digit c)"
    then obtain ds where ds: "port = CHR '':'' # ds" "ds \<noteq> []" "\<forall>c \<in> set ds. is_digit c" by blast
    then have "takeWhile is_digit (ds @ params) = ds" "dropWhile is_digit (ds @ params) = params"
      using q semi by (auto simp: takeWhile_append dropWhile_append)
    with r ds q show ?thesis by (auto simp: after_host_def Let_def)
  qed
qed

lemma lower_length [simp]: "length (lower s) = length s"
  by (simp add: lower_def)

lemma lower_at: "lower_char c = CHR ''@'' \<longleftrightarrow> c = CHR ''@''"
proof (cases "65 \<le> byte c \<and> byte c \<le> (90 :: nat)")
  case True
  then have "byte (lower_char c) = (byte c + 32 :: nat)" by (simp add: lower_char_def)
  with True have "lower_char c \<noteq> CHR ''@''" by auto
  moreover from True have "c \<noteq> CHR ''@''" by auto
  ultimately show ?thesis by simp
qed (auto simp: lower_char_def)

lemma OWN_CREDENTIAL_URI_unfold:
  "OWN_CREDENTIAL_URI s \<longleftrightarrow>
     (let user = takeWhile (\<lambda>c. c \<noteq> CHR ''@'') (drop 4 s);
          rest = dropWhile (\<lambda>c. c \<noteq> CHR ''@'') (drop 4 s)
      in lower (take 4 s) = ''sip:''
         \<and> user \<noteq> [] \<and> hd user \<noteq> CHR ''+'' \<and> \<not> is_digit (hd user)
         \<and> (\<forall>c \<in> set user. \<not> js_space c)
         \<and> lower (take 15 rest) = ''@sip.telnyx.com'' \<and> after_host (drop 15 rest))"
proof -
  have "length ''@sip.telnyx.com'' = 15" by simp
  then show ?thesis unfolding OWN_CREDENTIAL_URI_def Let_def by presburger
qed

lemma own_uri_iff: "OWN_CREDENTIAL_URI s \<longleftrightarrow> own_uri s"
proof
  let ?user = "takeWhile (\<lambda>c. c \<noteq> CHR ''@'') (drop 4 s)"
  let ?rest = "dropWhile (\<lambda>c. c \<noteq> CHR ''@'') (drop 4 s)"
  assume o: "OWN_CREDENTIAL_URI s"
  then have "after_host (drop 15 ?rest)" by (simp add: OWN_CREDENTIAL_URI_unfold Let_def)
  then obtain port params where pp: "drop 15 ?rest = port @ params"
    "port = [] \<or> (\<exists>ds. port = CHR '':'' # ds \<and> ds \<noteq> [] \<and> (\<forall>c \<in> set ds. is_digit c))"
    "params = [] \<or> (\<exists>ps. params = CHR '';'' # ps \<and> (\<forall>c \<in> set ps. \<not> js_space c))"
    unfolding after_host_spec by blast
  have "s = take 4 s @ ?user @ take 15 ?rest @ drop 15 ?rest"
    by (simp only: append_take_drop_id takeWhile_dropWhile_id)
  then have "s = take 4 s @ ?user @ take 15 ?rest @ port @ params" by (simp only: pp(1))
  moreover have "lower (take 4 s) = ''sip:''" "lower (take 15 ?rest) = ''@sip.telnyx.com''" "?user \<noteq> []"
    "\<forall>c \<in> set ?user. c \<noteq> CHR ''@'' \<and> \<not> js_space c" "hd ?user \<noteq> CHR ''+''" "\<not> is_digit (hd ?user)"
    using o by (auto simp: OWN_CREDENTIAL_URI_unfold Let_def dest: set_takeWhileD)
  ultimately show "own_uri s" unfolding own_uri_def using pp(2,3) by blast
next
  assume "own_uri s"
  then obtain scheme user host port params where s: "s = scheme @ user @ host @ port @ params"
    and l: "lower scheme = ''sip:''" "lower host = ''@sip.telnyx.com''"
    and u: "user \<noteq> []" "\<forall>c \<in> set user. c \<noteq> CHR ''@'' \<and> \<not> js_space c"
      "hd user \<noteq> CHR ''+''" "\<not> is_digit (hd user)"
    and pp: "port = [] \<or> (\<exists>ds. port = CHR '':'' # ds \<and> ds \<noteq> [] \<and> (\<forall>c \<in> set ds. is_digit c))"
      "params = [] \<or> (\<exists>ps. params = CHR '';'' # ps \<and> (\<forall>c \<in> set ps. \<not> js_space c))"
    unfolding own_uri_def by blast
  have len: "length scheme = 4" "length host = 15"
    using arg_cong [OF l(1), of length] arg_cong [OF l(2), of length] by simp_all
  then obtain h hs where h: "host = h # hs" by (cases host) auto
  with l(2) have at: "h = CHR ''@''" by (simp add: lower_def lower_at)
  have "takeWhile (\<lambda>c. c \<noteq> CHR ''@'') (user @ host @ port @ params) = user"
    "dropWhile (\<lambda>c. c \<noteq> CHR ''@'') (user @ host @ port @ params) = host @ port @ params"
    using u(2) h at by (auto simp: takeWhile_append dropWhile_append)
  moreover have "drop 4 s = user @ host @ port @ params" "take 4 s = scheme" using s len by simp_all
  moreover have "after_host (port @ params)" unfolding after_host_spec using pp by blast
  ultimately show "OWN_CREDENTIAL_URI s"
    using u l len by (simp add: OWN_CREDENTIAL_URI_unfold Let_def)
qed

text \<open>
  The dial-target gate trusts the target alone: an outgoing leg is let through exactly when
  its target, trimmed, is a SIP URI at \<open>sip.telnyx.com\<close> itself whose user starts with neither a
  plus nor a digit, followed at most by a port and parameters. A telephone number, with or without
  the SIP costume, and a host that merely starts with ours, are always hung up.
\<close>

theorem dial_target_gate:
  "(requiresUnauthorizedHangup dir target \<longleftrightarrow>
      dir = Some ''outgoing'' \<and> \<not> (\<exists>t. target = Some t \<and> own_uri (js_trim t)))
   \<and> requiresUnauthorizedHangup (Some ''outgoing'') (Some (''sip:+'' @ ds @ ''@sip.telnyx.com''))
   \<and> requiresUnauthorizedHangup (Some ''outgoing'') (Some (''+'' @ ds))
   \<and> \<not> requiresUnauthorizedHangup (Some ''incoming'') target"
proof -
  have outer: "js_trim s = s" if "s \<noteq> []" "\<not> js_space (hd s)" "\<not> js_space (last s)" for s
    using that by (simp add: js_trim_def dropWhile_keep hd_rev)
  have "js_trim (''sip:+'' @ ds @ ''@sip.telnyx.com'') = ''sip:+'' @ ds @ ''@sip.telnyx.com''"
    by (rule outer) (simp_all add: js_space_def)
  then have a: "\<not> isOwnDialedLeg (Some (''sip:+'' @ ds @ ''@sip.telnyx.com''))"
    by (simp add: isOwnDialedLeg_def text_or_empty_def OWN_CREDENTIAL_URI_unfold Let_def)
  have "\<not> js_space (CHR ''+'')" by (simp add: js_space_def)
  then have "\<exists>t. js_trim (CHR ''+'' # ds) = CHR ''+'' # t"
    by (cases "\<forall>x \<in> set ds. js_space x")
      (auto simp: js_trim_def dropWhile_append intro: exI [of _ "rev (dropWhile js_space (rev ds))"])
  then obtain t where "js_trim (CHR ''+'' # ds) = CHR ''+'' # t" by blast
  then have b: "\<not> isOwnDialedLeg (Some (''+'' @ ds))"
    by (simp add: isOwnDialedLeg_def text_or_empty_def OWN_CREDENTIAL_URI_unfold Let_def lower_def
        lower_char_def)
  have c: "isOwnDialedLeg target \<longleftrightarrow> (\<exists>t. target = Some t \<and> own_uri (js_trim t))"
    by (cases target) (simp_all add: isOwnDialedLeg_def text_or_empty_def own_uri_iff [symmetric]
        js_trim_def OWN_CREDENTIAL_URI_unfold Let_def)
  from a b c show ?thesis by (auto simp: requiresUnauthorizedHangup_def)
qed

end
