(* ===== verification/Session_Store.thy ===== *)
theory Session_Store
  imports Call_Invariants Client_State
begin

text \<open>
  What a call session's Durable Object keeps, \<open>apps/api/src/calls/session-do.ts\<close>: the durable
  keys (\<open>machine\<close>, \<open>journal\<close>, \<open>seen\<close>, \<open>pendingMirror\<close>, \<open>alarms\<close>, \<open>sessionId\<close>, the one platform
  alarm), the two in-memory copies that an eviction loses, and the operations on them. Three
  components of the state are not the object's but the world's: \<open>tick\<close> counts the runtime's
  answers consumed, \<open>outbox\<close> is everything sent so far, and \<open>reduced\<close> is the history of events
  the reducer was given. No operation reads the last two.

  A migrated machine (\<open>inboundCcid\<close>, no \<open>direction\<close>) does not occur in a typed store, so \<open>load\<close> is
  the plain read.
\<close>


section \<open>The state\<close>

datatype alarm_slot = JournalResumeSlot | MirrorRetrySlot | Slot alarm_kind

text \<open>The order \<open>runAlarms\<close> serves the slots in; it names every slot once.\<close>

definition slot_order :: "alarm_slot list" where
  "slot_order = [JournalResumeSlot, MirrorRetrySlot, Slot FanoutSettleAlarm, Slot IntentExpiryAlarm,
     Slot RingStepAlarm, Slot RingAlarm, Slot JanitorAlarm, Slot PurgeAlarm]"

record journal_head =
  h_event :: session_event
  h_effects :: "effect list option"
  h_cursor :: nat

record journal_record =
  j_eventId :: "string option"
  j_head :: "journal_head option"
  j_rest :: "session_event list"

record pending_mirror =
  p_set :: mirror_set
  p_attempts :: nat

definition SEEN_CAP :: nat where "SEEN_CAP = 256"
definition MAX_MIRROR_ATTEMPTS :: nat where "MAX_MIRROR_ATTEMPTS = 12"
definition MIRROR_RETRY_MS :: ms where "MIRROR_RETRY_MS = 3000"

text \<open>The row adoption reads, \<open>calls/runtime.ts\<close>; a leg is its call control id, member and state.\<close>

record adoption_row =
  ar_callSessionId :: string
  ar_companyId :: string
  ar_phoneNumberId :: "string option"
  ar_callerE164 :: "string option"
  ar_outcome :: "call_outcome option"
  ar_answeredAt :: "string option"
  ar_answeredByUserId :: "user_id option"
  ar_startedAtMs :: ms
  ar_customerCallControlId :: "call_control_id option"
  ar_direction :: "string option"
  ar_companyName :: string
  ar_greeting :: "string option"
  ar_businessNumberE164 :: "string option"
  ar_ledgerLegs :: "(call_control_id \<times> user_id \<times> string) list"

text \<open>What \<open>reportLifecycle\<close> captures, and everything else that leaves the object.\<close>

datatype lifecycle =
    CallStarted string direction_tag string
  | CallEnded string direction_tag string "call_outcome option" int session_event
  | CallOutcomeRevised string direction_tag string "call_outcome option" "call_outcome option"

datatype sent =
    SentDial dial_leg string
  | SentDialPlacer string user_id string string
  | SentLedger call_control_id user_id
  | SentAnswer call_control_id string
  | SentAnswerVm call_control_id string
  | SentBridge call_control_id call_control_id
  | SentHangup call_control_id bool
  | SentReject call_control_id
  | SentPlayAudio call_control_id string
  | SentSpeak call_control_id speak_script
  | SentRecordStart call_control_id
  | SentProbe call_control_id
  | SentMirror string mirror_set
  | SentPushRing "user_id list"
  | SentPushEnd "user_id list" call_outcome "user_id option"
  | SentThread
  | SentMergeEvent payload "(string \<times> string option) option"
  | SentMergeSynthetic call_outcome "string option"
  | SentVoicemail payload
  | SentWarning warning
  | SentCapWarning string
  | SentMirrorGaveUp nat
  | SentCapture lifecycle

record shell =
  cachedMachine :: "session_machine option option"
  hintedSessionId :: "string option"
  storedMachine :: "session_machine option"
  storedSessionId :: "string option"
  journal :: "journal_record option"
  seen :: "string list"
  pendingMirror :: "pending_mirror option"
  alarms :: "alarm_slot \<Rightarrow> ms option"
  platformAlarm :: "ms option"
  tick :: nat
  outbox :: "sent list"
  reduced :: "session_event list"

definition empty_shell :: shell where
  "empty_shell = \<lparr>cachedMachine = None, hintedSessionId = None, storedMachine = None,
     storedSessionId = None, journal = None, seen = [], pendingMirror = None,
     alarms = (\<lambda>_. None), platformAlarm = None, tick = 0, outbox = [], reduced = []\<rparr>"

text \<open>An eviction or crash: memory is lost, storage and the world are not.\<close>

definition evict :: "shell \<Rightarrow> shell" where
  "evict sh = sh\<lparr>cachedMachine := None, hintedSessionId := None\<rparr>"

definition send :: "sent list \<Rightarrow> shell \<Rightarrow> shell" where
  "send xs sh = sh\<lparr>outbox := outbox sh @ xs\<rparr>"


section \<open>The machine and the session id\<close>

definition load :: "shell \<Rightarrow> session_machine option" where
  "load sh = (case cachedMachine sh of Some m \<Rightarrow> m | None \<Rightarrow> storedMachine sh)"

definition sessionIdHint :: "shell \<Rightarrow> string option" where
  "sessionIdHint sh = (if truthy (hintedSessionId sh) then hintedSessionId sh else storedSessionId sh)"

definition rememberSessionId :: "string \<Rightarrow> shell \<Rightarrow> shell" where
  "rememberSessionId sid sh =
     (if hintedSessionId sh = Some sid then sh
      else sh\<lparr>hintedSessionId := Some sid, storedSessionId := Some sid\<rparr>)"

text \<open>A command is spent on the cached object in place; \<open>save\<close> makes the copy durable.\<close>

definition cache :: "session_machine \<Rightarrow> shell \<Rightarrow> shell" where
  "cache m sh = sh\<lparr>cachedMachine := Some (Some m)\<rparr>"

definition save :: "session_machine \<Rightarrow> shell \<Rightarrow> shell" where
  "save m sh = rememberSessionId (callSessionId m)
     (sh\<lparr>cachedMachine := Some (Some m), storedMachine := Some m\<rparr>)"


section \<open>Seen events\<close>

definition isSeen :: "string \<Rightarrow> shell \<Rightarrow> bool" where
  "isSeen eid sh \<longleftrightarrow> eid \<in> set (seen sh)"

definition nextSeen :: "string \<Rightarrow> shell \<Rightarrow> string list" where
  "nextSeen eid sh =
     (if eid \<in> set (seen sh) then seen sh
      else let next = seen sh @ [eid]
           in if length next > SEEN_CAP then drop (length next - SEEN_CAP) next else next)"

definition hasUnfinishedJournalFor :: "string \<Rightarrow> shell \<Rightarrow> bool" where
  "hasUnfinishedJournalFor eid sh =
     (case journal sh of None \<Rightarrow> False
      | Some j \<Rightarrow> j_head j \<noteq> None \<and> j_eventId j = Some eid)"


section \<open>One platform alarm, many logical deadlines\<close>

definition deadlines :: "(alarm_slot \<Rightarrow> ms option) \<Rightarrow> ms list" where
  "deadlines a = List.map_filter a slot_order"

definition soonest :: "(alarm_slot \<Rightarrow> ms option) \<Rightarrow> ms option" where
  "soonest a = (case deadlines a of [] \<Rightarrow> None | t # ts \<Rightarrow> Some (fold min ts t))"

definition reconcileAlarm :: "shell \<Rightarrow> shell" where
  "reconcileAlarm sh = sh\<lparr>platformAlarm := soonest (alarms sh)\<rparr>"

definition setAlarmSlot :: "alarm_slot \<Rightarrow> ms \<Rightarrow> shell \<Rightarrow> shell" where
  "setAlarmSlot s t sh = reconcileAlarm (sh\<lparr>alarms := (alarms sh)(s := Some t)\<rparr>)"

definition clearAlarmSlot :: "alarm_slot \<Rightarrow> shell \<Rightarrow> shell" where
  "clearAlarmSlot s sh =
     (if alarms sh s = None then sh
      else reconcileAlarm (sh\<lparr>alarms := (alarms sh)(s := None)\<rparr>))"

lemma slot_order_all: "s \<in> set slot_order" "distinct slot_order"
proof -
  show "s \<in> set slot_order"
  proof (cases s)
    case (Slot k)
    then show ?thesis by (cases k) (simp_all add: slot_order_def)
  qed (simp_all add: slot_order_def)
  show "distinct slot_order" by (simp add: slot_order_def)
qed

lemma set_deadlines: "t \<in> set (deadlines a) \<longleftrightarrow> (\<exists>s. a s = Some t)"
proof
  assume "t \<in> set (deadlines a)"
  then show "\<exists>s. a s = Some t" by (auto simp: deadlines_def map_filter_def)
next
  assume "\<exists>s. a s = Some t"
  then obtain s where s: "a s = Some t" ..
  then have "s \<in> set (filter (\<lambda>x. a x \<noteq> None) slot_order)" using slot_order_all(1) by simp
  with s show "t \<in> set (deadlines a)" unfolding deadlines_def map_filter_def by force
qed

lemma fold_min_int: "fold min ts (t :: int) = Min (set (t # ts))"
  by (simp only: Min.set_eq_fold)

lemma soonest_None: "soonest a = None \<longleftrightarrow> (\<forall>s. a s = None)"
proof -
  have "soonest a = None \<longleftrightarrow> (\<forall>t. t \<notin> set (deadlines a))"
    by (cases "deadlines a") (auto simp: soonest_def)
  then show ?thesis by (simp add: set_deadlines) (metis not_None_eq)
qed

lemma soonest_Some: "soonest a = Some t \<longleftrightarrow> (\<exists>s. a s = Some t) \<and> (\<forall>s u. a s = Some u \<longrightarrow> t \<le> u)"
proof -
  have *: "set (deadlines a) = {u. \<exists>s. a s = Some u}" using set_deadlines by auto
  show ?thesis
  proof (cases "deadlines a")
    case Nil
    then show ?thesis using * by (auto simp: soonest_def)
  next
    case (Cons x xs)
    then have "soonest a = Some (Min (set (deadlines a)))" by (simp only: soonest_def list.case fold_min_int)
    moreover have "finite (set (deadlines a))" "set (deadlines a) \<noteq> {}" using Cons by simp_all
    ultimately have "soonest a = Some t \<longleftrightarrow>
        t \<in> set (deadlines a) \<and> (\<forall>u \<in> set (deadlines a). t \<le> u)"
      by (metis Min_in Min_le Min_eqI option.inject)
    then show ?thesis using * by auto
  qed
qed


section \<open>Mirror writes\<close>

text \<open>\<open>{ ...prev?.set, ...set }\<close>: per column the newer value wins.\<close>

definition merge_mirror :: "mirror_set \<Rightarrow> mirror_set \<Rightarrow> mirror_set" where
  "merge_mirror prev s = \<lparr>
     mirrorState = or_else (mirrorState s) (mirrorState prev),
     mirrorAnsweredBy = or_else (mirrorAnsweredBy s) (mirrorAnsweredBy prev),
     mirrorAnsweredAt = or_else (mirrorAnsweredAt s) (mirrorAnsweredAt prev),
     mirrorUnattended = or_else (mirrorUnattended s) (mirrorUnattended prev),
     mirrorNoticeSpoken = or_else (mirrorNoticeSpoken s) (mirrorNoticeSpoken prev)\<rparr>"

text \<open>The write itself is the runtime's: \<open>lands\<close> says whether it did.\<close>

definition doMirror :: "bool \<Rightarrow> ms \<Rightarrow> string \<Rightarrow> mirror_set \<Rightarrow> shell \<Rightarrow> shell" where
  "doMirror lands now sid s sh =
     (if lands then send [SentMirror sid s] sh
      else let pending = (case pendingMirror sh of
                            None \<Rightarrow> \<lparr>p_set = s, p_attempts = 1\<rparr>
                          | Some p \<Rightarrow> \<lparr>p_set = merge_mirror (p_set p) s, p_attempts = p_attempts p\<rparr>)
           in setAlarmSlot MirrorRetrySlot (now + MIRROR_RETRY_MS) (sh\<lparr>pendingMirror := Some pending\<rparr>))"

text \<open>The columns the machine owns are pinned to it before a queued write is retried.\<close>

definition pin_mirror :: "session_machine \<Rightarrow> mirror_set \<Rightarrow> mirror_set" where
  "pin_mirror m s = s\<lparr>
     mirrorState := (case mirrorState s of None \<Rightarrow> None | Some _ \<Rightarrow> Some (state m)),
     mirrorAnsweredBy := (case mirrorAnsweredBy s of None \<Rightarrow> None
                          | Some _ \<Rightarrow> Some (answeredByUserId m)),
     mirrorAnsweredAt := (case mirrorAnsweredAt s of None \<Rightarrow> None
                          | Some _ \<Rightarrow> Some (answeredAtIso m))\<rparr>"

definition retryPendingMirror :: "bool \<Rightarrow> ms \<Rightarrow> shell \<Rightarrow> shell" where
  "retryPendingMirror lands now sh =
     (case pendingMirror sh of
        None \<Rightarrow> sh
      | Some p \<Rightarrow>
          (case load sh of
             None \<Rightarrow> sh\<lparr>pendingMirror := None\<rparr>
           | Some m \<Rightarrow>
               let s = pin_mirror m (p_set p)
               in if lands then (send [SentMirror (callSessionId m) s] sh)\<lparr>pendingMirror := None\<rparr>
                  else let n = p_attempts p + 1
                       in if n \<ge> MAX_MIRROR_ATTEMPTS
                          then (send [SentMirrorGaveUp n] sh)\<lparr>pendingMirror := None\<rparr>
                          else setAlarmSlot MirrorRetrySlot (now + MIRROR_RETRY_MS)
                                 (sh\<lparr>pendingMirror := Some \<lparr>p_set = s, p_attempts = n\<rparr>\<rparr>)))"

end
