(* ===== verification/Session_Exec.thy ===== *)
theory Session_Exec
  imports Session_Store "HOL-Library.While_Combinator"
begin

text \<open>
  The shell's half of a call session, \<open>apps/api/src/calls/session-do.ts\<close>: the execution of each
  effect, the command cap, the journalled cascade and its admission. What Telnyx, the database and
  the push service answer is a \<open>world\<close>: one record of answers per durable step, so a run of the
  shell consumes \<open>ws 0\<close>, \<open>ws 1\<close>, \<dots> and nothing is assumed of it. \<open>drain_step\<close> is the work
  between two durable writes of the journal; \<open>drain\<close> repeats it until the journal has no head.
\<close>


section \<open>Answers of the world\<close>

datatype dial_result = Dialed call_control_id | DialRefused dial_failure | DialThrew

datatype initiated_verdict = InitiatedContext initiated_context | InitiatedDrop | InitiatedReplayEnded

datatype outbound_verdict = OutboundContext outbound_context | OutboundDrop | OutboundReject

text \<open>\<open>w_rejects\<close>: the runtime call of this step throws. \<open>w_audience = None\<close>: so does the read of the
  push audience.\<close>

record world =
  w_now :: ms
  w_rejects :: bool
  w_wall :: ms
  w_keys :: key_supply
  w_mirrorLands :: bool
  w_dial :: "string \<Rightarrow> dial_result"
  w_answerOk :: bool
  w_answerVmOk :: bool
  w_bridgeDead :: bool
  w_hangupDead :: bool
  w_greetingAudio :: "string option"
  w_played :: bool
  w_alive :: bool
  w_unreachable :: "user_id list"
  w_audience :: "user_id list option"
  w_row :: "string \<Rightarrow> adoption_row option"
  w_initiated :: initiated_verdict
  w_outbound :: outbound_verdict


section \<open>The command cap\<close>

definition spendCommand :: "session_machine \<Rightarrow> bool \<Rightarrow> session_machine \<times> bool" where
  "spendCommand m terminalExempt =
     (let n = telnyxCommandCount m + 1
      in (m\<lparr>telnyxCommandCount := n\<rparr>, terminalExempt \<or> \<not> n > MAX_TELNYX_COMMANDS_PER_SESSION))"

definition spent :: "session_machine \<Rightarrow> session_machine" where
  "spent m = fst (spendCommand m True)"

text \<open>The warning of a dropped command.\<close>

definition cap_warning :: "session_machine \<Rightarrow> bool \<Rightarrow> sent list" where
  "cap_warning m admitted = (if admitted then [] else [SentCapWarning (callSessionId m)])"


section \<open>The member fan-out\<close>

text \<open>
  The budget of a batch is spent in leg order before any dial of it is awaited; the outcomes come
  back in leg order. \<open>serial_spend\<close> is the one-at-a-time loop the batches replaced.
\<close>

fun serial_spend :: "session_machine \<Rightarrow> dial_leg list \<Rightarrow> session_machine \<times> (dial_leg \<times> bool) list" where
  "serial_spend m [] = (m, [])"
| "serial_spend m (l # ls) =
     (let (m1, admitted) = spendCommand m False; (m2, rest) = serial_spend m1 ls
      in (m2, (l, admitted) # rest))"

definition member_client_state :: "session_machine \<Rightarrow> dial_leg \<Rightarrow> string" where
  "member_client_state m l = buildMemberRingState
     \<lparr>mr_sessionId = callSessionId m, mr_userId = dialUserId l, mr_caller = callerE164 m,
      mr_inboundCcid = text_or_empty (customerCcid m)\<rparr>"

definition dial_outcome :: "world \<Rightarrow> dial_leg \<times> bool \<Rightarrow> session_event" where
  "dial_outcome w la =
     (let k = pendingKey (fst la)
      in if \<not> snd la then DialOutcome k None (Some KnownDead)
         else case w_dial w k of
                Dialed c \<Rightarrow> DialOutcome k (Some c) None
              | DialRefused f \<Rightarrow> DialOutcome k None (Some f)
              | DialThrew \<Rightarrow> DialOutcome k None (Some Ambiguous))"

definition dial_sent :: "world \<Rightarrow> session_machine \<Rightarrow> dial_leg \<times> bool \<Rightarrow> sent list" where
  "dial_sent w m la =
     (if \<not> snd la then [SentCapWarning (callSessionId m)]
      else SentDial (fst la) (member_client_state m (fst la))
           # (case w_dial w (pendingKey (fst la)) of
                Dialed c \<Rightarrow> [SentLedger c (dialUserId (fst la))] | _ \<Rightarrow> []))"

function dial_batches ::
  "world \<Rightarrow> session_machine \<Rightarrow> dial_leg list \<Rightarrow> session_machine \<times> session_event list \<times> sent list" where
  "dial_batches w m ls =
     (if ls = [] then (m, [], [])
      else let (m1, batch) = serial_spend m (take DIAL_BATCH_SIZE ls);
               (m2, evs, out) = dial_batches w m1 (drop DIAL_BATCH_SIZE ls)
           in (m2, map (dial_outcome w) batch @ evs, concat (map (dial_sent w m) batch) @ out))"
  by pat_completeness auto
termination
  by (relation "measure (\<lambda>(w, m, ls). length ls)") (auto simp: DIAL_BATCH_SIZE_def)

declare dial_batches.simps [simp del]


section \<open>Effects\<close>

text \<open>\<open>[...users]\<close> of a \<open>Set\<close> built in insertion order.\<close>

definition pushEndAudience :: "session_machine \<Rightarrow> user_id list" where
  "pushEndAudience m =
     filter (\<lambda>u. answeredByUserId m \<noteq> Some u)
       (rev (remdups (rev (pushCapableUserIds m @ map legUserId (legs m)))))"

type_synonym executed = "shell \<times> session_event list"

text \<open>The commands of the terminal-path class: spend, send, save.\<close>

definition exempt_command :: "session_machine \<Rightarrow> sent list \<Rightarrow> session_event list \<Rightarrow> shell \<Rightarrow> executed" where
  "exempt_command m out evs sh = (save (spent m) (send out sh), evs)"

definition execute_dial_placer ::
  "world \<Rightarrow> session_machine \<Rightarrow> string \<Rightarrow> user_id \<Rightarrow> string \<Rightarrow> shell \<Rightarrow> executed" where
  "execute_dial_placer w m k u sip sh =
     (let (m1, admitted) = spendCommand m False
      in if \<not> admitted
         then (cache m1 (send [SentCapWarning (callSessionId m)] sh), [DialOutcome k None (Some KnownDead)])
         else let tag = buildOutboundPlacerState (callSessionId m1) u;
                  out = SentDialPlacer k u sip tag
              in (case w_dial w k of
                    Dialed c \<Rightarrow> (save m1 (send [out, SentLedger c u] sh), [DialOutcome k (Some c) None])
                  | DialRefused f \<Rightarrow> (save m1 (send [out] sh), [DialOutcome k None (Some f)])
                  | DialThrew \<Rightarrow> (cache m1 sh, [])))"

definition execute_hangup ::
  "world \<Rightarrow> session_machine option \<Rightarrow> call_control_id \<Rightarrow> bool \<Rightarrow> shell \<Rightarrow> executed" where
  "execute_hangup w mo c terminal sh =
     (case mo of
        None \<Rightarrow> (send [SentHangup c terminal] sh, [])
      | Some m \<Rightarrow>
          let (m1, admitted) = spendCommand m terminal
          in if \<not> admitted then (cache m1 (send [SentCapWarning (callSessionId m)] sh), [])
             else (save m1 (send [SentHangup c terminal] sh),
                   if w_hangupDead w \<and> terminal \<and> customerCcid m = Some c then [InboundLegGone]
                   else []))"

definition execute_speak :: "world \<Rightarrow> session_machine \<Rightarrow> call_control_id \<Rightarrow> speak_script \<Rightarrow> shell \<Rightarrow> executed" where
  "execute_speak w m c script sh =
     (case (script, w_greetingAudio w) of
        (VoicemailGreetingScript, Some url) \<Rightarrow>
          if w_played w then exempt_command m [SentPlayAudio c url] [] sh
          else exempt_command m [SentPlayAudio c url, SentSpeak c script] [] sh
      | _ \<Rightarrow> exempt_command m [SentSpeak c script] [] sh)"

definition merge_override :: "session_machine \<Rightarrow> string option \<Rightarrow> (string \<times> string option) option" where
  "merge_override m anchor =
     (if direction m = Outbound then Some (callSessionId m, anchor) else None)"

text \<open>With a machine in hand.\<close>

fun execute_live :: "world \<Rightarrow> session_machine \<Rightarrow> effect \<Rightarrow> shell \<Rightarrow> executed" where
  "execute_live w m (Mirror s t) sh = (doMirror (w_mirrorLands w) (w_now w) (callSessionId m) s sh, [])"
| "execute_live w m (TelnyxDial ls) sh =
     (let (m1, evs, out) = dial_batches w m ls in (save m1 (send out sh), evs))"
| "execute_live w m (TelnyxDialPlacer k u sip) sh = execute_dial_placer w m k u sip sh"
| "execute_live w m (TelnyxAnswerInbound c ai) sh =
     (if c = [] then (sh, [])
      else exempt_command m
             [SentAnswer c (buildBrowserAnsweredState (callerE164 m) (intentAnsweredAtIso ai))]
             [AnswerOutcome (w_answerOk w) (memberCcid ai) (intentUserId ai) (intentAnsweredAtIso ai)] sh)"
| "execute_live w m (TelnyxAnswerNotice c) sh =
     (if c = [] then (sh, [])
      else exempt_command m [SentAnswerVm c (buildVoicemailState (callerE164 m))]
             [NoticeAnswerOutcome (w_answerVmOk w)] sh)"
| "execute_live w m (TelnyxAnswerVm c) sh =
     (if c = [] then (sh, [])
      else exempt_command m [SentAnswerVm c (buildVoicemailState (callerE164 m))]
             [VmAnswerOutcome (w_answerVmOk w)] sh)"
| "execute_live w m (TelnyxBridge mc cc) sh =
     (let (sh1, evs) = exempt_command m [SentBridge mc cc] [] sh
      in if w_bridgeDead w then (send [SentHangup mc True, SentHangup cc True] sh1, evs) else (sh1, evs))"
| "execute_live w m (TelnyxHangup c t) sh = execute_hangup w (Some m) c t sh"
| "execute_live w m (TelnyxReject c) sh = exempt_command m [SentReject c] [] sh"
| "execute_live w m (TelnyxSpeak c script) sh = execute_speak w m c script sh"
| "execute_live w m (TelnyxRecordStart c) sh = exempt_command m [SentRecordStart c] [] sh"
| "execute_live w m (TelnyxProbeMemberLeg c u) sh =
     (send [SentProbe c] sh, [MemberProbeOutcome c u (w_alive w)])"
| "execute_live w m (PushFanout us) sh =
     (clearAlarmSlot (Slot FanoutSettleAlarm) (send [SentPushRing us] sh),
      [PushFanoutSettled (w_unreachable w)])"
| "execute_live w m (PushCallEnd r) sh =
     (send [SentPushEnd (pushEndAudience m) r (answeredByUserId m)] sh, [])"
| "execute_live w m ThreadAtAnswer sh = (send [SentThread] sh, [])"
| "execute_live w m (TerminalMerge mode oc p anchor) sh =
     (case (mode, p) of
        (EventMerge, Some pl) \<Rightarrow> (send [SentMergeEvent pl (merge_override m anchor)] sh, [])
      | _ \<Rightarrow> (send [SentMergeSynthetic oc anchor] sh, []))"
| "execute_live w m (VoicemailPipeline p) sh = (send [SentVoicemail p] sh, [])"
| "execute_live w m (Warn x) sh = (send [SentWarning x] sh, [])"
| "execute_live w m (ArmAlarm k t) sh = (setAlarmSlot (Slot k) t sh, [])"
| "execute_live w m (ClearAlarm k) sh = (clearAlarmSlot (Slot k) sh, [])"

text \<open>Without one most effects do nothing; a hangup, a reject, a recording, a probe, the pipeline
  and the alarms still run.\<close>

fun execute_orphan :: "world \<Rightarrow> effect \<Rightarrow> shell \<Rightarrow> executed" where
  "execute_orphan w (TelnyxHangup c t) sh = execute_hangup w None c t sh"
| "execute_orphan w (TelnyxReject c) sh = (send [SentReject c] sh, [])"
| "execute_orphan w (TelnyxRecordStart c) sh = (send [SentRecordStart c] sh, [])"
| "execute_orphan w (TelnyxProbeMemberLeg c u) sh =
     (send [SentProbe c] sh, [MemberProbeOutcome c u (w_alive w)])"
| "execute_orphan w (VoicemailPipeline p) sh = (send [SentVoicemail p] sh, [])"
| "execute_orphan w (Warn x) sh = (send [SentWarning x] sh, [])"
| "execute_orphan w (ArmAlarm k t) sh = (setAlarmSlot (Slot k) t sh, [])"
| "execute_orphan w (ClearAlarm k) sh = (clearAlarmSlot (Slot k) sh, [])"
| "execute_orphan w _ sh = (sh, [])"

definition execute :: "world \<Rightarrow> effect \<Rightarrow> shell \<Rightarrow> executed" where
  "execute w e sh =
     (case load sh of None \<Rightarrow> execute_orphan w e sh | Some m \<Rightarrow> execute_live w m e sh)"


text \<open>
  Which effects await the runtime outside a \<open>try\<close>, and what a rejection leaves: the command was
  counted on the cached object and nothing was saved. (The dial of a fan-out and a mirror write
  catch their own failures.)
\<close>

fun calls_runtime :: "session_machine option \<Rightarrow> effect \<Rightarrow> bool" where
  "calls_runtime mo (TelnyxDialPlacer k u sip) =
     (case mo of None \<Rightarrow> False | Some m \<Rightarrow> snd (spendCommand m False))"
| "calls_runtime mo (TelnyxHangup c t) =
     (case mo of None \<Rightarrow> True | Some m \<Rightarrow> snd (spendCommand m t))"
| "calls_runtime mo (TelnyxAnswerInbound c ai) = (mo \<noteq> None \<and> c \<noteq> [])"
| "calls_runtime mo (TelnyxAnswerNotice c) = (mo \<noteq> None \<and> c \<noteq> [])"
| "calls_runtime mo (TelnyxAnswerVm c) = (mo \<noteq> None \<and> c \<noteq> [])"
| "calls_runtime mo (TelnyxReject c) = True"
| "calls_runtime mo (TelnyxRecordStart c) = True"
| "calls_runtime mo (TelnyxProbeMemberLeg c u) = True"
| "calls_runtime mo (VoicemailPipeline p) = True"
| "calls_runtime mo (Mirror s t) = False"
| "calls_runtime mo (TelnyxDial ls) = False"
| "calls_runtime mo (Warn x) = False"
| "calls_runtime mo (ArmAlarm k t) = False"
| "calls_runtime mo (ClearAlarm k) = False"
| "calls_runtime mo _ = (mo \<noteq> None)"

fun counted :: "effect \<Rightarrow> bool" where
  "counted (TelnyxDialPlacer k u sip) = True"
| "counted (TelnyxAnswerInbound c ai) = True"
| "counted (TelnyxAnswerNotice c) = True"
| "counted (TelnyxAnswerVm c) = True"
| "counted (TelnyxBridge mc cc) = True"
| "counted (TelnyxHangup c t) = True"
| "counted (TelnyxReject c) = True"
| "counted (TelnyxSpeak c s) = True"
| "counted (TelnyxRecordStart c) = True"
| "counted _ = False"

fun dial_throws :: "world \<Rightarrow> effect \<Rightarrow> bool" where
  "dial_throws w (TelnyxDialPlacer k u sip) = (w_dial w k = DialThrew)"
| "dial_throws w _ = False"

definition rejects :: "world \<Rightarrow> effect \<Rightarrow> shell \<Rightarrow> bool" where
  "rejects w e sh \<longleftrightarrow> calls_runtime (load sh) e \<and> (w_rejects w \<or> dial_throws w e)"

definition abandon :: "effect \<Rightarrow> shell \<Rightarrow> shell" where
  "abandon e sh =
     (case load sh of None \<Rightarrow> sh | Some m \<Rightarrow> if counted e then cache (spent m) sh else sh)"


section \<open>Lifecycle captures\<close>

definition lifecycle_report ::
  "session_machine option \<Rightarrow> session_machine \<Rightarrow> session_event \<Rightarrow> ms \<Rightarrow> lifecycle list" where
  "lifecycle_report before after e now =
     (let sid = callSessionId after; d = direction after; co = companyId after;
          outcome = outcomeForState (state after);
          started = (if before = None then [CallStarted co d sid] else [])
      in if \<not> isTerminal (state after) then started
         else case before of
                None \<Rightarrow> started @ [CallEnded co d sid outcome (max 0 ((now - startedAtMs after + 500) div 1000)) e]
              | Some b \<Rightarrow>
                  if \<not> isTerminal (state b)
                  then started @ [CallEnded co d sid outcome (max 0 ((now - startedAtMs after + 500) div 1000)) e]
                  else if outcome \<noteq> outcomeForState (state b)
                  then started @ [CallOutcomeRevised co d sid outcome (outcomeForState (state b))]
                  else started)"


section \<open>The cascade\<close>

definition fresh_head :: "session_event \<Rightarrow> journal_head" where
  "fresh_head e = \<lparr>h_event = e, h_effects = None, h_cursor = 0\<rparr>"

definition consume :: "shell \<Rightarrow> shell" where
  "consume sh = sh\<lparr>tick := tick sh + 1\<rparr>"

text \<open>Reduce the head: the machine and its effects are one commit.\<close>

definition reduce_head :: "world \<Rightarrow> journal_record \<Rightarrow> journal_head \<Rightarrow> shell \<Rightarrow> shell" where
  "reduce_head w j h sh =
     (let before = load sh;
          (after, effs, _) = reduce before (h_event h) (w_now w) (w_wall w) (w_keys w);
          j' = j\<lparr>j_head := Some (h\<lparr>h_effects := Some effs, h_cursor := 0\<rparr>)\<rparr>;
          sh1 = sh\<lparr>journal := Some j', reduced := reduced sh @ [h_event h]\<rparr>
      in (case after of
            None \<Rightarrow> sh1
          | Some m \<Rightarrow> send (map SentCapture (lifecycle_report before m (h_event h) (w_now w)))
                       (save m sh1)))"

text \<open>Execute the effect at the cursor; its follow-ups join the queue.\<close>

definition execute_next ::
  "world \<Rightarrow> journal_record \<Rightarrow> journal_head \<Rightarrow> effect \<Rightarrow> shell \<Rightarrow> shell" where
  "execute_next w j h e sh =
     (let (sh1, followUps) = execute w e sh
      in sh1\<lparr>journal := Some (j\<lparr>j_head := Some (h\<lparr>h_cursor := h_cursor h + 1\<rparr>),
                                 j_rest := j_rest j @ followUps\<rparr>)\<rparr>)"

definition next_head :: "journal_record \<Rightarrow> shell \<Rightarrow> shell" where
  "next_head j sh =
     sh\<lparr>journal := Some (case j_rest j of
                            [] \<Rightarrow> j\<lparr>j_head := None\<rparr>
                          | e # es \<Rightarrow> j\<lparr>j_head := Some (fresh_head e), j_rest := es\<rparr>)\<rparr>"

definition active :: "shell \<Rightarrow> bool" where
  "active sh \<longleftrightarrow> (case journal sh of None \<Rightarrow> False | Some j \<Rightarrow> j_head j \<noteq> None)"

text \<open>The effect at the cursor, when there is one.\<close>

definition due_effect :: "shell \<Rightarrow> effect option" where
  "due_effect sh =
     (case journal sh of
        None \<Rightarrow> None
      | Some j \<Rightarrow>
          (case j_head j of
             None \<Rightarrow> None
           | Some h \<Rightarrow>
               (case h_effects h of
                  None \<Rightarrow> None
                | Some effs \<Rightarrow> if h_cursor h < length effs then Some (effs ! h_cursor h) else None)))"

definition step_rejects :: "world \<Rightarrow> shell \<Rightarrow> bool" where
  "step_rejects w sh = (case due_effect sh of None \<Rightarrow> False | Some e \<Rightarrow> rejects w e sh)"

definition drain_step :: "world \<Rightarrow> shell \<Rightarrow> shell" where
  "drain_step w sh =
     (case journal sh of
        None \<Rightarrow> sh
      | Some j \<Rightarrow>
          (case j_head j of
             None \<Rightarrow> sh
           | Some h \<Rightarrow>
               (case h_effects h of
                  None \<Rightarrow> consume (reduce_head w j h sh)
                | Some effs \<Rightarrow>
                    if h_cursor h < length effs
                    then let e = effs ! h_cursor h
                         in consume (if rejects w e sh then abandon e sh else execute_next w j h e sh)
                    else next_head j sh)))"

definition finish_drain :: "shell \<Rightarrow> shell" where
  "finish_drain sh = reconcileAlarm (clearAlarmSlot JournalResumeSlot (sh\<lparr>journal := None\<rparr>))"

text \<open>The reply is the reducer's for the head, when this drain is the one that reduces it.\<close>

definition head_reply :: "world \<Rightarrow> shell \<Rightarrow> reply option" where
  "head_reply w sh =
     (case journal sh of
        None \<Rightarrow> None
      | Some j \<Rightarrow>
          (case j_head j of
             None \<Rightarrow> None
           | Some h \<Rightarrow>
               if h_effects h \<noteq> None then None
               else snd (snd (reduce (load sh) (h_event h) (w_now w) (w_wall w) (w_keys w)))))"

datatype 'a drained = Drained shell 'a | Threw shell

text \<open>The loop leaves through its exception when a step rejects; the journal is then still there.\<close>

definition drain_loop :: "(nat \<Rightarrow> world) \<Rightarrow> shell \<Rightarrow> (shell \<times> bool) option" where
  "drain_loop ws sh =
     while_option (\<lambda>(s, ok). ok \<and> active s)
       (\<lambda>(s, ok). (drain_step (ws (tick s)) s, \<not> step_rejects (ws (tick s)) s)) (sh, True)"

definition drain :: "(nat \<Rightarrow> world) \<Rightarrow> shell \<Rightarrow> reply option drained option" where
  "drain ws sh =
     map_option (\<lambda>(s, ok). if ok then Drained (finish_drain s) (head_reply (ws (tick sh)) sh) else Threw s)
       (drain_loop ws sh)"

definition resumeJournalIfAny :: "(nat \<Rightarrow> world) \<Rightarrow> shell \<Rightarrow> reply option drained option" where
  "resumeJournalIfAny ws sh = (if active sh then drain ws sh else Some (Drained sh None))"


section \<open>Admission\<close>

text \<open>
  \<open>admit\<close> returns the admitted shell, or nothing for a duplicate: \<open>seen\<close> and the journal are one
  commit and the resume alarm is armed before any effect runs.
\<close>

definition admit :: "ms \<Rightarrow> session_event \<Rightarrow> string option \<Rightarrow> shell \<Rightarrow> shell option" where
  "admit now e eid sh =
     (if truthy eid \<and> isSeen (the eid) sh then None
      else let j = \<lparr>j_eventId = eid, j_head = Some (fresh_head e), j_rest = []\<rparr>;
               sh1 = (if truthy eid then sh\<lparr>seen := nextSeen (the eid) sh, journal := Some j\<rparr>
                      else sh\<lparr>journal := Some j\<rparr>)
           in Some (setAlarmSlot JournalResumeSlot (now + JOURNAL_RESUME_MS) sh1))"

definition admitAndDrain ::
  "(nat \<Rightarrow> world) \<Rightarrow> session_event \<Rightarrow> string option \<Rightarrow> shell \<Rightarrow> reply option drained option" where
  "admitAndDrain ws e eid sh =
     (case admit (w_now (ws (tick sh))) e eid sh of
        None \<Rightarrow> Some (Drained sh None)
      | Some sh1 \<Rightarrow> drain ws sh1)"

end
