(* ===== verification/Session_Cascade.thy ===== *)
theory Session_Cascade
  imports Session_Exec Call_Properties "HOL-Library.Multiset"
begin

text \<open>
  The contract between the reducer and the shell, and what follows from it for the cascade. Each
  event has a level and each effect the level of the events its execution can yield; the locale
  \<open>cascade_contract\<close> says that a reduction either moves the call along its state graph or yields
  strictly lower levels only, and that an execution changes no state and yields what its effect
  announces. From that alone every cascade ends, whatever the world answers. The interpretation
  discharges the contract for \<open>reduce\<close> and \<open>execute\<close>.
\<close>


section \<open>What execution keeps\<close>

lemma load_simps [simp]:
  "load (send out sh) = load sh"
  "load (reconcileAlarm sh) = load sh"
  "load (setAlarmSlot s t sh) = load sh"
  "load (clearAlarmSlot s sh) = load sh"
  "load (cache m sh) = Some m"
  "load (save m sh) = Some m"
  "load (consume sh) = load sh"
  "load (sh\<lparr>journal := j\<rparr>) = load sh"
  "load (sh\<lparr>reduced := es\<rparr>) = load sh"
  "load (sh\<lparr>pendingMirror := p\<rparr>) = load sh"
  by (simp_all add: load_def send_def reconcileAlarm_def setAlarmSlot_def clearAlarmSlot_def
      cache_def save_def rememberSessionId_def consume_def cong: option.case_cong)

lemma journal_simps [simp]:
  "journal (send out sh) = journal sh"
  "journal (reconcileAlarm sh) = journal sh"
  "journal (setAlarmSlot s t sh) = journal sh"
  "journal (clearAlarmSlot s sh) = journal sh"
  "journal (cache m sh) = journal sh"
  "journal (save m sh) = journal sh"
  "journal (consume sh) = journal sh"
  by (simp_all add: send_def reconcileAlarm_def setAlarmSlot_def clearAlarmSlot_def
      cache_def save_def rememberSessionId_def consume_def)

lemma reduced_simps [simp]:
  "reduced (send out sh) = reduced sh"
  "reduced (reconcileAlarm sh) = reduced sh"
  "reduced (setAlarmSlot s t sh) = reduced sh"
  "reduced (clearAlarmSlot s sh) = reduced sh"
  "reduced (cache m sh) = reduced sh"
  "reduced (save m sh) = reduced sh"
  "reduced (consume sh) = reduced sh"
  by (simp_all add: send_def reconcileAlarm_def setAlarmSlot_def clearAlarmSlot_def
      cache_def save_def rememberSessionId_def consume_def)

lemma spend_frame [simp]:
  "state (fst (spendCommand m t)) = state m"
  "state (spent m) = state m"
  "telnyxCommandCount (spent m) = Suc (telnyxCommandCount m)"
  "snd (spendCommand m True)"
  by (simp_all add: spendCommand_def spent_def Let_def)

text \<open>The fan-out in batches spends and reports what the serial loop would.\<close>

lemma serial_spend_machine:
  "fst (serial_spend m ls) = m\<lparr>telnyxCommandCount := telnyxCommandCount m + length ls\<rparr>"
  by (induction ls arbitrary: m) (simp_all add: split_beta spendCommand_def Let_def)

lemma serial_spend_append:
  "serial_spend m (xs @ ys) =
     (fst (serial_spend (fst (serial_spend m xs)) ys),
      snd (serial_spend m xs) @ snd (serial_spend (fst (serial_spend m xs)) ys))"
  by (induction xs arbitrary: m) (simp_all add: split_beta)

lemma dial_sent_count [simp]: "dial_sent w (m\<lparr>telnyxCommandCount := n\<rparr>) = dial_sent w m"
  by (simp add: fun_eq_iff dial_sent_def member_client_state_def)

lemma dial_batches_eq:
  "dial_batches w m ls =
     (fst (serial_spend m ls), map (dial_outcome w) (snd (serial_spend m ls)),
      concat (map (dial_sent w m) (snd (serial_spend m ls))))"
proof (induction "length ls" arbitrary: m ls rule: less_induct)
  case less
  show ?case
  proof (cases "ls = []")
    case True
    then show ?thesis by (simp add: dial_batches.simps)
  next
    case False
    let ?a = "take DIAL_BATCH_SIZE ls" and ?b = "drop DIAL_BATCH_SIZE ls"
    have "length ?b < length ls" using False by (simp add: DIAL_BATCH_SIZE_def)
    from less [OF this] False have "dial_batches w m ls =
       (let m1 = fst (serial_spend m ?a); r = serial_spend m1 ?b
        in (fst r, map (dial_outcome w) (snd (serial_spend m ?a) @ snd r),
            concat (map (dial_sent w m) (snd (serial_spend m ?a)))
            @ concat (map (dial_sent w m1) (snd r))))"
      by (subst dial_batches.simps) (simp add: split_beta Let_def)
    moreover have "dial_sent w (fst (serial_spend m ?a)) = dial_sent w m"
      by (simp add: serial_spend_machine)
    ultimately show ?thesis
      using serial_spend_append [of m ?a ?b] by (simp add: Let_def)
  qed
qed

lemma dial_batches_frame: "state (fst (dial_batches w m ls)) = state m"
  by (simp add: dial_batches_eq serial_spend_machine)

lemma doMirror_frame [simp]:
  "load (doMirror l now sid s sh) = load sh"
  "journal (doMirror l now sid s sh) = journal sh"
  "reduced (doMirror l now sid s sh) = reduced sh"
  by (simp_all add: doMirror_def Let_def)

lemma exempt_frame [simp]:
  "load (fst (exempt_command m out evs sh)) = Some (spent m)"
  "journal (fst (exempt_command m out evs sh)) = journal sh"
  "reduced (fst (exempt_command m out evs sh)) = reduced sh"
  "snd (exempt_command m out evs sh) = evs"
  by (simp_all add: exempt_command_def)

lemmas execute_defs = execute_dial_placer_def execute_hangup_def execute_speak_def

lemma execute_live_keeps:
  assumes "load sh = Some m"
  shows "map_option state (load (fst (execute_live w m x sh))) = Some (state m)"
    and "journal (fst (execute_live w m x sh)) = journal sh"
    and "reduced (fst (execute_live w m x sh)) = reduced sh"
  using assms dial_batches_frame [of w m]
  by (cases x; auto simp: execute_defs Let_def split_beta split: speak_script.splits option.splits
      dial_result.splits merge_mode.splits; fail)+

lemma execute_orphan_keeps:
  "load (fst (execute_orphan w x sh)) = load sh"
  "journal (fst (execute_orphan w x sh)) = journal sh"
  "reduced (fst (execute_orphan w x sh)) = reduced sh"
  by (cases x; simp add: execute_hangup_def; fail)+

lemma execute_keeps:
  "map_option state (load (fst (execute w x sh))) = map_option state (load sh)"
  "journal (fst (execute w x sh)) = journal sh"
  "reduced (fst (execute w x sh)) = reduced sh"
  by (cases "load sh"; simp add: execute_def execute_live_keeps execute_orphan_keeps; fail)+



section \<open>The contract\<close>

text \<open>Levels: what the reducer's outcomes re-enter as, lowest first.\<close>

fun event_level :: "session_event \<Rightarrow> nat" where
  "event_level InboundLegGone = 0"
| "event_level (NoticeAnswerOutcome ok) = 0"
| "event_level (DialOutcome k c f) = 0"
| "event_level (PushFanoutSettled us) = 0"
| "event_level (AnswerOutcome ok c u ts) = 1"
| "event_level (VmAnswerOutcome ok) = 1"
| "event_level (MemberProbeOutcome c u alive) = 2"
| "event_level _ = 3"

fun yield_level :: "effect \<Rightarrow> nat option" where
  "yield_level (TelnyxDial ls) = Some 0"
| "yield_level (TelnyxDialPlacer k u sip) = Some 0"
| "yield_level (TelnyxAnswerNotice c) = Some 0"
| "yield_level (PushFanout us) = Some 0"
| "yield_level (TelnyxHangup c t) = (if t then Some 0 else None)"
| "yield_level (TelnyxAnswerInbound c ai) = Some 1"
| "yield_level (TelnyxAnswerVm c) = Some 1"
| "yield_level (TelnyxProbeMemberLeg c u) = Some 2"
| "yield_level _ = None"

definition moves_left :: "call_state option \<Rightarrow> nat" where
  "moves_left so = (case so of None \<Rightarrow> 5 | Some s \<Rightarrow> 4 - rank s)"

locale cascade_contract =
  fixes level :: "session_event \<Rightarrow> nat"
    and yields :: "effect \<Rightarrow> nat option"
    and left :: "call_state option \<Rightarrow> nat"
  assumes reduce_descends:
    "reduce mo e now wall pk = (mo', effs, r) \<Longrightarrow>
       left (map_option state (or_else mo' mo)) < left (map_option state mo)
       \<or> left (map_option state (or_else mo' mo)) = left (map_option state mo)
         \<and> (\<forall>x \<in> set effs. \<forall>l. yields x = Some l \<longrightarrow> l < level e)"
    and execute_yields:
    "execute w x sh = (sh', evs) \<Longrightarrow> e \<in> set evs \<Longrightarrow> yields x = Some (level e)"
begin

text \<open>What is in flight: the unreduced events and the unexecuted effects, by weight.\<close>

definition weight :: "effect \<Rightarrow> nat" where
  "weight x = (case yields x of None \<Rightarrow> 0 | Some l \<Rightarrow> 2 * l + 2)"

definition in_flight :: "shell \<Rightarrow> nat multiset" where
  "in_flight sh =
     (case journal sh of None \<Rightarrow> {#}
      | Some j \<Rightarrow>
          image_mset (\<lambda>e. 2 * level e + 1) (mset (j_rest j))
          + (case j_head j of None \<Rightarrow> {#}
             | Some h \<Rightarrow>
                 (case h_effects h of
                    None \<Rightarrow> {#2 * level (h_event h) + 1#}
                  | Some effs \<Rightarrow> image_mset weight (mset (drop (h_cursor h) effs)))))"

definition bookkeeping :: "shell \<Rightarrow> nat" where
  "bookkeeping sh =
     (case journal sh of None \<Rightarrow> 0
      | Some j \<Rightarrow> 2 * length (j_rest j)
          + (case j_head j of None \<Rightarrow> 0 | Some h \<Rightarrow> if h_effects h = None then 0 else 1))"

definition progress :: "((shell \<times> bool) \<times> (shell \<times> bool)) set" where
  "progress = inv_image (less_than <*lex*> less_than <*lex*> mult less_than <*lex*> less_than)
     (\<lambda>(sh, ok). (of_bool ok, left (map_option state (load sh)), in_flight sh, bookkeeping sh))"

lemma wf_progress: "wf progress"
  unfolding progress_def by (intro wf_inv_image wf_lex_prod wf_less_than wf_mult)

lemma replace_one:
  assumes "\<forall>k \<in># K. k < (n :: nat)"
  shows "(I + K, I + {#n#}) \<in> mult less_than"
  using one_step_implies_mult [of "{#n#}" K less_than I] assms by simp

lemma reduce_progress:
  assumes j: "journal sh = Some j" "j_head j = Some h" "h_effects h = None"
  shows "((consume (reduce_head w j h sh), True), (sh, True)) \<in> progress"
proof -
  obtain mo' effs r where red:
    "reduce (load sh) (h_event h) (w_now w) (w_wall w) (w_keys w) = (mo', effs, r)"
    by (cases "reduce (load sh) (h_event h) (w_now w) (w_wall w) (w_keys w)")
  let ?s = "consume (reduce_head w j h sh)"
  have l: "load (reduce_head w j h sh) = or_else mo' (load sh)"
    by (cases mo') (simp_all add: reduce_head_def red)
  have fl: "in_flight ?s = image_mset (\<lambda>e. 2 * level e + 1) (mset (j_rest j))
      + image_mset weight (mset effs)"
    by (cases mo') (simp_all add: reduce_head_def red in_flight_def)
  have "in_flight sh = image_mset (\<lambda>e. 2 * level e + 1) (mset (j_rest j))
      + {#2 * level (h_event h) + 1#}" using j by (simp add: in_flight_def)
  moreover have "\<forall>x \<in> set effs. \<forall>l. yields x = Some l \<longrightarrow> l < level (h_event h) \<Longrightarrow>
      \<forall>k \<in># image_mset weight (mset effs). k < 2 * level (h_event h) + 1"
    by (fastforce simp: weight_def split: option.splits)
  ultimately have "\<forall>x \<in> set effs. \<forall>l. yields x = Some l \<longrightarrow> l < level (h_event h) \<Longrightarrow>
      (in_flight ?s, in_flight sh) \<in> mult less_than"
    unfolding fl by (metis replace_one)
  with reduce_descends [OF red] show ?thesis by (auto simp: progress_def l)
qed

lemma execute_progress:
  assumes j: "journal sh = Some j" "j_head j = Some h" "h_effects h = Some effs"
    and c: "h_cursor h < length effs"
  shows "((consume (execute_next w j h (effs ! h_cursor h) sh), True), (sh, True)) \<in> progress"
proof -
  let ?x = "effs ! h_cursor h"
  obtain sh1 evs where ex: "execute w ?x sh = (sh1, evs)" by (cases "execute w ?x sh")
  let ?s = "consume (execute_next w j h ?x sh)"
  let ?I = "image_mset (\<lambda>e. 2 * level e + 1) (mset (j_rest j))
      + image_mset weight (mset (drop (Suc (h_cursor h)) effs))"
  have "map_option state (load ?s) = map_option state (load sh)"
    using execute_keeps(1) [of w ?x sh] by (simp add: execute_next_def ex)
  moreover have "in_flight ?s = ?I + image_mset (\<lambda>e. 2 * level e + 1) (mset evs)"
    using j by (simp add: execute_next_def ex in_flight_def)
  moreover have "in_flight sh = ?I + {#weight ?x#}"
    using j c by (simp add: in_flight_def Cons_nth_drop_Suc [symmetric])
  moreover have "\<forall>k \<in># image_mset (\<lambda>e. 2 * level e + 1) (mset evs). k < weight ?x"
    using execute_yields [OF ex] by (fastforce simp: weight_def)
  ultimately show ?thesis using replace_one by (simp add: progress_def)
qed

lemma next_progress:
  assumes j: "journal sh = Some j" "j_head j = Some h" "h_effects h = Some effs"
    and c: "\<not> h_cursor h < length effs"
  shows "((next_head j sh, True), (sh, True)) \<in> progress"
proof -
  have "load (next_head j sh) = load sh" by (simp add: next_head_def)
  moreover have "in_flight (next_head j sh) = in_flight sh"
    using j c by (cases "j_rest j") (simp_all add: next_head_def in_flight_def fresh_head_def)
  moreover have "bookkeeping (next_head j sh) < bookkeeping sh"
    using j by (cases "j_rest j") (simp_all add: next_head_def bookkeeping_def fresh_head_def)
  ultimately show ?thesis by (simp add: progress_def)
qed

lemma drain_step_progress:
  assumes "active sh"
  shows "((drain_step w sh, \<not> step_rejects w sh), (sh, True)) \<in> progress"
proof (cases "step_rejects w sh")
  case True
  then show ?thesis by (simp add: progress_def)
next
  case False
  from assms obtain j h where j: "journal sh = Some j" "j_head j = Some h"
    by (auto simp: active_def split: option.splits)
  show ?thesis
  proof (cases "h_effects h")
    case None
    with j False reduce_progress [OF j None] show ?thesis by (simp add: drain_step_def)
  next
    case (Some effs)
    show ?thesis
    proof (cases "h_cursor h < length effs")
      case True
      with j Some False have "\<not> rejects w (effs ! h_cursor h) sh"
        by (simp add: step_rejects_def due_effect_def)
      with True j Some False execute_progress [OF j Some True] show ?thesis
        by (simp add: drain_step_def Let_def)
    next
      case c: False
      with j Some False next_progress [OF j Some c] show ?thesis by (simp add: drain_step_def)
    qed
  qed
qed

theorem drain_loop_ends: "\<exists>s ok. drain_loop ws sh = Some (s, ok)"
proof -
  have "\<exists>t. drain_loop ws sh = Some t"
    unfolding drain_loop_def
  proof (rule wf_while_option_Some [where P = "\<lambda>_. True"])
    have "{(t, s). (True \<and> (case s of (s, ok) \<Rightarrow> ok \<and> active s))
          \<and> t = (case s of (s, ok) \<Rightarrow> (drain_step (ws (tick s)) s, \<not> step_rejects (ws (tick s)) s))}
        \<subseteq> progress"
      using drain_step_progress by auto
    then show "wf {(t, s). (True \<and> (case s of (s, ok) \<Rightarrow> ok \<and> active s))
          \<and> t = (case s of (s, ok) \<Rightarrow> (drain_step (ws (tick s)) s, \<not> step_rejects (ws (tick s)) s))}"
      by (rule wf_subset [OF wf_progress])
  qed simp_all
  then show ?thesis by (metis surj_pair)
qed

end



section \<open>The model keeps it\<close>

lemma yields_simps [simp]:
  "x \<in> set (cancel_effects True ls) \<Longrightarrow> yield_level x = Some l \<Longrightarrow> l = 0"
  "x \<in> set (cancel_effects False ls) \<Longrightarrow> yield_level x = None"
  "x \<in> set (reap_effects ls) \<Longrightarrow> yield_level x = Some l \<Longrightarrow> l = 0"
  using cancel_effects_sound [of x True ls] cancel_effects_sound [of x False ls]
    reap_effects_sound [of x ls] by auto

lemma missed_not_ringing [simp]: "missed_or_rejected m \<noteq> Ringing"
  by (simp add: missed_or_rejected_def)

lemma yield_le: "yield_level x = Some l \<Longrightarrow> l \<le> 2"
  by (cases x) (auto split: if_splits)

lemma vm_outcome_yields:
  assumes "state (fst (on_vm_answer_outcome m ok now)) = state m"
    and "x \<in> set (snd (on_vm_answer_outcome m ok now))" "yield_level x = Some l"
  shows "l = 0"
  using assms yields_simps(1) [of x "legs m" l]
  by (auto simp: on_vm_answer_outcome_def cancelAllLiveLegs_def Let_def set_when_truthy frame_simps
      missed_or_rejected_def split: if_splits)

lemma answer_outcome_yields:
  assumes "state (fst (reduceAnswerOutcome m ok c u ts now)) = state m"
    and "x \<in> set (snd (reduceAnswerOutcome m ok c u ts now))"
  shows "yield_level x = None"
  using assms
  by (auto simp: reduceAnswerOutcome_def Let_def split_beta frame_simps split: if_splits)

lemma probe_yields:
  assumes "state (fst (on_member_probe_outcome m c u alive now)) = state m"
    and "x \<in> set (snd (on_member_probe_outcome m c u alive now))" "yield_level x = Some l"
  shows "l = 1"
  using assms
  by (auto simp: on_member_probe_outcome_def answer_customer_def Let_def set_when_truthy
      runAvenueLadder_def frame_simps split: if_splits)

lemma dial_outcome_yields:
  assumes "state (fst (on_dial_outcome m k dc f now)) = state m"
    and "x \<in> set (snd (on_dial_outcome m k dc f now))"
  shows "yield_level x = None"
  using assms
  by (auto simp: on_dial_outcome_def Let_def split_beta frame_simps runAvenueLadder_def
      split: if_splits option.splits)

lemma settle_yields:
  "state (fst (on_push_fanout_settled m gone)) = state m \<Longrightarrow>
     x \<in> set (snd (on_push_fanout_settled m gone)) \<Longrightarrow> yield_level x = None"
  "state (fst (on_inbound_leg_gone m now)) = state m \<Longrightarrow>
     x \<in> set (snd (on_inbound_leg_gone m now)) \<Longrightarrow> yield_level x = None"
  "x \<in> set (snd (on_notice_answer_outcome m ok)) \<Longrightarrow> yield_level x = None"
  by (auto simp: on_push_fanout_settled_def on_inbound_leg_gone_def on_notice_answer_outcome_def
      Let_def split_beta frame_simps runAvenueLadder_def set_when_truthy split: if_splits)

lemma step_levels:
  assumes "state (fst (step m (e, now, wall, pk))) = state m"
    and "x \<in> set (snd (step m (e, now, wall, pk)))" "yield_level x = Some l"
  shows "l < event_level e"
proof (cases "event_level e = 3")
  case True
  with yield_le [OF assms(3)] show ?thesis by simp
next
  case False
  with assms show ?thesis
    using vm_outcome_yields answer_outcome_yields probe_yields dial_outcome_yields settle_yields
    by (cases e) fastforce+
qed

lemma reduce_levels:
  assumes "reduce mo e now wall pk = (mo', effs, r)"
  shows "moves_left (map_option state (or_else mo' mo)) < moves_left (map_option state mo)
     \<or> moves_left (map_option state (or_else mo' mo)) = moves_left (map_option state mo)
       \<and> (\<forall>x \<in> set effs. \<forall>l. yield_level x = Some l \<longrightarrow> l < event_level e)"
proof (cases mo)
  case None
  with assms show ?thesis
    by (cases e) (auto simp: reduce_def moves_left_def plain_def)
next
  case (Some m)
  with assms obtain m' where m': "mo' = Some m'" using reduce_ex [of m e now wall pk] by auto
  then have s: "step m (e, now, wall, pk) = (m', effs)" using assms Some by (auto intro: reduce_step)
  show ?thesis
  proof (cases "state m' = state m")
    case True
    with s step_levels [of m e now wall pk] show ?thesis by (simp add: moves_left_def m' Some)
  next
    case False
    with step_edge [of m "(e, now, wall, pk)"] s have "call_edge (state m) (state m')"
      by (simp add: edge_ok_def)
    then have "rank (state m) < rank (state m')" by (rule rank_edge)
    with rank_le [of "state m'"] have "4 - rank (state m') < 4 - rank (state m)" by linarith
    then show ?thesis by (simp add: moves_left_def m' Some)
  qed
qed

lemma execute_levels:
  assumes "execute w x sh = (sh', evs)" "e \<in> set evs"
  shows "yield_level x = Some (event_level e)"
  using assms
  by (cases x; cases "load sh") (auto simp: execute_def execute_defs exempt_command_def Let_def
      split_beta dial_batches_eq dial_outcome_def
      split: speak_script.splits option.splits dial_result.splits merge_mode.splits if_splits)


interpretation cascade: cascade_contract event_level yield_level moves_left
  by unfold_locales (use reduce_levels in blast, use execute_levels in blast)

end
