(* ===== verification/Session_Entry.thy ===== *)
theory Session_Entry
  imports Session_Exec
begin

text \<open>
  The entry points of a call session, \<open>apps/api/src/calls/session-do.ts\<close>: the RPC surface, the
  alarm dispatch, adoption from the calls row, and the reading of a Telnyx event. Every entry
  point first finishes a journal a crash left behind. The FIFO runs them one at a time, so an
  entry point is a function of the shell it finds; its result is \<open>None\<close> only if it never returns.
\<close>

definition then_do :: "'a drained option \<Rightarrow> (shell \<Rightarrow> 'a \<Rightarrow> 'b drained option) \<Rightarrow> 'b drained option" where
  "then_do r f = (case r of None \<Rightarrow> None | Some (Threw s) \<Rightarrow> Some (Threw s) | Some (Drained s x) \<Rightarrow> f s x)"

abbreviation done_with :: "shell \<Rightarrow> 'a \<Rightarrow> 'a drained option" where
  "done_with s x \<equiv> Some (Drained s x)"


section \<open>Telnyx payloads\<close>

record call_payload =
  cp_callControlId :: "string option"
  cp_callSessionId :: "string option"
  cp_clientState :: "string option"
  cp_direction :: "string option"
  cp_to :: "string option"
  cp_raw :: payload

record telnyx_event =
  te_type :: "string option"
  te_id :: "string option"
  te_payload :: "call_payload option"

definition classifyInboundTag :: "string option \<Rightarrow> inbound_tag" where
  "classifyInboundTag cs =
     (if leg_tag cs = Some BROWSER_INBOUND_STATE then Bri
      else if leg_tag cs = Some VOICEMAIL_INBOUND_STATE then Vmi
      else Untagged)"


section \<open>Adoption\<close>

fun ended_for :: "call_outcome \<Rightarrow> call_state" where
  "ended_for OutcomeAnswered = EndedAnswered"
| "ended_for OutcomeVoicemail = EndedVoicemail"
| "ended_for OutcomeMissed = EndedMissed"

definition adopted_state :: "adoption_row \<Rightarrow> string option \<Rightarrow> inbound_tag \<Rightarrow> call_state" where
  "adopted_state row etype tag =
     (let greeting_over = (etype = Some ''call.speak.ended'' \<or> etype = Some ''call.playback.ended'');
          hangup = (etype = Some ''call.hangup'')
      in if ar_direction row = Some ''outbound''
         then (case ar_outcome row of
                 Some oc \<Rightarrow> ended_for oc
               | None \<Rightarrow> if truthy (ar_answeredAt row) then Answered else Dialing)
         else case ar_outcome row of
                Some oc \<Rightarrow> ended_for oc
              | None \<Rightarrow>
                  if greeting_over \<or> etype = Some ''call.recording.saved'' \<or> hangup \<and> tag = Vmi
                  then (if greeting_over then VoicemailGreeting else VoicemailRecording)
                  else if hangup \<and> tag = Bri \<and> \<not> truthy (ar_answeredAt row) then Ringing
                  else if truthy (ar_answeredAt row) then Answered
                  else Ringing)"

definition adopted_leg :: "ms \<Rightarrow> call_control_id \<times> user_id \<times> string \<Rightarrow> leg_record" where
  "adopted_leg started l =
     (case l of (c, u, st) \<Rightarrow>
        \<lparr>key = ''leg:'' @ c, ccid = Some c, legUserId = u,
         status = (if st = ''answered'' then LAnswered else if st = ''ringing'' then LRinging else LDead),
         source = Engine, dialedAtMs = started, sipTarget = []\<rparr>)"

definition reconstructMachine :: "adoption_row \<Rightarrow> telnyx_event option \<Rightarrow> session_machine" where
  "reconstructMachine row raw =
     (let etype = Option.bind raw te_type;
          cs = Option.bind (Option.bind raw te_payload) cp_clientState;
          st = adopted_state row etype (classifyInboundTag cs)
      in \<lparr>state = st, callSessionId = ar_callSessionId row, companyId = ar_companyId row,
          phoneNumberId = ar_phoneNumberId row, companyName = ar_companyName row, localeTag = None,
          greeting = ar_greeting row, callerE164 = ar_callerE164 row,
          businessNumberE164 = ar_businessNumberE164 row, customerCcid = ar_customerCallControlId row,
          direction = (if ar_direction row = Some ''outbound'' then Outbound else Inbound),
          startedAtMs = ar_startedAtMs row, answeredByUserId = ar_answeredByUserId row,
          answeredAtIso = ar_answeredAt row, rejectedForCap = False, unattended = False,
          noticeSpoken = False, wakeAttempted = False, ownerLegDeadDuringIntent = None,
          afterHours = False, nextOpenLabel = None, adopted = True, pushCapableUserIds = [],
          declinedUserIds = [],
          ringDeadlineMs = (if st = Ringing then Some (ar_startedAtMs row + RING_WINDOW_SECS * 1000)
                            else None),
          queuedTargets = [], telnyxCommandCount = 0,
          legs = map (adopted_leg (ar_startedAtMs row)) (ar_ledgerLegs row),
          intent = None, answerIntent = None\<rparr>)"

definition adoptFromRow ::
  "(nat \<Rightarrow> world) \<Rightarrow> telnyx_event option \<Rightarrow> shell \<Rightarrow> session_machine option drained option" where
  "adoptFromRow ws raw sh =
     (if \<not> truthy (sessionIdHint sh) then done_with sh None
      else let w = ws (tick sh)
           in if w_rejects w then Some (Threw (consume sh))
              else case w_row w (the (sessionIdHint sh)) of
                     None \<Rightarrow> done_with (consume sh) None
                   | Some row \<Rightarrow>
                       let m = reconstructMachine row raw in done_with (save m (consume sh)) (Some m))"

definition load_or_adopt ::
  "(nat \<Rightarrow> world) \<Rightarrow> telnyx_event option \<Rightarrow> shell \<Rightarrow> session_machine option drained option" where
  "load_or_adopt ws raw sh =
     (case load sh of Some m \<Rightarrow> done_with sh (Some m) | None \<Rightarrow> adoptFromRow ws raw sh)"


section \<open>The RPC surface\<close>

definition state_or :: "call_state \<Rightarrow> shell \<Rightarrow> call_state" where
  "state_or d sh = (case load sh of None \<Rightarrow> d | Some m \<Rightarrow> state m)"

text \<open>A dial that failed leaves its pending leg without a call control id, or dead.\<close>

definition dial_failed :: "string option \<Rightarrow> shell \<Rightarrow> bool" where
  "dial_failed pk sh =
     (if \<not> truthy pk then False
      else case load sh of None \<Rightarrow> False
           | Some m \<Rightarrow> (case List.find (has_key (the pk)) (legs m) of None \<Rightarrow> False
                       | Some l \<Rightarrow> ccid l = None \<or> status l = LDead))"

fun ring_me_answer :: "reply option \<Rightarrow> shell \<Rightarrow> reply" where
  "ring_me_answer (Some (RingMeReply rang st reason pk)) sh =
     (if rang \<and> dial_failed pk sh then RingMeReply False (state_or Ringing sh) (Some DialFailed) None
      else RingMeReply rang st reason None)"
| "ring_me_answer _ sh = RingMeReply False (state_or EndedMissed sh) (Some NotRinging) None"

definition ringMe ::
  "(nat \<Rightarrow> world) \<Rightarrow> string \<Rightarrow> user_id \<Rightarrow> string \<Rightarrow> bool \<Rightarrow> shell \<Rightarrow> reply drained option" where
  "ringMe ws sid u sip noLocalLeg sh =
     then_do (resumeJournalIfAny ws (rememberSessionId sid sh)) (\<lambda>sh1 _.
       then_do (load_or_adopt ws None sh1) (\<lambda>sh2 found.
         if found = None then done_with sh2 (RingMeReply False EndedMissed (Some NotRinging) None)
         else then_do (admitAndDrain ws (RingMe u sip noLocalLeg) None sh2) (\<lambda>sh3 r.
                done_with sh3 (ring_me_answer r sh3))))"

fun decline_answer :: "reply option \<Rightarrow> shell \<Rightarrow> reply" where
  "decline_answer (Some (DeclineReply d st reason)) sh = DeclineReply d st reason"
| "decline_answer _ sh = DeclineReply False (state_or EndedMissed sh) (Some DeclineNotRinging)"

definition decline :: "(nat \<Rightarrow> world) \<Rightarrow> string \<Rightarrow> user_id \<Rightarrow> shell \<Rightarrow> reply drained option" where
  "decline ws sid u sh =
     then_do (resumeJournalIfAny ws (rememberSessionId sid sh)) (\<lambda>sh1 _.
       then_do (load_or_adopt ws None sh1) (\<lambda>sh2 found.
         if found = None then done_with sh2 (DeclineReply False EndedMissed (Some DeclineNotRinging))
         else then_do (admitAndDrain ws (Decline u) None sh2) (\<lambda>sh3 r.
                done_with sh3 (decline_answer r sh3))))"

record session_snapshot =
  sn_state :: call_state
  sn_direction :: direction_tag
  sn_answeredBy :: "user_id option"
  sn_answeredAt :: "string option"
  sn_startedAt :: string
  sn_callerE164 :: "string option"
  sn_phoneNumberId :: "string option"
  sn_legs :: "(call_control_id \<times> user_id \<times> leg_status) list"

definition snapshot_of :: "session_machine \<Rightarrow> session_snapshot" where
  "snapshot_of m = \<lparr>sn_state = state m, sn_direction = direction m,
     sn_answeredBy = answeredByUserId m, sn_answeredAt = answeredAtIso m,
     sn_startedAt = to_iso_string (startedAtMs m), sn_callerE164 = callerE164 m,
     sn_phoneNumberId = phoneNumberId m,
     sn_legs = map (\<lambda>l. (the (ccid l), legUserId l, status l))
                 (filter (\<lambda>l. ccid l \<noteq> None) (legs m))\<rparr>"

definition remember_opt :: "string option \<Rightarrow> shell \<Rightarrow> shell" where
  "remember_opt sid sh = (if truthy sid then rememberSessionId (the sid) sh else sh)"

definition snapshot ::
  "(nat \<Rightarrow> world) \<Rightarrow> string option \<Rightarrow> shell \<Rightarrow> session_snapshot option drained option" where
  "snapshot ws sid sh =
     then_do (resumeJournalIfAny ws (remember_opt sid sh)) (\<lambda>sh1 _.
       done_with sh1 (map_option snapshot_of (load sh1)))"

definition setOwner :: "(nat \<Rightarrow> world) \<Rightarrow> string option \<Rightarrow> user_id \<Rightarrow> shell \<Rightarrow> unit drained option" where
  "setOwner ws sid u sh =
     then_do (resumeJournalIfAny ws (remember_opt sid sh)) (\<lambda>sh1 _.
       if load sh1 = None then done_with sh1 ()
       else then_do (admitAndDrain ws (SetOwner u) None sh1) (\<lambda>sh2 _. done_with sh2 ()))"

definition registerIntent ::
  "(nat \<Rightarrow> world) \<Rightarrow> string option \<Rightarrow> intent_kind \<Rightarrow> user_id \<Rightarrow> shell \<Rightarrow> call_state drained option" where
  "registerIntent ws sid k u sh =
     then_do (resumeJournalIfAny ws (remember_opt sid sh)) (\<lambda>sh1 _.
       case load sh1 of
         None \<Rightarrow> done_with sh1 EndedMissed
       | Some m \<Rightarrow> then_do (admitAndDrain ws (RegisterIntent k u) None sh1) (\<lambda>sh2 _.
                    done_with sh2 (state_or (state m) sh2)))"

definition clearIntent :: "(nat \<Rightarrow> world) \<Rightarrow> shell \<Rightarrow> unit drained option" where
  "clearIntent ws sh =
     then_do (resumeJournalIfAny ws sh) (\<lambda>sh1 _.
       if load sh1 = None then done_with sh1 ()
       else then_do (admitAndDrain ws ClearIntent None sh1) (\<lambda>sh2 _. done_with sh2 ()))"


section \<open>Alarms\<close>

text \<open>\<open>deleteAlarm\<close> and \<open>deleteAll\<close>: storage is gone, the copies in memory are not.\<close>

definition purge_storage :: "shell \<Rightarrow> shell" where
  "purge_storage sh = sh\<lparr>storedMachine := None, storedSessionId := None, journal := None, seen := [],
     pendingMirror := None, alarms := (\<lambda>_. None), platformAlarm := None\<rparr>"

definition admit_alarm :: "(nat \<Rightarrow> world) \<Rightarrow> session_event \<Rightarrow> shell \<Rightarrow> unit drained option" where
  "admit_alarm ws e sh = then_do (admitAndDrain ws e None sh) (\<lambda>sh1 _. done_with sh1 ())"

definition fireAlarm :: "(nat \<Rightarrow> world) \<Rightarrow> alarm_slot \<Rightarrow> shell \<Rightarrow> unit drained option" where
  "fireAlarm ws s sh =
     (let w = ws (tick sh)
      in case s of
           JournalResumeSlot \<Rightarrow> done_with sh ()
         | MirrorRetrySlot \<Rightarrow> done_with (retryPendingMirror (w_mirrorLands w) (w_now w) (consume sh)) ()
         | Slot k \<Rightarrow>
             if k = PurgeAlarm then done_with (purge_storage sh) ()
             else case load sh of
                    None \<Rightarrow> done_with sh ()
                  | Some m \<Rightarrow>
                      (case k of
                         FanoutSettleAlarm \<Rightarrow>
                           (case w_audience w of
                              None \<Rightarrow> Some (Threw (consume sh))
                            | Some live \<Rightarrow>
                                admit_alarm ws (PushFanoutSettled
                                  (filter (\<lambda>u. u \<notin> set live) (pushCapableUserIds m))) (consume sh))
                       | RingStepAlarm \<Rightarrow> admit_alarm ws AlarmRingStep sh
                       | RingAlarm \<Rightarrow> admit_alarm ws AlarmRing sh
                       | JanitorAlarm \<Rightarrow> admit_alarm ws AlarmJanitor sh
                       | IntentExpiryAlarm \<Rightarrow> admit_alarm ws AlarmIntentExpiry sh
                       | PurgeAlarm \<Rightarrow> done_with sh ()))"

fun fire_all :: "(nat \<Rightarrow> world) \<Rightarrow> alarm_slot list \<Rightarrow> shell \<Rightarrow> unit drained option" where
  "fire_all ws [] sh = done_with (reconcileAlarm sh) ()"
| "fire_all ws (s # ss) sh =
     then_do (fireAlarm ws s (clearAlarmSlot s sh)) (\<lambda>sh1 _.
       if s = Slot PurgeAlarm then done_with sh1 () else fire_all ws ss sh1)"

definition due_slots :: "ms \<Rightarrow> shell \<Rightarrow> alarm_slot list" where
  "due_slots now sh =
     filter (\<lambda>s. case alarms sh s of None \<Rightarrow> False | Some t \<Rightarrow> t \<le> now + 50) slot_order"

definition runAlarms :: "(nat \<Rightarrow> world) \<Rightarrow> shell \<Rightarrow> unit drained option" where
  "runAlarms ws sh =
     then_do (resumeJournalIfAny ws sh) (\<lambda>sh1 _.
       fire_all ws (due_slots (w_now (ws (tick sh1))) sh1) sh1)"


section \<open>Reading a Telnyx event\<close>

datatype parsed = ParsedEvent session_event | ParsedDedup | ParsedDropNoStamp | ParsedNull

text \<open>Hang up a leg that must not stay up and mint nothing.\<close>

definition refuse_leg :: "world \<Rightarrow> call_payload \<Rightarrow> shell \<Rightarrow> parsed drained option" where
  "refuse_leg w p sh =
     (if \<not> truthy (cp_callControlId p) then done_with sh ParsedNull
      else if w_rejects w then Some (Threw sh)
      else done_with (send [SentHangup (the (cp_callControlId p)) True] sh) ParsedNull)"

definition parse_initiated :: "world \<Rightarrow> call_payload \<Rightarrow> shell \<Rightarrow> parsed drained option" where
  "parse_initiated w p sh =
     (if parseOutboundSessionId (cp_clientState p) \<noteq> None
      then (if w_rejects w then Some (Threw sh)
            else case w_outbound w of
                   OutboundDrop \<Rightarrow> done_with sh ParsedNull
                 | OutboundReject \<Rightarrow> refuse_leg w p sh
                 | OutboundContext cx \<Rightarrow> done_with sh (ParsedEvent (OutboundInitiated cx)))
      else if requiresUnauthorizedHangup (cp_direction p) (cp_to p) then refuse_leg w p sh
      else if parseOutboundPlacerState (cp_clientState p) \<noteq> None then done_with sh ParsedNull
      else if parseMemberRingState (cp_clientState p) \<noteq> None
              \<or> truthy (cp_clientState p) \<and> cp_direction p = Some ''incoming''
      then done_with sh ParsedNull
      else if w_rejects w then Some (Threw sh)
      else case w_initiated w of
             InitiatedContext cx \<Rightarrow> done_with sh (ParsedEvent (Initiated cx))
           | _ \<Rightarrow> done_with sh ParsedNull)"

text \<open>The session an event belongs to: the tag's, and Telnyx's id only for an untagged leg.\<close>

definition event_session :: "call_payload \<Rightarrow> string option" where
  "event_session p =
     or_else (map_option mr_sessionId (parseMemberRingState (cp_clientState p)))
       (or_else (parseOutboundSessionId (cp_clientState p))
         (or_else (map_option fst (parseOutboundPlacerState (cp_clientState p)))
           (cp_callSessionId p)))"

definition lifecycle_event :: "(string \<Rightarrow> ms option) \<Rightarrow> string \<Rightarrow> call_payload \<Rightarrow> parsed" where
  "lifecycle_event date_parse etype p =
     (let cs = cp_clientState p; answered = (etype = ''call.answered''); hangup = (etype = ''call.hangup'')
      in if parseOutboundSessionId cs \<noteq> None
         then (if answered then ParsedEvent OutboundAnswered
               else if hangup then ParsedEvent (OutboundHangup (Some (cp_raw p)))
               else ParsedNull)
         else if parseOutboundPlacerState cs \<noteq> None \<and> truthy (cp_callControlId p)
         then (let c = the (cp_callControlId p); u = snd (the (parseOutboundPlacerState cs))
               in if answered then ParsedEvent (OutboundPlacerAnswered c u (cp_to p))
                  else if hangup then ParsedEvent (OutboundPlacerHangup c u)
                  else ParsedNull)
         else if parseMemberRingState cs \<noteq> None \<and> truthy (cp_callControlId p)
         then (let c = the (cp_callControlId p); u = mr_userId (the (parseMemberRingState cs))
               in if answered then ParsedEvent (MemberLegAnswered c u (cp_to p))
                  else if hangup then ParsedEvent (MemberLegHangup c u (cp_to p))
                  else ParsedNull)
         else if etype = ''call.speak.ended'' \<or> etype = ''call.playback.ended'' then ParsedEvent SpeakEnded
         else if etype = ''call.recording.saved'' then ParsedEvent (RecordingSaved (cp_raw p))
         else if hangup
         then ParsedEvent (InboundHangup (classifyInboundTag cs)
                (map_option to_iso_string (parseBrowserAnsweredAtMs date_parse cs)) (Some (cp_raw p)))
         else ParsedNull)"

definition parseTelnyxEvent ::
  "(string \<Rightarrow> ms option) \<Rightarrow> (nat \<Rightarrow> world) \<Rightarrow> telnyx_event \<Rightarrow> shell \<Rightarrow> parsed drained option" where
  "parseTelnyxEvent date_parse ws raw sh =
     (case (te_type raw, te_payload raw) of
        (Some etype, Some p) \<Rightarrow>
          if etype = [] then done_with sh ParsedNull
          else if truthy (te_id raw) \<and> isSeen (the (te_id raw)) sh
                  \<and> \<not> hasUnfinishedJournalFor (the (te_id raw)) sh
          then done_with sh ParsedDedup
          else if etype = ''call.initiated'' then parse_initiated (ws (tick sh)) p (consume sh)
          else let sh1 = remember_opt (event_session p) sh
               in then_do (load_or_adopt ws (Some raw) sh1) (\<lambda>sh2 found.
                    if found = None
                    then done_with sh2 (if etype = ''call.hangup'' then ParsedDropNoStamp else ParsedNull)
                    else done_with sh2 (lifecycle_event date_parse etype p))
      | _ \<Rightarrow> done_with sh ParsedNull)"

datatype ack = Stamp bool | NotAcked

text \<open>The acknowledgement settles at admission; what the cascade does later cannot change it.\<close>

definition onTelnyxEvent ::
  "(string \<Rightarrow> ms option) \<Rightarrow> (nat \<Rightarrow> world) \<Rightarrow> telnyx_event \<Rightarrow> shell \<Rightarrow> (shell \<times> ack) option" where
  "onTelnyxEvent date_parse ws raw sh =
     (case then_do (resumeJournalIfAny ws sh) (\<lambda>sh1 _. parseTelnyxEvent date_parse ws raw sh1) of
        None \<Rightarrow> None
      | Some (Threw s) \<Rightarrow> Some (s, NotAcked)
      | Some (Drained sh2 ParsedDropNoStamp) \<Rightarrow> Some (sh2, Stamp False)
      | Some (Drained sh2 ParsedDedup) \<Rightarrow> Some (sh2, Stamp True)
      | Some (Drained sh2 ParsedNull) \<Rightarrow> Some (sh2, Stamp True)
      | Some (Drained sh2 (ParsedEvent e)) \<Rightarrow>
          (case admit (w_now (ws (tick sh2))) e (te_id raw) sh2 of
             None \<Rightarrow> Some (sh2, Stamp True)
           | Some sh3 \<Rightarrow>
               (case drain ws sh3 of
                  None \<Rightarrow> None
                | Some (Drained s _) \<Rightarrow> Some (s, Stamp True)
                | Some (Threw s) \<Rightarrow> Some (s, Stamp True))))"

end
