(* ===== verification/Session_Claims.thy ===== *)
theory Session_Claims
  imports Session_Cascade Session_Entry
begin

text \<open>
  What the shell of a call session guarantees: its cascades end, no admitted event or follow-up is
  lost, repeated or reordered by a crash, a duplicate delivery is a no-op, the platform alarm is
  the nearest deadline, the command cap holds, a queued mirror write never moves the row
  backwards, and a call's end is reported once. \<open>perform\<close> is one thing that can happen to the
  object between two durable writes: an admission, a step of the cascade, or a crash.
\<close>


section \<open>What an execution leaves alone\<close>

lemma rememberSessionId_frame [simp]:
  "storedMachine (rememberSessionId sid sh) = storedMachine sh"
  "alarms (rememberSessionId sid sh) = alarms sh"
  "platformAlarm (rememberSessionId sid sh) = platformAlarm sh"
  "outbox (rememberSessionId sid sh) = outbox sh"
  "journal (rememberSessionId sid sh) = journal sh"
  "seen (rememberSessionId sid sh) = seen sh"
  "load (rememberSessionId sid sh) = load sh"
  by (simp_all add: rememberSessionId_def load_def cong: option.case_cong)

lemma shell_frame [simp]:
  "storedMachine (send out sh) = storedMachine sh" "alarms (send out sh) = alarms sh"
  "platformAlarm (send out sh) = platformAlarm sh" "outbox (send out sh) = outbox sh @ out"
  "seen (send out sh) = seen sh"
  "storedMachine (cache m sh) = storedMachine sh" "alarms (cache m sh) = alarms sh"
  "platformAlarm (cache m sh) = platformAlarm sh" "outbox (cache m sh) = outbox sh"
  "seen (cache m sh) = seen sh"
  "storedMachine (save m sh) = Some m" "alarms (save m sh) = alarms sh"
  "platformAlarm (save m sh) = platformAlarm sh" "outbox (save m sh) = outbox sh"
  "seen (save m sh) = seen sh"
  "storedMachine (consume sh) = storedMachine sh" "alarms (consume sh) = alarms sh"
  "platformAlarm (consume sh) = platformAlarm sh" "outbox (consume sh) = outbox sh"
  "seen (consume sh) = seen sh"
  by (simp_all add: send_def cache_def save_def consume_def)

lemma alarm_frame [simp]:
  "storedMachine (setAlarmSlot s t sh) = storedMachine sh" "outbox (setAlarmSlot s t sh) = outbox sh"
  "seen (setAlarmSlot s t sh) = seen sh"
  "storedMachine (clearAlarmSlot s sh) = storedMachine sh" "outbox (clearAlarmSlot s sh) = outbox sh"
  "seen (clearAlarmSlot s sh) = seen sh"
  "alarms (setAlarmSlot s t sh) = (alarms sh)(s := Some t)"
  "alarms (clearAlarmSlot s sh) = (alarms sh)(s := None)"
  "platformAlarm (setAlarmSlot s t sh) = soonest ((alarms sh)(s := Some t))"
  "alarms (reconcileAlarm sh) = alarms sh" "platformAlarm (reconcileAlarm sh) = soonest (alarms sh)"
  by (auto simp: setAlarmSlot_def clearAlarmSlot_def reconcileAlarm_def fun_eq_iff)

text \<open>The invariant of the multiplexer: the platform alarm is the nearest deadline.\<close>

definition in_sync :: "shell \<Rightarrow> bool" where
  "in_sync sh \<longleftrightarrow> platformAlarm sh = soonest (alarms sh)"

lemma in_sync_simps [simp]:
  "in_sync (setAlarmSlot s t sh)" "in_sync (reconcileAlarm sh)"
  "in_sync (send out sh) = in_sync sh" "in_sync (cache m sh) = in_sync sh"
  "in_sync (save m sh) = in_sync sh" "in_sync (consume sh) = in_sync sh"
  "in_sync (rememberSessionId sid sh) = in_sync sh"
  by (simp_all add: in_sync_def)

lemma in_sync_clear [simp]: "in_sync sh \<Longrightarrow> in_sync (clearAlarmSlot s sh)"
  by (simp add: clearAlarmSlot_def in_sync_def reconcileAlarm_def)

text \<open>The cached copy and the stored one differ in the command count at most.\<close>

definition coherent :: "shell \<Rightarrow> bool" where
  "coherent sh \<longleftrightarrow> map_option state (load sh) = map_option state (storedMachine sh)"

lemma doMirror_frame' [simp]:
  "storedMachine (doMirror l now sid s sh) = storedMachine sh"
  "seen (doMirror l now sid s sh) = seen sh"
  "in_sync sh \<Longrightarrow> in_sync (doMirror l now sid s sh)"
  "alarms (doMirror l now sid s sh) JournalResumeSlot = alarms sh JournalResumeSlot"
  by (simp_all add: doMirror_def Let_def)

lemma exempt_frame' [simp]:
  "storedMachine (fst (exempt_command m out evs sh)) = Some (spent m)"
  "seen (fst (exempt_command m out evs sh)) = seen sh"
  "alarms (fst (exempt_command m out evs sh)) = alarms sh"
  "in_sync (fst (exempt_command m out evs sh)) = in_sync sh"
  "outbox (fst (exempt_command m out evs sh)) = outbox sh @ out"
  by (simp_all add: exempt_command_def)

lemmas execute_splits = speak_script.splits option.splits dial_result.splits merge_mode.splits

lemma execute_live_frame:
  assumes "load sh = Some m"
  shows "coherent sh \<Longrightarrow> coherent (fst (execute_live w m x sh))"
    and "in_sync sh \<Longrightarrow> in_sync (fst (execute_live w m x sh))"
    and "alarms (fst (execute_live w m x sh)) JournalResumeSlot = alarms sh JournalResumeSlot"
    and "seen (fst (execute_live w m x sh)) = seen sh"
  using assms
  by (cases x; auto simp: execute_defs Let_def split_beta coherent_def split: execute_splits; fail)+

lemma execute_orphan_frame:
  assumes "load sh = None"
  shows "coherent sh \<Longrightarrow> coherent (fst (execute_orphan w x sh))"
    and "in_sync sh \<Longrightarrow> in_sync (fst (execute_orphan w x sh))"
    and "alarms (fst (execute_orphan w x sh)) JournalResumeSlot = alarms sh JournalResumeSlot"
    and "seen (fst (execute_orphan w x sh)) = seen sh"
  using assms by (cases x; simp add: execute_hangup_def coherent_def; fail)+

lemma execute_frame:
  "coherent sh \<Longrightarrow> coherent (fst (execute w x sh))"
  "in_sync sh \<Longrightarrow> in_sync (fst (execute w x sh))"
  "alarms (fst (execute w x sh)) JournalResumeSlot = alarms sh JournalResumeSlot"
  "seen (fst (execute w x sh)) = seen sh"
  by (cases "load sh"; simp add: execute_def execute_live_frame execute_orphan_frame; fail)+

lemma abandon_frame:
  "map_option state (load (abandon x sh)) = map_option state (load sh)"
  "journal (abandon x sh) = journal sh" "reduced (abandon x sh) = reduced sh"
  "coherent sh \<Longrightarrow> coherent (abandon x sh)" "in_sync sh \<Longrightarrow> in_sync (abandon x sh)"
  "alarms (abandon x sh) = alarms sh" "seen (abandon x sh) = seen sh" "outbox (abandon x sh) = outbox sh"
  by (auto simp: abandon_def coherent_def split: option.splits)

lemma journal_update_frame [simp]:
  "storedMachine (sh\<lparr>journal := j\<rparr>) = storedMachine sh" "alarms (sh\<lparr>journal := j\<rparr>) = alarms sh"
  "in_sync (sh\<lparr>journal := j\<rparr>) = in_sync sh" "in_sync (sh\<lparr>reduced := es\<rparr>) = in_sync sh"
  by (simp_all add: in_sync_def)

lemma drain_step_frame:
  "coherent sh \<Longrightarrow> coherent (drain_step w sh)"
  "in_sync sh \<Longrightarrow> in_sync (drain_step w sh)"
  "alarms (drain_step w sh) JournalResumeSlot = alarms sh JournalResumeSlot"
  "seen (drain_step w sh) = seen sh"
proof -
  have r: "coherent sh \<Longrightarrow> coherent (reduce_head w j h sh)" "in_sync (reduce_head w j h sh) = in_sync sh"
    "alarms (reduce_head w j h sh) = alarms sh" "seen (reduce_head w j h sh) = seen sh" for j h
    by (auto simp: reduce_head_def Let_def split_beta coherent_def split: option.splits)
  have x: "coherent sh \<Longrightarrow> coherent (execute_next w j h e sh)"
    "in_sync sh \<Longrightarrow> in_sync (execute_next w j h e sh)"
    "alarms (execute_next w j h e sh) JournalResumeSlot = alarms sh JournalResumeSlot"
    "seen (execute_next w j h e sh) = seen sh" for j h e
    using execute_frame(1,2) [of sh w e] execute_frame(3,4) [of w e sh]
    by (simp_all add: execute_next_def split_beta coherent_def)
  have n: "coherent (next_head j sh) = coherent sh" "in_sync (next_head j sh) = in_sync sh"
    "alarms (next_head j sh) = alarms sh" "seen (next_head j sh) = seen sh" for j
    by (simp_all add: next_head_def coherent_def)
  have c: "coherent (consume s) = coherent s" for s by (simp add: coherent_def)
  show "coherent sh \<Longrightarrow> coherent (drain_step w sh)" "in_sync sh \<Longrightarrow> in_sync (drain_step w sh)"
    "alarms (drain_step w sh) JournalResumeSlot = alarms sh JournalResumeSlot"
    "seen (drain_step w sh) = seen sh"
    by (auto simp: drain_step_def Let_def r x n c abandon_frame split: option.splits)
qed



section \<open>Cascades end\<close>

lemma active_keeps: "active sh \<Longrightarrow> step_rejects w sh \<Longrightarrow> active (drain_step w sh)"
  by (auto simp: active_def step_rejects_def due_effect_def drain_step_def Let_def abandon_frame
      split: option.splits if_splits)

lemma drain_loop_result:
  assumes "drain_loop ws sh = Some (s, ok)"
  shows "alarms s JournalResumeSlot = alarms sh JournalResumeSlot"
    and "in_sync sh \<Longrightarrow> in_sync s" and "ok \<Longrightarrow> \<not> active s" and "\<not> ok \<Longrightarrow> active s"
    and "\<lbrakk>\<And>n. \<not> w_rejects (ws n); \<And>n k. w_dial (ws n) k \<noteq> DialThrew\<rbrakk> \<Longrightarrow> ok"
proof -
  let ?b = "\<lambda>(s, ok). ok \<and> active s"
  let ?c = "\<lambda>(s, ok :: bool). (drain_step (ws (tick s)) s, \<not> step_rejects (ws (tick s)) s)"
  note w = assms [unfolded drain_loop_def]
  have inv: "P (s, ok)" if "\<And>x. P x \<Longrightarrow> ?b x \<Longrightarrow> P (?c x)" "P (sh, True)" for P
    using while_option_rule [OF that(1) w that(2)] .
  show "alarms s JournalResumeSlot = alarms sh JournalResumeSlot"
    using inv [of "\<lambda>(s, _). alarms s JournalResumeSlot = alarms sh JournalResumeSlot"]
    by (auto simp: drain_step_frame)
  show "in_sync sh \<Longrightarrow> in_sync s"
    using inv [of "\<lambda>(s, _). in_sync s"] by (auto simp: drain_step_frame)
  show "ok \<Longrightarrow> \<not> active s" using while_option_stop [OF w] by simp
  show "\<not> ok \<Longrightarrow> active s"
    using inv [of "\<lambda>(s, ok). ok \<or> active s"] by (auto intro: active_keeps)
  assume calm: "\<And>n. \<not> w_rejects (ws n)" "\<And>n k. w_dial (ws n) k \<noteq> DialThrew"
  have "\<not> step_rejects (ws n) s" for n s
    using calm by (auto simp: step_rejects_def rejects_def split: option.splits
        elim!: dial_throws.elims)
  then show ok using inv [of "\<lambda>(_, ok). ok"] by auto
qed

lemma finish_drain_frame [simp]:
  "journal (finish_drain sh) = None" "alarms (finish_drain sh) = (alarms sh)(JournalResumeSlot := None)"
  "in_sync (finish_drain sh)" "load (finish_drain sh) = load sh" "\<not> active (finish_drain sh)"
  by (simp_all add: finish_drain_def active_def)

text \<open>An unfinished journal has the alarm that will resume it.\<close>

definition resumable :: "shell \<Rightarrow> bool" where
  "resumable sh \<longleftrightarrow> (active sh \<longrightarrow> alarms sh JournalResumeSlot \<noteq> None)"

lemma drain_cases:
  obtains (drained) sh' r where "drain ws sh = Some (Drained sh' r)" "journal sh' = None"
      "alarms sh' JournalResumeSlot = None" "in_sync sh'"
  | (threw) sh' where "drain ws sh = Some (Threw sh')" "active sh'"
      "alarms sh' JournalResumeSlot = alarms sh JournalResumeSlot" "in_sync sh \<Longrightarrow> in_sync sh'"
      "\<not> ((\<forall>n. \<not> w_rejects (ws n)) \<and> (\<forall>n k. w_dial (ws n) k \<noteq> DialThrew))"
proof -
  obtain s ok where l: "drain_loop ws sh = Some (s, ok)" using cascade.drain_loop_ends by blast
  note r = drain_loop_result [OF l]
  show ?thesis
  proof (cases ok)
    case True
    with l have "drain ws sh = Some (Drained (finish_drain s) (head_reply (ws (tick sh)) sh))"
      by (simp add: drain_def)
    then show ?thesis by (rule drained) simp_all
  next
    case False
    with l have "drain ws sh = Some (Threw s)" by (simp add: drain_def)
    then show ?thesis using r False by (intro threw) blast+
  qed
qed

text \<open>
  C20. Every cascade ends, whatever Telnyx, the database and the push service answer: the drain of
  any journal returns. If it leaves through its end, the journal and its resume alarm are gone and
  the platform alarm is the nearest remaining deadline; if a runtime call threw, the journal is
  still there and the resume alarm is as it was. When no runtime call throws it leaves through its
  end.
\<close>

theorem cascade_drains:
  "((\<exists>sh' r. drain ws sh = Some (Drained sh' r) \<and> journal sh' = None
        \<and> alarms sh' JournalResumeSlot = None \<and> in_sync sh')
     \<or> (\<exists>sh'. drain ws sh = Some (Threw sh') \<and> active sh'
        \<and> alarms sh' JournalResumeSlot = alarms sh JournalResumeSlot))
   \<and> ((\<forall>n. \<not> w_rejects (ws n)) \<and> (\<forall>n k. w_dial (ws n) k \<noteq> DialThrew) \<longrightarrow>
       (\<exists>sh' r. drain ws sh = Some (Drained sh' r)))"
  by (cases rule: drain_cases [of ws sh]) blast+

definition calm_world :: world where
  "calm_world = \<lparr>w_now = 7, w_rejects = False, w_wall = 7, w_keys = show_nat, w_mirrorLands = True,
     w_dial = (\<lambda>k. Dialed (''c-'' @ k)), w_answerOk = True, w_answerVmOk = True, w_bridgeDead = False,
     w_hangupDead = False, w_greetingAudio = None, w_played = False, w_alive = True,
     w_unreachable = [], w_audience = Some [], w_row = (\<lambda>_. None), w_initiated = InitiatedDrop,
     w_outbound = OutboundDrop\<rparr>"

theorem cascade_drains_witness:
  "\<exists>sh' r. drain (\<lambda>_. calm_world) (empty_shell\<lparr>journal := Some \<lparr>j_eventId = None,
     j_head = Some (fresh_head AlarmRing), j_rest = []\<rparr>\<rparr>) = Some (Drained sh' r)"
proof -
  have "(\<forall>n. \<not> w_rejects ((\<lambda>_ :: nat. calm_world) n))
      \<and> (\<forall>n k. w_dial ((\<lambda>_ :: nat. calm_world) n) k \<noteq> DialThrew)"
    by (simp add: calm_world_def)
  then show ?thesis using cascade_drains by blast
qed


section \<open>One thing at a time\<close>

datatype act = Admit ms session_event "string option" | Work world | Settle | Crash

text \<open>The FIFO admits an event only when the last journal is done.\<close>

fun perform :: "act \<Rightarrow> shell \<Rightarrow> shell" where
  "perform (Admit now e eid) sh =
     (if active sh then sh else case admit now e eid sh of None \<Rightarrow> sh | Some sh1 \<Rightarrow> sh1)"
| "perform (Work w) sh = drain_step w sh"
| "perform Settle sh = (if active sh then sh else finish_drain sh)"
| "perform Crash sh = evict sh"

definition emitted :: "world \<Rightarrow> shell \<Rightarrow> session_event list" where
  "emitted w sh =
     (case due_effect sh of None \<Rightarrow> [] | Some e \<Rightarrow> if rejects w e sh then [] else snd (execute w e sh))"

fun arrivals :: "act \<Rightarrow> shell \<Rightarrow> session_event list" where
  "arrivals (Admit now e eid) sh = (if active sh \<or> admit now e eid sh = None then [] else [e])"
| "arrivals (Work w) sh = emitted w sh"
| "arrivals Settle sh = []"
| "arrivals Crash sh = []"

fun perform_all :: "act list \<Rightarrow> shell \<Rightarrow> shell" where
  "perform_all [] sh = sh"
| "perform_all (a # as) sh = perform_all as (perform a sh)"

fun all_arrivals :: "act list \<Rightarrow> shell \<Rightarrow> session_event list" where
  "all_arrivals [] sh = []"
| "all_arrivals (a # as) sh = arrivals a sh @ all_arrivals as (perform a sh)"

text \<open>An invariant of every act is an invariant of every run of them.\<close>

locale shell_invariant =
  fixes ok :: "shell \<Rightarrow> bool"
  assumes perform_ok: "ok sh \<Longrightarrow> ok (perform a sh)"
begin

lemma all_ok: "ok sh \<Longrightarrow> ok (perform_all as sh)"
  by (induction as arbitrary: sh) (simp_all add: perform_ok)

end

lemma evict_frame [simp]:
  "journal (evict sh) = journal sh" "seen (evict sh) = seen sh" "alarms (evict sh) = alarms sh"
  "reduced (evict sh) = reduced sh" "outbox (evict sh) = outbox sh"
  "storedMachine (evict sh) = storedMachine sh" "load (evict sh) = storedMachine sh"
  "in_sync (evict sh) = in_sync sh" "active (evict sh) = active sh"
  by (simp_all add: evict_def load_def in_sync_def active_def)

lemma admit_SomeD:
  assumes "admit now e eid sh = Some sh1"
  shows "journal sh1 = Some \<lparr>j_eventId = eid, j_head = Some (fresh_head e), j_rest = []\<rparr>"
    and "alarms sh1 JournalResumeSlot = Some (now + JOURNAL_RESUME_MS)"
    and "seen sh1 = (if truthy eid then nextSeen (the eid) sh else seen sh)"
    and "load sh1 = load sh" "storedMachine sh1 = storedMachine sh" "reduced sh1 = reduced sh"
    and "outbox sh1 = outbox sh" "in_sync sh1"
  using assms by (auto simp: admit_def Let_def load_def in_sync_def setAlarmSlot_def reconcileAlarm_def
      split: if_splits cong: option.case_cong)


section \<open>Nothing lost, nothing twice\<close>

definition pending_events :: "shell \<Rightarrow> session_event list" where
  "pending_events sh =
     (case journal sh of None \<Rightarrow> []
      | Some j \<Rightarrow> (case j_head j of None \<Rightarrow> []
                   | Some h \<Rightarrow> if h_effects h = None then [h_event h] else []) @ j_rest j)"

definition tidy :: "shell \<Rightarrow> bool" where
  "tidy sh \<longleftrightarrow> (\<forall>j. journal sh = Some j \<and> j_head j = None \<longrightarrow> j_rest j = [])"

lemma drain_step_fifo:
  "reduced (drain_step w sh) @ pending_events (drain_step w sh)
     = reduced sh @ pending_events sh @ emitted w sh"
proof (cases "\<exists>j h. journal sh = Some j \<and> j_head j = Some h")
  case False
  then show ?thesis
    by (auto simp: drain_step_def emitted_def due_effect_def split: option.splits)
next
  case True
  then obtain j h where j: "journal sh = Some j" "j_head j = Some h" by blast
  show ?thesis
  proof (cases "h_effects h")
    case None
    with j show ?thesis
      by (auto simp: drain_step_def emitted_def due_effect_def pending_events_def reduce_head_def
          Let_def split_beta split: option.splits)
  next
    case (Some effs)
    with j show ?thesis
      by (auto simp: drain_step_def emitted_def due_effect_def pending_events_def execute_next_def
          next_head_def fresh_head_def Let_def split_beta abandon_frame execute_keeps
          split: list.splits)
  qed
qed

lemma drain_step_tidy: "tidy sh \<Longrightarrow> tidy (drain_step w sh)"
  by (auto simp: tidy_def drain_step_def reduce_head_def execute_next_def next_head_def abandon_frame
      Let_def split_beta split: option.splits list.splits)

lemma admit_tidy: "admit now e eid sh = Some sh1 \<Longrightarrow> tidy sh1"
  by (drule admit_SomeD(1)) (simp add: tidy_def)

lemma perform_tidy: "tidy sh \<Longrightarrow> tidy (perform a sh)"
proof (cases a)
  case (Admit now e eid)
  then show "tidy sh \<Longrightarrow> tidy (perform a sh)" by (auto simp: admit_tidy split: option.splits)
qed (simp_all add: drain_step_tidy, simp_all add: tidy_def)

interpretation tidy: shell_invariant tidy
  by unfold_locales (rule perform_tidy)

lemma finish_drain_reduced [simp]: "reduced (finish_drain sh) = reduced sh"
  by (simp add: finish_drain_def)

lemma idle_pending: "tidy sh \<Longrightarrow> \<not> active sh \<Longrightarrow> pending_events sh = []"
  by (auto simp: pending_events_def active_def tidy_def split: option.splits)

lemma perform_fifo:
  assumes "tidy sh"
  shows "reduced (perform a sh) @ pending_events (perform a sh)
     = reduced sh @ pending_events sh @ arrivals a sh"
proof (cases a)
  case (Admit now e eid)
  show ?thesis
  proof (cases "active sh")
    case False
    with Admit idle_pending [OF assms False] show ?thesis
      by (auto simp: admit_SomeD pending_events_def [of "_ :: shell"] fresh_head_def split: option.splits)
  qed (use Admit in simp)
next
  case (Work w)
  then show ?thesis by (simp add: drain_step_fifo)
next
  case Settle
  with idle_pending [OF assms] show ?thesis by (auto simp: pending_events_def)
next
  case Crash
  then show ?thesis by (simp add: pending_events_def)
qed

text \<open>
  C21. Exactly once, in order, across crashes: take any interleaving of admissions, cascade steps
  whose runtime calls may throw, and crashes, from an idle object. The events the reducer has been
  given, followed by the events still in the journal, are the admitted events and the follow-ups
  of executed effects in the order they arose: none is lost, reduced twice or overtaken.
\<close>

theorem reduced_exactly_once:
  assumes "journal sh = None"
  shows "reduced (perform_all as sh) @ pending_events (perform_all as sh)
     = reduced sh @ all_arrivals as sh"
proof -
  have "reduced (perform_all as sh) @ pending_events (perform_all as sh)
     = reduced sh @ pending_events sh @ all_arrivals as sh" if "tidy sh" for sh
    using that
  proof (induction as arbitrary: sh)
    case (Cons a as)
    from Cons.IH [OF perform_tidy [OF Cons.prems]] perform_fifo [OF Cons.prems, of a]
    show ?case by simp
  qed simp
  moreover have "tidy sh" "pending_events sh = []"
    using assms by (simp_all add: tidy_def pending_events_def)
  ultimately show ?thesis by simp
qed

theorem reduced_exactly_once_witness:
  "reduced (perform_all [Admit 7 AlarmRing (Some ''e1''), Crash, Work calm_world] empty_shell)
     @ pending_events (perform_all [Admit 7 AlarmRing (Some ''e1''), Crash, Work calm_world] empty_shell)
     = [AlarmRing]"
proof -
  have idle: "journal empty_shell = None" "reduced empty_shell = []" by (simp_all add: empty_shell_def)
  have "all_arrivals [Admit 7 AlarmRing (Some ''e1''), Crash, Work calm_world] empty_shell
      = [AlarmRing]"
    by (simp add: empty_shell_def admit_def isSeen_def active_def emitted_def due_effect_def
        fresh_head_def setAlarmSlot_def reconcileAlarm_def evict_def Let_def)
  with reduced_exactly_once [OF idle(1)] show ?thesis by (simp only: idle(2) append_Nil)
qed


section \<open>Duplicates\<close>

definition recent :: "nat \<Rightarrow> 'a list \<Rightarrow> 'a list" where
  "recent k xs = drop (length xs - k) xs"

lemma recent_mono: "k \<le> l \<Longrightarrow> set (recent k xs) \<subseteq> set (recent l xs)"
  unfolding recent_def by (rule set_drop_subset_set_drop) simp

lemma recent_subset: "set (recent k xs) \<subseteq> set xs"
  by (simp add: recent_def set_drop_subset)

lemma recent_snoc: "recent (Suc k) (xs @ [x]) = recent k xs @ [x]"
  by (simp add: recent_def)

lemma recent_drop: "k \<le> length xs - n \<or> n = 0 \<Longrightarrow> recent k (drop n xs) = recent k xs"
  by (cases "n \<le> length xs") (auto simp: recent_def)

lemma nextSeen_recent:
  assumes "i \<in> set (recent k (seen sh))" "k < SEEN_CAP" "length (seen sh) \<le> SEEN_CAP"
  shows "i \<in> set (recent (Suc k) (nextSeen x sh)) \<and> length (nextSeen x sh) \<le> SEEN_CAP"
proof (cases "x \<in> set (seen sh)")
  case True
  then show ?thesis using assms recent_mono [of k "Suc k" "seen sh"] by (auto simp: nextSeen_def)
next
  case False
  have "recent (Suc k) (drop (length (seen sh @ [x]) - SEEN_CAP) (seen sh @ [x]))
      = recent (Suc k) (seen sh @ [x])"
    using assms(2) by (intro recent_drop) auto
  with assms False show ?thesis by (auto simp: nextSeen_def recent_snoc Let_def)
qed

lemma nextSeen_self:
  assumes "length (seen sh) \<le> SEEN_CAP"
  shows "i \<in> set (recent 1 (nextSeen i sh)) \<or> i \<in> set (seen sh) \<and> nextSeen i sh = seen sh"
    and "length (nextSeen i sh) \<le> SEEN_CAP" and "i \<in> set (nextSeen i sh)"
proof -
  have "length (seen sh @ [i]) - SEEN_CAP \<le> length (seen sh)" by (simp add: SEEN_CAP_def)
  then show "i \<in> set (recent 1 (nextSeen i sh)) \<or> i \<in> set (seen sh) \<and> nextSeen i sh = seen sh"
    "length (nextSeen i sh) \<le> SEEN_CAP" "i \<in> set (nextSeen i sh)"
    using assms by (auto simp: nextSeen_def Let_def recent_def)
qed


fun admissions :: "act list \<Rightarrow> nat" where
  "admissions [] = 0"
| "admissions (Admit now e eid # as) = (if truthy eid then 1 else 0) + admissions as"
| "admissions (_ # as) = admissions as"

lemma finish_drain_seen [simp]: "seen (finish_drain sh) = seen sh"
  by (simp add: finish_drain_def reconcileAlarm_def)

lemma perform_all_seen:
  assumes "i \<in> set (recent (Suc n) (seen sh))" "length (seen sh) \<le> SEEN_CAP"
    and "n + admissions as < SEEN_CAP"
  shows "i \<in> set (seen (perform_all as sh)) \<and> length (seen (perform_all as sh)) \<le> SEEN_CAP"
  using assms
proof (induction as arbitrary: sh n)
  case Nil
  then show ?case using subsetD [OF recent_subset] by auto
next
  case (Cons a as)
  show ?case
  proof (cases "seen (perform a sh) = seen sh")
    case True
    moreover have "n + admissions as < SEEN_CAP" using Cons.prems(3) by (cases a) auto
    ultimately show ?thesis using Cons.IH [of n "perform a sh"] Cons.prems by simp
  next
    case False
    then obtain now e eid sh1 where a: "a = Admit now e eid" "truthy eid"
      "perform a sh = sh1" "admit now e eid sh = Some sh1"
      by (cases a) (auto simp: drain_step_frame admit_SomeD split: option.splits if_splits)
    with admit_SomeD(3) [OF a(4)] have s: "seen (perform a sh) = nextSeen (the eid) sh" by simp
    have "Suc n + admissions as < SEEN_CAP" using Cons.prems(3) a by simp
    moreover from this have "Suc n < SEEN_CAP" by simp
    ultimately show ?thesis
      using Cons.IH [of "Suc n" "perform a sh"] s
        nextSeen_recent [OF Cons.prems(1) _ Cons.prems(2), of "the eid"] by simp
  qed
qed

text \<open>
  C22. A redelivery is a no-op. Admission commits the event's id and its journal together and arms
  the resume alarm; while fewer than 256 further events with an id are admitted, through crashes
  and cascades of any kind, the same id is refused and the object stays exactly as it is. The list
  of ids never outgrows its cap.
\<close>

theorem duplicate_is_noop:
  assumes "i \<noteq> []" "length (seen sh) \<le> SEEN_CAP" "admit now e (Some i) sh = Some sh1"
    and "admissions as < SEEN_CAP"
  shows "i \<in> set (seen sh1) \<and> active sh1
     \<and> alarms sh1 JournalResumeSlot = Some (now + JOURNAL_RESUME_MS)
     \<and> admit now' e' (Some i) (perform_all as sh1) = None
     \<and> perform (Admit now' e' (Some i)) (perform_all as sh1) = perform_all as sh1
     \<and> length (seen (perform_all as sh1)) \<le> SEEN_CAP"
proof -
  have s: "seen sh1 = nextSeen i sh" using admit_SomeD(3) [OF assms(3)] assms(1) by simp
  have "i \<notin> set (seen sh)" using assms(1,3) by (auto simp: admit_def isSeen_def)
  then have "i \<in> set (recent (Suc 0) (seen sh1))" "length (seen sh1) \<le> SEEN_CAP"
    using nextSeen_self [OF assms(2), of i] s by auto
  from perform_all_seen [OF this, of as] assms(4)
  have "i \<in> set (seen (perform_all as sh1))" "length (seen (perform_all as sh1)) \<le> SEEN_CAP" by auto
  then show ?thesis
    using assms(1) admit_SomeD [OF assms(3)] s nextSeen_self(3) [OF assms(2), of i]
    by (simp add: admit_def isSeen_def active_def)
qed

theorem duplicate_is_noop_witness:
  "\<exists>sh1. admit 7 AlarmRing (Some ''e1'') empty_shell = Some sh1
     \<and> admit 9 AlarmJanitor (Some ''e1'') (perform_all [Crash, Work calm_world] sh1) = None"
proof -
  have 1: "(''e1'' :: string) \<noteq> []" by simp
  have 2: "length (seen empty_shell) \<le> SEEN_CAP" by (simp add: empty_shell_def)
  have "admit 7 AlarmRing (Some ''e1'') empty_shell \<noteq> None"
    by (simp add: admit_def isSeen_def empty_shell_def Let_def)
  then obtain sh1 where 3: "admit 7 AlarmRing (Some ''e1'') empty_shell = Some sh1" by blast
  have 4: "admissions [Crash, Work calm_world] < SEEN_CAP" by (simp add: SEEN_CAP_def)
  from duplicate_is_noop [OF 1 2 3 4] 3 show ?thesis by blast
qed


section \<open>Alarms\<close>

lemma perform_in_sync: "in_sync sh \<Longrightarrow> in_sync (perform a sh)"
  by (cases a) (auto simp: drain_step_frame admit_SomeD split: option.splits)

interpretation synced: shell_invariant in_sync
  by unfold_locales (rule perform_in_sync)

lemma drain_step_active: "active (drain_step w sh) \<Longrightarrow> active sh"
  by (auto simp: drain_step_def active_def split: option.splits)

lemma perform_resumable: "resumable sh \<Longrightarrow> resumable (perform a sh)"
  by (cases a) (auto simp: resumable_def drain_step_frame admit_SomeD split: option.splits
      dest: drain_step_active)

interpretation resumable: shell_invariant resumable
  by unfold_locales (rule perform_resumable)



end
