(* ===== verification/Session_Guards.thy ===== *)
theory Session_Guards
  imports Session_Claims
begin

text \<open>
  Further guarantees of the session shell: the command cap with its exempt class, the batched
  fan-out, the retried mirror, the lifecycle reports, adoption from the calls row, and what the
  entry points and alarms leave behind.
\<close>


section \<open>The reducer leaves the command count alone\<close>

lemma count_frame [frame_simps]:
  "telnyxCommandCount (on_leg p f m) = telnyxCommandCount m"
  "telnyxCommandCount (fst (vmEntry m)) = telnyxCommandCount m"
  "telnyxCommandCount (fst (runAvenueLadder m)) = telnyxCommandCount m"
  "telnyxCommandCount (fst (terminalize m now t mrg r x)) = telnyxCommandCount m"
  "telnyxCommandCount (fst (ownerDeathTeardown m)) = telnyxCommandCount m"
  "telnyxCommandCount (fst (answer_customer m c u ts)) = telnyxCommandCount m"
  "telnyxCommandCount (fst (dialLegFor m tg now k)) = telnyxCommandCount m"
  by (simp_all add: on_leg_def vmEntry_def runAvenueLadder_def terminalize_eq ownerDeathTeardown_def
      answer_customer_def dialLegFor_def Let_def)

lemma step_count: "telnyxCommandCount (fst (step m s)) = telnyxCommandCount m"
proof -
  obtain e now wall pk where s: "s = (e, now, wall, pk)" by (cases s)
  show ?thesis
  proof (cases e)
    case (InboundHangup tag stamp p)
    then show ?thesis unfolding s
      by (cases tag; cases "answerIntent m") (simp_all add: edge_defs Let_def split_beta frame_simps)
  next
    case AlarmRingStep
    then show ?thesis unfolding s
      by (simp add: on_alarm_ring_step_def Let_def split_beta frame_simps split: list.splits)
  next
    case (RingMe u sip nl)
    then show ?thesis unfolding s
      by (simp add: reduceRingMe_def Let_def split_beta frame_simps split: option.splits)
  qed (simp_all add: s edge_defs Let_def split_beta frame_simps cancelAllLiveLegs_def
      remove_avenues_def split: option.splits)
qed


section \<open>The command cap\<close>

fun droppable :: "sent \<Rightarrow> bool" where
  "droppable (SentDial l tag) = True"
| "droppable (SentDialPlacer k u sip tag) = True"
| "droppable (SentHangup c t) = (\<not> t)"
| "droppable _ = False"

definition dropped_count :: "shell \<Rightarrow> nat" where
  "dropped_count sh = length (filter droppable (outbox sh))"

definition covers :: "nat \<Rightarrow> session_machine \<Rightarrow> bool" where
  "covers d m \<longleftrightarrow> d \<le> telnyxCommandCount m \<and> d \<le> MAX_TELNYX_COMMANDS_PER_SESSION"

text \<open>The invariant: what was sent under the cap is covered by the durable count.\<close>

definition budgeted :: "shell \<Rightarrow> bool" where
  "budgeted sh \<longleftrightarrow>
     (\<exists>m st. load sh = Some m \<and> storedMachine sh = Some st
        \<and> telnyxCommandCount st \<le> telnyxCommandCount m \<and> covers (dropped_count sh) st)"

lemma dropped_simps [simp]:
  "dropped_count (send out sh) = dropped_count sh + length (filter droppable out)"
  "dropped_count (save m sh) = dropped_count sh"
  "dropped_count (cache m sh) = dropped_count sh"
  "dropped_count (consume sh) = dropped_count sh"
  "dropped_count (setAlarmSlot s t sh) = dropped_count sh"
  "dropped_count (clearAlarmSlot s sh) = dropped_count sh"
  "dropped_count (evict sh) = dropped_count sh"
  "dropped_count (sh\<lparr>journal := j\<rparr>) = dropped_count sh"
  "dropped_count (doMirror l now sid cols sh) = dropped_count sh"
  by (simp_all add: dropped_count_def doMirror_def Let_def)

lemma covers_mono: "covers d m \<Longrightarrow> telnyxCommandCount m \<le> telnyxCommandCount n \<Longrightarrow> covers d n"
  by (simp add: covers_def)

lemma covers_spend:
  "covers d m \<Longrightarrow> spendCommand m False = (m', admitted) \<Longrightarrow> covers (d + of_bool admitted) m'"
  by (auto simp: covers_def spendCommand_def Let_def)

lemma serial_spend_covers:
  "covers d m \<Longrightarrow> covers (d + length (filter snd (snd (serial_spend m ls)))) (fst (serial_spend m ls))"
proof (induction ls arbitrary: d m)
  case (Cons l ls)
  obtain m1 adm where s: "spendCommand m False = (m1, adm)" by (cases "spendCommand m False")
  from Cons.IH [OF covers_spend [OF Cons.prems s]] show ?case by (cases adm) (simp_all add: s split_beta)
qed simp

lemma dial_sent_droppable:
  "length (filter droppable (concat (map (dial_sent w m) as))) = length (filter snd as)"
  by (induction as) (auto simp: dial_sent_def split: dial_result.splits)

lemma budgetedI:
  "load sh = Some m \<Longrightarrow> storedMachine sh = Some st \<Longrightarrow> telnyxCommandCount st \<le> telnyxCommandCount m
     \<Longrightarrow> covers (dropped_count sh) st \<Longrightarrow> budgeted sh"
  by (auto simp: budgeted_def)

lemma budgeted_save: "covers (dropped_count sh) m \<Longrightarrow> budgeted (save m sh)"
  by (rule budgetedI [of _ m m]) simp_all

lemma budgeted_exempt:
  assumes "budgeted sh" "load sh = Some m" "filter droppable out = []"
  shows "budgeted (fst (exempt_command m out evs sh))"
  using assms by (auto simp: exempt_command_def budgeted_def covers_def)

lemma execute_hangup_budgeted:
  assumes b: "budgeted sh" and m: "load sh = Some m"
  shows "budgeted (fst (execute_hangup w (Some m) c t sh))"
proof (cases t)
  case True
  with b m show ?thesis
    by (auto simp: execute_hangup_def spendCommand_def Let_def budgeted_def covers_def)
next
  case False
  with b m show ?thesis
    by (auto simp: execute_hangup_def spendCommand_def Let_def budgeted_def covers_def)
qed

lemma execute_live_budgeted:
  assumes b: "budgeted sh" and m: "load sh = Some m"
  shows "budgeted (fst (execute_live w m x sh))"
proof (cases x)
  case (TelnyxDial ls)
  from b m have "covers (dropped_count sh) m" by (auto simp: budgeted_def covers_def)
  from serial_spend_covers [OF this, of ls] TelnyxDial show ?thesis
    by (simp add: dial_batches_eq budgeted_save dial_sent_droppable)
next
  case (TelnyxDialPlacer k u sip)
  with b m show ?thesis
    by (auto simp: execute_dial_placer_def spendCommand_def Let_def budgeted_def covers_def
        split: dial_result.splits)
next
  case (TelnyxHangup c t)
  with execute_hangup_budgeted [OF b m] show ?thesis by simp
next
  case (TelnyxSpeak c script)
  with budgeted_exempt [OF b m] show ?thesis
    by (auto simp: execute_speak_def split: speak_script.splits option.splits)
next
  case (TelnyxBridge mc cc)
  with budgeted_exempt [OF b m, of "[SentBridge mc cc]" "[]"] show ?thesis
    by (auto simp: split_beta budgeted_def)
qed (use budgeted_exempt [OF b m] b m in \<open>auto simp: budgeted_def split: merge_mode.splits option.splits\<close>)

lemma execute_budgeted: "budgeted sh \<Longrightarrow> budgeted (fst (execute w x sh))"
  using execute_live_budgeted by (auto simp: execute_def budgeted_def split: option.splits)


lemma drain_step_budgeted:
  assumes b: "budgeted sh"
  shows "budgeted (drain_step w sh)"
proof -
  have r: "budgeted (reduce_head w j h sh)" for j h
  proof -
    from b obtain m st where m: "load sh = Some m" "storedMachine sh = Some st"
      "telnyxCommandCount st \<le> telnyxCommandCount m" "covers (dropped_count sh) st"
      by (auto simp: budgeted_def)
    obtain m' effs r where red: "reduce (Some m) (h_event h) (w_now w) (w_wall w) (w_keys w)
        = (Some m', effs, r)" using reduce_ex by blast
    from reduce_step [OF red] step_count [of m "(h_event h, w_now w, w_wall w, w_keys w)"]
    have "telnyxCommandCount m' = telnyxCommandCount m" by simp
    with m(3,4) have c: "covers (dropped_count sh) m'" by (auto simp: covers_def)
    have "filter droppable (map SentCapture xs) = []" for xs by (induction xs) simp_all
    with c m(1) red show ?thesis
      by (auto simp: reduce_head_def Let_def budgeted_def dropped_count_def)
  qed
  have x: "budgeted (execute_next w j h e sh)" for j h e
    using execute_budgeted [OF b, of w e] by (auto simp: execute_next_def split_beta budgeted_def)
  have a: "budgeted (abandon e sh)" for e
    using b by (auto simp: abandon_def budgeted_def split: option.splits)
  have c: "budgeted (consume s) = budgeted s" for s by (simp add: budgeted_def)
  have n: "budgeted (next_head j sh)" for j using b by (simp add: next_head_def budgeted_def)
  show ?thesis using b by (auto simp: drain_step_def Let_def r x a c n split: option.splits)
qed

lemma finish_drain_frame':
  "storedMachine (finish_drain sh) = storedMachine sh" "outbox (finish_drain sh) = outbox sh"
  by (simp_all add: finish_drain_def reconcileAlarm_def)

lemma perform_budgeted: "budgeted sh \<Longrightarrow> budgeted (perform a sh)"
proof (cases a)
  case (Admit now e eid)
  then show "budgeted sh \<Longrightarrow> budgeted (perform a sh)"
    by (auto simp: budgeted_def dropped_count_def admit_SomeD split: option.splits)
next
  case Settle
  then show "budgeted sh \<Longrightarrow> budgeted (perform a sh)"
    by (auto simp: budgeted_def dropped_count_def finish_drain_frame')
next
  case Crash
  then show "budgeted sh \<Longrightarrow> budgeted (perform a sh)" by (auto simp: budgeted_def)
qed (simp add: drain_step_budgeted)

interpretation budgeted: shell_invariant budgeted
  by unfold_locales (rule perform_budgeted)


definition seated :: "session_machine \<Rightarrow> shell" where
  "seated m = empty_shell\<lparr>storedMachine := Some m, cachedMachine := Some (Some m)\<rparr>"

definition some_row :: adoption_row where
  "some_row = \<lparr>ar_callSessionId = ''s1'', ar_companyId = ''co'', ar_phoneNumberId = None,
     ar_callerE164 = None, ar_outcome = None, ar_answeredAt = None, ar_answeredByUserId = None,
     ar_startedAtMs = 0, ar_customerCallControlId = Some ''cust'', ar_direction = Some ''inbound'',
     ar_companyName = ''Acme'', ar_greeting = None, ar_businessNumberE164 = None,
     ar_ledgerLegs = [(''c1'', ''ann'', ''ringing'')]\<rparr>"


text \<open>
  The fan-out in batches of six is the serial loop it replaced: the same legs are admitted in
  leg order, leg \<open>i\<close> exactly when the budget had room for \<open>i + 1\<close> more commands, the outcomes come
  back in leg order, and every leg is counted once.
\<close>

theorem batches_are_serial:
  "dial_batches w m ls =
     (m\<lparr>telnyxCommandCount := telnyxCommandCount m + length ls\<rparr>,
      map (\<lambda>(i, l). dial_outcome w (l, telnyxCommandCount m + i < 88)) (enumerate 0 ls),
      concat (map (\<lambda>(i, l). dial_sent w m (l, telnyxCommandCount m + i < 88)) (enumerate 0 ls)))"
proof -
  have "snd (serial_spend m ls) = map (\<lambda>(i, l). (l, telnyxCommandCount m + i < 88 + k)) (enumerate k ls)"
    for k
  proof (induction ls arbitrary: m k)
    case (Cons l ls)
    let ?m = "m\<lparr>telnyxCommandCount := Suc (telnyxCommandCount m)\<rparr>"
    have "snd (serial_spend m (l # ls)) = (l, telnyxCommandCount m < 88) # snd (serial_spend ?m ls)"
      by (auto simp: split_beta spendCommand_def Let_def MAX_TELNYX_COMMANDS_PER_SESSION_def
          MAX_LEGS_PER_SESSION_def)
    also have "snd (serial_spend ?m ls)
        = map (\<lambda>(i, l). (l, telnyxCommandCount ?m + i < 88 + Suc k)) (enumerate (Suc k) ls)"
      by (rule Cons.IH)
    finally show ?case by simp
  qed simp
  from this [of 0] show ?thesis
    by (simp add: dial_batches_eq serial_spend_machine case_prod_unfold comp_def)
qed



section \<open>Queued mirror writes\<close>

text \<open>What a failing database leaves of a queued write after \<open>n\<close> more retries.\<close>

fun failed_retries :: "nat \<Rightarrow> ms \<Rightarrow> shell \<Rightarrow> shell" where
  "failed_retries 0 now sh = sh"
| "failed_retries (Suc n) now sh = failed_retries n now (retryPendingMirror False now sh)"

lemma retry_fails:
  assumes "load sh = Some m" "pendingMirror sh = Some p"
  shows "retryPendingMirror False now sh =
     (if p_attempts p + 1 \<ge> MAX_MIRROR_ATTEMPTS
      then (send [SentMirrorGaveUp (p_attempts p + 1)] sh)\<lparr>pendingMirror := None\<rparr>
      else setAlarmSlot MirrorRetrySlot (now + MIRROR_RETRY_MS)
             (sh\<lparr>pendingMirror := Some \<lparr>p_set = pin_mirror m (p_set p), p_attempts = p_attempts p + 1\<rparr>\<rparr>))"
  using assms by (simp add: retryPendingMirror_def Let_def)

lemma pending_setAlarm [simp]: "pendingMirror (setAlarmSlot s t sh) = pendingMirror sh"
  by (simp add: setAlarmSlot_def reconcileAlarm_def)

lemma failed_retries_end:
  assumes "load sh = Some m" "pendingMirror sh = Some p" "p_attempts p + n = MAX_MIRROR_ATTEMPTS" "0 < n"
  shows "pendingMirror (failed_retries n now sh) = None
     \<and> outbox (failed_retries n now sh) = outbox sh @ [SentMirrorGaveUp MAX_MIRROR_ATTEMPTS]"
  using assms
proof (induction n arbitrary: sh p)
  case (Suc n)
  note r = retry_fails [OF Suc.prems(1,2)]
  show ?case
  proof (cases n)
    case 0
    with Suc.prems(3) show ?thesis by (simp add: r send_def)
  next
    case (Suc k)
    let ?p = "\<lparr>p_set = pin_mirror m (p_set p), p_attempts = p_attempts p + 1\<rparr>"
    have sh: "retryPendingMirror False now sh = setAlarmSlot MirrorRetrySlot (now + MIRROR_RETRY_MS)
        (sh\<lparr>pendingMirror := Some ?p\<rparr>)" using Suc.prems(3) Suc by (simp add: r)
    have "pendingMirror (failed_retries n now (retryPendingMirror False now sh)) = None
      \<and> outbox (failed_retries n now (retryPendingMirror False now sh))
        = outbox (retryPendingMirror False now sh) @ [SentMirrorGaveUp MAX_MIRROR_ATTEMPTS]"
      by (rule Suc.IH [of _ ?p]) (use Suc.prems Suc sh in simp_all)
    then show ?thesis by (simp add: sh)
  qed
qed simp





section \<open>The end of a call is reported once\<close>

fun end_report :: "sent \<Rightarrow> bool" where
  "end_report (SentCapture (CallEnded co d sid oc dur e)) = True"
| "end_report _ = False"

fun start_report :: "sent \<Rightarrow> bool" where
  "start_report (SentCapture (CallStarted co d sid)) = True"
| "start_report _ = False"

definition capture_free :: "sent list \<Rightarrow> bool" where
  "capture_free out \<longleftrightarrow> filter end_report out = [] \<and> filter start_report out = []"

lemma capture_free_simps [simp]:
  "capture_free []" "capture_free (x # out) \<longleftrightarrow> \<not> end_report x \<and> \<not> start_report x \<and> capture_free out"
  "capture_free (xs @ ys) \<longleftrightarrow> capture_free xs \<and> capture_free ys"
  by (auto simp: capture_free_def)

lemma dial_sent_capture_free [simp]: "capture_free (concat (map (dial_sent w m) as))"
  by (induction as) (auto simp: dial_sent_def split: dial_result.splits)

lemma doMirror_outbox: "\<exists>out. outbox (doMirror l now sid s sh) = outbox sh @ out \<and> capture_free out"
  by (simp add: doMirror_def Let_def)

lemma execute_outbox: "\<exists>out. outbox (fst (execute w x sh)) = outbox sh @ out \<and> capture_free out"
proof (cases "load sh")
  case None
  then show ?thesis by (cases x) (simp_all add: execute_def execute_hangup_def)
next
  case (Some m)
  then show ?thesis
  proof (cases x)
    case (Mirror s t)
    with Some show ?thesis by (simp add: execute_def doMirror_outbox)
  qed (auto simp: execute_def execute_defs spendCommand_def Let_def dial_batches_eq split_beta
      split: execute_splits)
qed

definition reported :: "shell \<Rightarrow> bool" where
  "reported sh \<longleftrightarrow> coherent sh
     \<and> length (filter start_report (outbox sh)) = (if load sh = None then 0 else 1)
     \<and> length (filter end_report (outbox sh)) =
         (case load sh of None \<Rightarrow> 0 | Some m \<Rightarrow> if isTerminal (state m) then 1 else 0)"

lemma reported_cong:
  assumes "reported sh" "map_option state (load sh') = map_option state (load sh)" "coherent sh'"
    and "outbox sh' = outbox sh @ out" "capture_free out"
  shows "reported sh'"
  using assms by (cases "load sh"; cases "load sh'") (auto simp: reported_def capture_free_def)

lemma reduce_head_reported:
  assumes r: "reported sh"
  shows "reported (reduce_head w j h sh)"
proof -
  obtain after effs rep where red:
    "reduce (load sh) (h_event h) (w_now w) (w_wall w) (w_keys w) = (after, effs, rep)"
    by (cases "reduce (load sh) (h_event h) (w_now w) (w_wall w) (w_keys w)")
  show ?thesis
  proof (cases after)
    case None
    then show ?thesis
      by (intro reported_cong [OF r, of _ "[]"]) (use r in \<open>simp_all add: reduce_head_def red
          reported_def coherent_def\<close>)
  next
    case (Some m)
    have "isTerminal (state m)" if "load sh = Some b" "isTerminal (state b)" for b
      using that red Some reduce_step [of b "h_event h"]
        terminal.step_inv [of b "(h_event h, w_now w, w_wall w, w_keys w)"] by auto
    moreover have "\<exists>s. reduce_head w j h sh = send (map SentCapture
          (lifecycle_report (load sh) m (h_event h) (w_now w))) (save m s) \<and> outbox s = outbox sh"
      by (intro exI conjI) (simp add: reduce_head_def red Some, simp)
    ultimately show ?thesis using r
      by (cases "load sh") (auto simp: reported_def coherent_def lifecycle_report_def Let_def)
  qed
qed

lemma drain_step_reported:
  assumes r: "reported sh"
  shows "reported (drain_step w sh)"
proof -
  have c: "reported (consume s)" if "reported s" for s
    using that by (simp add: reported_def coherent_def)
  have x: "reported (execute_next w j h e sh)" for j h e
  proof -
    obtain out where out: "outbox (fst (execute w e sh)) = outbox sh @ out" "capture_free out"
      using execute_outbox by blast
    have "coherent (fst (execute w e sh))" using r execute_frame(1) by (simp add: reported_def)
    then have "reported (fst (execute w e sh))"
      using reported_cong [OF r execute_keeps(1) _ out] by blast
    then show ?thesis by (simp add: execute_next_def split_beta reported_def coherent_def)
  qed
  have a: "reported (abandon e sh)" for e
    using r by (intro reported_cong [OF r, of _ "[]"]) (simp_all add: abandon_frame reported_def)
  have n: "reported (next_head j sh)" for j
    using r by (simp add: next_head_def reported_def coherent_def)
  show ?thesis using r
    by (auto simp: drain_step_def Let_def c x a n reduce_head_reported split: option.splits)
qed

lemma perform_reported: "reported sh \<Longrightarrow> reported (perform a sh)"
proof (cases a)
  case (Admit now e eid)
  then show "reported sh \<Longrightarrow> reported (perform a sh)"
    by (auto simp: reported_def coherent_def admit_SomeD split: option.splits)
next
  case Settle
  then show "reported sh \<Longrightarrow> reported (perform a sh)"
    by (auto simp: reported_def coherent_def finish_drain_frame')
next
  case Crash
  then show "reported sh \<Longrightarrow> reported (perform a sh)"
    by (cases "load sh"; cases "storedMachine sh") (auto simp: reported_def coherent_def)
qed (simp add: drain_step_reported)

interpretation reported: shell_invariant reported
  by unfold_locales (rule perform_reported)

text \<open>
  A call's start and its end are each reported once: from an empty object, after any run of
  admissions, cascade steps and crashes, \<open>call_started\<close> has been captured once if there is a
  machine and not at all otherwise, and \<open>call_ended\<close> once if its state is terminal and not at all
  otherwise, however often its outcome is revised afterwards.
\<close>

theorem lifecycle_reported_once:
  "length (filter start_report (outbox (perform_all as empty_shell)))
     = (if load (perform_all as empty_shell) = None then 0 else 1)
   \<and> length (filter end_report (outbox (perform_all as empty_shell)))
     = (case load (perform_all as empty_shell) of None \<Rightarrow> 0
        | Some m \<Rightarrow> if isTerminal (state m) then 1 else 0)"
proof -
  have "reported empty_shell" by (simp add: reported_def coherent_def empty_shell_def load_def)
  then have "reported (perform_all as empty_shell)" by (rule reported.all_ok)
  then show ?thesis by (simp add: reported_def)
qed


section \<open>Adoption\<close>

text \<open>
  A machine adopted from the calls row says what the row says: its outcome is the row's (none
  while the call is open), an outbound call is never put into the ringing or voicemail states, the
  ring deadline is set exactly in \<open>ringing\<close> and is the start plus the ring window, an answered call
  is one the row has an answer time for, and every leg has the call control id of its ledger row.
\<close>

theorem adoption_matches_row:
  "outcomeForState (state (reconstructMachine row raw)) = ar_outcome row
   \<and> state (reconstructMachine row raw) \<in>
       (if ar_direction row = Some ''outbound''
        then {Dialing, Answered, EndedAnswered, EndedVoicemail, EndedMissed}
        else UNIV - {Dialing, EndedRejected})
   \<and> ringDeadlineMs (reconstructMachine row raw) =
       (if state (reconstructMachine row raw) = Ringing then Some (ar_startedAtMs row + 45000) else None)
   \<and> (state (reconstructMachine row raw) \<noteq> Answered \<or> truthy (answeredAtIso (reconstructMachine row raw)))
   \<and> map ccid (legs (reconstructMachine row raw)) = map (Some \<circ> fst) (ar_ledgerLegs row)
   \<and> adopted (reconstructMachine row raw)"
proof -
  let ?m = "reconstructMachine row raw"
  have st: "state ?m = adopted_state row (Option.bind raw te_type)
      (classifyInboundTag (Option.bind (Option.bind raw te_payload) cp_clientState))"
    by (simp add: reconstructMachine_def Let_def)
  have "outcomeForState (adopted_state row et tag) = ar_outcome row" for et tag
    by (cases "ar_outcome row"; (case_tac "the (ar_outcome row)")?)
      (auto simp: adopted_state_def Let_def)
  moreover have "adopted_state row et tag \<in> (if ar_direction row = Some ''outbound''
        then {Dialing, Answered, EndedAnswered, EndedVoicemail, EndedMissed}
        else UNIV - {Dialing, EndedRejected})" for et tag
    by (cases "ar_outcome row"; (case_tac "the (ar_outcome row)")?)
      (auto simp: adopted_state_def Let_def)
  moreover have "adopted_state row et tag \<noteq> Answered \<or> truthy (ar_answeredAt row)" for et tag
    by (cases "ar_outcome row"; (case_tac "the (ar_outcome row)")?)
      (auto simp: adopted_state_def Let_def)
  moreover have "ringDeadlineMs ?m = (if state ?m = Ringing then Some (ar_startedAtMs row + 45000) else None)"
    by (simp add: reconstructMachine_def Let_def RING_WINDOW_SECS_def)
  moreover have "answeredAtIso ?m = ar_answeredAt row" "adopted ?m"
    "map ccid (legs ?m) = map (Some \<circ> fst) (ar_ledgerLegs row)"
    by (auto simp: reconstructMachine_def Let_def adopted_leg_def)
  ultimately show ?thesis unfolding st by simp
qed


theorem adoption_matches_row_witness:
  "truthy (answeredAtIso (reconstructMachine (some_row\<lparr>ar_answeredAt := Some ''t''\<rparr>) None))"
proof -
  have "state (reconstructMachine (some_row\<lparr>ar_answeredAt := Some ''t''\<rparr>) None) = Answered"
    by (simp add: reconstructMachine_def some_row_def adopted_state_def Let_def)
  with adoption_matches_row [of "some_row\<lparr>ar_answeredAt := Some ''t''\<rparr>" None] show ?thesis by simp
qed


section \<open>Entry points\<close>

lemma drain_idle: "\<not> active sh \<Longrightarrow> drain ws sh = Some (Drained (finish_drain sh) (head_reply (ws (tick sh)) sh))"
  by (simp add: drain_def drain_loop_def while_option_unfold)

text \<open>What an entry point leaves: no unfinished journal, or, when a runtime call threw, one that
  its alarm will resume.\<close>

definition settles :: "'a drained option \<Rightarrow> bool" where
  "settles r \<longleftrightarrow>
     (\<exists>s x. r = Some (Drained s x) \<and> \<not> active s) \<or> (\<exists>s. r = Some (Threw s) \<and> resumable s)"

lemma settles_simps [simp]:
  "settles (Some (Drained s x)) \<longleftrightarrow> \<not> active s"
  "settles (Some (Threw s)) = resumable s"
  by (auto simp: settles_def)

lemma active_simps [simp]:
  "active (rememberSessionId sid sh) = active sh" "active (remember_opt osid sh) = active sh"
  "active (consume sh) = active sh" "active (save m sh) = active sh" "active (send out sh) = active sh"
  "active (reconcileAlarm sh) = active sh" "active (clearAlarmSlot slot sh) = active sh"
  "active (setAlarmSlot slot t sh) = active sh" "active (sh\<lparr>pendingMirror := p\<rparr>) = active sh"
  "\<not> active (purge_storage sh)"
  by (simp_all add: active_def remember_opt_def purge_storage_def)

lemma resumable_simps [simp]:
  "resumable (rememberSessionId sid sh) = resumable sh"
  "resumable (remember_opt osid sh) = resumable sh"
  by (simp_all add: resumable_def remember_opt_def)

lemma idle_resumable: "\<not> active sh \<Longrightarrow> resumable sh"
  by (simp add: resumable_def)

lemma then_do_settles:
  assumes "settles r" "\<And>s x. \<not> active s \<Longrightarrow> settles (f s x)"
  shows "settles (then_do r f)"
  using assms(1) unfolding settles_def [of r] then_do_def using assms(2) by auto

lemma drain_settles: "resumable sh \<Longrightarrow> settles (drain ws sh)"
proof (cases rule: drain_cases [of ws sh])
  case (threw sh')
  then have "active sh" using drain_idle [of sh ws] by auto
  with threw show "resumable sh \<Longrightarrow> settles (drain ws sh)" by (simp add: resumable_def)
qed (simp add: active_def)

lemma admit_resumable: "admit now e eid sh = Some sh1 \<Longrightarrow> resumable sh1"
  by (simp add: resumable_def admit_SomeD)

lemma admitAndDrain_settles: "\<not> active sh \<Longrightarrow> settles (admitAndDrain ws e eid sh)"
  by (auto simp: admitAndDrain_def split: option.splits intro: drain_settles admit_resumable)

lemma resume_settles: "resumable sh \<Longrightarrow> settles (resumeJournalIfAny ws sh)"
  by (auto simp: resumeJournalIfAny_def then_do_def drain_settles)

lemma adopt_settles: "\<not> active sh \<Longrightarrow> settles (load_or_adopt ws raw sh)"
  by (auto simp: load_or_adopt_def adoptFromRow_def Let_def resumable_def split: option.splits)

lemma admit_alarm_settles: "\<not> active sh \<Longrightarrow> settles (admit_alarm ws e sh)"
  by (auto simp: admit_alarm_def intro!: then_do_settles admitAndDrain_settles)

lemma retry_active [simp]: "active (retryPendingMirror l now sh) = active sh"
  by (auto simp: retryPendingMirror_def Let_def split: option.splits)

lemma fireAlarm_settles: "\<not> active sh \<Longrightarrow> settles (fireAlarm ws slot sh)"
  by (auto simp: fireAlarm_def Let_def resumable_def intro!: admit_alarm_settles
      split: alarm_slot.splits option.splits alarm_kind.splits)

lemma fire_all_settles: "\<not> active sh \<Longrightarrow> settles (fire_all ws slots sh)"
  by (induction slots arbitrary: sh) (auto intro!: then_do_settles fireAlarm_settles)

lemmas entry_settles = then_do_settles resume_settles adopt_settles admitAndDrain_settles fire_all_settles

lemma refuse_settles: "\<not> active sh \<Longrightarrow> settles (refuse_leg w p sh)"
  by (simp add: refuse_leg_def idle_resumable)

lemma parse_initiated_settles: "\<not> active sh \<Longrightarrow> settles (parse_initiated w p sh)"
  by (cases "w_outbound w"; cases "w_initiated w")
    (simp_all add: parse_initiated_def refuse_settles idle_resumable)

lemma parse_lifecycle_settles:
  "\<not> active sh \<Longrightarrow> settles (then_do (load_or_adopt ws (Some raw) (remember_opt osid sh))
     (\<lambda>sh2 found. if found = None then done_with sh2 x else done_with sh2 y))"
  by (rule then_do_settles) (simp_all add: adopt_settles)

lemma parse_settles:
  assumes "\<not> active sh"
  shows "settles (parseTelnyxEvent date_parse ws raw sh)"
proof (cases "te_type raw")
  case None
  with assms show ?thesis by (simp add: parseTelnyxEvent_def)
next
  case (Some etype)
  show ?thesis
  proof (cases "te_payload raw")
    case (Some p)
    with \<open>te_type raw = Some etype\<close> assms show ?thesis
      by (simp add: parseTelnyxEvent_def Let_def parse_initiated_settles parse_lifecycle_settles)
  qed (use assms Some in \<open>simp add: parseTelnyxEvent_def\<close>)
qed

text \<open>
  C29. Every entry point returns, whatever the world answers, and leaves either no unfinished
  cascade or, when a runtime call threw, a journal whose resume alarm is armed. A Telnyx event is
  always either acknowledged or its failure handed back to the webhook, and an acknowledged one
  leaves the same.
\<close>

theorem entry_points_settle:
  assumes "resumable sh"
  shows "settles (ringMe ws sid u sip noLocalLeg sh) \<and> settles (decline ws sid u sh)
     \<and> settles (snapshot ws osid sh) \<and> settles (setOwner ws osid u sh)
     \<and> settles (registerIntent ws osid k u sh) \<and> settles (clearIntent ws sh)
     \<and> settles (runAlarms ws sh)
     \<and> (\<exists>s a. onTelnyxEvent date_parse ws raw sh = Some (s, a) \<and> resumable s)"
proof (intro conjI)
  show "settles (ringMe ws sid u sip noLocalLeg sh)" "settles (decline ws sid u sh)"
    "settles (snapshot ws osid sh)" "settles (setOwner ws osid u sh)" "settles (clearIntent ws sh)"
    "settles (runAlarms ws sh)"
    using assms
    by (auto simp: ringMe_def decline_def snapshot_def setOwner_def clearIntent_def runAlarms_def
        intro!: entry_settles)
  show "settles (registerIntent ws osid k u sh)"
    using assms by (auto simp: registerIntent_def intro!: entry_settles split: option.splits)
  let ?p = "then_do (resumeJournalIfAny ws sh) (\<lambda>sh1 _. parseTelnyxEvent date_parse ws raw sh1)"
  have "settles ?p" using assms by (auto intro!: then_do_settles resume_settles parse_settles)
  then consider s where "?p = Some (Threw s)" "resumable s"
    | s x where "?p = Some (Drained s x)" "\<not> active s"
    by (auto simp: settles_def)
  then show "\<exists>s a. onTelnyxEvent date_parse ws raw sh = Some (s, a) \<and> resumable s"
  proof cases
    case (2 s x)
    show ?thesis
    proof (cases x)
      case (ParsedEvent e)
      show ?thesis
      proof (cases "admit (w_now (ws (tick s))) e (te_id raw) s")
        case (Some sh3)
        with 2 ParsedEvent drain_settles [OF admit_resumable [OF Some], of ws] show ?thesis
          by (auto simp: onTelnyxEvent_def settles_def idle_resumable)
      qed (use 2 ParsedEvent in \<open>simp add: onTelnyxEvent_def idle_resumable\<close>)
    qed (use 2 in \<open>simp_all add: onTelnyxEvent_def idle_resumable\<close>)
  qed (simp add: onTelnyxEvent_def)
qed

theorem entry_points_settle_witness:
  "settles (runAlarms (\<lambda>_. calm_world) (seated (reconstructMachine some_row None)))"
proof -
  have "resumable (seated (reconstructMachine some_row None))"
    by (simp add: resumable_def active_def seated_def empty_shell_def)
  from entry_points_settle [OF this] show ?thesis by blast
qed



section \<open>The alarm that is cleared before it is served\<close>

text \<open>
  C30. The fan-out backstop can be lost. \<open>runAlarms\<close> clears a due slot before it serves it, and the
  backstop's service starts with a database read. When that read throws, the alarm handler throws
  with the slot already cleared and nothing journalled: the platform's retry finds no backstop, so
  the push audience is never pruned and the avenue ladder is not run again. The slot's comment says
  that both are guaranteed to run once.
\<close>

theorem fanout_backstop_lost:
  assumes "\<not> active sh" "load sh = Some m" "w_audience (ws (tick sh)) = None"
    and "due_slots (w_now (ws (tick sh))) sh = [Slot FanoutSettleAlarm]"
  shows "\<exists>s. runAlarms ws sh = Some (Threw s)
     \<and> alarms s (Slot FanoutSettleAlarm) = None \<and> \<not> active s
     \<and> load s = Some m \<and> reduced s = reduced sh
     \<and> due_slots (w_now (ws (tick sh))) s = []"
proof -
  let ?s = "clearAlarmSlot (Slot FanoutSettleAlarm) sh"
  have t: "tick ?s = tick sh" by (simp add: clearAlarmSlot_def reconcileAlarm_def)
  have "fireAlarm ws (Slot FanoutSettleAlarm) ?s = Some (Threw (consume ?s))"
    using assms(2,3) by (simp add: fireAlarm_def t Let_def)
  then have "runAlarms ws sh = Some (Threw (consume ?s))"
    using assms(1,4) by (simp add: runAlarms_def resumeJournalIfAny_def then_do_def)
  moreover have "due_slots (w_now (ws (tick sh))) (consume ?s) = []"
  proof -
    let ?due = "\<lambda>a slot. case a slot of None \<Rightarrow> False | Some t \<Rightarrow> t \<le> w_now (ws (tick sh)) + 50"
    have "set (filter (?due (alarms sh)) slot_order) = {Slot FanoutSettleAlarm}"
      using assms(4) by (simp add: due_slots_def)
    then have "\<not> ?due ((alarms sh)(Slot FanoutSettleAlarm := None)) slot" for slot
      using slot_order_all(1) [of slot] by (auto simp: set_eq_iff)
    then show ?thesis by (simp add: due_slots_def filter_empty_conv)
  qed
  ultimately show ?thesis using assms(1,2) by (intro exI [of _ "consume ?s"]) simp
qed

theorem fanout_backstop_lost_witness:
  "\<exists>s. runAlarms (\<lambda>_. calm_world\<lparr>w_audience := None\<rparr>)
         (setAlarmSlot (Slot FanoutSettleAlarm) 5 (seated (reconstructMachine some_row None)))
       = Some (Threw s) \<and> reduced s = []"
proof -
  let ?m = "reconstructMachine some_row None"
  let ?sh = "setAlarmSlot (Slot FanoutSettleAlarm) 5 (seated ?m)"
  let ?ws = "\<lambda>_ :: nat. calm_world\<lparr>w_audience := None\<rparr>"
  have "load (seated ?m) = Some ?m" by (simp add: load_def seated_def)
  then have "\<not> active ?sh" "load ?sh = Some ?m" "w_audience (?ws (tick ?sh)) = None" "reduced ?sh = []"
    by (simp_all add: active_def seated_def empty_shell_def)
  moreover have "due_slots (w_now (?ws (tick ?sh))) ?sh = [Slot FanoutSettleAlarm]"
    by (simp add: due_slots_def slot_order_def seated_def empty_shell_def calm_world_def)
  ultimately show ?thesis using fanout_backstop_lost [of ?sh ?m ?ws] by metis
qed


section \<open>A leg nobody authorized\<close>

text \<open>
  An outgoing leg to anything but one of our credential URIs is hung up and mints nothing,
  whatever its tag claims: the event is acknowledged, the one command sent is the hangup of that
  leg, and machine, journal, seen list and reducer history stay as they were. (Only a leg carrying
  a well-formed server session id takes the other road, where the nonce decides.)
\<close>

theorem unauthorized_leg_refused:
  assumes "\<not> active sh" "te_type raw = Some ''call.initiated''" "te_payload raw = Some p"
    and "\<not> (truthy (te_id raw) \<and> isSeen (the (te_id raw)) sh)"
    and "parseOutboundSessionId (cp_clientState p) = None"
    and "requiresUnauthorizedHangup (cp_direction p) (cp_to p)"
    and "cp_callControlId p = Some c" "c \<noteq> []" "\<not> w_rejects (ws (tick sh))"
  shows "\<exists>s. onTelnyxEvent date_parse ws raw sh = Some (s, Stamp True)
     \<and> outbox s = outbox sh @ [SentHangup c True]
     \<and> load s = load sh \<and> journal s = journal sh \<and> seen s = seen sh \<and> reduced s = reduced sh"
proof -
  have "parseTelnyxEvent date_parse ws raw sh = Some (Drained (send [SentHangup c True] (consume sh)) ParsedNull)"
    using assms by (auto simp: parseTelnyxEvent_def parse_initiated_def refuse_leg_def)
  then have "onTelnyxEvent date_parse ws raw sh = Some (send [SentHangup c True] (consume sh), Stamp True)"
    using assms(1) by (simp add: onTelnyxEvent_def resumeJournalIfAny_def then_do_def)
  then show ?thesis by simp
qed

theorem unauthorized_leg_refused_witness:
  "\<exists>s. onTelnyxEvent (\<lambda>_. None) (\<lambda>_. calm_world)
         \<lparr>te_type = Some ''call.initiated'', te_id = Some ''e1'', te_payload = Some
            \<lparr>cp_callControlId = Some ''leg'', cp_callSessionId = None, cp_clientState = None,
             cp_direction = Some ''outgoing'', cp_to = Some ''+15551234567'', cp_raw = []\<rparr>\<rparr> empty_shell
       = Some (s, Stamp True) \<and> outbox s = [SentHangup ''leg'' True]"
proof -
  let ?p = "\<lparr>cp_callControlId = Some ''leg'', cp_callSessionId = None, cp_clientState = None,
             cp_direction = Some ''outgoing'', cp_to = Some ''+15551234567'', cp_raw = []\<rparr>"
  let ?raw = "\<lparr>te_type = Some ''call.initiated'', te_id = Some ''e1'', te_payload = Some ?p\<rparr>"
  have gate: "requiresUnauthorizedHangup (cp_direction ?p) (cp_to ?p)"
    by (simp add: requiresUnauthorizedHangup_def isOwnDialedLeg_def OWN_CREDENTIAL_URI_unfold Let_def
        text_or_empty_def js_trim_def js_space_def lower_def lower_char_def)
  have none: "parseOutboundSessionId (cp_clientState ?p) = None"
    by (simp add: parseOutboundSessionId_def tag_parts_def b64decode_def)
  have rest: "\<not> active empty_shell" "outbox empty_shell = []" "seen empty_shell = []"
    by (simp_all add: active_def empty_shell_def)
  show ?thesis
    using unauthorized_leg_refused [of empty_shell ?raw ?p "''leg''" "\<lambda>_. calm_world" "\<lambda>_. None",
        OF rest(1) _ _ _ none gate] rest
    by (auto simp: isSeen_def calm_world_def)
qed

end
