(* ===== verification/Csv_Codec.thy ===== *)
theory Csv_Codec
  imports Prelude
begin

text \<open>
  The CSV codec of \<open>apps/api/src/routes/core/csv.ts\<close>: the parser (\<open>parseCsvRows\<close>, with the
  refusal of a quote that is never closed), the field and row serializer, and the pair
  \<open>csvSafeText\<close> and \<open>csvUnguardText\<close> that keeps spreadsheets from reading a cell as a formula.

  Strings are lists of UTF-16 code units, as JavaScript indexes them. The parser's loop
  variables \<open>rows\<close>, \<open>row\<close>, \<open>field\<close>, \<open>inQuotes\<close> and \<open>quoteOpenedOn\<close> are the arguments of
  \<open>csv_loop\<close>; its first argument is the input from index \<open>i\<close> on. The byte-order mark and the
  response headers around the text (\<open>csvBytes\<close>, \<open>csvResponse\<close>) are not modelled.
\<close>

type_synonym units = "nat list"

definition QUOTE :: nat where "QUOTE = 34"
definition COMMA :: nat where "COMMA = 44"
definition LF :: nat where "LF = 10"
definition CR :: nat where "CR = 13"
definition APOSTROPHE :: nat where "APOSTROPHE = 39"
definition BOM :: nat where "BOM = 65279"

lemmas csv_units = QUOTE_def COMMA_def LF_def CR_def APOSTROPHE_def

text \<open>What \<open>String.prototype.trim\<close> removes: white space and line terminators.\<close>

definition js_white :: "nat \<Rightarrow> bool" where
  "js_white c \<longleftrightarrow> c \<in> {9, 10, 11, 12, 13, 32, 160, 5760, 8232, 8233, 8239, 8287, 12288, 65279}
                  \<or> (8192 \<le> c \<and> c \<le> 8202)"

text \<open>\<open>cell.trim() !== ""\<close>.\<close>

definition has_text :: "units \<Rightarrow> bool" where
  "has_text s \<longleftrightarrow> \<not> list_all js_white s"


section \<open>The parser\<close>

record csv_row =
  line :: nat
  cells :: "units list"

fun csv_loop :: "units \<Rightarrow> units list list \<Rightarrow> units list \<Rightarrow> units \<Rightarrow> bool \<Rightarrow> nat \<Rightarrow> nat + units list list" where
  "csv_loop [] rows row field inQuotes quoteOpenedOn =
     (if inQuotes then Inl quoteOpenedOn
      else if field \<noteq> [] \<or> row \<noteq> [] then Inr (rows @ [row @ [field]])
      else Inr rows)"
| "csv_loop (c # cs) rows row field inQuotes quoteOpenedOn =
     (if inQuotes
      then if c = QUOTE
           then case cs of
                  d # ds \<Rightarrow> if d = QUOTE then csv_loop ds rows row (field @ [QUOTE]) True quoteOpenedOn
                            else csv_loop cs rows row field False quoteOpenedOn
                | [] \<Rightarrow> csv_loop cs rows row field False quoteOpenedOn
           else csv_loop cs rows row (field @ [c]) True quoteOpenedOn
      else if c = QUOTE \<and> field = [] then csv_loop cs rows row field True (length rows + 1)
      else if c = COMMA then csv_loop cs rows (row @ [field]) [] False quoteOpenedOn
      else if c = LF then csv_loop cs (rows @ [row @ [field]]) [] [] False quoteOpenedOn
      else if c = CR
           then case cs of
                  d # ds \<Rightarrow> if d = LF then csv_loop ds (rows @ [row @ [field]]) [] [] False quoteOpenedOn
                            else csv_loop cs (rows @ [row @ [field]]) [] [] False quoteOpenedOn
                | [] \<Rightarrow> csv_loop cs (rows @ [row @ [field]]) [] [] False quoteOpenedOn
      else csv_loop cs rows row (field @ [c]) False quoteOpenedOn)"

definition strip_bom :: "units \<Rightarrow> units" where
  "strip_bom text = (case text of c # cs \<Rightarrow> if c = BOM then cs else text | [] \<Rightarrow> text)"

fun numbered :: "nat \<Rightarrow> units list list \<Rightarrow> csv_row list" where
  "numbered n [] = []"
| "numbered n (r # rs) = \<lparr>line = n, cells = r\<rparr> # numbered (n + 1) rs"

definition kept_row :: "csv_row \<Rightarrow> bool" where
  "kept_row r \<longleftrightarrow> list_ex has_text (cells r)"

text \<open>\<open>Inl n\<close> is the \<open>CsvUnterminatedQuoteError\<close> of a quote opened on row \<open>n\<close>.\<close>

definition parseCsvRows :: "units \<Rightarrow> nat + csv_row list" where
  "parseCsvRows text =
     (case csv_loop (strip_bom text) [] [] [] False 0 of
        Inl n \<Rightarrow> Inl n
      | Inr rows \<Rightarrow> Inr (filter kept_row (numbered 1 rows)))"

definition parseCsv :: "units \<Rightarrow> nat + units list list" where
  "parseCsv text = (case parseCsvRows text of Inl n \<Rightarrow> Inl n | Inr rs \<Rightarrow> Inr (map cells rs))"


section \<open>The serializer and the formula guard\<close>

text \<open>\<open>value ?? ""\<close>.\<close>

definition text_of :: "units option \<Rightarrow> units" where
  "text_of v = (case v of None \<Rightarrow> [] | Some s \<Rightarrow> s)"

fun double_quotes :: "units \<Rightarrow> units" where
  "double_quotes [] = []"
| "double_quotes (c # cs) = (if c = QUOTE then QUOTE # QUOTE # double_quotes cs else c # double_quotes cs)"

definition needs_quoting :: "units \<Rightarrow> bool" where
  "needs_quoting s \<longleftrightarrow> list_ex (\<lambda>c. c = COMMA \<or> c = QUOTE \<or> c = LF \<or> c = CR) s"

definition csvField :: "units option \<Rightarrow> units" where
  "csvField v =
     (let s = text_of v
      in if needs_quoting s then QUOTE # double_quotes s @ [QUOTE] else s)"

text \<open>\<open>=\<close>, \<open>+\<close>, \<open>-\<close>, \<open>@\<close>, tab, CR and LF.\<close>

definition trigger_unit :: "nat \<Rightarrow> bool" where
  "trigger_unit c \<longleftrightarrow> c \<in> {61, 43, 45, 64, 9, 13, 10}"

definition FORMULA_TRIGGER :: "units \<Rightarrow> bool" where
  "FORMULA_TRIGGER s = (case s of c # _ \<Rightarrow> trigger_unit c | [] \<Rightarrow> False)"

definition csvSafeText :: "units option \<Rightarrow> units" where
  "csvSafeText v = (let s = text_of v in if FORMULA_TRIGGER s then APOSTROPHE # s else s)"

text \<open>The test \<open>/^'[=+\-@\t\r\n]/\<close>.\<close>

definition guarded :: "units \<Rightarrow> bool" where
  "guarded s = (case s of c # cs \<Rightarrow> c = APOSTROPHE \<and> FORMULA_TRIGGER cs | [] \<Rightarrow> False)"

definition csvUnguardText :: "units option \<Rightarrow> units option" where
  "csvUnguardText v = (case v of None \<Rightarrow> None | Some s \<Rightarrow> if guarded s then Some (tl s) else Some s)"

fun joined :: "units \<Rightarrow> units list \<Rightarrow> units" where
  "joined sep [] = []"
| "joined sep [s] = s"
| "joined sep (s # t # ts) = s @ sep @ joined sep (t # ts)"

definition serialize_row :: "units option list \<Rightarrow> units" where
  "serialize_row row = joined [COMMA] (map (\<lambda>cell. csvField (Some (csvSafeText cell))) row)"

definition serializeCsv :: "units option list list \<Rightarrow> units" where
  "serializeCsv rows = joined [CR, LF] (map serialize_row rows)"


section \<open>Reading back one field\<close>

definition field_ends :: "units \<Rightarrow> bool" where
  "field_ends rest \<longleftrightarrow> (case rest of [] \<Rightarrow> True | c # _ \<Rightarrow> c = COMMA \<or> c = CR)"

lemma field_ends_simps [simp]: "field_ends []" "field_ends (COMMA # r)" "field_ends (CR # r)"
  by (simp_all add: field_ends_def)

lemma bare_field:
  "list_all (\<lambda>c. c \<noteq> COMMA \<and> c \<noteq> QUOTE \<and> c \<noteq> LF \<and> c \<noteq> CR) s \<Longrightarrow>
     csv_loop (s @ rest) rows row field False q = csv_loop rest rows row (field @ s) False q"
  by (induction s arbitrary: field) (auto simp: list_all_iff)

lemma quoted_field:
  "field_ends rest \<Longrightarrow>
     csv_loop (double_quotes s @ QUOTE # rest) rows row field True q
       = csv_loop rest rows row (field @ s) False q"
proof (induction s arbitrary: field)
  case Nil
  then show ?case by (cases rest) (auto simp: field_ends_def csv_units)
next
  case (Cons c cs)
  then show ?case by (simp split: if_splits)
qed

lemma field_read_back:
  assumes "field_ends rest"
  shows "\<exists>q'. csv_loop (csvField (Some s) @ rest) rows row [] False q = csv_loop rest rows row s False q'"
proof (cases "needs_quoting s")
  case True
  then have "csvField (Some s) @ rest = QUOTE # double_quotes s @ QUOTE # rest"
    by (simp add: csvField_def text_of_def)
  then have "csv_loop (csvField (Some s) @ rest) rows row [] False q
      = csv_loop (double_quotes s @ QUOTE # rest) rows row [] True (length rows + 1)" by simp
  with quoted_field [OF assms] show ?thesis by auto
next
  case False
  then have "list_all (\<lambda>c. c \<noteq> COMMA \<and> c \<noteq> QUOTE \<and> c \<noteq> LF \<and> c \<noteq> CR) s"
    by (auto simp: needs_quoting_def list_ex_iff list_all_iff)
  then have "csv_loop (s @ rest) rows row [] False q = csv_loop rest rows row ([] @ s) False q" by (rule bare_field)
  then show ?thesis using False by (intro exI [of _ q]) (simp add: csvField_def text_of_def)
qed


section \<open>Reading back rows\<close>

text \<open>What the file holds of a row without cells: it is written as one empty cell.\<close>

definition written :: "units list \<Rightarrow> units list" where
  "written cs = (if cs = [] then [[]] else cs)"

definition row_ends :: "units \<Rightarrow> bool" where
  "row_ends rest \<longleftrightarrow> (case rest of [] \<Rightarrow> True | c # _ \<Rightarrow> c = CR)"

lemma row_ends_field_ends: "row_ends rest \<Longrightarrow> field_ends rest"
  by (cases rest) (auto simp: row_ends_def field_ends_def)

lemma csvField_empty: "csvField (Some []) = []"
  by (simp add: csvField_def needs_quoting_def text_of_def)

lemma row_read_back:
  assumes "row_ends rest"
  shows "\<exists>q'. csv_loop (joined [COMMA] (map (\<lambda>c. csvField (Some c)) cs) @ rest) rows row [] False q
            = csv_loop rest rows (row @ butlast (written cs)) (last (written cs)) False q'"
proof (induction cs arbitrary: row q rule: induct_list012)
  case 1
  then show ?case by (auto simp: written_def)
next
  case (2 s)
  with field_read_back [OF row_ends_field_ends [OF assms]] show ?case by (auto simp: written_def)
next
  case (3 s t ts)
  let ?rest' = "COMMA # joined [COMMA] (map (\<lambda>c. csvField (Some c)) (t # ts)) @ rest"
  obtain q1 where "csv_loop (csvField (Some s) @ ?rest') rows row [] False q
      = csv_loop ?rest' rows row s False q1"
    using field_read_back [of ?rest' s rows row q] by auto
  moreover have "csv_loop ?rest' rows row s False q1
      = csv_loop (joined [COMMA] (map (\<lambda>c. csvField (Some c)) (t # ts)) @ rest) rows (row @ [s]) [] False q1"
    by (simp add: csv_units)
  ultimately show ?case using "3.IH"(2) [of "row @ [s]" q1] by (auto simp: written_def)
qed

lemma rows_read_back:
  "\<exists>R. csv_loop (joined [CR, LF] (map (\<lambda>cs. joined [COMMA] (map (\<lambda>c. csvField (Some c)) cs)) rs)) rows [] [] False q
         = Inr (rows @ R) \<and> (R = map written rs \<or> map written rs = R @ [[[]]])"
proof (induction rs arbitrary: rows q rule: induct_list012)
  case 1
  then show ?case by simp
next
  case (2 cs)
  obtain q' where eq: "csv_loop (joined [COMMA] (map (\<lambda>c. csvField (Some c)) cs)) rows [] [] False q
      = csv_loop [] rows (butlast (written cs)) (last (written cs)) False q'"
    using row_read_back [of "[]" cs rows "[]" q] by (auto simp: row_ends_def)
  have ne: "written cs \<noteq> []" by (simp add: written_def)
  show ?case
  proof (cases "last (written cs) \<noteq> [] \<or> butlast (written cs) \<noteq> []")
    case True
    then show ?thesis using ne by (intro exI [of _ "[written cs]"]) (auto simp: eq)
  next
    case False
    then have "written cs = [[]]" using append_butlast_last_id [OF ne] by simp
    then show ?thesis using False by (intro exI [of _ "[]"]) (simp add: eq)
  qed
next
  case (3 cs ds rs)
  let ?f = "\<lambda>cs. joined [COMMA] (map (\<lambda>c. csvField (Some c)) cs)"
  let ?tail = "joined [CR, LF] (map ?f (ds # rs))"
  have ne: "written cs \<noteq> []" by (simp add: written_def)
  obtain q1 where "csv_loop (?f cs @ CR # LF # ?tail) rows [] [] False q
      = csv_loop (CR # LF # ?tail) rows (butlast (written cs)) (last (written cs)) False q1"
    using row_read_back [of "CR # LF # ?tail" cs rows "[]" q] by (auto simp: row_ends_def)
  also have "\<dots> = csv_loop ?tail (rows @ [written cs]) [] [] False q1"
    using append_butlast_last_id [OF ne] by (simp add: csv_units)
  finally have "csv_loop (joined [CR, LF] (map ?f (cs # ds # rs))) rows [] [] False q
      = csv_loop ?tail (rows @ [written cs]) [] [] False q1" by simp
  with "3.IH"(2) [of "rows @ [written cs]" q1] show ?case
    by (smt (verit) append.assoc append_Cons append_Nil list.simps(9))
qed

lemma kept_written: "kept_row \<lparr>line = n, cells = written cs\<rparr> \<longleftrightarrow> kept_row \<lparr>line = n, cells = cs\<rparr>"
  by (simp add: kept_row_def written_def has_text_def)

lemma kept_numbered_written:
  "filter kept_row (numbered n (map written rs)) = filter kept_row (numbered n rs)"
  by (induction rs arbitrary: n) (auto simp: kept_written, auto simp: kept_row_def written_def)

lemma numbered_append: "numbered n (rs @ ss) = numbered n rs @ numbered (n + length rs) ss"
  by (induction rs arbitrary: n) auto

lemma kept_numbered_blank: "filter kept_row (numbered n (rs @ [[[]]])) = filter kept_row (numbered n rs)"
  by (simp add: numbered_append kept_row_def has_text_def)

lemma parse_serialized:
  assumes "strip_bom text = serializeCsv rows"
  shows "parseCsvRows text = Inr (filter kept_row (numbered 1 (map (map csvSafeText) rows)))"
proof -
  let ?rs = "map (map csvSafeText) rows"
  have ser: "serializeCsv rows
      = joined [CR, LF] (map (\<lambda>cs. joined [COMMA] (map (\<lambda>c. csvField (Some c)) cs)) ?rs)"
    by (simp add: serializeCsv_def serialize_row_def [abs_def] comp_def)
  obtain R where R: "csv_loop (serializeCsv rows) [] [] [] False 0 = Inr R"
      and split: "R = map written ?rs \<or> map written ?rs = R @ [[[]]]"
    using rows_read_back [of ?rs "[]" 0] unfolding ser by auto
  from split have "filter kept_row (numbered 1 R) = filter kept_row (numbered 1 (map written ?rs))"
    using kept_numbered_blank [of 1 R] by auto
  also have "\<dots> = filter kept_row (numbered 1 ?rs)" by (rule kept_numbered_written)
  finally show ?thesis by (simp add: parseCsvRows_def assms R)
qed


section \<open>Properties\<close>

text \<open>
  C32. What the exporter writes, the parser reads back: the marked text of any table of cells
  parses without an error into exactly the rows that hold some text, each cell as it was
  written (guarded), under the number of its record, whatever commas, quotes and line breaks
  the cells contain.
\<close>

theorem csv_round_trip:
  "parseCsvRows (BOM # serializeCsv rows)
     = Inr (filter kept_row (numbered 1 (map (map csvSafeText) rows)))"
  by (rule parse_serialized) (simp add: strip_bom_def)

text \<open>
  C33. The formula guard: no cell of the written table starts with a character that a
  spreadsheet takes for a formula, guarding twice is guarding once, and the importer's inverse
  returns the original cell exactly when that cell did not itself start with an apostrophe
  followed by such a character. Such a cell loses its apostrophe on the way back.
\<close>

theorem csv_formula_guard:
  "\<not> FORMULA_TRIGGER (csvSafeText v)
   \<and> csvSafeText (Some (csvSafeText v)) = csvSafeText v
   \<and> (csvUnguardText (Some (csvSafeText v)) = Some (text_of v) \<longleftrightarrow> \<not> guarded (text_of v))
   \<and> csvUnguardText (Some (csvSafeText v))
        = Some (if guarded (text_of v) then tl (text_of v) else text_of v)"
proof -
  have safe: "\<not> FORMULA_TRIGGER (csvSafeText w)" for w
    by (auto simp: csvSafeText_def FORMULA_TRIGGER_def trigger_unit_def APOSTROPHE_def Let_def split: list.splits)
  moreover have "csvSafeText (Some (csvSafeText v)) = csvSafeText v"
    using safe [of v] by (simp add: csvSafeText_def [of "Some _"] text_of_def)
  moreover have "\<not> FORMULA_TRIGGER s" if "guarded s" for s
    using that by (auto simp: guarded_def FORMULA_TRIGGER_def trigger_unit_def APOSTROPHE_def split: list.splits)
  moreover have "guarded (APOSTROPHE # s) \<longleftrightarrow> FORMULA_TRIGGER s" for s by (simp add: guarded_def)
  moreover have "tl s \<noteq> s" if "guarded s" for s
    using that by (cases s) (auto simp: guarded_def)
  ultimately show ?thesis by (auto simp: csvUnguardText_def csvSafeText_def Let_def)
qed

text \<open>
  The number a row carries counts records, not lines of the file: after a quoted value with a
  line break in it, the number of every later row is too small.
\<close>

lemma line_counts_records:
  "parseCsvRows [QUOTE, 97, LF, 98, QUOTE, LF, 99]
     = Inr [\<lparr>line = 1, cells = [[97, LF, 98]]\<rparr>, \<lparr>line = 2, cells = [[99]]\<rparr>]"
  by (simp add: parseCsvRows_def strip_bom_def kept_row_def has_text_def js_white_def csv_units BOM_def)

end
