(* ===== verification/Segments.thy ===== *)
theory Segments
  imports Prelude
begin

text \<open>
  The SMS segment estimator of \<open>packages/shared/src/segments.ts\<close> and the guard's own estimate
  of a text's parts, \<open>smsParts\<close> of \<open>tools/guard/src/telnyx/message.ts\<close>.

  A text is the list of the code points that \<open>for (const char of text)\<close> yields; a code point
  from 65536 on takes two UTF-16 units. The specification is a division of the text's costs
  into consecutive segments: the estimate is the least number of segments that hold the text
  in order, none over its capacity and no character split.
\<close>

type_synonym points = "nat list"

datatype sms_encoding = GSM7 | UCS2

definition GSM7_SINGLE_SEGMENT_UNITS :: nat where "GSM7_SINGLE_SEGMENT_UNITS = 160"
definition GSM7_CONCAT_SEGMENT_UNITS :: nat where "GSM7_CONCAT_SEGMENT_UNITS = 153"
definition UCS2_SINGLE_SEGMENT_UNITS :: nat where "UCS2_SINGLE_SEGMENT_UNITS = 70"
definition UCS2_CONCAT_SEGMENT_UNITS :: nat where "UCS2_CONCAT_SEGMENT_UNITS = 67"

lemmas segment_units =
  GSM7_SINGLE_SEGMENT_UNITS_def GSM7_CONCAT_SEGMENT_UNITS_def
  UCS2_SINGLE_SEGMENT_UNITS_def UCS2_CONCAT_SEGMENT_UNITS_def

record segment_estimate =
  encoding :: sms_encoding
  segments :: nat
  unitsUsed :: nat
  unitsPerSegment :: nat

definition GSM7_BASIC :: points where
  "GSM7_BASIC = [
     64, 163, 36, 165, 232, 233, 249, 236, 242, 231, 10, 216, 248, 13, 197, 229, 916, 95, 934,
     915, 923, 937, 928, 936, 931, 920, 926, 198, 230, 223, 201, 32, 33, 34, 35, 164, 37, 38,
     39, 40, 41, 42, 43, 44, 45, 46, 47, 48, 49, 50, 51, 52, 53, 54, 55, 56, 57, 58, 59, 60, 61,
     62, 63, 161, 65, 66, 67, 68, 69, 70, 71, 72, 73, 74, 75, 76, 77, 78, 79, 80, 81, 82, 83,
     84, 85, 86, 87, 88, 89, 90, 196, 214, 209, 220, 167, 191, 97, 98, 99, 100, 101, 102, 103,
     104, 105, 106, 107, 108, 109, 110, 111, 112, 113, 114, 115, 116, 117, 118, 119, 120, 121,
     122, 228, 246, 241, 252, 224]"

definition GSM7_EXTENSION :: points where
  "GSM7_EXTENSION = [
     12, 94, 123, 125, 92, 91, 126, 93, 124, 8364]"

definition gsm7Cost :: "nat \<Rightarrow> nat option" where
  "gsm7Cost c = (if c \<in> set GSM7_BASIC then Some 1 else if c \<in> set GSM7_EXTENSION then Some 2 else None)"

fun gsm7Septets_from :: "nat \<Rightarrow> points \<Rightarrow> nat option" where
  "gsm7Septets_from septets [] = Some septets"
| "gsm7Septets_from septets (c # cs) =
     (case gsm7Cost c of None \<Rightarrow> None | Some cost \<Rightarrow> gsm7Septets_from (septets + cost) cs)"

definition gsm7Septets :: "points \<Rightarrow> nat option" where
  "gsm7Septets text = gsm7Septets_from 0 text"

fun pack_loop :: "nat \<Rightarrow> nat \<Rightarrow> nat \<Rightarrow> nat list \<Rightarrow> nat" where
  "pack_loop capacity segs used [] = segs"
| "pack_loop capacity segs used (cost # costs) =
     (if used + cost > capacity then pack_loop capacity (segs + 1) cost costs
      else pack_loop capacity segs (used + cost) costs)"

definition packSegments :: "nat list \<Rightarrow> nat \<Rightarrow> nat" where
  "packSegments costs capacity = pack_loop capacity 1 0 costs"

definition gsm7Costs :: "points \<Rightarrow> nat list" where
  "gsm7Costs text = map (\<lambda>c. if c \<in> set GSM7_BASIC then 1 else 2) text"

text \<open>\<open>char.length\<close> of one iterated character.\<close>

definition unit_length :: "nat \<Rightarrow> nat" where
  "unit_length c = (if c \<ge> 65536 then 2 else 1)"

definition ucs2Costs :: "points \<Rightarrow> nat list" where
  "ucs2Costs text = map (\<lambda>c. if unit_length c = 2 then 2 else 1) text"

definition text_length :: "points \<Rightarrow> nat" where
  "text_length text = sum_list (map unit_length text)"

definition estimateSegments :: "points \<Rightarrow> segment_estimate" where
  "estimateSegments text =
     (case gsm7Septets text of
        Some septets \<Rightarrow>
          if septets = 0
          then \<lparr>encoding = GSM7, segments = 0, unitsUsed = 0, unitsPerSegment = GSM7_SINGLE_SEGMENT_UNITS\<rparr>
          else if septets \<le> GSM7_SINGLE_SEGMENT_UNITS
          then \<lparr>encoding = GSM7, segments = 1, unitsUsed = septets, unitsPerSegment = GSM7_SINGLE_SEGMENT_UNITS\<rparr>
          else \<lparr>encoding = GSM7, segments = packSegments (gsm7Costs text) GSM7_CONCAT_SEGMENT_UNITS,
                unitsUsed = septets, unitsPerSegment = GSM7_CONCAT_SEGMENT_UNITS\<rparr>
      | None \<Rightarrow>
          let units = text_length text
          in if units \<le> UCS2_SINGLE_SEGMENT_UNITS
             then \<lparr>encoding = UCS2, segments = 1, unitsUsed = units, unitsPerSegment = UCS2_SINGLE_SEGMENT_UNITS\<rparr>
             else \<lparr>encoding = UCS2, segments = packSegments (ucs2Costs text) UCS2_CONCAT_SEGMENT_UNITS,
                   unitsUsed = units, unitsPerSegment = UCS2_CONCAT_SEGMENT_UNITS\<rparr>)"


section \<open>The guard's estimate\<close>

text \<open>The characters of \<open>/^[\n\r A-Za-z0-9!"#$%&'()*+,\-./:;<=>?@_]*$/\<close>.\<close>

definition plain_gsm :: "nat \<Rightarrow> bool" where
  "plain_gsm c \<longleftrightarrow> c = 10 \<or> c = 13 \<or> (32 \<le> c \<and> c \<le> 90) \<or> c = 95 \<or> (97 \<le> c \<and> c \<le> 122)"

text \<open>\<open>Math.ceil(a / b)\<close>.\<close>

definition ceil_div :: "nat \<Rightarrow> nat \<Rightarrow> nat" where
  "ceil_div a b = (a + b - 1) div b"

definition smsParts :: "points \<Rightarrow> nat" where
  "smsParts text =
     (let gsm = list_all plain_gsm text;
          single = (if gsm then 160 else 70);
          multi = (if gsm then 153 else 67);
          n = length text
      in if n \<le> single then 1 else ceil_div n multi)"


section \<open>Greedy packing\<close>

text \<open>A division of the costs, in order, into \<open>n\<close> segments none of which is over capacity.\<close>

definition holds_in :: "nat \<Rightarrow> nat list \<Rightarrow> nat \<Rightarrow> bool" where
  "holds_in capacity costs n \<longleftrightarrow>
     (\<exists>parts. length parts = n \<and> concat parts = costs \<and> (\<forall>p \<in> set parts. sum_list p \<le> capacity))"

lemma pack_loop_reaches:
  assumes "used \<le> capacity" "\<forall>c \<in> set costs. c \<le> capacity"
  shows "\<exists>p ps. concat (p # ps) = costs \<and> used + sum_list p \<le> capacity
           \<and> (\<forall>q \<in> set ps. sum_list q \<le> capacity)
           \<and> pack_loop capacity segs used costs = segs + length ps"
  using assms
proof (induction costs arbitrary: segs used)
  case Nil
  then show ?case by (intro exI [of _ "[]"]) simp
next
  case (Cons c cs)
  show ?case
  proof (cases "used + c > capacity")
    case True
    from Cons.IH [of c "segs + 1"] Cons.prems obtain p ps where
      "concat (p # ps) = cs" "c + sum_list p \<le> capacity" "\<forall>q \<in> set ps. sum_list q \<le> capacity"
      "pack_loop capacity (segs + 1) c cs = segs + 1 + length ps" by auto
    with True Cons.prems show ?thesis by (intro exI [of _ "[]"] exI [of _ "(c # p) # ps"]) simp
  next
    case False
    with Cons.IH [of "used + c" segs] Cons.prems obtain p ps where
      "concat (p # ps) = cs" "used + c + sum_list p \<le> capacity" "\<forall>q \<in> set ps. sum_list q \<le> capacity"
      "pack_loop capacity segs (used + c) cs = segs + length ps" by auto
    with False show ?thesis by (intro exI [of _ "c # p"] exI [of _ ps]) simp
  qed
qed

text \<open>Being behind in the same text never needs fewer segments.\<close>

lemma pack_loop_mono:
  assumes "segs < segs' \<or> segs = segs' \<and> used \<le> used'"
    and "used \<le> capacity" "used' \<le> capacity" "\<forall>c \<in> set costs. c \<le> capacity"
  shows "pack_loop capacity segs used costs \<le> pack_loop capacity segs' used' costs"
  using assms
proof (induction costs arbitrary: segs segs' used used')
  case Nil
  then show ?case by auto
next
  case (Cons c cs)
  then show ?case by (auto intro!: Cons.IH)
qed

lemma pack_loop_fits:
  "used + sum_list p \<le> capacity \<Longrightarrow>
     pack_loop capacity segs used (p @ costs) = pack_loop capacity segs (used + sum_list p) costs"
  by (induction p arbitrary: used) (auto simp: add.assoc)

lemma pack_loop_least:
  assumes "\<forall>p \<in> set (p # ps). sum_list p \<le> capacity" "\<forall>c \<in> set (concat ps). c \<le> capacity"
  shows "pack_loop capacity segs 0 (concat (p # ps)) \<le> segs + length ps"
  using assms
proof (induction ps arbitrary: p segs)
  case Nil
  then show ?case using pack_loop_fits [of 0 p capacity segs "[]"] by simp
next
  case (Cons q ps)
  have "pack_loop capacity segs 0 (concat (p # q # ps))
      = pack_loop capacity segs (sum_list p) (concat (q # ps))"
    using Cons.prems pack_loop_fits [of 0 p capacity segs "concat (q # ps)"] by simp
  also have "\<dots> \<le> pack_loop capacity (segs + 1) 0 (concat (q # ps))"
    using Cons.prems by (intro pack_loop_mono) auto
  also have "\<dots> \<le> segs + 1 + length ps" using Cons.prems by (intro Cons.IH) auto
  finally show ?case by simp
qed

text \<open>A closed segment wastes less than the dearest character.\<close>

lemma pack_loop_waste:
  assumes "\<forall>c \<in> set costs. 1 \<le> c \<and> c \<le> k" "1 \<le> k" "k \<le> capacity"
  shows "segs \<le> pack_loop capacity segs used costs
    \<and> (pack_loop capacity segs used costs > segs \<longrightarrow>
        (pack_loop capacity segs used costs - segs) * (capacity + 1 - k) + 1 \<le> used + sum_list costs)"
  using assms
proof (induction costs arbitrary: segs used)
  case Nil
  then show ?case by simp
next
  case (Cons c cs)
  let ?w = "capacity + 1 - k"
  show ?case
  proof (cases "used + c > capacity")
    case True
    let ?r = "pack_loop capacity (segs + 1) c cs"
    have c: "1 \<le> c" "c \<le> k" using Cons.prems by auto
    have ih: "segs + 1 \<le> ?r" "?r > segs + 1 \<Longrightarrow> (?r - (segs + 1)) * ?w + 1 \<le> c + sum_list cs"
      using Cons.IH [of "segs + 1" c] Cons.prems by auto
    have w: "?w \<le> used" using True c by linarith
    have "(?r - segs) * ?w + 1 \<le> used + c + sum_list cs"
    proof (cases "?r = segs + 1")
      case True
      then show ?thesis using w c by simp
    next
      case False
      with ih have "(?r - (segs + 1)) * ?w + 1 \<le> c + sum_list cs" and "?r - segs = Suc (?r - (segs + 1))" by auto
      then show ?thesis using w by simp
    qed
    with True ih(1) show ?thesis by (simp add: add.assoc)
  next
    case False
    with Cons.IH [of segs "used + c"] Cons.prems show ?thesis by (simp add: add.assoc)
  qed
qed

lemma packSegments_bound:
  assumes "\<forall>c \<in> set costs. 1 \<le> c \<and> c \<le> k" "1 \<le> k" "k \<le> capacity"
  shows "packSegments costs capacity \<le> 1 + (sum_list costs - 1) div (capacity + 1 - k)"
proof (cases "packSegments costs capacity > 1")
  case True
  then have "(packSegments costs capacity - 1) * (capacity + 1 - k) \<le> sum_list costs - 1"
    using pack_loop_waste [OF assms, of 1 0] by (auto simp: packSegments_def)
  then have "packSegments costs capacity - 1 \<le> (sum_list costs - 1) div (capacity + 1 - k)"
    using assms by (subst less_eq_div_iff_mult_less_eq) auto
  then show ?thesis by simp
qed simp

lemma packSegments_least:
  assumes "costs \<noteq> []" "\<forall>c \<in> set costs. c \<le> capacity"
  shows "holds_in capacity costs (packSegments costs capacity)"
    and "holds_in capacity costs n \<Longrightarrow> packSegments costs capacity \<le> n"
proof -
  from pack_loop_reaches [of 0 capacity costs 1] assms obtain p ps where
    "concat (p # ps) = costs" "\<forall>q \<in> set (p # ps). sum_list q \<le> capacity"
    "packSegments costs capacity = length (p # ps)" by (auto simp: packSegments_def)
  then show "holds_in capacity costs (packSegments costs capacity)"
    unfolding holds_in_def by (intro exI [of _ "p # ps"]) simp
next
  assume "holds_in capacity costs n"
  then obtain parts where parts: "length parts = n" "concat parts = costs"
    "\<forall>p \<in> set parts. sum_list p \<le> capacity" by (auto simp: holds_in_def)
  with assms obtain p ps where "parts = p # ps" by (cases parts) auto
  have "\<forall>c \<in> set (concat ps). c \<le> capacity" using assms(2) parts(2) \<open>parts = p # ps\<close> by auto
  moreover have "\<forall>q \<in> set (p # ps). sum_list q \<le> capacity" using parts(3) \<open>parts = p # ps\<close> by simp
  ultimately have "pack_loop capacity 1 0 (concat (p # ps)) \<le> 1 + length ps" by (intro pack_loop_least)
  then show "packSegments costs capacity \<le> n"
    using parts(1, 2) \<open>parts = p # ps\<close> by (simp add: packSegments_def)
qed

lemma one_segment_least:
  assumes "costs \<noteq> []" "sum_list costs \<le> capacity"
  shows "holds_in capacity costs 1" and "holds_in capacity costs n \<Longrightarrow> 1 \<le> n"
proof -
  show "holds_in capacity costs 1" using assms unfolding holds_in_def by (intro exI [of _ "[costs]"]) simp
  show "1 \<le> n" if "holds_in capacity costs n" using that assms by (cases n) (auto simp: holds_in_def)
qed

lemma least_segments:
  assumes "holds_in capacity costs m" "\<And>n. holds_in capacity costs n \<Longrightarrow> m \<le> n"
  shows "m = (LEAST n. holds_in capacity costs n)"
  using assms by (intro Least_equality [symmetric]) auto


section \<open>Costs of a text\<close>

definition gsm_text :: "points \<Rightarrow> bool" where
  "gsm_text text \<longleftrightarrow> list_all (\<lambda>c. c \<in> set GSM7_BASIC \<or> c \<in> set GSM7_EXTENSION) text"

definition char_costs :: "points \<Rightarrow> nat list" where
  "char_costs text = (if gsm_text text then gsm7Costs text else ucs2Costs text)"

lemma gsm7Septets_from:
  "gsm7Septets_from n text = (if gsm_text text then Some (n + sum_list (gsm7Costs text)) else None)"
  by (induction "text" arbitrary: n)
    (auto simp: gsm_text_def gsm7Cost_def gsm7Costs_def split: option.splits)

lemma gsm7Septets_costs: "gsm7Septets text = (if gsm_text text then Some (sum_list (gsm7Costs text)) else None)"
  by (simp add: gsm7Septets_def gsm7Septets_from)

lemma text_length_costs: "text_length text = sum_list (ucs2Costs text)"
  by (induction "text") (auto simp: text_length_def ucs2Costs_def unit_length_def)

lemma cost_range: "c \<in> set (char_costs text) \<Longrightarrow> 1 \<le> c \<and> c \<le> 2"
  by (auto simp: char_costs_def gsm7Costs_def ucs2Costs_def split: if_splits)

lemma char_costs_Nil [simp]: "char_costs [] = []" "char_costs text = [] \<longleftrightarrow> text = []"
  by (auto simp: char_costs_def gsm7Costs_def ucs2Costs_def)

lemma gsm7Costs_Nil [simp]: "gsm7Costs [] = []"
  by (simp add: gsm7Costs_def)

lemma sum_costs_0: "sum_list (char_costs text) = 0 \<longleftrightarrow> text = []"
proof (cases "text")
  case (Cons c cs)
  then have "char_costs text \<noteq> []" by simp
  then obtain d ds where d: "char_costs text = d # ds" by (cases "char_costs text") auto
  then have "1 \<le> d" using cost_range [of d "text"] by simp
  then show ?thesis using d Cons by simp
qed simp

definition single_units :: "points \<Rightarrow> nat" where
  "single_units text = (if gsm_text text then GSM7_SINGLE_SEGMENT_UNITS else UCS2_SINGLE_SEGMENT_UNITS)"

definition concat_units :: "points \<Rightarrow> nat" where
  "concat_units text = (if gsm_text text then GSM7_CONCAT_SEGMENT_UNITS else UCS2_CONCAT_SEGMENT_UNITS)"

text \<open>The estimate, over the costs of the text.\<close>

lemma estimateSegments_costs:
  "estimateSegments text =
     (let costs = char_costs text; units = sum_list costs
      in \<lparr>encoding = (if gsm_text text then GSM7 else UCS2),
          segments = (if text = [] then 0 else if units \<le> single_units text then 1
                      else packSegments costs (concat_units text)),
          unitsUsed = units,
          unitsPerSegment = (if units \<le> single_units text then single_units text
                             else concat_units text)\<rparr>)"
proof (cases "gsm_text text")
  case True
  then show ?thesis using sum_costs_0 [of "text"]
    by (auto simp: estimateSegments_def gsm7Septets_costs char_costs_def single_units_def concat_units_def
        Let_def GSM7_SINGLE_SEGMENT_UNITS_def)
next
  case False
  then have "text \<noteq> []" by (auto simp: gsm_text_def)
  with False show ?thesis
    by (simp add: estimateSegments_def gsm7Septets_costs text_length_costs char_costs_def single_units_def
        concat_units_def Let_def)
qed


section \<open>Properties\<close>

text \<open>
  C34. For every text the estimate names GSM-7 exactly when all characters are in the GSM
  alphabet, counts the text's units, and gives the least number of segments of the capacity it
  names that hold the characters in order with none split; the padding wasted at segment ends
  never costs more than one unit a segment.
\<close>

theorem segment_estimate_optimal:
  "let e = estimateSegments text; costs = char_costs text in
     (encoding e = GSM7) = gsm_text text \<and> unitsUsed e = sum_list costs
     \<and> unitsPerSegment e = (if sum_list costs \<le> single_units text then single_units text else concat_units text)
     \<and> holds_in (unitsPerSegment e) costs (segments e)
     \<and> segments e = (LEAST n. holds_in (unitsPerSegment e) costs n)
     \<and> segments e \<le> 1 + (unitsUsed e - 1) div (unitsPerSegment e - 1)"
proof (cases "text = []")
  case True
  have "holds_in c [] 0" for c by (simp add: holds_in_def)
  with True show ?thesis
    by (auto simp: estimateSegments_costs Let_def gsm_text_def Least_equality)
next
  case False
  have two: "2 \<le> single_units text" "2 \<le> concat_units text"
    by (auto simp: single_units_def concat_units_def segment_units)
  have ne: "char_costs text \<noteq> []" using False by simp
  have fits: "\<forall>c \<in> set (char_costs text). c \<le> concat_units text"
    using cost_range [of _ "text"] two by fastforce
  have range: "\<forall>c \<in> set (char_costs text). 1 \<le> c \<and> c \<le> 2" using cost_range by blast
  show ?thesis
    using False two one_segment_least [OF ne] packSegments_least [OF ne fits]
      packSegments_bound [OF range, of "concat_units text"]
      least_segments [of _ "char_costs text" 1] least_segments [of _ "char_costs text" "packSegments (char_costs text) (concat_units text)"]
    by (auto simp: estimateSegments_costs Let_def)
qed

text \<open>The characters the guard counts as plain are one septet each.\<close>

lemma plain_gsm_basic: "plain_gsm c \<Longrightarrow> c \<in> set GSM7_BASIC"
proof -
  let ?plain = "[10, 13, 95] @ [32..<91] @ [97..<123]"
  have "list_all (\<lambda>c. c \<in> set GSM7_BASIC) ?plain"
    by (simp add: GSM7_BASIC_def upt_rec)
  moreover have "c \<in> set ?plain" if "plain_gsm c" using that
    by (auto simp: plain_gsm_def simp del: upt_rec_numeral)
  ultimately show "plain_gsm c \<Longrightarrow> c \<in> set GSM7_BASIC" unfolding list_all_iff by blast
qed

lemma plain_costs: "list_all plain_gsm text \<Longrightarrow> gsm_text text \<and> gsm7Costs text = replicate (length text) 1"
  by (induction "text") (auto simp: gsm_text_def gsm7Costs_def plain_gsm_basic)

lemma bmp_costs: "\<forall>c \<in> set text. c < 65536 \<Longrightarrow> ucs2Costs text = replicate (length text) 1"
  by (induction "text") (auto simp: ucs2Costs_def unit_length_def)

lemma gsm_costs_le: "sum_list (gsm7Costs text) \<le> 2 * length text"
  by (induction "text") (auto simp: gsm7Costs_def)

lemma ceil_div_pred:
  assumes "0 < n" "0 < k"
  shows "1 + (n - 1) div k = ceil_div n k"
proof -
  obtain m where m: "n = Suc m" using assms(1) by (cases n) auto
  have "(m + k) div k = m div k + 1" using assms(2) by (intro div_add_self2) auto
  then show ?thesis by (simp add: m ceil_div_def)
qed

lemma gsm_estimate_le_ucs2_parts:
  assumes "n > 70" "u \<le> 2 * n"
  shows "1 + (u - 1) div 152 \<le> ceil_div n 67"
proof -
  have "152 * ((u - 1) div 152) \<le> u - 1" by simp
  then have "67 * ((u - 1) div 152) + 1 \<le> n" using assms by linarith
  then have "67 * ((u - 1) div 152 + 1) \<le> n + 66" by simp
  then have "(u - 1) div 152 + 1 \<le> (n + 66) div 67" by (simp add: less_eq_div_iff_mult_less_eq mult.commute)
  then show ?thesis by (simp add: ceil_div_def)
qed

text \<open>
  On a text whose characters are all in the basic multilingual plane the guard charges for
  at least as many parts as the app's own estimate counts.
\<close>

theorem guard_parts_cover:
  assumes "\<forall>c \<in> set text. c < 65536"
  shows "segments (estimateSegments text) \<le> smsParts text"
proof (cases "text = []")
  case True
  then show ?thesis by (simp add: estimateSegments_costs Let_def)
next
  case False
  let ?costs = "char_costs text" and ?n = "length text"
  have n: "0 < ?n" using False by simp
  have bmp: "ucs2Costs text = replicate ?n 1" using bmp_costs [OF assms] .
  consider (plain) "list_all plain_gsm text" | (gsm) "gsm_text text" "\<not> list_all plain_gsm text"
    | (ucs2) "\<not> gsm_text text" by blast
  then show ?thesis
  proof cases
    case plain
    then have c: "?costs = replicate ?n 1" "gsm_text text" using plain_costs [OF plain] by (auto simp: char_costs_def)
    have "packSegments ?costs 153 \<le> ceil_div ?n 153"
      using packSegments_bound [of ?costs 1 153] ceil_div_pred [OF n, of 153] by (simp add: c sum_list_replicate)
    with plain c False n show ?thesis
      by (auto simp: estimateSegments_costs Let_def smsParts_def single_units_def concat_units_def segment_units
          sum_list_replicate)
  next
    case gsm
    then have c: "?costs = gsm7Costs text" by (simp add: char_costs_def)
    have range: "\<forall>c \<in> set ?costs. 1 \<le> c \<and> c \<le> 2" using cost_range by blast
    have u: "sum_list ?costs \<le> 2 * ?n" using gsm_costs_le c by simp
    have p: "packSegments ?costs 153 \<le> 1 + (sum_list ?costs - 1) div 152"
      using packSegments_bound [OF range, of 153] by simp
    have "1 \<le> smsParts text" using gsm n by (auto simp: smsParts_def Let_def ceil_div_def less_eq_div_iff_mult_less_eq)
    moreover have "packSegments ?costs 153 \<le> smsParts text" if "160 < sum_list ?costs"
    proof -
      have "70 < ?n" using that u by linarith
      then show ?thesis using p gsm gsm_estimate_le_ucs2_parts [OF _ u] by (simp add: smsParts_def Let_def)
    qed
    ultimately show ?thesis using gsm False
      by (auto simp: estimateSegments_costs Let_def single_units_def concat_units_def segment_units)
  next
    case ucs2
    then have c: "?costs = replicate ?n 1" using bmp by (simp add: char_costs_def)
    have "\<not> list_all plain_gsm text" using ucs2 plain_costs by blast
    moreover have "packSegments ?costs 67 \<le> ceil_div ?n 67"
      using packSegments_bound [of ?costs 1 67] ceil_div_pred [OF n, of 67] by (simp add: c sum_list_replicate)
    ultimately show ?thesis using ucs2 c False n
      by (auto simp: estimateSegments_costs Let_def smsParts_def single_units_def concat_units_def segment_units
          sum_list_replicate)
  qed
qed

theorem guard_parts_cover_witness:
  "segments (estimateSegments [72, 105]) \<le> smsParts [72, 105]"
  by (rule guard_parts_cover) simp

text \<open>
  Outside that plane it does not: forty characters beyond it are eighty units and two segments,
  and the guard charges for one part.
\<close>

lemma guard_parts_undercount:
  "smsParts (replicate 40 128512) = 1 \<and> segments (estimateSegments (replicate 40 128512)) = 2"
proof -
  have "\<not> gsm_text (replicate 40 128512)"
    by (simp add: gsm_text_def list_all_iff GSM7_BASIC_def GSM7_EXTENSION_def)
  moreover have "ucs2Costs (replicate 40 128512) = replicate 40 2" by (simp add: ucs2Costs_def unit_length_def)
  moreover have "packSegments (replicate 40 2) 67 = 2" by (simp add: packSegments_def numeral_eq_Suc)
  ultimately show ?thesis
    by (simp add: estimateSegments_costs Let_def char_costs_def single_units_def concat_units_def segment_units
        sum_list_replicate smsParts_def plain_gsm_def list_all_iff)
qed

end
