(* ===== verification/Guard_Store.thy ===== *)
theory Guard_Store
  imports Prelude Client_State "HOL-Library.AList"
begin

text \<open>
  What the Telnyx guard keeps (\<open>tools/guard/src/state\<close>): the run lease, the period counters,
  the money ledger, the leg registry, the account signals and the balance, in one record that
  stands for the storage of the guard's single Durable Object. One operation per exported
  function; each takes the clock reading it makes and what Telnyx answered it.

  Sums of money are rational numbers: \<open>usd\<close> rounds every stored sum to a millionth of a
  dollar, so the model is the code without the error of binary fractions. A thrown
  \<open>Refusal\<close> is \<open>Inl (Refusal rule)\<close>, with the store as it was left.
\<close>

datatype guard_error = Refusal string | AccountRefused | Failed

datatype guard_caller = RigApi | Robot | Diag | Admin | EdgeCaller

text \<open>The truth value of an optional number: absent and 0 are false.\<close>

definition set_ms :: "ms option \<Rightarrow> bool" where
  "set_ms t = (case t of None \<Rightarrow> False | Some v \<Rightarrow> v \<noteq> 0)"


section \<open>The numbers the guard enforces\<close>

definition MINUTE :: ms where "MINUTE = 60 * 1000"
definition HOUR :: ms where "HOUR = 60 * MINUTE"
definition DAY :: ms where "DAY = 24 * HOUR"
definition DIALS_PER_DAY :: int where "DIALS_PER_DAY = 18"
definition DIALS_PER_HOUR :: int where "DIALS_PER_HOUR = 3"
definition PAID_CONCURRENT :: int where "PAID_CONCURRENT = 5"
definition PAID_DIALS_PER_HOUR :: int where "PAID_DIALS_PER_HOUR = 10"
definition PAID_DIALS_PER_DAY :: int where "PAID_DIALS_PER_DAY = 100"
definition LIMIT_EVIDENCE_STALE_MS :: ms where "LIMIT_EVIDENCE_STALE_MS = 35 * DAY"
definition ACCOUNT_RATE_STALE_MS :: ms where "ACCOUNT_RATE_STALE_MS = 36 * HOUR"
definition TEXTS_PER_DAY :: int where "TEXTS_PER_DAY = 20"
definition TEXTS_PER_MONTH :: int where "TEXTS_PER_MONTH = 300"
definition MONTHLY_CAP_USD :: rat where "MONTHLY_CAP_USD = 35"
definition SET_ASIDE_USD :: rat where "SET_ASIDE_USD = 3 / 2"
definition BALANCE_FLOOR_MIN_USD :: rat where "BALANCE_FLOOR_MIN_USD = 30"
definition BALANCE_FLOOR_DAYS :: rat where "BALANCE_FLOOR_DAYS = 14"
definition BALANCE_CACHE_MS :: ms where "BALANCE_CACHE_MS = 10 * MINUTE"
definition AMBER_SHARE :: rat where "AMBER_SHARE = 8 / 10"
definition COST_dial :: rat where "COST_dial = 3 / 100"
definition COST_transfer :: rat where "COST_transfer = 13 / 100"
definition COST_textPart :: rat where "COST_textPart = 227 / 10000"
definition COST_numberUpfront :: rat where "COST_numberUpfront = 1"
definition COST_numberRental :: rat where "COST_numberRental = 11 / 10"
definition COST_callerNameLookup :: rat where "COST_callerNameLookup = 4 / 10"
definition WINDOW_DEFAULT_START_HOUR :: int where "WINDOW_DEFAULT_START_HOUR = 4"
definition WINDOW_HOURS :: int where "WINDOW_HOURS = 6"
definition WINDOW_STALE_MS :: ms where "WINDOW_STALE_MS = 35 * DAY"
definition MAX_ABANDONED_SHARE :: rat where "MAX_ABANDONED_SHARE = 15 / 100"
definition MAX_SHORT_SHARE :: rat where "MAX_SHORT_SHARE = 1 / 10"
definition MIN_RATIO_SAMPLE :: int where "MIN_RATIO_SAMPLE = 30"
definition RATIOS_STALE_MS :: ms where "RATIOS_STALE_MS = 36 * HOUR"
definition RESERVE_STALE_MS :: ms where "RESERVE_STALE_MS = 36 * HOUR"
definition SIGNAL_HALT_MS :: ms where "SIGNAL_HALT_MS = 7 * DAY"
definition SIGNAL_REPEAT_WINDOW_MS :: ms where "SIGNAL_REPEAT_WINDOW_MS = 30 * DAY"
definition PREEMPT_POLL_MS :: ms where "PREEMPT_POLL_MS = 2 * 1000"
definition LIVE_LEG_HORIZON_MS :: ms where "LIVE_LEG_HORIZON_MS = HOUR"
definition CORE_SCENARIOS :: "string list" where
  "CORE_SCENARIOS = [''G01'', ''S01'', ''S02'', ''S04'', ''S20'', ''S21'', ''D02'']"
definition LEASE_MAX_MS :: ms where "LEASE_MAX_MS = 15 * 60 * 1000"
definition LEG_REGISTRY_TTL_MS :: ms where "LEG_REGISTRY_TTL_MS = 6 * 60 * 60 * 1000"

lemmas guard_times = MINUTE_def HOUR_def DAY_def


section \<open>The store\<close>

record lease_record =
  lease_id :: string
  scenario :: string
  holder :: guard_caller
  acquired_at :: ms
  expires_ms :: ms
  released_at :: "ms option"
  preempted_at :: "ms option"
  activity :: "string \<Rightarrow> nat option"
  no_dials :: bool

record month_ledger =
  usage_usd :: rat
  one_time_usd :: rat
  reconciled_usd :: rat
  peak_numbers :: int
  caller_name_numbers :: int

datatype leg_via = ViaVoice | ViaRobot | ViaWebrtc

record leg_entry =
  le_ccid :: string
  le_connection :: string
  le_via :: leg_via
  le_registered :: ms
  le_expires :: ms
  le_ended :: "ms option"

datatype validation_result = Exact | NotEnforced | Inconclusive

record validation_record =
  vr_result :: validation_result
  vr_value :: "int option"
  vr_measured :: ms

record history_record =
  hr_peak :: int
  hr_measured :: ms

record ceiling_record =
  ce_value :: "int option"
  ce_from :: string
  ce_at :: ms

record signal_event =
  sg_signal :: string
  sg_notice :: "string option"
  sg_by :: string
  sg_at :: ms
  sg_late :: bool

record signal_state =
  ss_events :: "signal_event list"
  ss_halt_until :: "ms option"
  ss_latch :: "(ms \<times> string) option"

record reserve_record = rv_legs :: int  rv_measured :: ms
record ratios_record = rt_calls :: int  rt_abandoned :: int  rt_short :: int  rt_measured :: ms
record window_record = wd_start :: int  wd_measured :: ms
record account_rate_record = ar_hour :: int  ar_day :: int  ar_measured :: ms

record credential_record =
  cr_connection :: string
  cr_sip :: "string option"
  cr_created :: ms
  cr_deleted :: "ms option"

record guard_store =
  g_lease :: "lease_record option"
  g_counts :: "string \<Rightarrow> string \<Rightarrow> int option"
  g_months :: "string \<Rightarrow> month_ledger option"
  g_days :: "string \<Rightarrow> rat option"
  g_legs :: "(string \<times> leg_entry) list"
  g_validation :: "validation_record option"
  g_history :: "history_record option"
  g_ceilings :: "ceiling_record list"
  g_signals :: "signal_state option"
  g_reading :: "(rat \<times> ms) option"
  g_samples :: "(string \<times> rat) list"
  g_reserve :: "reserve_record option"
  g_ratios :: "ratios_record option"
  g_window :: "window_record option"
  g_rate :: "account_rate_record option"
  g_creds :: "string \<Rightarrow> credential_record option"
  g_sips :: "string \<Rightarrow> string option"
  g_detached :: "string \<Rightarrow> (ms \<times> string) option"
  g_alarm :: "ms option"

type_synonym 'a guarded = "(guard_error + 'a) \<times> guard_store"

text \<open>The configuration the policy reads (\<open>GuardConfig\<close>): the floor of the concurrency proof, the
  value that resets a latched signal and the edge's origin. \<open>cf_origin\<close> stands for
  \<open>new URL(value).origin\<close>, nothing where the constructor throws.\<close>

record guard_config =
  cf_floor :: "int option"
  cf_latch_reset :: string
  cf_edge :: "string option"
  cf_origin :: "string \<Rightarrow> string option"


section \<open>Periods and counters\<close>

definition dayOf :: "ms \<Rightarrow> string" where "dayOf t = take 10 (to_iso_string t)"
definition hourOf :: "ms \<Rightarrow> string" where "hourOf t = take 13 (to_iso_string t)"
definition monthOf :: "ms \<Rightarrow> string" where "monthOf t = take 7 (to_iso_string t)"

definition counted :: "guard_store \<Rightarrow> string \<Rightarrow> string \<Rightarrow> int" where
  "counted s name period = (case g_counts s name period of None \<Rightarrow> 0 | Some n \<Rightarrow> n)"

definition put_count :: "string \<Rightarrow> string \<Rightarrow> int \<Rightarrow> guard_store \<Rightarrow> guard_store" where
  "put_count name period n s =
     s\<lparr>g_counts := (g_counts s)(name := (g_counts s name)(period := Some n))\<rparr>"

definition tryTake :: "string \<Rightarrow> string \<Rightarrow> int \<Rightarrow> int \<Rightarrow> guard_store \<Rightarrow> bool \<times> guard_store" where
  "tryTake name period amount limit s =
     (let current = counted s name period
      in if current + amount > limit then (False, s)
         else (True, put_count name period (current + amount) s))"

definition giveBack :: "string \<Rightarrow> string \<Rightarrow> int \<Rightarrow> guard_store \<Rightarrow> guard_store" where
  "giveBack name period amount s = put_count name period (max 0 (counted s name period - amount)) s"


section \<open>The lease\<close>

definition upper_letter :: "char \<Rightarrow> bool" where
  "upper_letter c \<longleftrightarrow> 65 \<le> byte c \<and> byte c \<le> 90"

definition lower_letter :: "char \<Rightarrow> bool" where
  "lower_letter c \<longleftrightarrow> 97 \<le> byte c \<and> byte c \<le> 122"

text \<open>\<open>/^[A-Z][0-9]{2}[a-z]?$/\<close>.\<close>

fun SCENARIO :: "string \<Rightarrow> bool" where
  "SCENARIO [a, b, c] = (upper_letter a \<and> is_digit b \<and> is_digit c)"
| "SCENARIO [a, b, c, d] = (upper_letter a \<and> is_digit b \<and> is_digit c \<and> lower_letter d)"
| "SCENARIO _ = False"

definition liveLease :: "ms \<Rightarrow> guard_store \<Rightarrow> lease_record option" where
  "liveLease now s =
     (case g_lease s of
        None \<Rightarrow> None
      | Some l \<Rightarrow> if set_ms (released_at l) \<or> set_ms (preempted_at l) \<or> expires_ms l \<le> now then None
                  else Some l)"

definition acquireLease ::
  "ms \<Rightarrow> string \<Rightarrow> string option \<Rightarrow> guard_caller \<Rightarrow> bool \<Rightarrow> guard_store \<Rightarrow> lease_record guarded" where
  "acquireLease now uuid scen who noDials s =
     (case scen of
        None \<Rightarrow> (Inl (Refusal ''lease.scenario_invalid''), s)
      | Some sc \<Rightarrow>
          if \<not> SCENARIO sc then (Inl (Refusal ''lease.scenario_invalid''), s)
          else if liveLease now s \<noteq> None then (Inl (Refusal ''lease.busy''), s)
          else let l = \<lparr>lease_id = uuid, scenario = sc, holder = who, acquired_at = now,
                        expires_ms = now + LEASE_MAX_MS, released_at = None, preempted_at = None,
                        activity = (\<lambda>_. None), no_dials = noDials\<rparr>
               in (Inr l, s\<lparr>g_lease := Some l\<rparr>))"

definition releaseLease :: "ms \<Rightarrow> string \<Rightarrow> guard_store \<Rightarrow> lease_record guarded" where
  "releaseLease now i s =
     (case g_lease s of
        None \<Rightarrow> (Inl (Refusal ''lease.not_found''), s)
      | Some l \<Rightarrow>
          if lease_id l \<noteq> i \<or> set_ms (released_at l) then (Inl (Refusal ''lease.not_found''), s)
          else let l' = l\<lparr>released_at := Some now\<rparr> in (Inr l', s\<lparr>g_lease := Some l'\<rparr>))"

definition markPreempted :: "ms \<Rightarrow> string \<Rightarrow> guard_store \<Rightarrow> guard_store" where
  "markPreempted now i s =
     (case g_lease s of
        None \<Rightarrow> s
      | Some l \<Rightarrow> if lease_id l = i then s\<lparr>g_lease := Some (l\<lparr>preempted_at := Some now\<rparr>)\<rparr> else s)"

definition requireDialLease ::
  "ms \<Rightarrow> string option \<Rightarrow> guard_caller \<Rightarrow> guard_store \<Rightarrow> guard_error + lease_record" where
  "requireDialLease now header caller s =
     (if \<not> truthy header \<and> caller \<noteq> RigApi then Inl (Refusal ''dial.lease_missing'')
      else case liveLease now s of
             None \<Rightarrow> Inl (Refusal ''dial.lease_not_live'')
           | Some l \<Rightarrow> if no_dials l \<or> (truthy header \<and> header \<noteq> Some (lease_id l))
                       then Inl (Refusal ''dial.lease_not_live'')
                       else Inr l)"

definition noteActivity :: "ms \<Rightarrow> string \<Rightarrow> guard_store \<Rightarrow> guard_store" where
  "noteActivity now key s =
     (case liveLease now s of
        None \<Rightarrow> s
      | Some l \<Rightarrow> s\<lparr>g_lease := Some (l\<lparr>activity := (activity l)(key :=
                       Some ((case activity l key of None \<Rightarrow> 0 | Some n \<Rightarrow> n) + 1))\<rparr>)\<rparr>)"

text \<open>The grant's id and whether it is the one live, for \<open>leaseActivity\<close>'s answer.\<close>

definition leaseActivity ::
  "ms \<Rightarrow> string \<Rightarrow> guard_store \<Rightarrow> guard_error + (lease_record \<times> bool)" where
  "leaseActivity now i s =
     (case g_lease s of
        None \<Rightarrow> Inl (Refusal ''lease.not_found'')
      | Some l \<Rightarrow> if lease_id l \<noteq> i then Inl (Refusal ''lease.not_found'')
                  else Inr (l, map_option lease_id (liveLease now s) = Some i))"

end
