(* ===== verification/Guard_Policy.thy ===== *)
theory Guard_Policy
  imports Guard_Store
begin

text \<open>
  The guard's readings and rules: the money ledger and its tier (\<open>state/ledger.ts\<close>), the
  account balance and its floor (\<open>state/balance.ts\<close>), the leg registry (\<open>state/legs.ts\<close>), the
  account signals (\<open>state/signals.ts\<close>) and the concurrency limit in force
  (\<open>state/concurrency.ts\<close>).
\<close>

section \<open>The ledger\<close>

definition js_round :: "rat \<Rightarrow> int" where
  "js_round v = \<lfloor>v + 1 / 2\<rfloor>"

definition usd :: "rat \<Rightarrow> rat" where
  "usd v = of_int (js_round (v * 1000000)) / 1000000"

definition EMPTY_ledger :: month_ledger where
  "EMPTY_ledger = \<lparr>usage_usd = 0, one_time_usd = 0, reconciled_usd = 0, peak_numbers = 0,
                   caller_name_numbers = 0\<rparr>"

definition monthLedger :: "string \<Rightarrow> guard_store \<Rightarrow> month_ledger" where
  "monthLedger month s = (case g_months s month of None \<Rightarrow> EMPTY_ledger | Some l \<Rightarrow> l)"

definition putMonth :: "ms \<Rightarrow> month_ledger \<Rightarrow> guard_store \<Rightarrow> guard_store" where
  "putMonth now l s = s\<lparr>g_months := (g_months s)(monthOf now := Some l)\<rparr>"

definition spentOn :: "string \<Rightarrow> guard_store \<Rightarrow> rat" where
  "spentOn day s = (case g_days s day of None \<Rightarrow> 0 | Some v \<Rightarrow> v)"

definition putDay :: "string \<Rightarrow> rat \<Rightarrow> guard_store \<Rightarrow> guard_store" where
  "putDay day v s = s\<lparr>g_days := (g_days s)(day := Some v)\<rparr>"

datatype charge_kind = Usage | OneTime

definition charge :: "ms \<Rightarrow> rat \<Rightarrow> charge_kind \<Rightarrow> guard_store \<Rightarrow> guard_store" where
  "charge now amount kind s =
     (let l = monthLedger (monthOf now) s
      in case kind of
           Usage \<Rightarrow>
             (let s1 = putMonth now (l\<lparr>usage_usd := usd (usage_usd l + amount)\<rparr>) s
              in putDay (dayOf now) (usd (spentOn (dayOf now) s1 + amount)) s1)
         | OneTime \<Rightarrow> putMonth now (l\<lparr>one_time_usd := usd (one_time_usd l + amount)\<rparr>) s)"

definition refund :: "ms \<Rightarrow> rat \<Rightarrow> guard_store \<Rightarrow> guard_store" where
  "refund now amount s =
     (let l = monthLedger (monthOf now) s;
          s1 = putMonth now (l\<lparr>usage_usd := usd (max 0 (usage_usd l - amount))\<rparr>) s
      in putDay (dayOf now) (usd (max 0 (spentOn (dayOf now) s1 - amount))) s1)"

definition noteHeld :: "ms \<Rightarrow> int \<Rightarrow> int \<Rightarrow> guard_store \<Rightarrow> guard_store" where
  "noteHeld now held names s =
     (let l = monthLedger (monthOf now) s
      in if held \<le> peak_numbers l \<and> names \<le> caller_name_numbers l then s
         else putMonth now (l\<lparr>peak_numbers := max (peak_numbers l) held,
                             caller_name_numbers := max (caller_name_numbers l) names\<rparr>) s)"

definition reconcile :: "string \<Rightarrow> rat \<Rightarrow> guard_store \<Rightarrow> guard_store" where
  "reconcile month actual s =
     (let l = monthLedger month s
      in s\<lparr>g_months := (g_months s)(month :=
             Some (l\<lparr>reconciled_usd := usd (max (reconciled_usd l) actual)\<rparr>))\<rparr>)"

text \<open>\<open>Date.UTC(y, m + 1, 0)\<close>: the day before the first of the next month.\<close>

definition daysInMonth :: "ms \<Rightarrow> int" where
  "daysInMonth now =
     (let (y, m, _) = civil_from_days (now div day_ms);
          (y', m') = (if m = 12 then (y + 1, 1) else (y, m + 1));
          (_, _, d) = civil_from_days (days_from_civil y' m' 1 - 1)
      in d)"

definition utcDate :: "ms \<Rightarrow> int" where
  "utcDate now = (let (_, _, d) = civil_from_days (now div day_ms) in d)"

datatype tier = Green | Amber | Red

record tier_reading =
  tr_tier :: tier
  tr_month :: string
  tr_budget :: rat
  tr_month_to_date :: rat
  tr_today :: rat
  tr_allowance :: rat
  tr_rentals :: rat

definition tierOf :: "month_ledger \<Rightarrow> rat \<Rightarrow> ms \<Rightarrow> tier_reading" where
  "tierOf l today now =
     (let rentals = usd (of_int (peak_numbers l) * COST_numberRental
                         + of_int (caller_name_numbers l) * COST_callerNameLookup);
          reserve = rentals;
          budget = usd (MONTHLY_CAP_USD - rentals - reserve - one_time_usd l - SET_ASIDE_USD);
          monthToDate = usd (max (usage_usd l) (reconciled_usd l));
          daysLeft = daysInMonth now - utcDate now + 1;
          allowance = usd (max 0 ((budget - (monthToDate - today)) / of_int daysLeft));
          t = (if monthToDate \<ge> budget then Red
               else if today \<ge> allowance \<or> monthToDate \<ge> AMBER_SHARE * budget then Amber
               else Green)
      in \<lparr>tr_tier = t, tr_month = monthOf now, tr_budget = budget, tr_month_to_date = monthToDate,
          tr_today = today, tr_allowance = allowance, tr_rentals = rentals\<rparr>)"

definition readTier :: "ms \<Rightarrow> guard_store \<Rightarrow> tier_reading" where
  "readTier now s = tierOf (monthLedger (monthOf now) s) (spentOn (dayOf now) s) now"

definition tierWithNumber :: "ms \<Rightarrow> int \<Rightarrow> int \<Rightarrow> guard_store \<Rightarrow> tier_reading" where
  "tierWithNumber now held names s =
     (let l = monthLedger (monthOf now) s
      in tierOf (l\<lparr>peak_numbers := max (peak_numbers l) held,
                   caller_name_numbers := max (caller_name_numbers l) names,
                   one_time_usd := usd (one_time_usd l + COST_numberUpfront)\<rparr>)
                (spentOn (dayOf now) s) now)"


section \<open>The balance\<close>

definition KEEP_SAMPLES :: nat where "KEEP_SAMPLES = 15"

fun falls :: "(string \<times> rat) list \<Rightarrow> rat" where
  "falls (a # b # rest) = max 0 (snd a - snd b) + falls (b # rest)"
| "falls _ = 0"

definition averageDailySpend :: "(string \<times> rat) list \<Rightarrow> rat option" where
  "averageDailySpend samples =
     (if length samples < 2 then None else Some (falls samples / of_nat (length samples - 1)))"

definition floorFor :: "(string \<times> rat) list \<Rightarrow> rat" where
  "floorFor samples =
     max BALANCE_FLOOR_MIN_USD
       ((case averageDailySpend samples of None \<Rightarrow> 0 | Some d \<Rightarrow> d) * BALANCE_FLOOR_DAYS)"

text \<open>
  Telnyx's answer to \<open>GET /v2/balance\<close>: the status and the number its balance field reads as,
  or \<open>None\<close> for a request that did not complete.
\<close>

type_synonym balance_reply = "(int \<times> rat option) option"

definition slice_last :: "nat \<Rightarrow> 'a list \<Rightarrow> 'a list" where
  "slice_last n xs = drop (length xs - n) xs"

definition readBalance ::
  "ms \<Rightarrow> bool \<Rightarrow> bool \<Rightarrow> balance_reply \<Rightarrow> guard_store \<Rightarrow> rat guarded" where
  "readBalance now keyed fresh reply s =
     (case (if fresh then None
            else case g_reading s of
                   Some (v, read) \<Rightarrow> if now - read < BALANCE_CACHE_MS then Some v else None
                 | None \<Rightarrow> None) of
        Some v \<Rightarrow> (Inr v, s)
      | None \<Rightarrow>
          if \<not> keyed then (Inl (Refusal ''telnyx.key_missing''), s)
          else case reply of
                 None \<Rightarrow> (Inl Failed, s)
               | Some (status, value) \<Rightarrow>
                   if status = 401 \<or> status = 403 then (Inl AccountRefused, s)
                   else case value of
                          None \<Rightarrow> (Inl (Refusal ''budget.balance_unknown''), s)
                        | Some v \<Rightarrow>
                            if status \<noteq> 200 then (Inl (Refusal ''budget.balance_unknown''), s)
                            else let s1 = s\<lparr>g_reading := Some (v, now)\<rparr>;
                                     samples = g_samples s1
                                 in if samples = [] \<or> fst (last samples) \<noteq> dayOf now
                                    then (Inr v, s1\<lparr>g_samples :=
                                            slice_last KEEP_SAMPLES (samples @ [(dayOf now, v)])\<rparr>)
                                    else (Inr v, s1))"

definition balanceFloor :: "guard_store \<Rightarrow> rat" where
  "balanceFloor s = floorFor (g_samples s)"

definition requireAboveFloor :: "ms \<Rightarrow> bool \<Rightarrow> balance_reply \<Rightarrow> guard_store \<Rightarrow> unit guarded" where
  "requireAboveFloor now keyed reply s =
     (case readBalance now keyed False reply s of
        (Inl AccountRefused, s1) \<Rightarrow> (Inl (Refusal ''budget.balance_unknown''), s1)
      | (Inl e, s1) \<Rightarrow> (Inl e, s1)
      | (Inr v, s1) \<Rightarrow> if v < balanceFloor s1 then (Inl (Refusal ''budget.balance_floor''), s1)
                       else (Inr (), s1))"


section \<open>The leg registry\<close>

definition find_leg :: "string \<Rightarrow> guard_store \<Rightarrow> leg_entry option" where
  "find_leg i s = map_of (g_legs s) i"

definition put_leg :: "string \<Rightarrow> leg_entry \<Rightarrow> guard_store \<Rightarrow> guard_store" where
  "put_leg i e s = s\<lparr>g_legs := AList.update i e (g_legs s)\<rparr>"

definition registerLeg :: "ms \<Rightarrow> string \<Rightarrow> string \<Rightarrow> leg_via \<Rightarrow> guard_store \<Rightarrow> leg_entry \<times> guard_store" where
  "registerLeg now i conn via s =
     (let fresh = \<lparr>le_ccid = i, le_connection = conn, le_via = via, le_registered = now,
                   le_expires = now + LEG_REGISTRY_TTL_MS, le_ended = None\<rparr>;
          e = (case find_leg i s of
                 None \<Rightarrow> fresh
               | Some old \<Rightarrow> if le_expires old > now
                             then old\<lparr>le_expires := now + LEG_REGISTRY_TTL_MS\<rparr> else fresh)
      in (e, put_leg i e s))"

definition liveLeg :: "ms \<Rightarrow> string \<Rightarrow> guard_store \<Rightarrow> leg_entry option" where
  "liveLeg now i s =
     (case find_leg i s of None \<Rightarrow> None | Some e \<Rightarrow> if le_expires e \<le> now then None else Some e)"

definition markEnded :: "ms \<Rightarrow> string \<Rightarrow> guard_store \<Rightarrow> guard_store" where
  "markEnded now i s =
     (case find_leg i s of
        None \<Rightarrow> s
      | Some e \<Rightarrow> if set_ms (le_ended e) then s else put_leg i (e\<lparr>le_ended := Some now\<rparr>) s)"

definition pruneLegs :: "ms \<Rightarrow> guard_store \<Rightarrow> nat \<times> guard_store" where
  "pruneLegs now s =
     (length (filter (\<lambda>(_, e). le_expires e \<le> now) (g_legs s)),
      s\<lparr>g_legs := filter (\<lambda>(_, e). \<not> le_expires e \<le> now) (g_legs s)\<rparr>)"

definition candidateLiveLegs :: "ms \<Rightarrow> guard_store \<Rightarrow> leg_entry list" where
  "candidateLiveLegs now s =
     filter (\<lambda>e. \<not> (set_ms (le_ended e) \<or> le_expires e \<le> now)
               \<and> \<not> now - le_registered e > LIVE_LEG_HORIZON_MS)
       (map snd (g_legs s))"

text \<open>Telnyx's answer to \<open>GET /v2/calls/:id\<close>: the status and \<open>is_alive\<close> when it is a boolean;
  \<open>None\<close> when the request threw, which ends the count.\<close>

type_synonym alive_world = "string \<Rightarrow> (int \<times> bool option) option"

fun count_legs :: "ms \<Rightarrow> bool \<Rightarrow> alive_world \<Rightarrow> leg_entry list \<Rightarrow> int \<Rightarrow> guard_store \<Rightarrow> int guarded" where
  "count_legs now keyed w [] live s = (Inr live, s)"
| "count_legs now keyed w (e # es) live s =
     (if \<not> keyed then count_legs now keyed w es (live + 1) s
      else case w (le_ccid e) of
             None \<Rightarrow> (Inl Failed, s)
           | Some (status, alive) \<Rightarrow>
               if (status = 200 \<and> alive = Some False) \<or> status = 404
               then count_legs now keyed w es live (markEnded now (le_ccid e) s)
               else count_legs now keyed w es (live + 1) s)"

definition liveLegCount :: "ms \<Rightarrow> bool \<Rightarrow> alive_world \<Rightarrow> guard_store \<Rightarrow> int guarded" where
  "liveLegCount now keyed w s = count_legs now keyed w (candidateLiveLegs now s) 0 s"


section \<open>Account signals\<close>

definition FRAUD_SIGNALS :: "string list" where
  "FRAUD_SIGNALS = [''Suspicious Outbound Voice Traffic'', ''Account Disabled'',
                    ''Messaging Suspicious Traffic'']"

definition fold_text :: "string \<Rightarrow> string" where
  "fold_text t = filter (\<lambda>c. lower_letter c \<or> is_digit c) (lower t)"

definition isFraudSignal :: "string \<Rightarrow> bool" where
  "isFraudSignal sig = list_ex (\<lambda>name. is_infix (fold_text name) (fold_text sig)) FRAUD_SIGNALS"

definition signal_state_of :: "guard_store \<Rightarrow> signal_state" where
  "signal_state_of s = (case g_signals s of
     None \<Rightarrow> \<lparr>ss_events = [], ss_halt_until = None, ss_latch = None\<rparr> | Some st \<Rightarrow> st)"

definition halted_until :: "signal_state \<Rightarrow> ms" where
  "halted_until st = (case ss_halt_until st of None \<Rightarrow> 0 | Some t \<Rightarrow> t)"

definition standing_latch :: "guard_config \<Rightarrow> signal_state \<Rightarrow> (ms \<times> string) option" where
  "standing_latch cf st =
     (case ss_latch st of None \<Rightarrow> None
      | Some (t, r) \<Rightarrow> if r = cf_latch_reset cf then Some (t, r) else None)"

definition recordSignal ::
  "guard_config \<Rightarrow> ms \<Rightarrow> string \<Rightarrow> string option \<Rightarrow> string \<Rightarrow> bool \<Rightarrow> guard_store \<Rightarrow> guard_store" where
  "recordSignal cf now sig notice source late s =
     (let st = signal_state_of s
      in if truthy notice \<and> list_ex (\<lambda>e. sg_notice e = notice) (ss_events st) then s
         else
           let standing = standing_latch cf st;
               clearedAt = (if standing = None then map_option fst (ss_latch st) else None);
               recent = filter (\<lambda>e. now - sg_at e < SIGNAL_REPEAT_WINDOW_MS
                                 \<and> (case clearedAt of None \<Rightarrow> True | Some c \<Rightarrow> sg_at e > c)) (ss_events st);
               latch = (if (isFraudSignal sig \<or> recent \<noteq> []) \<and> standing = None
                        then Some (now, cf_latch_reset cf) else standing)
           in s\<lparr>g_signals := Some \<lparr>
                  ss_events = recent @ [\<lparr>sg_signal = sig, sg_notice = notice, sg_by = source, sg_at = now,
                                        sg_late = late\<rparr>],
                  ss_halt_until = Some (max (halted_until st) (now + SIGNAL_HALT_MS)),
                  ss_latch = latch\<rparr>\<rparr>)"

definition requirePaidLanesOpen :: "guard_config \<Rightarrow> ms \<Rightarrow> guard_store \<Rightarrow> guard_error option" where
  "requirePaidLanesOpen cf now s =
     (let st = signal_state_of s
      in if standing_latch cf st \<noteq> None then Some (Refusal ''signal.latched'')
         else if halted_until st > now then Some (Refusal ''signal.halted'')
         else None)"

definition signalSummary :: "guard_config \<Rightarrow> ms \<Rightarrow> guard_store \<Rightarrow> ms option \<times> bool" where
  "signalSummary cf now s =
     (let st = signal_state_of s
      in (if halted_until st > now then Some (halted_until st) else None, standing_latch cf st \<noteq> None))"


section \<open>The concurrency limit in force\<close>

definition MAX_CEILINGS :: nat where "MAX_CEILINGS = 20"

definition fresh :: "ms \<Rightarrow> ms \<Rightarrow> bool" where
  "fresh at_ms now \<longleftrightarrow> now - at_ms \<le> LIMIT_EVIDENCE_STALE_MS"

definition freshCeilings :: "ms \<Rightarrow> guard_store \<Rightarrow> ceiling_record list" where
  "freshCeilings now s = filter (\<lambda>c. fresh (ce_at c) now) (g_ceilings s)"

definition recordCeiling :: "ms \<Rightarrow> int option \<Rightarrow> string \<Rightarrow> guard_store \<Rightarrow> guard_store" where
  "recordCeiling now v src s =
     s\<lparr>g_ceilings := slice_last MAX_CEILINGS
         (freshCeilings now s @ [\<lparr>ce_value = v, ce_from = src, ce_at = now\<rparr>])\<rparr>"

definition recordLevelEvidence :: "ms \<Rightarrow> guard_store \<Rightarrow> guard_store" where
  "recordLevelEvidence now s = recordCeiling now (Some PAID_CONCURRENT) ''level:paid_or_below'' s"

datatype limit_source = FromFloor | FromValidation

datatype limit_conflict = HistoryAboveCeiling | FloorAboveCeiling | ValidationBelowHistory

record limit_in_force =
  li_limit :: "int option"
  li_source :: limit_source
  li_floor :: "int option"
  li_validation :: "validation_record option"
  li_history :: "int option"
  li_ceiling :: "ceiling_record option"
  li_conflict :: "limit_conflict option"

fun lowest_ceiling :: "(int \<times> ceiling_record) option \<Rightarrow> ceiling_record list \<Rightarrow> (int \<times> ceiling_record) option" where
  "lowest_ceiling low [] = low"
| "lowest_ceiling low (c # cs) =
     (case ce_value c of
        None \<Rightarrow> lowest_ceiling low cs
      | Some v \<Rightarrow> (case low of
                     None \<Rightarrow> lowest_ceiling (Some (v, c)) cs
                   | Some (w, d) \<Rightarrow> if v < w then lowest_ceiling (Some (v, c)) cs else lowest_ceiling low cs))"

definition fresh_history :: "ms \<Rightarrow> guard_store \<Rightarrow> int option" where
  "fresh_history now s =
     (case g_history s of None \<Rightarrow> None | Some h \<Rightarrow> if fresh (hr_measured h) now then Some (hr_peak h) else None)"

definition exact_limit :: "ms \<Rightarrow> guard_store \<Rightarrow> int option" where
  "exact_limit now s =
     (case g_validation s of None \<Rightarrow> None
      | Some v \<Rightarrow> if vr_result v = Exact \<and> vr_value v \<noteq> None \<and> fresh (vr_measured v) now
                  then vr_value v else None)"

definition limitInForce :: "guard_config \<Rightarrow> ms \<Rightarrow> guard_store \<Rightarrow> limit_in_force" where
  "limitInForce cf now s =
     (let history = fresh_history now s;
          ceilings = freshCeilings now s;
          lowest = lowest_ceiling None ceilings;
          ceiling = (case lowest of Some (_, c) \<Rightarrow> Some c
                     | None \<Rightarrow> if ceilings = [] then None else Some (last ceilings));
          cap = (\<lambda>v. case lowest of Some (w, _) \<Rightarrow> min v w | None \<Rightarrow> v);
          exact = exact_limit now s;
          (limit, source) =
            (case cf_floor cf of
               None \<Rightarrow> (None, FromFloor)
             | Some f \<Rightarrow>
                 (case exact of
                    Some e \<Rightarrow> (Some (cap (min e (max PAID_CONCURRENT
                                 (case history of None \<Rightarrow> 0 | Some h \<Rightarrow> h)))), FromValidation)
                  | None \<Rightarrow> (Some (cap f), FromFloor)));
          low = map_option fst lowest;
          conflict =
            (if low \<noteq> None \<and> history \<noteq> None \<and> the history > the low then Some HistoryAboveCeiling
             else if low \<noteq> None \<and> cf_floor cf \<noteq> None \<and> the (cf_floor cf) > the low then Some FloorAboveCeiling
             else if exact \<noteq> None \<and> history \<noteq> None \<and> the exact < the history then Some ValidationBelowHistory
             else None)
      in \<lparr>li_limit = limit, li_source = source, li_floor = cf_floor cf, li_validation = g_validation s,
          li_history = history, li_ceiling = ceiling, li_conflict = conflict\<rparr>)"

definition roomUnder :: "limit_in_force \<Rightarrow> int \<Rightarrow> int" where
  "roomUnder c reserveLegs =
     (if li_limit c = None \<or> li_source c = FromFloor \<or> li_conflict c \<noteq> None then 0
      else max 0 (the (li_limit c) - reserveLegs))"

end
