(* ===== verification/Guard_Admission.thy ===== *)
theory Guard_Admission
  imports Guard_Policy
begin

text \<open>
  Admission of paid calls (\<open>tools/guard/src/state/admission.ts\<close>): the window, the account-wide
  rates, the ratios, production's reserve, and \<open>admitPaid\<close>, which asks the rules one after the
  other and throws the first refusal; \<open>paidState\<close> lists those that would stop a dial now.

  What Telnyx answers during one request is a \<open>guard_world\<close>: the balance, each leg's status and
  each production connection's active calls.
\<close>

section \<open>The single rules\<close>

definition windowInForce :: "window_record option \<Rightarrow> ms \<Rightarrow> int \<times> ms option" where
  "windowInForce r now =
     (case r of
        Some w \<Rightarrow> if now - wd_measured w \<le> WINDOW_STALE_MS then (wd_start w, Some (wd_measured w))
                  else (WINDOW_DEFAULT_START_HOUR, None)
      | None \<Rightarrow> (WINDOW_DEFAULT_START_HOUR, None))"

definition windowStartHour :: "window_record option \<Rightarrow> ms \<Rightarrow> int" where
  "windowStartHour r now = fst (windowInForce r now)"

definition utcHours :: "ms \<Rightarrow> int" where
  "utcHours now = now mod day_ms div 3600000"

text \<open>JavaScript's \<open>%\<close> keeps the sign of the dividend.\<close>

definition js_rem :: "int \<Rightarrow> int \<Rightarrow> int" where
  "js_rem a b = (if a < 0 then - ((- a) mod b) else a mod b)"

definition inWindow :: "ms \<Rightarrow> int \<Rightarrow> bool" where
  "inWindow now startHour \<longleftrightarrow> js_rem (utcHours now - startHour + 24) 24 < WINDOW_HOURS"

definition roomFor :: "limit_in_force \<Rightarrow> reserve_record option \<Rightarrow> ms \<Rightarrow> int option" where
  "roomFor c r now =
     (if li_limit c = None then None
      else case r of
             None \<Rightarrow> None
           | Some rv \<Rightarrow> if now - rv_measured rv > RESERVE_STALE_MS then None
                        else Some (roomUnder c (rv_legs rv)))"

definition ratioRule :: "ratios_record option \<Rightarrow> ms \<Rightarrow> guard_error option" where
  "ratioRule r now =
     (case r of
        None \<Rightarrow> Some (Refusal ''admission.ratios_unknown'')
      | Some q \<Rightarrow>
          if now - rt_measured q > RATIOS_STALE_MS then Some (Refusal ''admission.ratios_unknown'')
          else if rt_calls q < MIN_RATIO_SAMPLE then None
          else if of_int (rt_abandoned q) / of_int (rt_calls q) > MAX_ABANDONED_SHARE
          then Some (Refusal ''admission.abandoned_ratio'')
          else if of_int (rt_short q) / of_int (rt_calls q) > MAX_SHORT_SHARE
          then Some (Refusal ''admission.short_ratio'')
          else None)"

definition limitRule :: "limit_in_force \<Rightarrow> int \<Rightarrow> guard_error option" where
  "limitRule c newLegs =
     (if li_floor c = None then Some (Refusal ''admission.limit_unknown'')
      else if li_conflict c \<noteq> None then Some (Refusal ''admission.limit_conflict'')
      else if li_source c = FromFloor \<and> newLegs > 0 then Some (Refusal ''admission.limit_unproven'')
      else None)"

definition rigDials :: "ms \<Rightarrow> guard_store \<Rightarrow> int \<times> int" where
  "rigDials now s =
     (counted s ''dials-hour'' (hourOf now) + counted s ''dials-hour'' (hourOf (now - HOUR)),
      counted s ''dials'' (dayOf now) + counted s ''dials'' (dayOf (now - 24 * HOUR)))"

definition accountRateRule ::
  "account_rate_record option \<Rightarrow> int \<Rightarrow> ms \<Rightarrow> guard_store \<Rightarrow> guard_error option" where
  "accountRateRule r newLegs now s =
     (case r of
        None \<Rightarrow> Some (Refusal ''admission.account_rate_unknown'')
      | Some q \<Rightarrow>
          if now - ar_measured q > ACCOUNT_RATE_STALE_MS
          then Some (Refusal ''admission.account_rate_unknown'')
          else let (rig_hour, rig_day) = rigDials now s
               in if rig_hour + newLegs + ar_hour q > PAID_DIALS_PER_HOUR
                  then Some (Refusal ''admission.account_hour_full'')
                  else if rig_day + newLegs + ar_day q > PAID_DIALS_PER_DAY
                  then Some (Refusal ''admission.account_day_full'')
                  else None)"


section \<open>What production has up\<close>

datatype production_calls = ProdLive | ProdIdle | ProdAbsent | ProdUnknown

text \<open>The answer to a connection's active-calls read: the status and how many calls its data
  lists (0 where the data is not a list); \<open>None\<close> for a request that threw.\<close>

type_synonym active_world = "string \<Rightarrow> (int \<times> nat) option"

fun active_calls_loop :: "active_world \<Rightarrow> string list \<Rightarrow> bool \<Rightarrow> bool \<Rightarrow> production_calls" where
  "active_calls_loop w [] answered failed =
     (if failed then ProdUnknown else if answered then ProdIdle else ProdAbsent)"
| "active_calls_loop w (i # is) answered failed =
     (case w i of
        None \<Rightarrow> active_calls_loop w is answered True
      | Some (status, n) \<Rightarrow>
          if status = 404 \<or> status = 422 then active_calls_loop w is answered failed
          else if status \<noteq> 200 then active_calls_loop w is answered True
          else if n > 0 then ProdLive
          else active_calls_loop w is True failed)"

definition productionCalls :: "bool \<Rightarrow> active_world \<Rightarrow> string list \<Rightarrow> production_calls" where
  "productionCalls keyed w ids =
     (if \<not> keyed \<or> ids = [] then ProdUnknown else active_calls_loop w ids False False)"


section \<open>Admission\<close>

record guard_world =
  gw_keyed :: bool
  gw_balance :: balance_reply
  gw_alive :: alive_world
  gw_active :: active_world

record admitted =
  ad_liveLegs :: "int option"
  ad_production :: "production_calls option"

text \<open>The rules that only read, in the order they are asked.\<close>

definition limit_rules ::
  "guard_config \<Rightarrow> ms \<Rightarrow> int \<Rightarrow> guard_store \<Rightarrow> guard_error option" where
  "limit_rules cf now newLegs s =
     (case requirePaidLanesOpen cf now s of Some e \<Rightarrow> Some e
      | None \<Rightarrow>
        case limitRule (limitInForce cf now s) newLegs of Some e \<Rightarrow> Some e
        | None \<Rightarrow>
          if \<not> inWindow now (windowStartHour (g_window s) now)
          then Some (Refusal ''admission.outside_window'')
          else case accountRateRule (g_rate s) newLegs now s of Some e \<Rightarrow> Some e
               | None \<Rightarrow> ratioRule (g_ratios s) now)"

definition tier_rule :: "ms \<Rightarrow> string option \<Rightarrow> guard_store \<Rightarrow> guard_error option" where
  "tier_rule now scen s =
     (let t = tr_tier (readTier now s)
      in if t = Red then Some (Refusal ''budget.tier_red'')
         else if t = Amber \<and> \<not> (truthy scen \<and> the scen \<in> set CORE_SCENARIOS)
         then Some (Refusal ''budget.tier_amber'')
         else None)"

definition admitPaid ::
  "guard_config \<Rightarrow> ms \<Rightarrow> guard_world \<Rightarrow> string list \<Rightarrow> int \<Rightarrow> string option \<Rightarrow> guard_store
     \<Rightarrow> admitted guarded" where
  "admitPaid cf now w prodIds newLegs scen s =
     (case limit_rules cf now newLegs s of
        Some e \<Rightarrow> (Inl e, s)
      | None \<Rightarrow>
        case roomFor (limitInForce cf now s) (g_reserve s) now of
          None \<Rightarrow> (Inl (Refusal ''admission.reserve_unknown''), s)
        | Some room \<Rightarrow>
          case tier_rule now scen s of
            Some e \<Rightarrow> (Inl e, s)
          | None \<Rightarrow>
            case requireAboveFloor now (gw_keyed w) (gw_balance w) s of
              (Inl e, s1) \<Rightarrow> (Inl e, s1)
            | (Inr _, s1) \<Rightarrow>
              if newLegs = 0 then (Inr \<lparr>ad_liveLegs = None, ad_production = None\<rparr>, s1)
              else case liveLegCount now (gw_keyed w) (gw_alive w) s1 of
                     (Inl e, s2) \<Rightarrow> (Inl e, s2)
                   | (Inr live, s2) \<Rightarrow>
                     if live + newLegs > room then (Inl (Refusal ''admission.no_room''), s2)
                     else case productionCalls (gw_keyed w) (gw_active w) prodIds of
                            ProdLive \<Rightarrow> (Inl (Refusal ''admission.production_call_live''), s2)
                          | ProdUnknown \<Rightarrow> (Inl (Refusal ''admission.production_calls_unknown''), s2)
                          | p \<Rightarrow> (Inr \<lparr>ad_liveLegs = Some live, ad_production = Some p\<rparr>, s2))"

datatype safety_state = SafetyOk | SafetyUnsafe | SafetyUnconfigured | SafetyUnchecked

definition rule_of :: "guard_error option \<Rightarrow> string list" where
  "rule_of e = (case e of Some (Refusal r) \<Rightarrow> [r] | _ \<Rightarrow> [])"

text \<open>\<open>balanceAboveFloor\<close>: the reading, or nothing, and whether it reaches the floor.\<close>

definition balanceAboveFloor :: "ms \<Rightarrow> bool \<Rightarrow> balance_reply \<Rightarrow> guard_store \<Rightarrow> (rat option \<times> bool) \<times> guard_store" where
  "balanceAboveFloor now keyed reply s =
     (case readBalance now keyed False reply s of
        (Inl _, s1) \<Rightarrow> ((None, False), s1)
      | (Inr v, s1) \<Rightarrow> ((Some v, v \<ge> balanceFloor s1), s1))"

definition paidState ::
  "guard_config \<Rightarrow> ms \<Rightarrow> guard_world \<Rightarrow> safety_state \<Rightarrow> guard_store
     \<Rightarrow> (string list \<times> int option \<times> rat option) \<times> guard_store" where
  "paidState cf now w safety s =
     (let c = limitInForce cf now s;
          room = roomFor c (g_reserve s) now;
          signals = signalSummary cf now s;
          ((balance, above), s1) =
            (if gw_keyed w then balanceAboveFloor now True (gw_balance w) s else ((None, False), s));
          blockers =
            (if \<not> gw_keyed w then [''telnyx.key_missing''] else [])
            @ (if safety = SafetyOk then []
               else if safety = SafetyUnsafe then [''startup.unsafe''] else [''startup.unconfigured''])
            @ rule_of (limitRule c 1)
            @ (if li_limit c \<noteq> None \<and> room = None then [''admission.reserve_unknown''] else [])
            @ rule_of (accountRateRule (g_rate s) 1 now s)
            @ rule_of (ratioRule (g_ratios s) now)
            @ (if snd signals then [''signal.latched'']
               else if fst signals \<noteq> None then [''signal.halted''] else [])
            @ (if tr_tier (readTier now s) = Red then [''budget.tier_red''] else [])
            @ (if gw_keyed w \<and> balance = None then [''budget.balance_unknown''] else [])
            @ (if balance \<noteq> None \<and> \<not> above then [''budget.balance_floor''] else [])
      in ((blockers, room, balance), s1))"

end
