(* ===== verification/Guard_Calls.thy ===== *)
theory Guard_Calls
  imports Guard_Admission Segments
begin

text \<open>
  The Telnyx requests the guard forwards: call targets (\<open>telnyx/targets.ts\<close>), the body fields
  that reach past the partition (\<open>telnyx/hazards.ts\<close>), dial, transfer and bridge
  (\<open>telnyx/dial.ts\<close>), texts (\<open>telnyx/message.ts\<close>), leg commands (\<open>telnyx/leg-command.ts\<close>) and
  the detach at the monthly cap (\<open>telnyx/detach.ts\<close>).

  A handler that forwards is cut at its \<open>await forward(request)\<close>, where other requests of the
  same object run: one definition up to the request and one from its answer on. Dial is cut
  once more before its counters are taken, because admission awaits Telnyx too.
\<close>

section \<open>Request bodies and the partition\<close>

datatype json = JNull | JBool bool | JNum rat | JStr string | JArr "json list" | JObj "(string \<times> json) list"

type_synonym json_body = "(string \<times> json) list"

text \<open>\<open>value !== undefined && value !== null\<close>, the other way round.\<close>

definition absent :: "json option \<Rightarrow> bool" where
  "absent v \<longleftrightarrow> v = None \<or> v = Some JNull"

record owned_number =
  on_id :: string
  on_e164 :: string
  on_connection :: "string option"
  on_profile :: "string option"

record partition_view =
  pv_group :: string
  pv_voice :: "string option"
  pv_robot :: "string option"
  pv_webrtc :: "string option"
  pv_numbers :: "owned_number list"
  pv_profiles :: "string list"
  pv_production :: "string list"

definition present_ids :: "string option list \<Rightarrow> string list" where
  "present_ids vs = concat (map (\<lambda>v. when_truthy v (\<lambda>i. [i])) vs)"

definition dialConnections :: "partition_view \<Rightarrow> string list" where
  "dialConnections v = present_ids [pv_voice v, pv_robot v]"

text \<open>\<open>/^\+[1-9]\d{7,14}$/\<close>.\<close>

definition isE164 :: "string \<Rightarrow> bool" where
  "isE164 t = (case t of
     p # d # ds \<Rightarrow> p = CHR ''+'' \<and> is_digit d \<and> d \<noteq> CHR ''0''
                  \<and> list_all is_digit ds \<and> 7 \<le> length ds \<and> length ds \<le> 14
   | _ \<Rightarrow> False)"

definition isOwnedNumber :: "partition_view \<Rightarrow> json option \<Rightarrow> bool" where
  "isOwnedNumber v t = (case t of
     Some (JStr e) \<Rightarrow> isE164 e \<and> e \<in> set (map on_e164 (pv_numbers v))
   | _ \<Rightarrow> False)"

definition sip_char :: "char \<Rightarrow> bool" where
  "sip_char c \<longleftrightarrow> upper_letter c \<or> lower_letter c \<or> is_digit c \<or> c \<in> set ''._-''"

definition sipUsername :: "json option \<Rightarrow> string option" where
  "sipUsername t = (case t of
     Some (JStr u) \<Rightarrow>
       (let user = takeWhile (\<lambda>c. c \<noteq> CHR ''@'') (drop 4 u);
            host = dropWhile (\<lambda>c. c \<noteq> CHR ''@'') (drop 4 u)
        in if lower (take 4 u) = ''sip:'' \<and> lower host = ''@sip.telnyx.com''
              \<and> list_all sip_char user \<and> 1 \<le> length user \<and> length user \<le> 128
           then Some user else None)
   | _ \<Rightarrow> None)"

text \<open>A telephony credential as Telnyx lists it, and its answer to a search by SIP username: the
  status and the data when it is an array.\<close>

record sip_item =
  si_id :: "string option"
  si_sip :: "string option"
  si_resource :: "string option"

type_synonym sip_world = "string \<Rightarrow> (int \<times> sip_item list option) option"

definition connectionOfResource :: "string option \<Rightarrow> string option" where
  "connectionOfResource r = (case r of
     None \<Rightarrow> None
   | Some t \<Rightarrow> if t = [] then None
               else let p = ''connection:''
                    in if take (length p) t = p then Some (drop (length p) t) else Some t)"

definition rememberCredential :: "string \<Rightarrow> credential_record \<Rightarrow> guard_store \<Rightarrow> guard_store" where
  "rememberCredential i r s =
     (let s1 = s\<lparr>g_creds := (g_creds s)(i := Some r)\<rparr>
      in if truthy (cr_sip r) then s1\<lparr>g_sips := (g_sips s1)(the (cr_sip r) := Some i)\<rparr> else s1)"

definition known_connection :: "string \<Rightarrow> guard_store \<Rightarrow> string option" where
  "known_connection u s =
     (if truthy (g_sips s u)
      then case g_creds s (the (g_sips s u)) of
             Some r \<Rightarrow> if set_ms (cr_deleted r) then None else Some (cr_connection r)
           | None \<Rightarrow> None
      else None)"

definition connectionOfSipUser :: "ms \<Rightarrow> bool \<Rightarrow> sip_world \<Rightarrow> string \<Rightarrow> guard_store \<Rightarrow> string option guarded" where
  "connectionOfSipUser now keyed w u s =
     (case known_connection u s of
        Some c \<Rightarrow> (Inr (Some c), s)
      | None \<Rightarrow>
          if \<not> keyed then (Inr None, s)
          else case w u of
                 None \<Rightarrow> (Inl Failed, s)
               | Some (status, items) \<Rightarrow>
                   if status \<noteq> 200 \<or> items = None then (Inr None, s)
                   else case List.find (\<lambda>i. si_sip i = Some u \<and> si_id i \<noteq> None) (the items) of
                          None \<Rightarrow> (Inr None, s)
                        | Some i \<Rightarrow>
                            if \<not> truthy (connectionOfResource (si_resource i)) then (Inr None, s)
                            else let c = the (connectionOfResource (si_resource i))
                                 in (Inr (Some c), rememberCredential (the (si_id i))
                                       \<lparr>cr_connection = c, cr_sip = Some u, cr_created = now, cr_deleted = None\<rparr> s))"

definition isAllowedCallTarget ::
  "ms \<Rightarrow> bool \<Rightarrow> sip_world \<Rightarrow> partition_view \<Rightarrow> json option \<Rightarrow> guard_store \<Rightarrow> bool guarded" where
  "isAllowedCallTarget now keyed w v t s =
     (if isOwnedNumber v t then (Inr True, s)
      else case sipUsername t of
             None \<Rightarrow> (Inr False, s)
           | Some u \<Rightarrow>
               if \<not> truthy (pv_webrtc v) then (Inr False, s)
               else case connectionOfSipUser now keyed w u s of
                      (Inl e, s1) \<Rightarrow> (Inl e, s1)
                    | (Inr c, s1) \<Rightarrow> (Inr (c = pv_webrtc v), s1))"


section \<open>Fields that reach past the partition\<close>

definition ALWAYS_REFUSED :: "string list" where
  "ALWAYS_REFUSED = [''conference_config'', ''queue'', ''video_room_id'', ''video_room_context'',
     ''assistant'', ''conversation_relay_config'', ''enable_dialogflow'', ''dialogflow_config'',
     ''sip_auth_username'', ''sip_auth_password'']"

definition LEG_REFERENCES :: "string list" where
  "LEG_REFERENCES = [''link_to'', ''supervise_call_control_id'']"

definition EDGE_URLS :: "string list" where
  "EDGE_URLS = [''webhook_url'', ''webhook_failover_url'', ''stream_url'']"

definition onEdge :: "guard_config \<Rightarrow> json \<Rightarrow> bool" where
  "onEdge cf v = (case v of
     JStr u \<Rightarrow> truthy (cf_edge cf) \<and> cf_origin cf u \<noteq> None \<and> cf_origin cf u = cf_edge cf
   | _ \<Rightarrow> False)"

definition bodyIsContained ::
  "guard_config \<Rightarrow> ms \<Rightarrow> json_body \<Rightarrow> string \<Rightarrow> guard_store \<Rightarrow> bool" where
  "bodyIsContained cf now b billing s \<longleftrightarrow>
     list_all (\<lambda>f. absent (map_of b f) \<or> map_of b f = Some (JBool False)) ALWAYS_REFUSED
     \<and> list_all (\<lambda>f. absent (map_of b f)
                   \<or> (case map_of b f of Some (JStr i) \<Rightarrow> liveLeg now i s \<noteq> None | _ \<Rightarrow> False)) LEG_REFERENCES
     \<and> list_all (\<lambda>f. absent (map_of b f) \<or> onEdge cf (the (map_of b f))) EDGE_URLS
     \<and> (absent (map_of b ''webhook_urls'')
        \<or> (case map_of b ''webhook_urls'' of Some (JObj kvs) \<Rightarrow> list_all (onEdge cf) (map snd kvs) | _ \<Rightarrow> False))
     \<and> (absent (map_of b ''billing_group_id'') \<or> map_of b ''billing_group_id'' = Some (JStr billing))"


section \<open>Detaching numbers at the cap\<close>

text \<open>Whether Telnyx answered 200 to clearing a number's connection and its profile.\<close>

type_synonym detach_world = "string \<Rightarrow> bool \<times> bool"

definition detachNumber ::
  "ms \<Rightarrow> bool \<Rightarrow> detach_world \<Rightarrow> string \<Rightarrow> owned_number \<Rightarrow> guard_store \<Rightarrow> bool \<times> guard_store" where
  "detachNumber now keyed w reason n s =
     (if \<not> keyed then (False, s)
      else let (voice, messaging) = w (on_id n); ok = voice \<and> messaging
           in (ok, if ok then s\<lparr>g_detached := (g_detached s)(on_id n := Some (now, reason))\<rparr> else s))"

fun detach_all ::
  "ms \<Rightarrow> bool \<Rightarrow> detach_world \<Rightarrow> owned_number list \<Rightarrow> nat \<Rightarrow> guard_store \<Rightarrow> nat \<times> guard_store" where
  "detach_all now keyed w [] k s = (k, s)"
| "detach_all now keyed w (n # ns) k s =
     (let (ok, s1) = detachNumber now keyed w ''monthly_cap'' n s
      in detach_all now keyed w ns (if ok then k + 1 else k) s1)"

definition enforceCap ::
  "ms \<Rightarrow> bool \<Rightarrow> detach_world \<Rightarrow> partition_view \<Rightarrow> guard_store \<Rightarrow> nat \<times> guard_store" where
  "enforceCap now keyed w v s =
     (let r = readTier now s
      in if tr_month_to_date r < tr_budget r then (0, s)
         else detach_all now keyed w
                (filter (\<lambda>n. \<not> (truthy (pv_robot v) \<and> on_connection n = pv_robot v)
                           \<and> (on_connection n \<noteq> None \<or> on_profile n \<noteq> None)) (pv_numbers v)) 0 s)"


section \<open>Dial, transfer and bridge\<close>

datatype dial_endpoint = CreateCall | TransferLeg string | BridgeLeg string

record dial_request =
  dq_caller :: guard_caller
  dq_lease :: "string option"
  dq_endpoint :: dial_endpoint
  dq_body :: "json_body option"
  dq_view :: partition_view

record call_shape =
  sh_newLegs :: int
  sh_cost :: rat
  sh_connection :: "string option"

text \<open>What Telnyx answers while a request is checked.\<close>

record call_world =
  cw_guard :: guard_world
  cw_sip :: sip_world
  cw_detach :: detach_world

fun all_allowed ::
  "ms \<Rightarrow> bool \<Rightarrow> sip_world \<Rightarrow> partition_view \<Rightarrow> json option list \<Rightarrow> guard_store \<Rightarrow> unit guarded" where
  "all_allowed now keyed w v [] s = (Inr (), s)"
| "all_allowed now keyed w v (t # ts) s =
     (case isAllowedCallTarget now keyed w v t s of
        (Inl e, s1) \<Rightarrow> (Inl e, s1)
      | (Inr ok, s1) \<Rightarrow> if ok then all_allowed now keyed w v ts s1
                         else (Inl (Refusal ''dial.to_not_owned''), s1))"

definition targets_of :: "json_body \<Rightarrow> json option list" where
  "targets_of b = (case map_of b ''to'' of Some (JArr ts) \<Rightarrow> map Some ts | t \<Rightarrow> [t])"

definition create_shape ::
  "guard_config \<Rightarrow> ms \<Rightarrow> call_world \<Rightarrow> partition_view \<Rightarrow> json_body \<Rightarrow> guard_store \<Rightarrow> call_shape guarded" where
  "create_shape cf now w v b s =
     (case map_of b ''connection_id'' of
        Some (JStr conn) \<Rightarrow>
          if conn \<notin> set (dialConnections v) then (Inl (Refusal ''dial.connection_not_nonprod''), s)
          else if \<not> isOwnedNumber v (map_of b ''from'') then (Inl (Refusal ''dial.from_not_owned''), s)
          else if targets_of b = [] then (Inl (Refusal ''dial.to_not_owned''), s)
          else case all_allowed now (gw_keyed (cw_guard w)) (cw_sip w) v (targets_of b) s of
                 (Inl e, s1) \<Rightarrow> (Inl e, s1)
               | (Inr _, s1) \<Rightarrow>
                   if \<not> bodyIsContained cf now b (pv_group v) s1 then (Inl (Refusal ''dial.field_refused''), s1)
                   else (Inr \<lparr>sh_newLegs = int (length (targets_of b)),
                              sh_cost = COST_dial * of_nat (length (targets_of b)),
                              sh_connection = Some conn\<rparr>, s1)
      | _ \<Rightarrow> (Inl (Refusal ''dial.connection_not_nonprod''), s))"

definition transfer_shape ::
  "guard_config \<Rightarrow> ms \<Rightarrow> call_world \<Rightarrow> partition_view \<Rightarrow> json_body \<Rightarrow> guard_store \<Rightarrow> call_shape guarded" where
  "transfer_shape cf now w v b s =
     (case isAllowedCallTarget now (gw_keyed (cw_guard w)) (cw_sip w) v (map_of b ''to'') s of
        (Inl e, s1) \<Rightarrow> (Inl e, s1)
      | (Inr ok, s1) \<Rightarrow>
          if \<not> ok then (Inl (Refusal ''dial.to_not_owned''), s1)
          else if map_of b ''from'' \<noteq> None \<and> \<not> isOwnedNumber v (map_of b ''from'')
          then (Inl (Refusal ''dial.from_not_owned''), s1)
          else if \<not> bodyIsContained cf now b (pv_group v) s1 then (Inl (Refusal ''dial.field_refused''), s1)
          else (Inr \<lparr>sh_newLegs = 1, sh_cost = COST_transfer, sh_connection = None\<rparr>, s1))"

definition bridge_shape ::
  "guard_config \<Rightarrow> ms \<Rightarrow> partition_view \<Rightarrow> json_body \<Rightarrow> guard_store \<Rightarrow> call_shape guarded" where
  "bridge_shape cf now v b s =
     (if \<not> (case map_of b ''call_control_id'' of Some (JStr i) \<Rightarrow> liveLeg now i s \<noteq> None | _ \<Rightarrow> False)
      then (Inl (Refusal ''dial.leg_not_registered''), s)
      else if \<not> bodyIsContained cf now b (pv_group v) s then (Inl (Refusal ''dial.field_refused''), s)
      else (Inr \<lparr>sh_newLegs = 0, sh_cost = 0, sh_connection = None\<rparr>, s))"

definition shapeOf ::
  "guard_config \<Rightarrow> ms \<Rightarrow> call_world \<Rightarrow> partition_view \<Rightarrow> dial_endpoint \<Rightarrow> json_body \<Rightarrow> guard_store
     \<Rightarrow> call_shape guarded" where
  "shapeOf cf now w v ep b s =
     (case ep of
        CreateCall \<Rightarrow> create_shape cf now w v b s
      | TransferLeg i \<Rightarrow>
          if liveLeg now i s = None then (Inl (Refusal ''dial.leg_not_registered''), s)
          else transfer_shape cf now w v b s
      | BridgeLeg i \<Rightarrow>
          if liveLeg now i s = None then (Inl (Refusal ''dial.leg_not_registered''), s)
          else bridge_shape cf now v b s)"

text \<open>\<open>handleDial\<close> up to its counters: the lease, the shape and admission.\<close>

definition dial_check ::
  "guard_config \<Rightarrow> ms \<Rightarrow> call_world \<Rightarrow> dial_request \<Rightarrow> guard_store \<Rightarrow> (call_shape \<times> admitted) guarded" where
  "dial_check cf now w rq s =
     (case dq_body rq of
        None \<Rightarrow> (Inl (Refusal ''request.body_invalid''), s)
      | Some b \<Rightarrow>
        case requireDialLease now (dq_lease rq) (dq_caller rq) s of
          Inl e \<Rightarrow> (Inl e, s)
        | Inr l \<Rightarrow>
          case shapeOf cf now w (dq_view rq) (dq_endpoint rq) b s of
            (Inl e, s1) \<Rightarrow> (Inl e, s1)
          | (Inr sh, s1) \<Rightarrow>
            case admitPaid cf now (cw_guard w) (pv_production (dq_view rq)) (sh_newLegs sh)
                   (Some (scenario l)) s1 of
              (Inl e, s2) \<Rightarrow> (Inl e, s2)
            | (Inr ad, s2) \<Rightarrow> (Inr (sh, ad), s2))"

record flight =
  fl_shape :: call_shape
  fl_admitted :: admitted
  fl_day :: string
  fl_hour :: string
  fl_robot :: "string option"

text \<open>The counters and the charge, taken before the request is sent.\<close>

definition dial_take ::
  "ms \<Rightarrow> partition_view \<Rightarrow> call_shape \<Rightarrow> admitted \<Rightarrow> guard_store \<Rightarrow> flight guarded" where
  "dial_take now v sh ad s =
     (let day = dayOf now; hour = hourOf now;
          fl = \<lparr>fl_shape = sh, fl_admitted = ad, fl_day = day, fl_hour = hour, fl_robot = pv_robot v\<rparr>;
          charged = (\<lambda>s'. if sh_cost sh > 0 then charge now (sh_cost sh) Usage s' else s')
      in if sh_newLegs sh > 0
         then let (ok, s1) = tryTake ''dials'' day (sh_newLegs sh) DIALS_PER_DAY s
              in if \<not> ok then (Inl (Refusal ''budget.dials_day''), s1)
                 else let (ok', s2) = tryTake ''dials-hour'' hour (sh_newLegs sh) DIALS_PER_HOUR s1
                      in if \<not> ok' then (Inl (Refusal ''budget.dials_hour''), giveBack ''dials'' day (sh_newLegs sh) s2)
                         else (Inr fl, charged s2)
         else (Inr fl, charged s))"

definition CONCURRENCY_CODES :: "string list" where
  "CONCURRENCY_CODES = [''90041'', ''90042'', ''90043'']"
definition DIAL_RATE_CODE :: string where "DIAL_RATE_CODE = ''90103''"
definition ACCOUNT_CAP_CODE :: string where "ACCOUNT_CAP_CODE = ''10039''"

text \<open>Telnyx's answer to a forwarded request: its status, the codes of its errors in order and
  the call id its data names.\<close>

record telnyx_reply =
  rp_status :: int
  rp_codes :: "string list"
  rp_ccid :: "string option"

definition isOk :: "telnyx_reply \<Rightarrow> bool" where
  "isOk r \<longleftrightarrow> 200 \<le> rp_status r \<and> rp_status r \<le> 299"

definition isDefiniteFailure :: "telnyx_reply \<Rightarrow> bool" where
  "isDefiniteFailure r \<longleftrightarrow> 400 \<le> rp_status r \<and> rp_status r \<le> 499"

definition noteLimitRefusal ::
  "guard_config \<Rightarrow> ms \<Rightarrow> telnyx_reply \<Rightarrow> call_shape \<Rightarrow> admitted \<Rightarrow> guard_store \<Rightarrow> guard_store" where
  "noteLimitRefusal cf now r sh ad s =
     (let conc = List.find (\<lambda>c. c \<in> set CONCURRENCY_CODES) (rp_codes r);
          rate = ((rp_status r = 429 \<and> DIAL_RATE_CODE \<in> set (rp_codes r))
                  \<or> ACCOUNT_CAP_CODE \<in> set (rp_codes r))
      in if conc = None \<and> \<not> rate then s
         else let s1 = (case conc of
                          None \<Rightarrow> s
                        | Some c \<Rightarrow>
                            recordCeiling now
                              (if ad_production ad = Some ProdIdle \<and> ad_liveLegs ad \<noteq> None
                               then Some (the (ad_liveLegs ad) + sh_newLegs sh - 1) else None)
                              (''telnyx-'' @ c) s)
              in recordSignal cf now
                   (if conc \<noteq> None then ''telnyx-concurrency-refusal'' else ''telnyx-dial-rate-refusal'')
                   None ''guard'' False s1)"

text \<open>From Telnyx's answer on. A request that did not complete throws, and keeps what was taken.\<close>

definition dial_reply ::
  "guard_config \<Rightarrow> ms \<Rightarrow> detach_world \<Rightarrow> bool \<Rightarrow> partition_view \<Rightarrow> flight \<Rightarrow> telnyx_reply option
     \<Rightarrow> guard_store \<Rightarrow> int guarded" where
  "dial_reply cf now dw keyed v fl reply s =
     (case reply of
        None \<Rightarrow> (Inl Failed, s)
      | Some r \<Rightarrow>
          let sh = fl_shape fl;
              s1 = noteLimitRefusal cf now r sh (fl_admitted fl) s;
              s2 = (if isDefiniteFailure r
                    then let b = (if sh_newLegs sh > 0
                                  then giveBack ''dials-hour'' (fl_hour fl) (sh_newLegs sh)
                                         (giveBack ''dials'' (fl_day fl) (sh_newLegs sh) s1)
                                  else s1)
                         in if sh_cost sh > 0 then refund now (sh_cost sh) b else b
                    else s1);
              s3 = (if isOk r \<and> truthy (sh_connection sh) \<and> truthy (rp_ccid r)
                    then snd (registerLeg now (the (rp_ccid r)) (the (sh_connection sh))
                                (if sh_connection sh = fl_robot fl then ViaRobot else ViaVoice) s2)
                    else s2)
          in (Inr (rp_status r), snd (enforceCap now keyed dw v s3)))"


section \<open>Texts\<close>

definition MMS_PARTS :: nat where "MMS_PARTS = 4"

definition messageCostUsd :: "json_body \<Rightarrow> rat" where
  "messageCostUsd b =
     (let media = (case map_of b ''media_urls'' of Some (JArr us) \<Rightarrow> us \<noteq> [] | _ \<Rightarrow> False);
          body_text = (case map_of b ''text'' of Some (JStr t) \<Rightarrow> t | _ \<Rightarrow> [])
      in of_nat (if media then MMS_PARTS else smsParts (map of_char body_text)) * COST_textPart)"

text \<open>The sender's own profile, of the last listed number with that address, and the body's.\<close>

definition message_profiles :: "partition_view \<Rightarrow> json_body \<Rightarrow> json list" where
  "message_profiles v b =
     (case map_of b ''from'' of
        Some (JStr e) \<Rightarrow>
          (case map_of (rev (map (\<lambda>n. (on_e164 n, n)) (pv_numbers v))) e of
             Some n \<Rightarrow> (case on_profile n of Some p \<Rightarrow> [JStr p] | None \<Rightarrow> [])
           | None \<Rightarrow> [])
      | _ \<Rightarrow> [])
     @ (if absent (map_of b ''messaging_profile_id'') then [] else [the (map_of b ''messaging_profile_id'')])"

definition message_rules ::
  "guard_config \<Rightarrow> ms \<Rightarrow> partition_view \<Rightarrow> json_body \<Rightarrow> guard_store \<Rightarrow> guard_error option" where
  "message_rules cf now v b s =
     (if \<not> isOwnedNumber v (map_of b ''from'') then Some (Refusal ''message.from_not_owned'')
      else if targets_of b = [] \<or> \<not> list_all (isOwnedNumber v) (targets_of b)
      then Some (Refusal ''message.to_not_owned'')
      else if message_profiles v b = []
              \<or> \<not> list_all (\<lambda>p. case p of JStr i \<Rightarrow> i \<in> set (pv_profiles v) | _ \<Rightarrow> False) (message_profiles v b)
      then Some (Refusal ''message.profile_not_nonprod'')
      else if \<not> list_all (\<lambda>f. absent (map_of b f) \<or> onEdge cf (the (map_of b f)))
                 [''webhook_url'', ''webhook_failover_url'']
      then Some (Refusal ''message.field_refused'')
      else case requirePaidLanesOpen cf now s of Some e \<Rightarrow> Some e
           | None \<Rightarrow> tier_rule now (map_option scenario (liveLease now s)) s)"

definition text_take ::
  "guard_config \<Rightarrow> ms \<Rightarrow> call_world \<Rightarrow> partition_view \<Rightarrow> json_body option \<Rightarrow> guard_store
     \<Rightarrow> (nat \<times> rat \<times> string \<times> string) guarded" where
  "text_take cf now w v body s =
     (case body of
        None \<Rightarrow> (Inl (Refusal ''request.body_invalid''), s)
      | Some b \<Rightarrow>
        case message_rules cf now v b s of
          Some e \<Rightarrow> (Inl e, s)
        | None \<Rightarrow>
          case requireAboveFloor now (gw_keyed (cw_guard w)) (gw_balance (cw_guard w)) s of
            (Inl e, s1) \<Rightarrow> (Inl e, s1)
          | (Inr _, s1) \<Rightarrow>
            let n = length (targets_of b); day = dayOf now; month = monthOf now;
                (ok, s2) = tryTake ''texts'' day (int n) TEXTS_PER_DAY s1
            in if \<not> ok then (Inl (Refusal ''budget.texts_day''), s2)
               else let (ok', s3) = tryTake ''texts-month'' month (int n) TEXTS_PER_MONTH s2
                    in if \<not> ok' then (Inl (Refusal ''budget.texts_month''), giveBack ''texts'' day (int n) s3)
                       else let cost = messageCostUsd b * of_nat n
                            in (Inr (n, cost, day, month), charge now cost Usage s3))"

definition text_reply ::
  "ms \<Rightarrow> detach_world \<Rightarrow> bool \<Rightarrow> partition_view \<Rightarrow> nat \<times> rat \<times> string \<times> string \<Rightarrow> telnyx_reply option
     \<Rightarrow> guard_store \<Rightarrow> int guarded" where
  "text_reply now dw keyed v taken reply s =
     (case reply of
        None \<Rightarrow> (Inl Failed, s)
      | Some r \<Rightarrow>
          let (n, cost, day, month) = taken;
              s1 = (if isDefiniteFailure r
                    then refund now cost (giveBack ''texts-month'' month (int n) (giveBack ''texts'' day (int n) s))
                    else s)
          in (Inr (rp_status r), snd (enforceCap now keyed dw v s1)))"


section \<open>Commands on a leg\<close>

text \<open>The checks of \<open>handleLegCommand\<close> for an action on a call id; the body is nothing when none
  was sent, and \<open>invalid\<close> says that one was sent that is no object.\<close>

definition leg_command_check ::
  "guard_config \<Rightarrow> ms \<Rightarrow> partition_view \<Rightarrow> string \<Rightarrow> string \<Rightarrow> json_body option \<Rightarrow> bool \<Rightarrow> guard_store
     \<Rightarrow> guard_error option" where
  "leg_command_check cf now v i action body invalid s =
     (if liveLeg now i s = None then Some (Refusal ''leg.not_registered'')
      else if invalid then Some (Refusal ''request.body_invalid'')
      else let ending = (action \<in> {''hangup'', ''reject''});
               paid = (if ending then None
                       else case requirePaidLanesOpen cf now s of
                              Some e \<Rightarrow> Some e
                            | None \<Rightarrow> if tr_tier (readTier now s) = Red
                                      then Some (Refusal ''budget.tier_red'') else None)
           in case paid of
                Some e \<Rightarrow> Some e
              | None \<Rightarrow> if body \<noteq> None \<and> \<not> bodyIsContained cf now (the body) (pv_group v) s
                        then Some (Refusal ''leg.field_refused'') else None)"

definition leg_command_reply ::
  "ms \<Rightarrow> string \<Rightarrow> string \<Rightarrow> telnyx_reply option \<Rightarrow> guard_store \<Rightarrow> int guarded" where
  "leg_command_reply now i action reply s =
     (case reply of
        None \<Rightarrow> (Inl Failed, s)
      | Some r \<Rightarrow> (Inr (rp_status r),
                   if action \<in> {''hangup'', ''reject''} \<and> isOk r then markEnded now i s else s))"

end
