(* ===== verification/Guard_Object.thy ===== *)
theory Guard_Object
  imports Guard_Calls
begin

text \<open>
  The guard's own routes (\<open>tools/guard/src/guard.ts\<close>): the lease and its preemption alarm, the
  legs the edge registers, corroborated halts and level evidence; and the measurements filed
  over \<open>/admin\<close> (\<open>admin.ts\<close>).
\<close>

section \<open>Handlers\<close>

text \<open>\<open>POST /lease\<close>: a grant arms the preemption poll.\<close>

definition lease_post ::
  "ms \<Rightarrow> string \<Rightarrow> string option \<Rightarrow> guard_caller \<Rightarrow> bool \<Rightarrow> guard_store \<Rightarrow> lease_record guarded" where
  "lease_post now uuid scen who noDials s =
     (case acquireLease now uuid scen who noDials s of
        (Inl e, s1) \<Rightarrow> (Inl e, s1)
      | (Inr l, s1) \<Rightarrow> (Inr l, s1\<lparr>g_alarm := Some (now + PREEMPT_POLL_MS)\<rparr>))"

text \<open>The status Telnyx gives a hangup of each call id, 0 for a request that threw.\<close>

type_synonym hang_world = "string \<Rightarrow> int"

fun hang_legs :: "ms \<Rightarrow> hang_world \<Rightarrow> leg_entry list \<Rightarrow> nat \<Rightarrow> guard_store \<Rightarrow> nat \<times> guard_store" where
  "hang_legs now w [] left s = (left, s)"
| "hang_legs now w (e # es) left s =
     (let status = w (le_ccid e)
      in if (200 \<le> status \<and> status \<le> 299) \<or> status = 404 \<or> status = 422
         then hang_legs now w es left (markEnded now (le_ccid e) s)
         else hang_legs now w es (left + 1) s)"

definition hangUpTestLegs :: "ms \<Rightarrow> hang_world \<Rightarrow> guard_store \<Rightarrow> nat \<times> guard_store" where
  "hangUpTestLegs now w s = hang_legs now w (candidateLiveLegs now s) 0 s"

text \<open>
  The alarm handler. The firing alarm is no longer set; \<open>production\<close> is what the poll found,
  \<open>ProdUnknown\<close> where reading the partition or the connections threw.
\<close>

definition guard_alarm ::
  "ms \<Rightarrow> bool \<Rightarrow> production_calls \<Rightarrow> hang_world \<Rightarrow> guard_store \<Rightarrow> guard_store" where
  "guard_alarm now keyed production w s =
     (let s0 = s\<lparr>g_alarm := None\<rparr>
      in case liveLease now s0 of
           None \<Rightarrow> s0
         | Some l \<Rightarrow>
             if \<not> keyed then s0
             else if production = ProdAbsent then s0
             else if production = ProdLive
             then let (left, s1) = hangUpTestLegs now w s0
                  in if left = 0 then markPreempted now (lease_id l) s1
                     else s1\<lparr>g_alarm := Some (now + PREEMPT_POLL_MS)\<rparr>
             else s0\<lparr>g_alarm := Some (now + PREEMPT_POLL_MS)\<rparr>)"

text \<open>The body of \<open>POST /legs\<close> and \<open>POST /reject\<close>: a leg on one of the partition's
  connections, named by the connection's own kind.\<close>

definition via_connection :: "partition_view \<Rightarrow> json option \<Rightarrow> (leg_via \<times> string option) option" where
  "via_connection v t =
     (if t = Some (JStr ''voice'') then Some (ViaVoice, pv_voice v)
      else if t = Some (JStr ''robot'') then Some (ViaRobot, pv_robot v)
      else if t = Some (JStr ''webrtc'') then Some (ViaWebrtc, pv_webrtc v)
      else None)"

definition nonprodLeg :: "partition_view \<Rightarrow> json_body \<Rightarrow> guard_error + (string \<times> string \<times> leg_via)" where
  "nonprodLeg v b =
     (case (map_of b ''call_control_id'', map_of b ''connection_id'') of
        (Some (JStr i), Some (JStr c)) \<Rightarrow>
          if i = [] then Inl (Refusal ''request.body_invalid'')
          else if Some c \<notin> {pv_voice v, pv_robot v, pv_webrtc v}
          then Inl (Refusal ''legs.connection_not_nonprod'')
          else (case via_connection v (map_of b ''via'') of
                  Some (kind, expected) \<Rightarrow>
                    if \<not> truthy expected \<or> expected \<noteq> Some c then Inl (Refusal ''legs.via_mismatch'')
                    else Inr (i, c, kind)
                | None \<Rightarrow> Inl (Refusal ''legs.via_mismatch''))
      | _ \<Rightarrow> Inl (Refusal ''request.body_invalid''))"

definition legs_post :: "ms \<Rightarrow> partition_view \<Rightarrow> json_body \<Rightarrow> guard_store \<Rightarrow> leg_entry guarded" where
  "legs_post now v b s =
     (case nonprodLeg v b of
        Inl e \<Rightarrow> (Inl e, s)
      | Inr (i, c, kind) \<Rightarrow> let (e, s1) = registerLeg now i c kind s in (Inr e, s1))"

definition HALT_CORROBORATIONS :: "string list" where
  "HALT_CORROBORATIONS = [''balance'', ''signature'', ''account_refused'']"

definition str_field :: "json_body \<Rightarrow> string \<Rightarrow> string" where
  "str_field b f = (case map_of b f of Some (JStr t) \<Rightarrow> t | _ \<Rightarrow> [])"

definition halt_post :: "guard_config \<Rightarrow> ms \<Rightarrow> json_body \<Rightarrow> guard_store \<Rightarrow> (ms option \<times> bool) guarded" where
  "halt_post cf now b s =
     (let sig = js_trim (str_field b ''signal'');
          notice = (if str_field b ''notice_id'' = [] then None else Some (str_field b ''notice_id''))
      in if sig = [] \<or> length sig > 200 then (Inl (Refusal ''request.body_invalid''), s)
         else if (case map_of b ''corroborated_by'' of
                    Some (JStr c) \<Rightarrow> c \<notin> set HALT_CORROBORATIONS | _ \<Rightarrow> True)
         then (Inl (Refusal ''request.body_invalid''), s)
         else let s1 = recordSignal cf now sig notice (str_field b ''corroborated_by'')
                         (map_of b ''late'' = Some (JBool True)) s
              in (Inr (signalSummary cf now s1), s1))"

text \<open>\<open>POST /evidence/level\<close>; \<open>at_ok\<close> is whether the body's \<open>at\<close> reads as a date.\<close>

definition evidence_level :: "ms \<Rightarrow> json_body \<Rightarrow> bool \<Rightarrow> guard_store \<Rightarrow> bool guarded" where
  "evidence_level now b at_ok s =
     (case map_of b ''announcement_ms'' of
        Some (JNum n) \<Rightarrow>
          if n < 0 \<or> \<not> at_ok then (Inl (Refusal ''request.body_invalid''), s)
          else if n = 0 then (Inr False, s)
          else (Inr True, recordLevelEvidence now s)
      | _ \<Rightarrow> (Inl (Refusal ''request.body_invalid''), s))"


section \<open>Filed measurements\<close>

definition body_invalid :: "guard_store \<Rightarrow> unit guarded" where
  "body_invalid s = (Inl (Refusal ''request.body_invalid''), s)"

text \<open>\<open>count\<close>: a whole number from 0 to \<open>m\<close>; and \<open>measuredAt\<close>, never later than now.
  \<open>parse\<close> stands for \<open>Date.parse\<close>.\<close>

definition count_of :: "json option \<Rightarrow> int \<Rightarrow> int option" where
  "count_of v m = (case v of
     Some (JNum n) \<Rightarrow> if of_int \<lfloor>n\<rfloor> = n \<and> 0 \<le> n \<and> n \<le> of_int m then Some \<lfloor>n\<rfloor> else None
   | _ \<Rightarrow> None)"

definition measuredAt :: "(string \<Rightarrow> ms option) \<Rightarrow> ms \<Rightarrow> json option \<Rightarrow> ms option" where
  "measuredAt parse now v = (case v of
     None \<Rightarrow> Some now
   | Some (JStr t) \<Rightarrow> map_option (\<lambda>d. min d now) (parse t)
   | _ \<Rightarrow> None)"

definition ledger_month :: "string \<Rightarrow> bool" where
  "ledger_month m \<longleftrightarrow> (case m of
     [a, b, c, d, h, e, f] \<Rightarrow> list_all is_digit [a, b, c, d, e, f] \<and> h = CHR ''-''
   | _ \<Rightarrow> False)"

definition admin_file ::
  "(string \<Rightarrow> ms option) \<Rightarrow> ms \<Rightarrow> string \<Rightarrow> json_body \<Rightarrow> guard_store \<Rightarrow> unit guarded" where
  "admin_file parse now path b s =
     (let at_ms = measuredAt parse now (map_of b ''measured_at'')
      in if path = ''/reserve'' then
           (case (count_of (map_of b ''legs'') 1000, at_ms) of
              (Some n, Some t) \<Rightarrow> (Inr (), s\<lparr>g_reserve := Some \<lparr>rv_legs = n, rv_measured = t\<rparr>\<rparr>)
            | _ \<Rightarrow> body_invalid s)
         else if path = ''/ratios'' then
           (case count_of (map_of b ''calls'') 1000000 of
              None \<Rightarrow> body_invalid s
            | Some c \<Rightarrow>
                (case (count_of (map_of b ''abandoned'') c, count_of (map_of b ''short'') c, at_ms) of
                   (Some a, Some h, Some t) \<Rightarrow>
                     (Inr (), s\<lparr>g_ratios := Some \<lparr>rt_calls = c, rt_abandoned = a, rt_short = h, rt_measured = t\<rparr>\<rparr>)
                 | _ \<Rightarrow> body_invalid s))
         else if path = ''/concurrency-history'' then
           (case (count_of (map_of b ''peak_calls'') 10000, at_ms) of
              (Some n, Some t) \<Rightarrow> (Inr (), s\<lparr>g_history := Some \<lparr>hr_peak = n, hr_measured = t\<rparr>\<rparr>)
            | _ \<Rightarrow> body_invalid s)
         else if path = ''/account-rate'' then
           (case (count_of (map_of b ''peak_hour_dials'') 100000, count_of (map_of b ''peak_day_dials'') 1000000, at_ms) of
              (Some h, Some d, Some t) \<Rightarrow>
                if h > d then body_invalid s
                else (Inr (), s\<lparr>g_rate := Some \<lparr>ar_hour = h, ar_day = d, ar_measured = t\<rparr>\<rparr>)
            | _ \<Rightarrow> body_invalid s)
         else if path = ''/window'' then
           (case (count_of (map_of b ''start_hour'') 23, at_ms) of
              (Some n, Some t) \<Rightarrow> (Inr (), s\<lparr>g_window := Some \<lparr>wd_start = n, wd_measured = t\<rparr>\<rparr>)
            | _ \<Rightarrow> body_invalid s)
         else if path = ''/ledger'' then
           (case (map_of b ''month'', map_of b ''usage_usd'') of
              (Some (JStr m), Some (JNum u)) \<Rightarrow>
                if ledger_month m \<and> 0 \<le> u then (Inr (), reconcile m u s) else body_invalid s
            | _ \<Rightarrow> body_invalid s)
         else (Inl (Refusal ''route.unknown''), s))"

end
