(* ===== verification/Guard_System.thy ===== *)
theory Guard_System
  imports Guard_Object
begin

text \<open>
  The guard as a system: requests of several callers interleave in the one Durable Object at
  every wait for Telnyx, so a dial is three steps (admitted, taken, answered) with any others
  between them. \<open>gstep\<close> is one of these steps; a limit probe, an order's charge and the counters
  of the other vendors are steps of their own. Reachable states start from an empty store.
\<close>

text \<open>
  What the guard stores, the clock, the dials that passed admission and have not taken their
  counters, the dials whose request is under way, and three records the guard does not keep:
  every lease granted, the ids of those released or preempted, and the dials sent that Telnyx has
  not definitely refused, as their day, hour and number of legs.
\<close>

record guard_sys =
  y_now :: ms
  y_store :: guard_store
  y_checked :: "(partition_view \<times> call_shape \<times> admitted) list"
  y_air :: "(partition_view \<times> flight) list"
  y_grants :: "lease_record list"
  y_ended :: "string list"
  y_out :: "(string \<times> string \<times> int) list"

definition flight_entry :: "flight \<Rightarrow> string \<times> string \<times> int" where
  "flight_entry fl = (fl_day fl, fl_hour fl, sh_newLegs (fl_shape fl))"

definition ended_ids :: "guard_store \<Rightarrow> string list" where
  "ended_ids s = (case g_lease s of None \<Rightarrow> []
     | Some l \<Rightarrow> if set_ms (released_at l) \<or> set_ms (preempted_at l) then [lease_id l] else [])"

inductive gstep :: "guard_config \<Rightarrow> guard_sys \<Rightarrow> guard_sys \<Rightarrow> bool" for cf where
  g_tick: "y_now y \<le> t \<Longrightarrow> gstep cf y (y\<lparr>y_now := t\<rparr>)"
| g_grant: "lease_post (y_now y) uuid scen who nd (y_store y) = (Inr l, s') \<Longrightarrow>
     gstep cf y (y\<lparr>y_store := s', y_grants := y_grants y @ [l]\<rparr>)"
| g_release: "releaseLease (y_now y) i (y_store y) = (r, s') \<Longrightarrow>
     gstep cf y (y\<lparr>y_store := s', y_ended := ended_ids s' @ y_ended y\<rparr>)"
| g_alarm: "guard_alarm (y_now y) keyed p hw (y_store y) = s' \<Longrightarrow>
     gstep cf y (y\<lparr>y_store := s', y_ended := ended_ids s' @ y_ended y\<rparr>)"
| g_note: "noteActivity (y_now y) k (y_store y) = s' \<Longrightarrow> gstep cf y (y\<lparr>y_store := s'\<rparr>)"
| g_refused: "dial_check cf (y_now y) w rq (y_store y) = (Inl e, s') \<Longrightarrow> gstep cf y (y\<lparr>y_store := s'\<rparr>)"
| g_admitted: "dial_check cf (y_now y) w rq (y_store y) = (Inr (sh, ad), s') \<Longrightarrow>
     gstep cf y (y\<lparr>y_store := s', y_checked := (dq_view rq, sh, ad) # y_checked y\<rparr>)"
| g_untaken: "(v, sh, ad) \<in> set (y_checked y) \<Longrightarrow> dial_take (y_now y) v sh ad (y_store y) = (Inl e, s') \<Longrightarrow>
     gstep cf y (y\<lparr>y_store := s', y_checked := remove1 (v, sh, ad) (y_checked y)\<rparr>)"
| g_taken: "(v, sh, ad) \<in> set (y_checked y) \<Longrightarrow> dial_take (y_now y) v sh ad (y_store y) = (Inr fl, s') \<Longrightarrow>
     gstep cf y (y\<lparr>y_store := s', y_checked := remove1 (v, sh, ad) (y_checked y),
                   y_air := (v, fl) # y_air y, y_out := flight_entry fl # y_out y\<rparr>)"
| g_answered: "(v, fl) \<in> set (y_air y) \<Longrightarrow>
     dial_reply cf (y_now y) dw keyed v fl reply (y_store y) = (r, s') \<Longrightarrow>
     gstep cf y (y\<lparr>y_store := s', y_air := remove1 (v, fl) (y_air y),
                   y_out := (if reply \<noteq> None \<and> isDefiniteFailure (the reply)
                             then remove1 (flight_entry fl) (y_out y) else y_out y)\<rparr>)"
| g_text: "text_take cf (y_now y) w v body (y_store y) = (r, s') \<Longrightarrow> gstep cf y (y\<lparr>y_store := s'\<rparr>)"
| g_text_answered: "text_reply (y_now y) dw keyed v taken reply (y_store y) = (r, s') \<Longrightarrow>
     gstep cf y (y\<lparr>y_store := s'\<rparr>)"
| g_command: "leg_command_reply (y_now y) i action reply (y_store y) = (r, s') \<Longrightarrow>
     gstep cf y (y\<lparr>y_store := s'\<rparr>)"
| g_legs: "legs_post (y_now y) v b (y_store y) = (r, s') \<Longrightarrow> gstep cf y (y\<lparr>y_store := s'\<rparr>)"
| g_halt: "halt_post cf (y_now y) b (y_store y) = (r, s') \<Longrightarrow> gstep cf y (y\<lparr>y_store := s'\<rparr>)"
| g_evidence: "evidence_level (y_now y) b k (y_store y) = (r, s') \<Longrightarrow> gstep cf y (y\<lparr>y_store := s'\<rparr>)"
| g_file: "admin_file parse (y_now y) path b (y_store y) = (r, s') \<Longrightarrow> gstep cf y (y\<lparr>y_store := s'\<rparr>)"
| g_probe: "gstep cf y (y\<lparr>y_store := (y_store y)\<lparr>g_validation := Some vr\<rparr>\<rparr>)"
| g_order: "gstep cf y (y\<lparr>y_store := charge (y_now y) COST_numberUpfront OneTime (y_store y)\<rparr>)"
| g_count: "name \<notin> {''dials'', ''dials-hour''} \<Longrightarrow> 0 \<le> n \<Longrightarrow>
     gstep cf y (y\<lparr>y_store := put_count name period n (y_store y)\<rparr>)"
| g_held: "gstep cf y (y\<lparr>y_store := noteHeld (y_now y) n k (y_store y)\<rparr>)"
| g_balance: "readBalance (y_now y) keyed fr reply (y_store y) = (r, s') \<Longrightarrow> gstep cf y (y\<lparr>y_store := s'\<rparr>)"
| g_prune: "gstep cf y (y\<lparr>y_store := snd (pruneLegs (y_now y) (y_store y))\<rparr>)"

definition empty_store :: guard_store where
  "empty_store = \<lparr>g_lease = None, g_counts = (\<lambda>_ _. None), g_months = (\<lambda>_. None), g_days = (\<lambda>_. None),
     g_legs = [], g_validation = None, g_history = None, g_ceilings = [], g_signals = None,
     g_reading = None, g_samples = [], g_reserve = None, g_ratios = None, g_window = None,
     g_rate = None, g_creds = (\<lambda>_. None), g_sips = (\<lambda>_. None), g_detached = (\<lambda>_. None), g_alarm = None\<rparr>"

definition started :: "ms \<Rightarrow> guard_sys" where
  "started t = \<lparr>y_now = t, y_store = empty_store, y_checked = [], y_air = [], y_grants = [], y_ended = [], y_out = []\<rparr>"

abbreviation gruns :: "guard_config \<Rightarrow> guard_sys \<Rightarrow> guard_sys \<Rightarrow> bool" where
  "gruns cf \<equiv> (gstep cf)\<^sup>*\<^sup>*"

inductive_cases gstepE: "gstep cf y y'"

end
