(* ===== verification/Guard_Laws.thy ===== *)
theory Guard_Laws
  imports Guard_System
begin

text \<open>
  What every composed operation of the guard inherits from the few operations that write the
  store. A law is a reflexive and transitive relation between a store and what a write makes of
  it. A \<open>credential_law\<close> is kept when a looked-up credential is remembered, which is all that
  reading a call's shape may write; a \<open>store_law\<close> is kept by every other write but those of
  counters and lease, and so by admission and the handlers; a \<open>counting_law\<close> also by counters.
  The laws are interpreted where the writes' effects are known: nothing but credentials changes,
  the lease is left alone, the counters are left alone, a well-typed store stays well-typed.
\<close>

section \<open>The interface\<close>

locale credential_law =
  fixes R :: "guard_store \<Rightarrow> guard_store \<Rightarrow> bool"
  assumes same: "R s s"
    and through: "R s t \<Longrightarrow> R t u \<Longrightarrow> R s u"
    and on_credential: "R s (rememberCredential i c s)"
begin

lemma law_sip: "connectionOfSipUser now keyed w u s = (r, t) \<Longrightarrow> R s t"
  by (auto simp: connectionOfSipUser_def Let_def same on_credential split: option.splits prod.splits if_splits)

lemma law_target: "isAllowedCallTarget now keyed w v x s = (r, t) \<Longrightarrow> R s t"
  by (auto simp: isAllowedCallTarget_def same split: option.splits prod.splits sum.splits if_splits dest: law_sip)

lemma law_targets: "all_allowed now keyed w v ts s = (r, t) \<Longrightarrow> R s t"
proof (induction ts arbitrary: s)
  case (Cons x xs)
  then show ?case
    by (auto split: prod.splits sum.splits if_splits intro: through dest: law_target)
qed (simp add: same)

lemma law_create: "create_shape cf now w v b s = (r, t) \<Longrightarrow> R s t"
  by (auto simp: create_shape_def same split: option.splits json.splits prod.splits sum.splits if_splits
      dest: law_targets)

lemma law_transfer: "transfer_shape cf now w v b s = (r, t) \<Longrightarrow> R s t"
  by (auto simp: transfer_shape_def same split: prod.splits sum.splits if_splits dest: law_target)

lemma law_shape: "shapeOf cf now w v ep b s = (r, t) \<Longrightarrow> R s t"
  by (auto simp: shapeOf_def bridge_shape_def same split: dial_endpoint.splits if_splits
      dest: law_create law_transfer)

end

locale store_law = credential_law +
  assumes on_ended: "R s (markEnded now i s)"
    and on_balance: "readBalance now keyed fr reply s = (r, t) \<Longrightarrow> R s t"
    and on_signal: "R s (recordSignal cf now sig notice source late s)"
    and on_ceiling: "R s (recordCeiling now v src s)"
    and on_detach: "R s (s\<lparr>g_detached := d\<rparr>)"
    and on_register: "R s (snd (registerLeg now i conn via s))"
    and on_charge: "0 \<le> amount \<Longrightarrow> R s (charge now amount kind s)"
    and on_refund: "R s (refund now amount s)"
begin

lemma law_floor: "requireAboveFloor now keyed reply s = (r, t) \<Longrightarrow> R s t"
  by (auto simp: requireAboveFloor_def split: prod.splits sum.splits guard_error.splits if_splits dest: on_balance)

lemma law_count_legs: "count_legs now keyed w es live s = (r, t) \<Longrightarrow> R s t"
proof (induction es arbitrary: live s)
  case (Cons e es)
  then show ?case
    by (auto simp: same split: if_splits option.splits prod.splits intro: through [OF on_ended Cons.IH])
qed (simp add: same)

lemma law_live: "liveLegCount now keyed w s = (r, t) \<Longrightarrow> R s t"
  unfolding liveLegCount_def by (rule law_count_legs)

lemma law_admit: "admitPaid cf now w ids n scen s = (r, t) \<Longrightarrow> R s t"
  by (auto simp: admitPaid_def same split: option.splits prod.splits sum.splits if_splits production_calls.splits
      intro: through dest: law_floor law_live)

lemma law_check: "dial_check cf now w rq s = (r, t) \<Longrightarrow> R s t"
  by (auto simp: dial_check_def same split: option.splits sum.splits prod.splits intro: through
      dest!: law_shape law_admit)

lemma law_limit_refusal: "R s (noteLimitRefusal cf now r sh ad s)"
  by (auto simp: noteLimitRefusal_def Let_def same split: option.splits intro: through on_signal on_ceiling)

lemma law_detach: "detachNumber now keyed w reason n s = (ok, t) \<Longrightarrow> R s t"
  by (auto simp: detachNumber_def Let_def same on_detach split: if_splits prod.splits)

lemma law_detach_all: "R s (snd (detach_all now keyed w ns k s))"
proof (induction ns arbitrary: k s)
  case (Cons n ns)
  show ?case
    by (cases "detachNumber now keyed w ''monthly_cap'' n s")
      (auto intro: through [OF law_detach Cons.IH])
qed (simp add: same)

lemma law_cap: "R s (snd (enforceCap now keyed w v s))"
  by (simp add: enforceCap_def Let_def same law_detach_all)

lemma law_command: "leg_command_reply now i action reply s = (r, t) \<Longrightarrow> R s t"
  by (auto simp: leg_command_reply_def same on_ended split: option.splits if_splits)

lemma law_register: "registerLeg now i conn via s = (e, t) \<Longrightarrow> R s t"
  using on_register [of s now i conn via] by simp

lemma law_legs: "legs_post now v b s = (r, t) \<Longrightarrow> R s t"
  by (auto simp: legs_post_def same split: sum.splits prod.splits dest: law_register)

lemma law_halt: "halt_post cf now b s = (r, t) \<Longrightarrow> R s t"
  by (auto simp: halt_post_def Let_def same on_signal split: if_splits)

lemma law_evidence: "evidence_level now b k s = (r, t) \<Longrightarrow> R s t"
  by (auto simp: evidence_level_def recordLevelEvidence_def same on_ceiling split: option.splits json.splits if_splits)

lemma law_hang: "hang_legs now w es left s = (n, t) \<Longrightarrow> R s t"
  by (induction now w es left s rule: hang_legs.induct)
    (auto simp: same Let_def split: if_splits intro: through [OF on_ended])

end

text \<open>A law that counting keeps too holds of a whole dial and a whole text.\<close>

locale counting_law = store_law +
  assumes on_count: "0 \<le> n \<Longrightarrow> R s (put_count name period n s)"
begin

lemma law_give: "R s (giveBack name period n s)"
  by (simp add: giveBack_def on_count)

lemma law_take:
  "tryTake name period n limit s = (ok, t) \<Longrightarrow> 0 \<le> n \<Longrightarrow> 0 \<le> counted s name period \<Longrightarrow> R s t"
  by (auto simp: tryTake_def Let_def same on_count split: if_splits)

lemma law_dial_reply: "dial_reply cf now dw keyed v fl reply s = (r, t) \<Longrightarrow> R s t"
  unfolding dial_reply_def Let_def
  by (auto simp: same split: option.splits if_splits
      intro!: through [OF _ law_cap] through [OF _ on_register] through [OF _ on_refund]
        through [OF _ law_give] law_limit_refusal)

lemma law_text_reply: "text_reply now dw keyed v taken reply s = (r, t) \<Longrightarrow> R s t"
  unfolding text_reply_def Let_def
  by (auto simp: same split: option.splits if_splits prod.splits
      intro!: through [OF _ law_cap] through [OF _ on_refund] through [OF _ law_give])

end

end
