(* ===== verification/Guard_Types.thy ===== *)
theory Guard_Types
  imports Guard_Laws
begin

text \<open>
  Three laws of the guard's store: well-typedness, and the two frames. A store is well-typed when
  its counters and sums of money are not negative, every sum is a whole number of millionths of
  a dollar, each registered leg is filed once and under its own id, the kept lists are within
  their lengths, every recorded signal is covered by the halt and a lease lasts as long as a
  lease may.
\<close>

section \<open>Sums of money\<close>

definition money :: "rat \<Rightarrow> bool" where
  "money v \<longleftrightarrow> 0 \<le> v \<and> usd v = v"

lemma js_round_int [simp]: "js_round (of_int k) = k"
  by (simp add: js_round_def floor_eq_iff)

lemma usd_usd [simp]: "usd (usd v) = usd v"
  by (simp add: usd_def)

lemma usd_nonneg: "0 \<le> v \<Longrightarrow> 0 \<le> usd v"
  by (simp add: usd_def js_round_def)

lemma money_usd [simp]: "0 \<le> v \<Longrightarrow> money (usd v)"
  by (simp add: money_def usd_nonneg)

lemma money_nonneg: "money v \<Longrightarrow> 0 \<le> v"
  by (simp add: money_def)

lemma money_0 [simp]: "money 0"
  by (simp add: money_def usd_def js_round_def floor_eq_iff)

definition ledger_ok :: "month_ledger \<Rightarrow> bool" where
  "ledger_ok l \<longleftrightarrow> money (usage_usd l) \<and> money (one_time_usd l) \<and> money (reconciled_usd l)
                  \<and> 0 \<le> peak_numbers l \<and> 0 \<le> caller_name_numbers l"

definition legs_ok :: "(string \<times> leg_entry) list \<Rightarrow> bool" where
  "legs_ok ls \<longleftrightarrow> distinct (map fst ls) \<and> (\<forall>k e. map_of ls k = Some e \<longrightarrow> le_ccid e = k)"

definition signals_ok :: "signal_state \<Rightarrow> bool" where
  "signals_ok st \<longleftrightarrow> (\<forall>e \<in> set (ss_events st). sg_at e + SIGNAL_HALT_MS \<le> halted_until st)"

definition typed :: "guard_store \<Rightarrow> bool" where
  "typed s \<longleftrightarrow>
     (\<forall>name period. 0 \<le> counted s name period)
     \<and> (\<forall>month. ledger_ok (monthLedger month s))
     \<and> (\<forall>day. money (spentOn day s))
     \<and> legs_ok (g_legs s)
     \<and> length (g_ceilings s) \<le> MAX_CEILINGS
     \<and> length (g_samples s) \<le> KEEP_SAMPLES
     \<and> signals_ok (signal_state_of s)
     \<and> (\<forall>l. g_lease s = Some l \<longrightarrow> expires_ms l = acquired_at l + LEASE_MAX_MS)"


section \<open>What a write leaves alone\<close>

lemmas store_reads = counted_def monthLedger_def spentOn_def signal_state_of_def

lemma markEnded_frame [frame_simps]:
  "g_counts (markEnded now i s) = g_counts s" "g_months (markEnded now i s) = g_months s"
  "g_days (markEnded now i s) = g_days s" "g_ceilings (markEnded now i s) = g_ceilings s"
  "g_samples (markEnded now i s) = g_samples s" "g_signals (markEnded now i s) = g_signals s"
  "g_lease (markEnded now i s) = g_lease s"
  by (simp_all add: markEnded_def put_leg_def split: option.splits)

lemma rememberCredential_frame [frame_simps]:
  "g_counts (rememberCredential i c s) = g_counts s" "g_months (rememberCredential i c s) = g_months s"
  "g_days (rememberCredential i c s) = g_days s" "g_ceilings (rememberCredential i c s) = g_ceilings s"
  "g_samples (rememberCredential i c s) = g_samples s" "g_signals (rememberCredential i c s) = g_signals s"
  "g_lease (rememberCredential i c s) = g_lease s" "g_legs (rememberCredential i c s) = g_legs s"
  by (simp_all add: rememberCredential_def Let_def)

lemma recordSignal_frame [frame_simps]:
  "g_counts (recordSignal cf now sig n src late s) = g_counts s"
  "g_months (recordSignal cf now sig n src late s) = g_months s"
  "g_days (recordSignal cf now sig n src late s) = g_days s"
  "g_ceilings (recordSignal cf now sig n src late s) = g_ceilings s"
  "g_samples (recordSignal cf now sig n src late s) = g_samples s"
  "g_lease (recordSignal cf now sig n src late s) = g_lease s"
  "g_legs (recordSignal cf now sig n src late s) = g_legs s"
  by (simp_all add: recordSignal_def Let_def)

lemma registerLeg_frame [frame_simps]:
  "g_counts (snd (registerLeg now i c via s)) = g_counts s"
  "g_months (snd (registerLeg now i c via s)) = g_months s"
  "g_days (snd (registerLeg now i c via s)) = g_days s"
  "g_ceilings (snd (registerLeg now i c via s)) = g_ceilings s"
  "g_samples (snd (registerLeg now i c via s)) = g_samples s"
  "g_signals (snd (registerLeg now i c via s)) = g_signals s"
  "g_lease (snd (registerLeg now i c via s)) = g_lease s"
  by (simp_all add: registerLeg_def Let_def put_leg_def)

lemma charge_frame [frame_simps]:
  "g_counts (charge now a kind s) = g_counts s" "g_lease (charge now a kind s) = g_lease s"
  "g_legs (charge now a kind s) = g_legs s" "g_ceilings (charge now a kind s) = g_ceilings s"
  "g_samples (charge now a kind s) = g_samples s" "g_signals (charge now a kind s) = g_signals s"
  by (simp_all add: charge_def putMonth_def putDay_def Let_def split: charge_kind.splits)

lemma refund_frame [frame_simps]:
  "g_counts (refund now a s) = g_counts s" "g_lease (refund now a s) = g_lease s"
  "g_legs (refund now a s) = g_legs s" "g_ceilings (refund now a s) = g_ceilings s"
  "g_samples (refund now a s) = g_samples s" "g_signals (refund now a s) = g_signals s"
  by (simp_all add: refund_def putMonth_def putDay_def Let_def)

lemma recordCeiling_frame [frame_simps]:
  "g_counts (recordCeiling now v src s) = g_counts s" "g_lease (recordCeiling now v src s) = g_lease s"
  by (simp_all add: recordCeiling_def)

lemma readBalance_frame:
  "readBalance now keyed fr reply s = (r, t) \<Longrightarrow>
     g_counts t = g_counts s \<and> g_months t = g_months s \<and> g_days t = g_days s \<and> g_legs t = g_legs s
     \<and> g_ceilings t = g_ceilings s \<and> g_signals t = g_signals s \<and> g_lease t = g_lease s
     \<and> (length (g_samples s) \<le> KEEP_SAMPLES \<longrightarrow> length (g_samples t) \<le> KEEP_SAMPLES)"
  by (auto simp: readBalance_def Let_def slice_last_def
      split: option.splits prod.splits if_splits)

lemma put_count_frame [frame_simps]:
  "g_months (put_count name period n s) = g_months s" "g_days (put_count name period n s) = g_days s"
  "g_legs (put_count name period n s) = g_legs s" "g_ceilings (put_count name period n s) = g_ceilings s"
  "g_samples (put_count name period n s) = g_samples s" "g_signals (put_count name period n s) = g_signals s"
  "g_lease (put_count name period n s) = g_lease s"
  by (simp_all add: put_count_def)

lemma counted_put [simp]:
  "counted (put_count name period n s) name' period'
     = (if name' = name \<and> period' = period then n else counted s name' period')"
  by (simp add: counted_def put_count_def)


section \<open>Typing each write\<close>

lemma typed_put_leg: "typed s \<Longrightarrow> le_ccid e = i \<Longrightarrow> typed (put_leg i e s)"
  by (auto simp: typed_def store_reads legs_ok_def put_leg_def distinct_update update_conv')

lemma typed_find_leg: "typed s \<Longrightarrow> find_leg i s = Some e \<Longrightarrow> le_ccid e = i"
  by (auto simp: typed_def legs_ok_def find_leg_def)

lemma typed_putMonth: "typed s \<Longrightarrow> ledger_ok l \<Longrightarrow> typed (putMonth now l s)"
  by (auto simp: typed_def putMonth_def store_reads)

lemma typed_putDay: "typed s \<Longrightarrow> money v \<Longrightarrow> typed (putDay day v s)"
  by (auto simp: typed_def putDay_def store_reads)

lemma typed_ledger: "typed s \<Longrightarrow> ledger_ok (monthLedger month s)"
  by (simp add: typed_def)

lemma typed_spent: "typed s \<Longrightarrow> money (spentOn day s)"
  by (simp add: typed_def)

lemma typed_charge:
  assumes "typed s" "0 \<le> amount"
  shows "typed (charge now amount kind s)"
proof -
  have ok: "ledger_ok (monthLedger (monthOf now) s)" using assms by (simp add: typed_ledger)
  then have "typed (putMonth now ((monthLedger (monthOf now) s)
      \<lparr>usage_usd := usd (usage_usd (monthLedger (monthOf now) s) + amount)\<rparr>) s)"
    and "typed (putMonth now ((monthLedger (monthOf now) s)
      \<lparr>one_time_usd := usd (one_time_usd (monthLedger (monthOf now) s) + amount)\<rparr>) s)"
    using assms by (auto intro!: typed_putMonth simp: ledger_ok_def dest: money_nonneg)
  then show ?thesis using assms
    by (auto simp: charge_def Let_def split: charge_kind.splits
        intro!: typed_putDay money_usd add_nonneg_nonneg dest: typed_spent money_nonneg)
qed

lemma typed_refund:
  assumes "typed s"
  shows "typed (refund now amount s)"
proof -
  have ok: "ledger_ok (monthLedger (monthOf now) s)" using assms by (simp add: typed_ledger)
  then have "typed (putMonth now ((monthLedger (monthOf now) s)
      \<lparr>usage_usd := usd (max 0 (usage_usd (monthLedger (monthOf now) s) - amount))\<rparr>) s)"
    using assms by (auto intro!: typed_putMonth simp: ledger_ok_def)
  then show ?thesis by (auto simp: refund_def Let_def intro!: typed_putDay)
qed

lemma typed_register: "typed s \<Longrightarrow> typed (snd (registerLeg now i c via s))"
  by (auto simp: registerLeg_def Let_def intro!: typed_put_leg dest: typed_find_leg split: option.splits)

lemma typed_ended: "typed s \<Longrightarrow> typed (markEnded now i s)"
  by (auto simp: markEnded_def intro!: typed_put_leg dest: typed_find_leg split: option.splits)

lemma typed_signal:
  assumes "typed s"
  shows "typed (recordSignal cf now sig n src late s)"
proof -
  have "signals_ok (signal_state_of s)" using assms by (simp add: typed_def)
  then have "signals_ok (signal_state_of (recordSignal cf now sig n src late s))"
    by (auto simp: recordSignal_def Let_def signals_ok_def signal_state_of_def halted_until_def max_def
        split: option.splits)
  with assms show ?thesis by (auto simp: typed_def store_reads frame_simps)
qed

lemma typed_ceiling: "typed s \<Longrightarrow> typed (recordCeiling now v src s)"
  by (auto simp: typed_def store_reads recordCeiling_def slice_last_def)

lemma typed_count: "typed s \<Longrightarrow> 0 \<le> n \<Longrightarrow> typed (put_count name period n s)"
  unfolding typed_def counted_put by (simp add: store_reads frame_simps)

lemma typed_balance: "readBalance now keyed fr reply s = (r, t) \<Longrightarrow> typed s \<Longrightarrow> typed t"
  by (frule readBalance_frame) (simp add: typed_def store_reads)

lemma typed_credential: "typed s \<Longrightarrow> typed (rememberCredential i c s)"
  by (simp add: typed_def store_reads frame_simps)


section \<open>The laws\<close>

interpretation shape_reads: credential_law "\<lambda>s t. \<exists>c p. t = s\<lparr>g_creds := c, g_sips := p\<rparr>"
proof unfold_locales
  show "\<exists>c p. s = s\<lparr>g_creds := c, g_sips := p\<rparr>" for s :: guard_store
    by (intro exI [of _ "g_creds s"] exI [of _ "g_sips s"]) simp
  show "\<exists>c p. u = s\<lparr>g_creds := c, g_sips := p\<rparr>"
    if "\<exists>c p. t = s\<lparr>g_creds := c, g_sips := p\<rparr>" "\<exists>c p. u = t\<lparr>g_creds := c, g_sips := p\<rparr>"
    for s t u :: guard_store using that by (elim exE) (simp, (rule exI)+, rule refl)
  show "\<exists>c p. rememberCredential i r s = s\<lparr>g_creds := c, g_sips := p\<rparr>" for i r s
    by (intro exI [of _ "g_creds (rememberCredential i r s)"] exI [of _ "g_sips (rememberCredential i r s)"])
      (simp add: rememberCredential_def Let_def)
qed

interpretation typing: counting_law "\<lambda>s t. typed s \<longrightarrow> typed t"
  by unfold_locales
    (auto simp: typed_ended typed_credential typed_signal typed_ceiling typed_register typed_charge
      typed_refund typed_count dest: typed_balance, simp add: typed_def store_reads)

interpretation lease_kept: counting_law "\<lambda>s t. g_lease t = g_lease s"
  by unfold_locales (auto simp: frame_simps dest: readBalance_frame)

interpretation counts_kept: store_law "\<lambda>s t. g_counts t = g_counts s"
  by unfold_locales (auto simp: frame_simps dest: readBalance_frame)

lemma floor_counts: "requireAboveFloor now keyed reply s = (r, t) \<Longrightarrow> g_counts t = g_counts s"
  by (rule counts_kept.law_floor)

lemma cost_nonneg: "0 \<le> messageCostUsd b"
  by (simp add: messageCostUsd_def COST_textPart_def)

lemma tryTake_other:
  "tryTake name period n limit s = (ok, t) \<Longrightarrow> name' \<noteq> name \<Longrightarrow> counted t name' p = counted s name' p"
  by (auto simp: tryTake_def Let_def split: if_splits)

context counting_law
begin

lemma law_dial_take:
  assumes "dial_take now v sh ad s = (r, t)" "0 \<le> counted s ''dials'' (dayOf now)"
    "0 \<le> counted s ''dials-hour'' (hourOf now)"
  shows "R s t"
proof (cases "sh_newLegs sh > 0")
  case True
  obtain ok s1 where t1: "tryTake ''dials'' (dayOf now) (sh_newLegs sh) DIALS_PER_DAY s = (ok, s1)" by fastforce
  obtain ok' s2 where t2: "tryTake ''dials-hour'' (hourOf now) (sh_newLegs sh) DIALS_PER_HOUR s1 = (ok', s2)"
    by fastforce
  have r1: "R s s1" using law_take [OF t1] True assms(2) by simp
  have r2: "R s1 s2" using law_take [OF t2] True assms(3) tryTake_other [OF t1, of "''dials-hour''"] by simp
  have c: "R s2 (if sh_cost sh > 0 then charge now (sh_cost sh) Usage s2 else s2)"
    by (simp add: same on_charge)
  have "t = s1 \<or> t = giveBack ''dials'' (dayOf now) (sh_newLegs sh) s2
      \<or> t = (if sh_cost sh > 0 then charge now (sh_cost sh) Usage s2 else s2)"
    using assms(1) True t1 t2 by (auto simp: dial_take_def Let_def split: if_splits)
  then show ?thesis using r1 through [OF r1 through [OF r2 c]] through [OF r1 through [OF r2 law_give]] by blast
next
  case False
  then show ?thesis using assms(1) by (auto simp: dial_take_def Let_def same on_charge)
qed

lemma law_text_take:
  assumes "text_take cf now w v b s = (r, t)" "\<And>name period. 0 \<le> counted s name period"
  shows "R s t"
proof (cases b)
  case None
  then show ?thesis using assms(1) by (simp add: text_take_def same)
next
  case (Some x)
  let ?n = "int (length (targets_of x))"
  let ?cost = "messageCostUsd x * of_nat (length (targets_of x))"
  obtain e s1 where f: "requireAboveFloor now (gw_keyed (cw_guard w)) (gw_balance (cw_guard w)) s = (e, s1)"
    by fastforce
  have nn: "0 \<le> counted s1 name period" for name period
    using assms(2) [of name period] floor_counts [OF f] by (simp add: counted_def)
  obtain ok s2 where t1: "tryTake ''texts'' (dayOf now) ?n TEXTS_PER_DAY s1 = (ok, s2)" by fastforce
  obtain ok' s3 where t2: "tryTake ''texts-month'' (monthOf now) ?n TEXTS_PER_MONTH s2 = (ok', s3)" by fastforce
  have r0: "R s s1" by (rule law_floor [OF f])
  have r1: "R s1 s2" using law_take [OF t1] nn by simp
  have r2: "R s2 s3" using law_take [OF t2] tryTake_other [OF t1, of "''texts-month''"] nn by simp
  have c: "R s3 (charge now ?cost Usage s3)" by (simp add: on_charge cost_nonneg)
  have "t = s \<or> t = s1 \<or> t = s2 \<or> t = giveBack ''texts'' (dayOf now) ?n s3 \<or> t = charge now ?cost Usage s3"
    using assms(1) Some f t1 t2
    by (auto simp: text_take_def Let_def split: option.splits sum.splits if_splits)
  then show ?thesis
    using same r0 through [OF r0 r1] through [OF through [OF r0 r1] through [OF r2 c]]
      through [OF through [OF r0 r1] through [OF r2 law_give]] by blast
qed

end

end
