(* ===== verification/Guard_Invariants.thy ===== *)
theory Guard_Invariants
  imports Guard_Types "HOL-Library.Multiset"
begin

text \<open>
  What holds in every state that the guard's interleaved requests can reach: the store is
  well-typed, the dial counters are exactly the dials that count against them, and every lease
  but the newest is over.
\<close>

section \<open>Invariants of the system\<close>

locale guard_invariant =
  fixes cf :: guard_config and inv :: "guard_sys \<Rightarrow> bool"
  assumes start: "inv (started t)"
    and step: "gstep cf y y' \<Longrightarrow> inv y \<Longrightarrow> inv y'"
begin

lemma reached: "gruns cf (started t) y \<Longrightarrow> inv y"
  by (induction rule: rtranclp_induct) (auto simp: start intro: step)

end


section \<open>Shapes are not negative\<close>

definition shape_ok :: "call_shape \<Rightarrow> bool" where
  "shape_ok sh \<longleftrightarrow> 0 \<le> sh_newLegs sh \<and> 0 \<le> sh_cost sh"

lemma shape_nonneg: "shapeOf cf now w v ep b s = (Inr sh, t) \<Longrightarrow> shape_ok sh"
  by (auto simp: shapeOf_def create_shape_def transfer_shape_def bridge_shape_def shape_ok_def COST_dial_def
      COST_transfer_def split: dial_endpoint.splits option.splits json.splits prod.splits sum.splits if_splits)

lemma check_shape_ok: "dial_check cf now w rq s = (Inr (sh, ad), t) \<Longrightarrow> shape_ok sh"
  by (auto simp: dial_check_def split: option.splits prod.splits sum.splits dest: shape_nonneg)

lemma dial_take_flight:
  "dial_take now v sh ad s = (Inr fl, t) \<Longrightarrow>
     fl = \<lparr>fl_shape = sh, fl_admitted = ad, fl_day = dayOf now, fl_hour = hourOf now, fl_robot = pv_robot v\<rparr>"
  by (auto simp: dial_take_def Let_def split: prod.splits if_splits)


section \<open>The store stays well-typed\<close>

definition sys_ok :: "guard_sys \<Rightarrow> bool" where
  "sys_ok y \<longleftrightarrow> typed (y_store y) \<and> (\<forall>(v, sh, ad) \<in> set (y_checked y). shape_ok sh)
              \<and> (\<forall>(v, fl) \<in> set (y_air y). shape_ok (fl_shape fl))"

lemma typed_lease:
  "typed s \<Longrightarrow> (\<And>l. x = Some l \<Longrightarrow> expires_ms l = acquired_at l + LEASE_MAX_MS) \<Longrightarrow> typed (s\<lparr>g_lease := x\<rparr>)"
  by (simp add: typed_def store_reads)

lemma typed_alarm_field: "typed s \<Longrightarrow> typed (s\<lparr>g_alarm := x\<rparr>)"
  by (simp add: typed_def store_reads)

lemma typed_lease_expiry: "typed s \<Longrightarrow> g_lease s = Some l \<Longrightarrow> expires_ms l = acquired_at l + LEASE_MAX_MS"
  by (simp add: typed_def)

lemma liveLease_stored: "liveLease now s = Some l \<Longrightarrow> g_lease s = Some l"
  by (auto simp: liveLease_def split: option.splits if_splits)

lemma typed_lease_post: "lease_post now u sc who nd s = (r, t) \<Longrightarrow> typed s \<Longrightarrow> typed t"
  by (auto simp: lease_post_def acquireLease_def Let_def intro!: typed_lease typed_alarm_field
      split: option.splits if_splits)

lemma typed_release: "releaseLease now i s = (r, t) \<Longrightarrow> typed s \<Longrightarrow> typed t"
  by (auto simp: releaseLease_def Let_def intro!: typed_lease dest: typed_lease_expiry
      split: option.splits if_splits)

lemma typed_preempted: "typed s \<Longrightarrow> typed (markPreempted now i s)"
  by (auto simp: markPreempted_def intro!: typed_lease dest: typed_lease_expiry split: option.splits)

lemma typed_note: "typed s \<Longrightarrow> typed (noteActivity now k s)"
  by (auto simp: noteActivity_def intro!: typed_lease dest: typed_lease_expiry liveLease_stored split: option.splits)

lemma typed_guard_alarm: "typed s \<Longrightarrow> typed (guard_alarm now keyed p hw s)"
  by (auto simp: guard_alarm_def Let_def hangUpTestLegs_def intro!: typed_alarm_field typed_preempted
      dest!: typing.law_hang split: option.splits prod.splits)

lemma typed_reconcile: "typed s \<Longrightarrow> 0 \<le> u \<Longrightarrow> typed (reconcile m u s)"
  using typed_ledger [of s m]
  by (auto simp: reconcile_def Let_def typed_def store_reads ledger_ok_def max_def money_nonneg)

lemma typed_file: "admin_file parse now path b s = (r, t) \<Longrightarrow> typed s \<Longrightarrow> typed t"
  by (auto simp: admin_file_def Let_def body_invalid_def typed_reconcile
      split: if_splits option.splits json.splits prod.splits; simp add: typed_def store_reads)

lemma typed_held:
  assumes "typed s"
  shows "typed (noteHeld now n k s)"
  using typed_ledger [OF assms, of "monthOf now"] assms
  by (auto simp: noteHeld_def Let_def ledger_ok_def intro!: typed_putMonth)

lemma typed_prune: "typed s \<Longrightarrow> typed (snd (pruneLegs now s))"
  by (auto simp: pruneLegs_def typed_def store_reads legs_ok_def distinct_map_filter dest: map_of_SomeD
      intro: map_of_is_SomeI)

lemma typed_counted: "typed s \<Longrightarrow> 0 \<le> counted s name period"
  by (simp add: typed_def)

lemma in_remove1: "x \<in> set (remove1 z xs) \<Longrightarrow> x \<in> set xs"
  by (meson notin_set_remove1)

lemma sys_ok_step: "gstep cf y y' \<Longrightarrow> sys_ok y \<Longrightarrow> sys_ok y'"
proof (induction rule: gstep.induct)
  case (g_taken v sh ad y fl s')
  then have "typed s'" using typing.law_dial_take by (auto simp: sys_ok_def typed_counted)
  then show ?case using g_taken dial_take_flight [OF g_taken(2)]
    by (auto simp: sys_ok_def dest!: in_remove1)
next
  case (g_untaken v sh ad y e s')
  then have "typed s'" using typing.law_dial_take by (auto simp: sys_ok_def typed_counted)
  then show ?case using g_untaken by (auto simp: sys_ok_def dest!: in_remove1)
next
  case (g_text y w v body r s')
  then show ?case using typing.law_text_take by (fastforce simp: sys_ok_def typed_counted)
qed (auto simp: sys_ok_def typed_note typed_guard_alarm typed_held typed_prune typed_count typed_charge
    COST_numberUpfront_def check_shape_ok
    dest: typed_lease_post typed_release typed_file typed_balance typing.law_check typing.law_dial_reply
      typing.law_text_reply typing.law_command typing.law_legs typing.law_halt typing.law_evidence
      in_remove1, simp add: typed_def store_reads)

lemma sys_ok_start: "sys_ok (started t)"
  by (simp add: sys_ok_def started_def empty_store_def typed_def store_reads ledger_ok_def EMPTY_ledger_def
      legs_ok_def signals_ok_def)

interpretation typing_inv: guard_invariant cf sys_ok for cf
  by unfold_locales (auto simp: sys_ok_start intro: sys_ok_step)


section \<open>The dial counters\<close>

definition day_legs :: "string \<Rightarrow> (string \<times> string \<times> int) list \<Rightarrow> int" where
  "day_legs d out = sum_list (map (\<lambda>(d', h, n). if d' = d then n else 0) out)"

definition hour_legs :: "string \<Rightarrow> (string \<times> string \<times> int) list \<Rightarrow> int" where
  "hour_legs h out = sum_list (map (\<lambda>(d, h', n). if h' = h then n else 0) out)"

lemma legs_Cons [simp]:
  "day_legs d ((d', h', n) # out) = (if d' = d then n else 0) + day_legs d out"
  "hour_legs h ((d', h', n) # out) = (if h' = h then n else 0) + hour_legs h out"
  "day_legs d [] = 0" "hour_legs h [] = 0"
  by (simp_all add: day_legs_def hour_legs_def)

lemma legs_remove1:
  "(d', h', n) \<in> set out \<Longrightarrow> day_legs d (remove1 (d', h', n) out) = day_legs d out - (if d' = d then n else 0)"
  "(d', h', n) \<in> set out \<Longrightarrow> hour_legs h (remove1 (d', h', n) out) = hour_legs h out - (if h' = h then n else 0)"
  by (induction out) (auto simp: day_legs_def hour_legs_def)

lemma legs_ge:
  assumes "\<forall>(d, h, n) \<in> set out. 0 \<le> n" "(d', h', n) \<in> set out"
  shows "n \<le> day_legs d' out \<and> n \<le> hour_legs h' out \<and> 0 \<le> day_legs d out \<and> 0 \<le> hour_legs h out"
proof -
  have nn: "0 \<le> day_legs d xs \<and> 0 \<le> hour_legs h xs" if "\<forall>(d, h, n) \<in> set xs. 0 \<le> n" for d h xs
    using that by (induction xs) auto
  have "day_legs d' (remove1 (d', h', n) out) \<ge> 0 \<and> hour_legs h' (remove1 (d', h', n) out) \<ge> 0"
    using assms(1) by (intro nn) (auto dest!: in_remove1)
  then show ?thesis using nn [OF assms(1)] legs_remove1 [OF assms(2)] by auto
qed

lemma counted_counts: "g_counts t = g_counts s \<Longrightarrow> counted t name p = counted s name p"
  by (simp add: counted_def)

lemma take_kept:
  assumes "dial_take now v sh ad s = (Inl e, t)" "shape_ok sh" "typed s"
  shows "counted t name p = counted s name p"
  using assms(1) assms(2) typed_counted [OF assms(3)]
  by (auto simp: dial_take_def tryTake_def giveBack_def Let_def shape_ok_def split: if_splits prod.splits)

lemma take_counts:
  assumes "dial_take now v sh ad s = (Inr fl, t)" "shape_ok sh"
  shows "counted t ''dials'' d = counted s ''dials'' d + (if dayOf now = d then sh_newLegs sh else 0)"
    and "counted t ''dials-hour'' h = counted s ''dials-hour'' h + (if hourOf now = h then sh_newLegs sh else 0)"
    and "0 < sh_newLegs sh \<Longrightarrow> counted t ''dials'' (dayOf now) \<le> DIALS_PER_DAY"
    and "0 < sh_newLegs sh \<Longrightarrow> counted t ''dials-hour'' (hourOf now) \<le> DIALS_PER_HOUR"
proof -
  let ?n = "sh_newLegs sh"
  let ?u = "if 0 < ?n
    then put_count ''dials-hour'' (hourOf now) (counted s ''dials-hour'' (hourOf now) + ?n)
           (put_count ''dials'' (dayOf now) (counted s ''dials'' (dayOf now) + ?n) s)
    else s"
  have "g_counts t = g_counts ?u
      \<and> (0 < ?n \<longrightarrow> counted s ''dials'' (dayOf now) + ?n \<le> DIALS_PER_DAY
                    \<and> counted s ''dials-hour'' (hourOf now) + ?n \<le> DIALS_PER_HOUR)"
    using assms(1) by (auto simp: dial_take_def tryTake_def Let_def frame_simps split: if_splits prod.splits)
  then have u: "g_counts t = g_counts ?u"
    and l: "0 < ?n \<Longrightarrow> counted s ''dials'' (dayOf now) + ?n \<le> DIALS_PER_DAY"
      "0 < ?n \<Longrightarrow> counted s ''dials-hour'' (hourOf now) + ?n \<le> DIALS_PER_HOUR" by blast+
  have c: "counted t name p = counted ?u name p" for name p by (rule counted_counts [OF u])
  have "0 \<le> ?n" using assms(2) by (simp add: shape_ok_def)
  then show "counted t ''dials'' d = counted s ''dials'' d + (if dayOf now = d then ?n else 0)"
    and "counted t ''dials-hour'' h = counted s ''dials-hour'' h + (if hourOf now = h then ?n else 0)"
    by (auto simp: c)
  show "0 < ?n \<Longrightarrow> counted t ''dials'' (dayOf now) \<le> DIALS_PER_DAY"
    "0 < ?n \<Longrightarrow> counted t ''dials-hour'' (hourOf now) \<le> DIALS_PER_HOUR" using l by (simp_all add: c)
qed

lemma enforceCap_counts: "g_counts (snd (enforceCap now keyed dw v s)) = g_counts s"
  by (rule counts_kept.law_cap)

lemma reply_counts:
  assumes "dial_reply cf now dw keyed v fl reply s = (r, t)" "shape_ok (fl_shape fl)"
    and "sh_newLegs (fl_shape fl) \<le> counted s ''dials'' (fl_day fl)"
    and "sh_newLegs (fl_shape fl) \<le> counted s ''dials-hour'' (fl_hour fl)"
    and "typed s"
  shows "counted t ''dials'' d = counted s ''dials'' d
      - (if (reply \<noteq> None \<and> isDefiniteFailure (the reply)) \<and> fl_day fl = d then sh_newLegs (fl_shape fl) else 0)"
    and "counted t ''dials-hour'' h = counted s ''dials-hour'' h
      - (if (reply \<noteq> None \<and> isDefiniteFailure (the reply)) \<and> fl_hour fl = h then sh_newLegs (fl_shape fl) else 0)"
proof -
  let ?n = "sh_newLegs (fl_shape fl)"
  let ?fail = "reply \<noteq> None \<and> isDefiniteFailure (the reply)"
  have lim: "g_counts (noteLimitRefusal cf now x sh ad s) = g_counts s" for x sh ad
    by (rule counts_kept.law_limit_refusal)
  then have give: "g_counts (giveBack nm p n (noteLimitRefusal cf now x sh ad s)) = g_counts (giveBack nm p n s)"
    for nm p n x sh ad by (simp add: giveBack_def put_count_def counted_def)
  have give2: "g_counts (giveBack nm' p' n' (giveBack nm p n (noteLimitRefusal cf now x sh ad s)))
      = g_counts (giveBack nm' p' n' (giveBack nm p n s))" for nm p n nm' p' n' x sh ad
    using give by (simp add: giveBack_def [of nm'] put_count_def counted_def)
  have "g_counts t = g_counts (if ?fail \<and> 0 < ?n
      then giveBack ''dials-hour'' (fl_hour fl) ?n (giveBack ''dials'' (fl_day fl) ?n s) else s)"
    using assms(1)
    by (auto simp: dial_reply_def Let_def enforceCap_counts frame_simps lim give2 split: option.splits if_splits)
  then have "counted t nm p = counted (if ?fail \<and> 0 < ?n
      then giveBack ''dials-hour'' (fl_hour fl) ?n (giveBack ''dials'' (fl_day fl) ?n s) else s) nm p" for nm p
    by (rule counted_counts)
  then show "counted t ''dials'' d = counted s ''dials'' d - (if ?fail \<and> fl_day fl = d then ?n else 0)"
    and "counted t ''dials-hour'' h = counted s ''dials-hour'' h - (if ?fail \<and> fl_hour fl = h then ?n else 0)"
    using assms(2-4) by (auto simp: giveBack_def shape_ok_def)
qed

definition caps_ok :: "guard_sys \<Rightarrow> bool" where
  "caps_ok y \<longleftrightarrow>
     sys_ok y
     \<and> (\<forall>(d, h, n) \<in> set (y_out y). 0 \<le> n)
     \<and> mset (map (\<lambda>(v, fl). flight_entry fl) (y_air y)) \<subseteq># mset (y_out y)
     \<and> (\<forall>d. counted (y_store y) ''dials'' d = day_legs d (y_out y) \<and> day_legs d (y_out y) \<le> DIALS_PER_DAY)
     \<and> (\<forall>h. counted (y_store y) ''dials-hour'' h = hour_legs h (y_out y) \<and> hour_legs h (y_out y) \<le> DIALS_PER_HOUR)"

definition same_dials :: "guard_store \<Rightarrow> guard_store \<Rightarrow> bool" where
  "same_dials s t \<longleftrightarrow> (\<forall>p. counted t ''dials'' p = counted s ''dials'' p
                          \<and> counted t ''dials-hour'' p = counted s ''dials-hour'' p)"

lemma same_dials_counts: "g_counts t = g_counts s \<Longrightarrow> same_dials s t"
  by (simp add: same_dials_def counted_def)

lemma same_dials_trans: "same_dials s t \<Longrightarrow> same_dials t u \<Longrightarrow> same_dials s u"
  by (simp add: same_dials_def)

lemma same_dials_put: "name \<notin> {''dials'', ''dials-hour''} \<Longrightarrow> same_dials s (put_count name p n s)"
  by (auto simp: same_dials_def)

lemma text_take_dials: "text_take cf now w v b s = (r, t) \<Longrightarrow> same_dials s t"
  by (auto simp: text_take_def tryTake_def giveBack_def Let_def same_dials_counts frame_simps
      dest!: floor_counts intro: same_dials_counts
      split: option.splits sum.splits prod.splits if_splits)
    (simp_all add: same_dials_def counted_def put_count_def frame_simps)

lemma text_reply_dials: "text_reply now dw keyed v taken reply s = (r, t) \<Longrightarrow> same_dials s t"
  by (auto simp: text_reply_def giveBack_def Let_def same_dials_def counted_def enforceCap_counts frame_simps
      put_count_def split: option.splits prod.splits if_splits)

lemma lease_post_counts: "lease_post now u sc who nd s = (r, t) \<Longrightarrow> g_counts t = g_counts s"
  by (auto simp: lease_post_def acquireLease_def Let_def split: option.splits if_splits)

lemma release_counts: "releaseLease now i s = (r, t) \<Longrightarrow> g_counts t = g_counts s"
  by (auto simp: releaseLease_def Let_def split: option.splits if_splits)

lemma note_counts: "g_counts (noteActivity now k s) = g_counts s"
  by (simp add: noteActivity_def split: option.splits)

lemma alarm_counts: "g_counts (guard_alarm now keyed p hw s) = g_counts s"
  by (auto simp: guard_alarm_def Let_def hangUpTestLegs_def markPreempted_def dest!: counts_kept.law_hang
      split: option.splits prod.splits)

lemma file_counts: "admin_file parse now path b s = (r, t) \<Longrightarrow> g_counts t = g_counts s"
  by (auto simp: admin_file_def Let_def body_invalid_def reconcile_def
      split: if_splits option.splits json.splits prod.splits)

lemma held_counts: "g_counts (noteHeld now n k s) = g_counts s"
  by (simp add: noteHeld_def Let_def putMonth_def)

lemma prune_counts: "g_counts (snd (pruneLegs now s)) = g_counts s"
  by (simp add: pruneLegs_def)

lemmas counts_of_step =
  lease_post_counts release_counts file_counts counts_kept.law_check counts_kept.law_command
  counts_kept.law_legs counts_kept.law_halt counts_kept.law_evidence counts_kept.on_balance

lemma caps_same:
  "caps_ok y \<Longrightarrow> sys_ok y' \<Longrightarrow> same_dials (y_store y) (y_store y') \<Longrightarrow> y_air y' = y_air y \<Longrightarrow>
     y_out y' = y_out y \<Longrightarrow> caps_ok y'"
  by (auto simp: caps_ok_def same_dials_def)

lemma caps_ok_step: "gstep cf y y' \<Longrightarrow> caps_ok y \<Longrightarrow> caps_ok y'"
proof -
  assume st: "gstep cf y y'" and ok: "caps_ok y"
  have sok: "sys_ok y'" using sys_ok_step [OF st] ok by (simp add: caps_ok_def)
  from st show ?thesis
  proof cases
    case (g_taken v sh ad fl s')
    have shp: "shape_ok sh" using ok g_taken(2) by (auto simp: caps_ok_def sys_ok_def)
    then have n: "0 \<le> sh_newLegs sh" by (simp add: shape_ok_def)
    have fe: "flight_entry fl = (dayOf (y_now y), hourOf (y_now y), sh_newLegs sh)"
      using dial_take_flight [OF g_taken(3)] by (simp add: flight_entry_def)
    note c = take_counts [OF g_taken(3) shp]
    have d: "counted s' ''dials'' d = day_legs d (flight_entry fl # y_out y)
        \<and> day_legs d (flight_entry fl # y_out y) \<le> DIALS_PER_DAY" for d
      using ok c(1) [of d] c(3) n by (cases "sh_newLegs sh = 0") (auto simp: caps_ok_def fe)
    moreover have h: "counted s' ''dials-hour'' h = hour_legs h (flight_entry fl # y_out y)
        \<and> hour_legs h (flight_entry fl # y_out y) \<le> DIALS_PER_HOUR" for h
      using ok c(2) [of h] c(4) n by (cases "sh_newLegs sh = 0") (auto simp: caps_ok_def fe)
    ultimately show ?thesis using ok sok n unfolding g_taken(1) by (auto simp: caps_ok_def fe)
  next
    case (g_untaken v sh ad e s')
    have "shape_ok sh" "typed (y_store y)" using ok g_untaken(2) by (auto simp: caps_ok_def sys_ok_def)
    then have "same_dials (y_store y) s'" using take_kept [OF g_untaken(3)] by (simp add: same_dials_def)
    then show ?thesis using ok sok unfolding g_untaken(1) by (auto intro: caps_same)
  next
    case (g_answered v fl dw keyed reply r s')
    let ?fail = "reply \<noteq> None \<and> isDefiniteFailure (the reply)"
    have shp: "shape_ok (fl_shape fl)" and ty: "typed (y_store y)"
      using ok g_answered(2) by (auto simp: caps_ok_def sys_ok_def)
    have "flight_entry fl \<in># mset (map (\<lambda>(v, fl). flight_entry fl) (y_air y))" using g_answered(2) by force
    then have mem: "flight_entry fl \<in> set (y_out y)" using ok mset_subset_eqD by (fastforce simp: caps_ok_def)
    then have mem': "(fl_day fl, fl_hour fl, sh_newLegs (fl_shape fl)) \<in> set (y_out y)" by (simp add: flight_entry_def)
    have le: "sh_newLegs (fl_shape fl) \<le> counted (y_store y) ''dials'' (fl_day fl)"
      "sh_newLegs (fl_shape fl) \<le> counted (y_store y) ''dials-hour'' (fl_hour fl)"
      using ok legs_ge [OF _ mem'] by (auto simp: caps_ok_def)
    note c = reply_counts [OF g_answered(3) shp le ty]
    have air: "mset (map (\<lambda>(v, fl). flight_entry fl) (remove1 (v, fl) (y_air y)))
        = mset (map (\<lambda>(v, fl). flight_entry fl) (y_air y)) - {#flight_entry fl#}"
      using g_answered(2) by (simp add: image_mset_Diff)
    have n: "0 \<le> sh_newLegs (fl_shape fl)" using shp by (simp add: shape_ok_def)
    have old: "counted (y_store y) ''dials'' d = day_legs d (y_out y)" "day_legs d (y_out y) \<le> DIALS_PER_DAY"
      "counted (y_store y) ''dials-hour'' h = hour_legs h (y_out y)" "hour_legs h (y_out y) \<le> DIALS_PER_HOUR"
      for d h using ok by (auto simp: caps_ok_def)
    let ?out = "if ?fail then remove1 (flight_entry fl) (y_out y) else y_out y"
    have "mset (map (\<lambda>(v, fl). flight_entry fl) (remove1 (v, fl) (y_air y))) \<subseteq># mset ?out"
      using ok unfolding air caps_ok_def subseteq_mset_def
      by (auto intro: diff_le_mono le_trans [OF diff_le_self])
    moreover have "\<forall>(d, h, n) \<in> set ?out. 0 \<le> n" using ok by (auto simp: caps_ok_def dest!: in_remove1)
    moreover have "counted s' ''dials'' d = day_legs d ?out \<and> day_legs d ?out \<le> DIALS_PER_DAY" for d
      using old(1, 2) [of d] c(1) [of d] legs_remove1(1) [OF mem', of d] n by (auto simp: flight_entry_def)
    moreover have "counted s' ''dials-hour'' h = hour_legs h ?out \<and> hour_legs h ?out \<le> DIALS_PER_HOUR" for h
      using old(3, 4) [of h] c(2) [of h] legs_remove1(2) [OF mem', of h] n by (auto simp: flight_entry_def)
    ultimately show ?thesis using sok unfolding g_answered(1) caps_ok_def by simp
  qed (rule caps_same [OF ok sok];
      auto intro: same_dials_counts counts_of_step text_take_dials text_reply_dials same_dials_put
        simp: note_counts alarm_counts held_counts prune_counts frame_simps)+
qed

lemma caps_ok_start: "caps_ok (started t)"
  using sys_ok_start [of t]
  by (simp add: caps_ok_def started_def empty_store_def counted_def DIALS_PER_DAY_def DIALS_PER_HOUR_def)

interpretation caps_inv: guard_invariant cf caps_ok for cf
  by unfold_locales (auto simp: caps_ok_start intro: caps_ok_step)


section \<open>The lease\<close>

definition lease_over :: "guard_sys \<Rightarrow> lease_record \<Rightarrow> bool" where
  "lease_over y g \<longleftrightarrow> expires_ms g \<le> y_now y \<or> lease_id g \<in> set (y_ended y)"

definition grant_of :: "lease_record \<Rightarrow> lease_record \<Rightarrow> bool" where
  "grant_of g l \<longleftrightarrow> lease_id l = lease_id g \<and> scenario l = scenario g \<and> holder l = holder g
                  \<and> acquired_at l = acquired_at g \<and> expires_ms l = expires_ms g \<and> no_dials l = no_dials g"

definition lease_inv :: "guard_sys \<Rightarrow> bool" where
  "lease_inv y \<longleftrightarrow>
     (\<forall>g \<in> set (y_grants y). expires_ms g = acquired_at g + LEASE_MAX_MS \<and> acquired_at g \<le> y_now y)
     \<and> (\<forall>g \<in> set (butlast (y_grants y)). lease_over y g)
     \<and> (case g_lease (y_store y) of
          None \<Rightarrow> y_grants y = []
        | Some l \<Rightarrow> y_grants y \<noteq> [] \<and> grant_of (last (y_grants y)) l
                    \<and> (set_ms (released_at l) \<or> set_ms (preempted_at l) \<longrightarrow> lease_id l \<in> set (y_ended y)))"

lemma lease_inv_frame:
  assumes "lease_inv y" "g_lease (y_store y') = g_lease (y_store y)" "y_grants y' = y_grants y"
    "set (y_ended y) \<subseteq> set (y_ended y')" "y_now y \<le> y_now y'"
  shows "lease_inv y'"
  using assms unfolding lease_inv_def lease_over_def by (fastforce split: option.splits)

text \<open>A step that rewrites the stored lease keeps what was granted.\<close>

definition lease_rewritten :: "guard_store \<Rightarrow> guard_store \<Rightarrow> bool" where
  "lease_rewritten s t \<longleftrightarrow>
     (case g_lease s of None \<Rightarrow> g_lease t = None
      | Some l \<Rightarrow> \<exists>l'. g_lease t = Some l' \<and> grant_of l l')"

lemma lease_inv_rewrite:
  assumes "lease_inv y" "lease_rewritten (y_store y) s'"
    and "\<And>l'. g_lease s' = Some l' \<Longrightarrow> set_ms (released_at l') \<or> set_ms (preempted_at l') \<Longrightarrow> lease_id l' \<in> set e"
    and "set (y_ended y) \<subseteq> set e"
  shows "lease_inv (y\<lparr>y_store := s', y_ended := e\<rparr>)"
  using assms unfolding lease_inv_def lease_rewritten_def lease_over_def grant_of_def
  by (fastforce split: option.splits)

lemma rewritten_same: "g_lease t = g_lease s \<Longrightarrow> lease_rewritten s t"
  by (auto simp: lease_rewritten_def grant_of_def split: option.splits)

lemma release_rewrites: "releaseLease now i s = (r, t) \<Longrightarrow> lease_rewritten s t"
  by (auto simp: releaseLease_def Let_def lease_rewritten_def grant_of_def split: option.splits if_splits)

lemma note_rewrites:
  "lease_rewritten s (noteActivity now k s)
   \<and> (\<forall>l'. g_lease (noteActivity now k s) = Some l' \<longrightarrow> (\<exists>l. g_lease s = Some l
        \<and> released_at l' = released_at l \<and> preempted_at l' = preempted_at l \<and> lease_id l' = lease_id l))"
  by (auto simp: noteActivity_def lease_rewritten_def grant_of_def split: option.splits dest: liveLease_stored)

lemma alarm_rewrites: "lease_rewritten s (guard_alarm now keyed p hw s)"
  by (auto simp: guard_alarm_def Let_def hangUpTestLegs_def markPreempted_def lease_rewritten_def grant_of_def
      dest!: lease_kept.law_hang split: option.splits prod.splits)

lemma grant_inv:
  assumes "lease_inv y" "lease_post (y_now y) u sc who nd (y_store y) = (Inr l, s')"
  shows "lease_inv (y\<lparr>y_store := s', y_grants := y_grants y @ [l]\<rparr>)"
proof -
  from assms(2) have l: "g_lease s' = Some l" "expires_ms l = y_now y + LEASE_MAX_MS" "acquired_at l = y_now y"
    "released_at l = None" "preempted_at l = None" and free: "liveLease (y_now y) (y_store y) = None"
    by (auto simp: lease_post_def acquireLease_def Let_def split: option.splits if_splits)
  have over: "lease_over y g" if "g \<in> set (y_grants y)" for g
  proof (cases "g_lease (y_store y)")
    case None
    then show ?thesis using assms(1) that by (simp add: lease_inv_def)
  next
    case (Some old)
    have "g \<in> set (butlast (y_grants y)) \<or> g = last (y_grants y)"
      using that append_butlast_last_id [of "y_grants y"] by (metis Un_iff empty_iff in_set_butlastD
          list.set(1) set_ConsD set_append)
    then show ?thesis using assms(1) Some free
      by (auto simp: lease_inv_def lease_over_def grant_of_def liveLease_def split: if_splits)
  qed
  then show ?thesis using assms(1) l
    by (auto simp: lease_inv_def lease_over_def grant_of_def set_ms_def)
qed

lemma dial_take_lease: "dial_take now v sh ad s = (r, t) \<Longrightarrow> g_lease t = g_lease s"
  by (auto simp: dial_take_def tryTake_def giveBack_def Let_def frame_simps split: if_splits prod.splits)

lemma text_take_lease: "text_take cf now w v b s = (r, t) \<Longrightarrow> g_lease t = g_lease s"
  by (auto simp: text_take_def tryTake_def giveBack_def Let_def frame_simps dest!: lease_kept.law_floor
      split: option.splits sum.splits prod.splits if_splits)

lemma file_lease: "admin_file parse now path b s = (r, t) \<Longrightarrow> g_lease t = g_lease s"
  by (auto simp: admin_file_def Let_def body_invalid_def reconcile_def
      split: if_splits option.splits json.splits prod.splits)

lemma held_lease: "g_lease (noteHeld now n k s) = g_lease s"
  by (simp add: noteHeld_def Let_def putMonth_def)

lemma prune_lease: "g_lease (snd (pruneLegs now s)) = g_lease s"
  by (simp add: pruneLegs_def)

lemmas lease_of_step =
  lease_kept.law_check lease_kept.law_dial_reply lease_kept.law_text_reply lease_kept.law_command
  lease_kept.law_legs lease_kept.law_halt lease_kept.law_evidence lease_kept.on_balance
  dial_take_lease text_take_lease file_lease

lemma lease_inv_step: "gstep cf y y' \<Longrightarrow> lease_inv y \<Longrightarrow> lease_inv y'"
proof -
  assume st: "gstep cf y y'" and ok: "lease_inv y"
  have stored: "lease_id l \<in> set (y_ended y)"
    if "g_lease (y_store y) = Some l" "set_ms (released_at l) \<or> set_ms (preempted_at l)" for l
    using ok that by (auto simp: lease_inv_def)
  from st show ?thesis
  proof cases
    case (g_grant uuid scen who nd l s')
    show ?thesis unfolding g_grant(1) by (rule grant_inv [OF ok g_grant(2)])
  next
    case (g_release i r s')
    show ?thesis unfolding g_release(1)
      by (rule lease_inv_rewrite [OF ok release_rewrites [OF g_release(2)]]) (auto simp: ended_ids_def)
  next
    case (g_alarm keyed p hw s')
    have "lease_rewritten (y_store y) s'" using alarm_rewrites unfolding g_alarm(2) [symmetric] .
    then show ?thesis unfolding g_alarm(1)
      by (rule lease_inv_rewrite [OF ok]) (auto simp: ended_ids_def)
  next
    case (g_note k s')
    have "lease_inv (y\<lparr>y_store := s', y_ended := y_ended y\<rparr>)"
      using note_rewrites [of "y_store y" "y_now y" k] stored unfolding g_note(2)
      by (intro lease_inv_rewrite [OF ok]) (metis, metis, simp)
    then show ?thesis unfolding g_note(1) by simp
  qed (rule lease_inv_frame [OF ok];
      auto dest: lease_of_step simp: held_lease prune_lease frame_simps)+
qed

lemma lease_inv_start: "lease_inv (started t)"
  by (simp add: lease_inv_def started_def empty_store_def)

interpretation lease_invariant: guard_invariant cf lease_inv for cf
  by unfold_locales (auto simp: lease_inv_start intro: lease_inv_step)

end
