(* ===== verification/Guard_Runs.thy ===== *)
theory Guard_Runs
  imports Guard_Invariants
begin

text \<open>
  A concrete run of the guard: measurements are filed, the limit probe proves five concurrent
  calls, production reserves four of them, a lease is granted, and two requests dial one leg
  each. The second is checked while the first waits for Telnyx's answer.
\<close>

definition T0 :: ms where "T0 = 18000000"

definition rig_config :: guard_config where
  "rig_config = \<lparr>cf_floor = Some 2, cf_latch_reset = [], cf_edge = None, cf_origin = (\<lambda>_. None)\<rparr>"

definition rig_view :: partition_view where
  "rig_view = \<lparr>pv_group = ''bg'', pv_voice = Some ''cv'', pv_robot = Some ''cr'', pv_webrtc = Some ''cw'',
     pv_numbers = [\<lparr>on_id = ''n1'', on_e164 = ''+15550100001'', on_connection = Some ''cv'', on_profile = None\<rparr>,
                   \<lparr>on_id = ''n2'', on_e164 = ''+15550100002'', on_connection = Some ''cr'', on_profile = None\<rparr>],
     pv_profiles = [], pv_production = [''p1'']\<rparr>"

definition rig_body :: json_body where
  "rig_body = [(''connection_id'', JStr ''cv''), (''from'', JStr ''+15550100001''),
               (''to'', JStr ''+15550100002'')]"

definition rig_world :: call_world where
  "rig_world = \<lparr>cw_guard = \<lparr>gw_keyed = True, gw_balance = Some (200, Some 100),
                  gw_alive = (\<lambda>_. Some (404, None)), gw_active = (\<lambda>_. Some (200, 0))\<rparr>,
                cw_sip = (\<lambda>_. None), cw_detach = (\<lambda>_. (True, True))\<rparr>"

definition rig_request :: dial_request where
  "rig_request = \<lparr>dq_caller = RigApi, dq_lease = None, dq_endpoint = CreateCall, dq_body = Some rig_body,
                  dq_view = rig_view\<rparr>"

definition rig_lease :: lease_record where
  "rig_lease = \<lparr>lease_id = ''L1'', scenario = ''S01'', holder = RigApi, acquired_at = T0,
     expires_ms = T0 + LEASE_MAX_MS, released_at = None, preempted_at = None, activity = (\<lambda>_. None),
     no_dials = False\<rparr>"

definition rig_store :: guard_store where
  "rig_store = empty_store
     \<lparr>g_reserve := Some \<lparr>rv_legs = 4, rv_measured = T0\<rparr>,
      g_ratios := Some \<lparr>rt_calls = 0, rt_abandoned = 0, rt_short = 0, rt_measured = T0\<rparr>,
      g_rate := Some \<lparr>ar_hour = 0, ar_day = 0, ar_measured = T0\<rparr>,
      g_validation := Some \<lparr>vr_result = Exact, vr_value = Some 5, vr_measured = T0\<rparr>,
      g_reading := Some (100, T0), g_samples := [(dayOf T0, 100)],
      g_lease := Some rig_lease, g_alarm := Some (T0 + PREEMPT_POLL_MS)\<rparr>"

definition one_leg :: call_shape where
  "one_leg = \<lparr>sh_newLegs = 1, sh_cost = COST_dial, sh_connection = Some ''cv''\<rparr>"

definition none_up :: admitted where
  "none_up = \<lparr>ad_liveLegs = Some 0, ad_production = Some ProdIdle\<rparr>"

definition rig_flight :: flight where
  "rig_flight = \<lparr>fl_shape = one_leg, fl_admitted = none_up, fl_day = dayOf T0, fl_hour = hourOf T0,
                 fl_robot = Some ''cr''\<rparr>"

definition rig_once :: guard_store where
  "rig_once = charge T0 COST_dial Usage
     (put_count ''dials-hour'' (hourOf T0) 1 (put_count ''dials'' (dayOf T0) 1 rig_store))"

definition rig_twice :: guard_store where
  "rig_twice = charge T0 COST_dial Usage
     (put_count ''dials-hour'' (hourOf T0) 2 (put_count ''dials'' (dayOf T0) 2 rig_once))"


section \<open>The checks pass\<close>

lemma tier_red: "tr_tier (tierOf l today now) = Red \<longleftrightarrow> tr_budget (tierOf l today now) \<le> tr_month_to_date (tierOf l today now)"
  by (simp add: tierOf_def Let_def)

lemma rig_limit:
  assumes "g_validation s = g_validation rig_store" "g_history s = None" "g_ceilings s = []"
  shows "limitInForce rig_config T0 s =
     \<lparr>li_limit = Some 5, li_source = FromValidation, li_floor = Some 2,
      li_validation = g_validation rig_store, li_history = None, li_ceiling = None, li_conflict = None\<rparr>"
  using assms
  by (simp add: limitInForce_def rig_config_def exact_limit_def fresh_history_def freshCeilings_def fresh_def
      rig_store_def T0_def LIMIT_EVIDENCE_STALE_MS_def guard_times PAID_CONCURRENT_def Let_def)

lemma rig_shape: "shapeOf rig_config T0 rig_world rig_view CreateCall rig_body s = (Inr one_leg, s)"
proof -
  have o: "isOwnedNumber rig_view (Some (JStr ''+15550100001''))" "isOwnedNumber rig_view (Some (JStr ''+15550100002''))"
    by (simp_all add: isOwnedNumber_def isE164_def rig_view_def is_digit_def)
  have t: "targets_of rig_body = [Some (JStr ''+15550100002'')]" by (simp add: targets_of_def rig_body_def)
  have c: "bodyIsContained rig_config T0 rig_body (pv_group rig_view) s"
    by (simp add: bodyIsContained_def rig_body_def absent_def ALWAYS_REFUSED_def LEG_REFERENCES_def EDGE_URLS_def)
  have m: "map_of rig_body ''connection_id'' = Some (JStr ''cv'')" "map_of rig_body ''from'' = Some (JStr ''+15550100001'')"
    by (simp_all add: rig_body_def)
  have d: "''cv'' \<in> set (dialConnections rig_view)" by (simp add: dialConnections_def present_ids_def rig_view_def)
  show ?thesis by (simp add: shapeOf_def create_shape_def m d o t c isAllowedCallTarget_def one_leg_def)
qed

lemma rig_admits:
  assumes "g_validation s = g_validation rig_store" "g_history s = None" "g_ceilings s = []"
    "g_reserve s = g_reserve rig_store" "g_ratios s = g_ratios rig_store" "g_rate s = g_rate rig_store"
    "g_window s = None" "g_signals s = None" "g_reading s = g_reading rig_store"
    "g_samples s = g_samples rig_store" "g_legs s = []"
    "fst (rigDials T0 s) \<le> 9" "snd (rigDials T0 s) \<le> 99" "tr_tier (readTier T0 s) \<noteq> Red"
  shows "admitPaid rig_config T0 (cw_guard rig_world) [''p1''] 1 (Some ''S01'') s = (Inr none_up, s)"
proof -
  have w: "inWindow T0 (windowStartHour (g_window s) T0)"
    by (simp add: assms inWindow_def windowStartHour_def windowInForce_def WINDOW_DEFAULT_START_HOUR_def
        js_rem_def utcHours_def T0_def day_ms_def WINDOW_HOURS_def)
  have p: "requirePaidLanesOpen rig_config T0 s = None"
    by (simp add: requirePaidLanesOpen_def signal_state_of_def assms standing_latch_def halted_until_def T0_def)
  have r: "accountRateRule (g_rate s) 1 T0 s = None"
    using assms(12, 13) by (cases "rigDials T0 s") (simp add: accountRateRule_def assms rig_store_def ACCOUNT_RATE_STALE_MS_def guard_times
        PAID_DIALS_PER_HOUR_def PAID_DIALS_PER_DAY_def)
  have q: "ratioRule (g_ratios s) T0 = None"
    by (simp add: assms ratioRule_def rig_store_def RATIOS_STALE_MS_def guard_times MIN_RATIO_SAMPLE_def)
  have l: "limit_rules rig_config T0 1 s = None"
    using w p r q by (simp add: limit_rules_def limitRule_def rig_limit [OF assms(1-3)])
  have room: "roomFor (limitInForce rig_config T0 s) (g_reserve s) T0 = Some 1"
    by (simp add: rig_limit [OF assms(1-3)] assms roomFor_def roomUnder_def rig_store_def RESERVE_STALE_MS_def guard_times)
  have tr: "tier_rule T0 (Some ''S01'') s = None"
    using assms(14) by (simp add: tier_rule_def CORE_SCENARIOS_def Let_def)
  have b: "requireAboveFloor T0 True (Some (200, Some 100)) s = (Inr (), s)"
    by (simp add: requireAboveFloor_def readBalance_def assms rig_store_def BALANCE_CACHE_MS_def MINUTE_def
        balanceFloor_def floorFor_def averageDailySpend_def BALANCE_FLOOR_MIN_USD_def)
  have c: "liveLegCount T0 True (\<lambda>_. Some (404, None)) s = (Inr 0, s)"
    by (simp add: liveLegCount_def candidateLiveLegs_def assms)
  show ?thesis
    by (simp add: admitPaid_def l room tr rig_world_def b c productionCalls_def none_up_def)
qed

lemma rig_checked:
  assumes "admitPaid rig_config T0 (cw_guard rig_world) [''p1''] 1 (Some ''S01'') s = (Inr none_up, s)"
    "g_lease s = Some rig_lease"
  shows "dial_check rig_config T0 rig_world rig_request s = (Inr (one_leg, none_up), s)"
proof -
  have "liveLease T0 s = Some rig_lease"
    by (simp add: liveLease_def assms(2) rig_lease_def set_ms_def LEASE_MAX_MS_def)
  then have "requireDialLease T0 None RigApi s = Inr rig_lease"
    by (simp add: requireDialLease_def rig_lease_def)
  moreover have "pv_production rig_view = [''p1'']" "sh_newLegs one_leg = 1" "scenario rig_lease = ''S01''"
    by (simp_all add: rig_view_def one_leg_def rig_lease_def)
  ultimately show ?thesis
    using assms(1) by (simp add: dial_check_def rig_request_def rig_shape)
qed



section \<open>The run\<close>

definition rig_sys :: "guard_store \<Rightarrow> (partition_view \<times> flight) list \<Rightarrow> (string \<times> string \<times> int) list \<Rightarrow> guard_sys" where
  "rig_sys s air out = \<lparr>y_now = T0, y_store = s, y_checked = [], y_air = air, y_grants = [rig_lease],
                        y_ended = [], y_out = out\<rparr>"

lemmas admin_eval = admin_file_def measuredAt_def count_of_def Let_def

lemma rig_prepared: "gruns rig_config (started T0) (rig_sys rig_store [] [])"
proof -
  let ?y = "\<lambda>s. (started T0)\<lparr>y_store := s\<rparr>"
  let ?s1 = "empty_store\<lparr>g_reserve := Some \<lparr>rv_legs = 4, rv_measured = T0\<rparr>\<rparr>"
  let ?s2 = "?s1\<lparr>g_ratios := Some \<lparr>rt_calls = 0, rt_abandoned = 0, rt_short = 0, rt_measured = T0\<rparr>\<rparr>"
  let ?s3 = "?s2\<lparr>g_rate := Some \<lparr>ar_hour = 0, ar_day = 0, ar_measured = T0\<rparr>\<rparr>"
  let ?s4 = "?s3\<lparr>g_validation := Some \<lparr>vr_result = Exact, vr_value = Some 5, vr_measured = T0\<rparr>\<rparr>"
  let ?s5 = "?s4\<lparr>g_reading := Some (100, T0), g_samples := [(dayOf T0, 100)]\<rparr>"
  have now: "y_now (?y s) = T0" "y_store (?y s) = s" for s by (simp_all add: started_def)
  have y0: "started T0 = ?y empty_store" by (simp add: started_def)
  have r1: "gruns rig_config (?y empty_store) (?y ?s1)"
    using g_file [of "\<lambda>_. None" "?y empty_store" "''/reserve''" "[(''legs'', JNum 4)]" "Inr ()" ?s1 rig_config]
    by (intro r_into_rtranclp) (simp add: now admin_eval)
  have r2: "gruns rig_config (?y ?s1) (?y ?s2)"
    using g_file [of "\<lambda>_. None" "?y ?s1" "''/ratios''"
        "[(''calls'', JNum 0), (''abandoned'', JNum 0), (''short'', JNum 0)]" "Inr ()" ?s2 rig_config]
    by (intro r_into_rtranclp) (simp add: now admin_eval)
  have r3: "gruns rig_config (?y ?s2) (?y ?s3)"
    using g_file [of "\<lambda>_. None" "?y ?s2" "''/account-rate''"
        "[(''peak_hour_dials'', JNum 0), (''peak_day_dials'', JNum 0)]" "Inr ()" ?s3 rig_config]
    by (intro r_into_rtranclp) (simp add: now admin_eval)
  have r4: "gruns rig_config (?y ?s3) (?y ?s4)"
    using g_probe [of rig_config "?y ?s3" "\<lparr>vr_result = Exact, vr_value = Some 5, vr_measured = T0\<rparr>"]
    by (intro r_into_rtranclp) (simp add: now)
  have r5: "gruns rig_config (?y ?s4) (?y ?s5)"
    using g_balance [of "?y ?s4" True False "Some (200, Some 100)" "Inr 100" ?s5 rig_config]
    by (intro r_into_rtranclp) (simp add: now readBalance_def empty_store_def slice_last_def KEEP_SAMPLES_def)
  have r6: "gruns rig_config (?y ?s5) (rig_sys rig_store [] [])"
    using g_grant [of "?y ?s5" "''L1''" "Some ''S01''" RigApi False rig_lease rig_store rig_config]
    by (intro r_into_rtranclp)
      (simp add: now Let_def lease_post_def acquireLease_def liveLease_def empty_store_def upper_letter_def is_digit_def
        rig_lease_def rig_store_def rig_sys_def started_def)
  have "gruns rig_config (?y empty_store) (rig_sys rig_store [] [])"
    by (rule rtranclp_trans [OF r1 rtranclp_trans [OF r2 rtranclp_trans [OF r3
          rtranclp_trans [OF r4 rtranclp_trans [OF r5 r6]]]]])
  then show ?thesis by (subst y0)
qed

lemma usd_values: "usd (3 / 100) = 3 / 100" "usd 0 = 0" "usd (67 / 2) = 67 / 2"
  by (simp_all add: usd_def js_round_def floor_eq_iff)

lemma dial_step:
  assumes "dial_check rig_config T0 rig_world rig_request s = (Inr (one_leg, none_up), s)"
    "dial_take T0 rig_view one_leg none_up s = (Inr rig_flight, s')"
  shows "gruns rig_config (rig_sys s air out)
           (rig_sys s' ((rig_view, rig_flight) # air) (flight_entry rig_flight # out))"
proof -
  let ?mid = "(rig_sys s air out)\<lparr>y_store := s, y_checked := (rig_view, one_leg, none_up) # []\<rparr>"
  have "gstep rig_config (rig_sys s air out) ?mid"
    using g_admitted [of rig_config "rig_sys s air out" rig_world rig_request one_leg none_up s] assms(1)
    by (simp add: rig_sys_def rig_request_def)
  moreover have "gstep rig_config ?mid (rig_sys s' ((rig_view, rig_flight) # air) (flight_entry rig_flight # out))"
    using g_taken [of rig_view one_leg none_up ?mid rig_flight s' rig_config] assms(2) by (simp add: rig_sys_def)
  ultimately show ?thesis by (meson converse_rtranclp_into_rtranclp r_into_rtranclp)
qed

lemma rig_fields:
  "g_validation rig_once = g_validation rig_store" "g_history rig_once = None" "g_ceilings rig_once = []"
  "g_reserve rig_once = g_reserve rig_store" "g_ratios rig_once = g_ratios rig_store"
  "g_rate rig_once = g_rate rig_store" "g_window rig_once = None" "g_signals rig_once = None"
  "g_reading rig_once = g_reading rig_store" "g_samples rig_once = g_samples rig_store" "g_legs rig_once = []"
  "g_lease rig_once = Some rig_lease" "g_lease rig_store = Some rig_lease"
  by (simp_all add: rig_once_def rig_store_def empty_store_def charge_def putMonth_def putDay_def put_count_def Let_def)

lemma rig_counts:
  "counted rig_store name p = 0"
  "counted rig_once ''dials'' p = (if p = dayOf T0 then 1 else 0)"
  "counted rig_once ''dials-hour'' p = (if p = hourOf T0 then 1 else 0)"
  by (simp_all add: rig_once_def rig_store_def empty_store_def counted_def put_count_def frame_simps)

lemma rig_tiers: "tr_tier (readTier T0 rig_store) \<noteq> Red" "tr_tier (readTier T0 rig_once) \<noteq> Red"
proof -
  have m: "monthLedger (monthOf T0) rig_store = EMPTY_ledger"
    "monthLedger (monthOf T0) rig_once = EMPTY_ledger\<lparr>usage_usd := 3 / 100\<rparr>"
    by (simp_all add: rig_once_def rig_store_def empty_store_def monthLedger_def charge_def putMonth_def putDay_def
        put_count_def Let_def EMPTY_ledger_def COST_dial_def usd_values)
  show "tr_tier (readTier T0 rig_store) \<noteq> Red" "tr_tier (readTier T0 rig_once) \<noteq> Red"
    unfolding readTier_def m tier_red
    by (simp_all add: tierOf_def Let_def EMPTY_ledger_def MONTHLY_CAP_USD_def SET_ASIDE_USD_def usd_values)
qed

lemma rig_check_first: "dial_check rig_config T0 rig_world rig_request rig_store = (Inr (one_leg, none_up), rig_store)"
proof (rule rig_checked)
  show "admitPaid rig_config T0 (cw_guard rig_world) [''p1''] 1 (Some ''S01'') rig_store = (Inr none_up, rig_store)"
    by (rule rig_admits) (simp_all add: rigDials_def rig_counts rig_tiers, simp_all add: rig_store_def empty_store_def)
qed (simp add: rig_fields)

lemma rig_check_second: "dial_check rig_config T0 rig_world rig_request rig_once = (Inr (one_leg, none_up), rig_once)"
  by (rule rig_checked, rule rig_admits) (simp_all add: rig_fields rigDials_def rig_counts rig_tiers)

lemma rig_takes:
  "dial_take T0 rig_view one_leg none_up rig_store = (Inr rig_flight, rig_once)"
  "dial_take T0 rig_view one_leg none_up rig_once = (Inr rig_flight, rig_twice)"
proof -
  have sh: "sh_newLegs one_leg = 1" "sh_cost one_leg = COST_dial" "0 < COST_dial" "pv_robot rig_view = Some ''cr''"
    by (simp_all add: one_leg_def COST_dial_def rig_view_def)
  show "dial_take T0 rig_view one_leg none_up rig_store = (Inr rig_flight, rig_once)"
    by (simp add: dial_take_def tryTake_def sh rig_counts Let_def DIALS_PER_DAY_def DIALS_PER_HOUR_def rig_flight_def
        rig_once_def)
  show "dial_take T0 rig_view one_leg none_up rig_once = (Inr rig_flight, rig_twice)"
    by (simp add: dial_take_def tryTake_def sh rig_counts Let_def DIALS_PER_DAY_def DIALS_PER_HOUR_def rig_flight_def
        rig_twice_def)
qed

text \<open>
  Room is not taken before the wait: where the limit leaves one test leg, two requests that
  overlap put two legs up.
\<close>

lemma rig_first: "gruns rig_config (started T0)
    (rig_sys rig_once [(rig_view, rig_flight)] [flight_entry rig_flight])"
  using rtranclp_trans [OF rig_prepared dial_step [OF rig_check_first rig_takes(1)]] .

lemma rig_overlap: "gruns rig_config (started T0)
    (rig_sys rig_twice [(rig_view, rig_flight), (rig_view, rig_flight)] [flight_entry rig_flight, flight_entry rig_flight])"
  using rtranclp_trans [OF rig_first dial_step [OF rig_check_second rig_takes(2)]] .

lemma room_overrun:
  "\<exists>y. gruns rig_config (started T0) y
     \<and> roomFor (limitInForce rig_config (y_now y) (y_store y)) (g_reserve (y_store y)) (y_now y) = Some 1
     \<and> sum_list (map (\<lambda>(v, fl). sh_newLegs (fl_shape fl)) (y_air y)) = 2"
proof (intro exI conjI)
  let ?y = "rig_sys rig_twice [(rig_view, rig_flight), (rig_view, rig_flight)]
    [flight_entry rig_flight, flight_entry rig_flight]"
  show "gruns rig_config (started T0) ?y" by (rule rig_overlap)
  have f: "g_validation rig_twice = g_validation rig_store" "g_history rig_twice = None" "g_ceilings rig_twice = []"
    "g_reserve rig_twice = g_reserve rig_store"
    by (simp_all add: rig_twice_def rig_fields charge_def putMonth_def putDay_def put_count_def Let_def)
  show "roomFor (limitInForce rig_config (y_now ?y) (y_store ?y)) (g_reserve (y_store ?y)) (y_now ?y) = Some 1"
    by (simp add: rig_sys_def rig_limit f roomFor_def) (simp add: roomUnder_def rig_store_def RESERVE_STALE_MS_def guard_times)
  show "sum_list (map (\<lambda>(v, fl). sh_newLegs (fl_shape fl)) (y_air ?y)) = 2"
    by (simp add: rig_sys_def rig_flight_def one_leg_def)
qed

end
