(* ===== verification/Guard_Claims.thy ===== *)
theory Guard_Claims
  imports Guard_Runs
begin

text \<open>
  The properties of the guard: the lease excludes, the dial caps hold however requests
  interleave, the store keeps its types, what admission guarantees of a call it lets through, and
  the one rule that does not hold across a wait.
\<close>

section \<open>What admission checks\<close>

lemma lowest_ceiling_Some:
  "lowest_ceiling low cs = Some (w, d) \<Longrightarrow>
     (\<forall>v c. low = Some (v, c) \<longrightarrow> w \<le> v) \<and> (\<forall>c \<in> set cs. \<forall>v. ce_value c = Some v \<longrightarrow> w \<le> v)"
proof (induction cs arbitrary: low)
  case (Cons c cs)
  show ?case
  proof (cases "ce_value c")
    case None
    then show ?thesis using Cons by simp
  next
    case (Some v)
    show ?thesis
    proof (cases low)
      case None
      then have "lowest_ceiling (Some (v, c)) cs = Some (w, d)" using Cons.prems Some by simp
      from Cons.IH [OF this] show ?thesis using None Some by auto
    next
      case l: (Some p)
      obtain u e where p: "p = (u, e)" by fastforce
      show ?thesis
      proof (cases "v < u")
        case True
        then have "lowest_ceiling (Some (v, c)) cs = Some (w, d)" using Cons.prems Some l p by simp
        from Cons.IH [OF this] show ?thesis using True Some l p by auto
      next
        case False
        then have "lowest_ceiling low cs = Some (w, d)" using Cons.prems Some l p by simp
        from Cons.IH [OF this] show ?thesis using False Some l p by auto
      qed
    qed
  qed
qed simp

lemma lowest_ceiling_kept: "lowest_ceiling (Some p) cs \<noteq> None"
  by (induction cs arbitrary: p) (auto split: option.split)

lemma lowest_ceiling_None: "lowest_ceiling None cs = None \<Longrightarrow> c \<in> set cs \<Longrightarrow> ce_value c = None"
  by (induction cs) (auto simp: lowest_ceiling_kept split: option.splits)

text \<open>The limit that admits a new leg is proven, and no evidence is under it.\<close>

definition proven_limit :: "guard_config \<Rightarrow> ms \<Rightarrow> guard_store \<Rightarrow> int \<Rightarrow> bool" where
  "proven_limit cf now s L \<longleftrightarrow>
     li_limit (limitInForce cf now s) = Some L
     \<and> li_conflict (limitInForce cf now s) = None
     \<and> (\<exists>v. exact_limit now s = Some v \<and> L \<le> v)
     \<and> L \<le> max PAID_CONCURRENT (case fresh_history now s of None \<Rightarrow> 0 | Some h \<Rightarrow> h)
     \<and> (\<forall>c \<in> set (freshCeilings now s). \<forall>v. ce_value c = Some v \<longrightarrow> L \<le> v)"

lemma limitInForce_fields:
  "li_floor (limitInForce cf now s) = cf_floor cf"
  "li_source (limitInForce cf now s)
     = (if cf_floor cf \<noteq> None \<and> exact_limit now s \<noteq> None then FromValidation else FromFloor)"
  by (simp add: limitInForce_def Let_def split: option.split)
    (cases "cf_floor cf"; cases "exact_limit now s"; simp add: limitInForce_def Let_def)

lemma limit_admits:
  assumes "limitRule (limitInForce cf now s) n = None" "0 < n"
  shows "\<exists>L. proven_limit cf now s L"
proof -
  have src: "li_floor (limitInForce cf now s) \<noteq> None" "li_source (limitInForce cf now s) \<noteq> FromFloor"
    and con: "li_conflict (limitInForce cf now s) = None"
    using assms by (auto simp: limitRule_def split: if_splits)
  then obtain f v where f: "cf_floor cf = Some f" and v: "exact_limit now s = Some v"
    by (auto simp: limitInForce_fields split: if_splits)
  let ?F = "freshCeilings now s"
  let ?m = "min v (max PAID_CONCURRENT (case fresh_history now s of None \<Rightarrow> 0 | Some h \<Rightarrow> h))"
  let ?L = "case lowest_ceiling None ?F of Some (w, _) \<Rightarrow> min ?m w | None \<Rightarrow> ?m"
  define L where "L = ?L"
  have lim: "li_limit (limitInForce cf now s) = Some L"
    using f v by (simp add: limitInForce_def Let_def L_def)
  have "L \<le> ?m" unfolding L_def by (auto split: option.splits)
  then have le: "L \<le> v" "L \<le> max PAID_CONCURRENT (case fresh_history now s of None \<Rightarrow> 0 | Some h \<Rightarrow> h)"
    by linarith+
  have ceil: "L \<le> x" if "c \<in> set ?F" "ce_value c = Some x" for c x
  proof (cases "lowest_ceiling None ?F")
    case None
    then show ?thesis using lowest_ceiling_None [OF None that(1)] that(2) by simp
  next
    case (Some p)
    then obtain w d where p: "lowest_ceiling None ?F = Some (w, d)" by (cases p) auto
    then have "w \<le> x" using lowest_ceiling_Some [OF p] that by blast
    then show ?thesis unfolding L_def p by simp
  qed
  show ?thesis unfolding proven_limit_def using lim con v le ceil by blast
qed

lemma roomFor_SomeD:
  "roomFor c r now = Some room \<Longrightarrow>
     \<exists>rv. r = Some rv \<and> now - rv_measured rv \<le> RESERVE_STALE_MS \<and> room = roomUnder c (rv_legs rv)"
  by (auto simp: roomFor_def split: if_splits option.splits)

lemma count_legs_ge: "count_legs now keyed w es live s = (Inr n, t) \<Longrightarrow> live \<le> n"
proof (induction es arbitrary: live s)
  case (Cons e es)
  then show ?case by (fastforce split: if_splits option.splits prod.splits)
qed simp

text \<open>The money rules: the tier is not red, and amber admits the core scenarios only.\<close>

definition money_open :: "ms \<Rightarrow> string \<Rightarrow> guard_store \<Rightarrow> bool" where
  "money_open now scen s \<longleftrightarrow>
     tr_month_to_date (readTier now s) < tr_budget (readTier now s)
     \<and> (tr_tier (readTier now s) = Amber \<longrightarrow> scen \<in> set CORE_SCENARIOS)"

lemma tier_open: "tier_rule now (Some scen) s = None \<Longrightarrow> money_open now scen s"
  by (auto simp: tier_rule_def money_open_def readTier_def tierOf_def Let_def split: if_splits)

definition rates_open :: "ms \<Rightarrow> int \<Rightarrow> guard_store \<Rightarrow> bool" where
  "rates_open now n s \<longleftrightarrow>
     (\<exists>q. g_rate s = Some q \<and> now - ar_measured q \<le> ACCOUNT_RATE_STALE_MS
        \<and> fst (rigDials now s) + n + ar_hour q \<le> PAID_DIALS_PER_HOUR
        \<and> snd (rigDials now s) + n + ar_day q \<le> PAID_DIALS_PER_DAY)"

lemma rate_open: "accountRateRule (g_rate s) n now s = None \<Longrightarrow> rates_open now n s"
  by (auto simp: accountRateRule_def rates_open_def Let_def split: option.splits prod.splits if_splits)

lemma admitted_facts:
  assumes "admitPaid cf now w ids n (Some scen) s = (Inr ad, t)" "0 < n"
  shows "\<exists>L rv live. proven_limit cf now s L \<and> g_reserve s = Some rv
           \<and> now - rv_measured rv \<le> RESERVE_STALE_MS
           \<and> ad_liveLegs ad = Some live \<and> 0 \<le> live \<and> live + n + rv_legs rv \<le> L"
    and "requirePaidLanesOpen cf now s = None" and "inWindow now (windowStartHour (g_window s) now)"
    and "rates_open now n s" and "ratioRule (g_ratios s) now = None" and "money_open now scen s"
    and "ad_production ad = Some ProdIdle \<or> ad_production ad = Some ProdAbsent"
proof -
  from assms obtain room live s1 s2 where
    lr: "limit_rules cf now n s = None"
    and rm: "roomFor (limitInForce cf now s) (g_reserve s) now = Some room"
    and tr: "tier_rule now (Some scen) s = None"
    and lv: "liveLegCount now (gw_keyed w) (gw_alive w) s1 = (Inr live, s2)"
    and fit: "live + n \<le> room" and ad: "ad_liveLegs ad = Some live"
    and pr: "ad_production ad = Some ProdIdle \<or> ad_production ad = Some ProdAbsent"
    by (auto simp: admitPaid_def split: option.splits prod.splits sum.splits if_splits production_calls.splits)
  show "requirePaidLanesOpen cf now s = None" "inWindow now (windowStartHour (g_window s) now)"
    "ratioRule (g_ratios s) now = None"
    using lr by (auto simp: limit_rules_def split: option.splits if_splits)
  show "rates_open now n s" "money_open now scen s"
    using lr tr by (auto simp: limit_rules_def intro: rate_open tier_open split: option.splits if_splits)
  show "ad_production ad = Some ProdIdle \<or> ad_production ad = Some ProdAbsent" by (rule pr)
  have "limitRule (limitInForce cf now s) n = None"
    using lr by (auto simp: limit_rules_def split: option.splits)
  then obtain L where L: "proven_limit cf now s L" using limit_admits assms(2) by blast
  obtain rv where rv: "g_reserve s = Some rv" "now - rv_measured rv \<le> RESERVE_STALE_MS"
    "room = roomUnder (limitInForce cf now s) (rv_legs rv)" using roomFor_SomeD [OF rm] by blast
  have "0 \<le> live" using lv count_legs_ge by (auto simp: liveLegCount_def)
  moreover have "live + n + rv_legs rv \<le> L"
    using fit rv(3) L \<open>0 \<le> live\<close> assms(2)
    by (auto simp: roomUnder_def proven_limit_def split: if_splits)
  ultimately show "\<exists>L rv live. proven_limit cf now s L \<and> g_reserve s = Some rv
      \<and> now - rv_measured rv \<le> RESERVE_STALE_MS
      \<and> ad_liveLegs ad = Some live \<and> 0 \<le> live \<and> live + n + rv_legs rv \<le> L"
    using L rv ad by blast
qed

lemma proven_limit_creds [simp]:
  "proven_limit cf now (s\<lparr>g_creds := c, g_sips := p\<rparr>) L = proven_limit cf now s L"
  by (simp add: proven_limit_def limitInForce_def exact_limit_def fresh_history_def freshCeilings_def)

lemma rules_creds [simp]:
  "requirePaidLanesOpen cf now (s\<lparr>g_creds := c, g_sips := p\<rparr>) = requirePaidLanesOpen cf now s"
  "rates_open now n (s\<lparr>g_creds := c, g_sips := p\<rparr>) = rates_open now n s"
  "money_open now scen (s\<lparr>g_creds := c, g_sips := p\<rparr>) = money_open now scen s"
  by (simp_all add: requirePaidLanesOpen_def signal_state_of_def rates_open_def rigDials_def counted_def
      money_open_def readTier_def monthLedger_def spentOn_def)

text \<open>The ends of a new call: an owned number calls owned numbers and the partition's SIP users.\<close>

definition contained_call :: "partition_view \<Rightarrow> json_body \<Rightarrow> bool" where
  "contained_call v b \<longleftrightarrow>
     (\<exists>conn. map_of b ''connection_id'' = Some (JStr conn) \<and> conn \<in> set (dialConnections v))
     \<and> isOwnedNumber v (map_of b ''from'')
     \<and> (\<forall>t \<in> set (targets_of b). isOwnedNumber v t \<or> sipUsername t \<noteq> None)"

lemma allowed_target: "isAllowedCallTarget now keyed w v x s = (Inr True, t) \<Longrightarrow> isOwnedNumber v x \<or> sipUsername x \<noteq> None"
  by (auto simp: isAllowedCallTarget_def split: if_splits option.splits)

lemma all_allowed_targets:
  "all_allowed now keyed w v ts s = (Inr u, t) \<Longrightarrow> \<forall>x \<in> set ts. isOwnedNumber v x \<or> sipUsername x \<noteq> None"
proof (induction ts arbitrary: s)
  case (Cons x xs)
  then show ?case by (auto split: prod.splits sum.splits if_splits dest: allowed_target)
qed simp

lemma create_contained: "create_shape cf now w v b s = (Inr sh, t) \<Longrightarrow> contained_call v b"
  by (auto simp: create_shape_def contained_call_def split: option.splits json.splits if_splits prod.splits
      sum.splits dest!: all_allowed_targets)

text \<open>The balance that admission relied on: read within the cache's age and not under the floor.\<close>

definition balance_proven :: "ms \<Rightarrow> guard_store \<Rightarrow> bool" where
  "balance_proven now t \<longleftrightarrow>
     (\<exists>v read. g_reading t = Some (v, read) \<and> now - read < BALANCE_CACHE_MS \<and> balanceFloor t \<le> v)"

lemma floor_proven: "requireAboveFloor now keyed reply s = (Inr u, t) \<Longrightarrow> balance_proven now t"
  by (auto simp: requireAboveFloor_def readBalance_def balance_proven_def Let_def BALANCE_CACHE_MS_def MINUTE_def
      split: guard_error.splits option.splits prod.splits sum.splits if_splits)

lemma count_legs_balance:
  "count_legs now keyed w es live s = (r, t) \<Longrightarrow> balance_proven now t = balance_proven now s"
proof (induction es arbitrary: live s)
  case (Cons e es)
  have "balance_proven now (markEnded now i s) = balance_proven now s" for i
    by (simp add: balance_proven_def balanceFloor_def markEnded_def put_leg_def split: option.splits)
  with Cons show ?case by (auto split: if_splits option.splits prod.splits)
qed simp

lemma admitted_balance:
  "admitPaid cf now w ids n scen s = (Inr ad, t) \<Longrightarrow> balance_proven now t"
  by (auto simp: admitPaid_def liveLegCount_def dest: floor_proven count_legs_balance
      split: option.splits prod.splits sum.splits if_splits production_calls.splits)

lemma dial_lease:
  "requireDialLease now header caller s = Inr l \<Longrightarrow>
     liveLease now s = Some l \<and> \<not> no_dials l
     \<and> (if truthy header then header = Some (lease_id l) else caller = RigApi)"
  by (auto simp: requireDialLease_def split: if_splits option.splits)


section \<open>Properties\<close>



text \<open>
  C37. However the guard's requests interleave, the dials sent in a UTC day that Telnyx has not
  definitely refused never come to more than eighteen legs, nor those of an hour to more than
  three, and the counters are exactly these sums.
\<close>

theorem dial_caps:
  assumes "gruns cf (started t) y"
  shows "counted (y_store y) ''dials'' d = day_legs d (y_out y) \<and> day_legs d (y_out y) \<le> DIALS_PER_DAY
       \<and> counted (y_store y) ''dials-hour'' h = hour_legs h (y_out y) \<and> hour_legs h (y_out y) \<le> DIALS_PER_HOUR"
  using caps_inv.reached [OF assms] by (simp add: caps_ok_def)

theorem dial_caps_witness:
  "counted rig_twice ''dials'' (dayOf T0) = 2 \<and> counted rig_twice ''dials-hour'' (hourOf T0) = 2"
  using dial_caps [OF rig_overlap, of "dayOf T0" "hourOf T0"]
  by (simp add: rig_sys_def flight_entry_def rig_flight_def one_leg_def)

text \<open>
  C38. The lease excludes. In every reachable state all leases but the newest have expired or
  were released or preempted, and a dial is let through only under the newest, within fifteen
  minutes of its grant.
\<close>

theorem lease_exclusive:
  assumes "gruns cf (started t) y"
  shows "(\<forall>g \<in> set (butlast (y_grants y)). lease_over y g)
       \<and> (\<forall>header caller l. requireDialLease (y_now y) header caller (y_store y) = Inr l \<longrightarrow>
            y_grants y \<noteq> [] \<and> grant_of (last (y_grants y)) l
            \<and> acquired_at l \<le> y_now y \<and> y_now y < acquired_at l + LEASE_MAX_MS)"
proof -
  have inv: "lease_inv y" using lease_invariant.reached [OF assms] .
  have "y_grants y \<noteq> [] \<and> grant_of (last (y_grants y)) l \<and> acquired_at l \<le> y_now y
      \<and> y_now y < acquired_at l + LEASE_MAX_MS"
    if "requireDialLease (y_now y) header caller (y_store y) = Inr l" for header caller l
  proof -
    have live: "liveLease (y_now y) (y_store y) = Some l" using dial_lease [OF that] by blast
    then have st: "g_lease (y_store y) = Some l" by (rule liveLease_stored)
    moreover have "y_now y < expires_ms l" using live by (auto simp: liveLease_def st split: if_splits)
    ultimately show ?thesis using inv last_in_set [of "y_grants y"]
      by (force simp: lease_inv_def grant_of_def)
  qed
  then show ?thesis using inv by (simp add: lease_inv_def)
qed

theorem lease_exclusive_witness:
  "requireDialLease T0 None RigApi rig_twice = Inr rig_lease \<and> grant_of rig_lease rig_lease
   \<and> T0 < acquired_at rig_lease + LEASE_MAX_MS"
proof -
  have "g_lease rig_twice = Some rig_lease"
    by (simp add: rig_twice_def rig_fields frame_simps)
  then have "requireDialLease T0 None RigApi rig_twice = Inr rig_lease"
    by (simp add: requireDialLease_def liveLease_def rig_lease_def set_ms_def LEASE_MAX_MS_def)
  then show ?thesis using lease_exclusive [OF rig_overlap] by (fastforce simp: rig_sys_def)
qed



end
