(* ===== verification/Prepay_Ledger.thy ===== *)
theory Prepay_Ledger
  imports Prelude
begin

text \<open>
  The record of a prepaid year: the \<open>prepayments\<close> table and the SQL functions that are its only
  readers and writers (\<open>supabase/migrations\<close>: \<open>claim_prepayment\<close>, \<open>stamp_prepayment\<close>,
  \<open>revoke_prepayment\<close>, \<open>open_prepayment\<close>, \<open>convert_prepayment\<close> and its preview,
  \<open>stamp_prepayment_credit\<close>, \<open>prepayments_awaiting_credit\<close>). A function call is one transaction,
  so each is one definition from the table and the clock \<open>now()\<close> to its answer and the table.

  Calendar steps differ between the two languages of the feature: Postgres' \<open>make_interval\<close>
  keeps within the month (31 January and a month is the last of February, with the session's time
  zone taken as UTC), JavaScript's \<open>setUTCMonth\<close> runs over (it is 2 or 3 March).
\<close>

section \<open>Calendar months\<close>

definition month_days :: "int \<Rightarrow> int \<Rightarrow> int" where
  "month_days y m = (if m = 12 then days_from_civil (y + 1) 1 1 else days_from_civil y (m + 1) 1)
                    - days_from_civil y m 1"

text \<open>\<open>t + make_interval(months => n)\<close>.\<close>

definition add_months_pg :: "ms \<Rightarrow> int \<Rightarrow> ms" where
  "add_months_pg t n =
     (let (y, m, d) = civil_from_days (t div day_ms);
          k = m - 1 + n;
          y' = y + k div 12;
          m' = k mod 12 + 1
      in days_from_civil y' m' (min d (month_days y' m')) * day_ms + t mod day_ms)"

text \<open>\<open>d.setUTCMonth(d.getUTCMonth() + n)\<close>.\<close>

definition add_months_js :: "ms \<Rightarrow> int \<Rightarrow> ms" where
  "add_months_js t n =
     (let (y, m, d) = civil_from_days (t div day_ms);
          k = m - 1 + n
      in days_from_civil (y + k div 12) (k mod 12 + 1) d * day_ms + t mod day_ms)"


section \<open>The table\<close>

record prepayment =
  pp_id :: string
  pp_company :: string
  pp_session :: string
  pp_plan :: string
  pp_amount :: int
  pp_currency :: string
  pp_months :: nat
  pp_discount :: "string option"
  pp_granted :: "ms option"
  pp_through :: "ms option"
  pp_revoked :: "ms option"
  pp_reason :: "string option"
  pp_intent :: "string option"
  pp_converted :: "ms option"
  pp_toPlan :: "string option"
  pp_credit :: "int option"
  pp_credited :: "ms option"
  pp_txn :: "string option"

type_synonym ledger = "prepayment list"

text \<open>The unique keys of the table: the session and the primary key.\<close>

definition of_session :: "string \<Rightarrow> prepayment \<Rightarrow> bool" where
  "of_session s p \<longleftrightarrow> pp_session p = s"

definition of_id :: "string \<Rightarrow> prepayment \<Rightarrow> bool" where
  "of_id i p \<longleftrightarrow> pp_id p = i"

text \<open>
  \<open>claim_prepayment\<close>. \<open>ClaimError\<close> is an insert that violates a check or the primary key; the
  conflict on the session is the one the statement does nothing on.
\<close>

datatype claim_outcome = Claimed | Resume | AlreadyGranted | AlreadyRevoked | ClaimError

definition claim_prepayment ::
  "string \<Rightarrow> string \<Rightarrow> string \<Rightarrow> string \<Rightarrow> int \<Rightarrow> string option \<Rightarrow> nat \<Rightarrow> string option
     \<Rightarrow> ledger \<Rightarrow> claim_outcome \<times> ledger" where
  "claim_prepayment uuid company session plan amount currency months intent t =
     (case List.find (of_session session) t of
        Some p \<Rightarrow>
          (if pp_revoked p \<noteq> None then AlreadyRevoked
           else if pp_granted p = None then Resume
           else AlreadyGranted, t)
      | None \<Rightarrow>
          if amount \<le> 0 \<or> months = 0 \<or> List.find (of_id uuid) t \<noteq> None then (ClaimError, t)
          else (Claimed, t @ [\<lparr>pp_id = uuid, pp_company = company, pp_session = session, pp_plan = plan,
                 pp_amount = amount, pp_currency = (case currency of None \<Rightarrow> ''usd'' | Some c \<Rightarrow> c),
                 pp_months = months, pp_discount = None, pp_granted = None, pp_through = None,
                 pp_revoked = None, pp_reason = None, pp_intent = intent, pp_converted = None,
                 pp_toPlan = None, pp_credit = None, pp_credited = None, pp_txn = None\<rparr>]))"

text \<open>\<open>stamp_prepayment\<close>: the second stamp of a session is a no-op.\<close>

definition stamp_prepayment :: "ms \<Rightarrow> string \<Rightarrow> string \<Rightarrow> ms \<Rightarrow> ledger \<Rightarrow> ledger" where
  "stamp_prepayment now session discount through =
     map (\<lambda>p. if pp_session p = session \<and> pp_granted p = None
              then p\<lparr>pp_discount := Some discount, pp_granted := Some now, pp_through := Some through\<rparr> else p)"

text \<open>\<open>revoke_prepayment\<close>: the company whose year was taken back, or \<open>None\<close> for \<open>noop\<close>.\<close>

definition revocable :: "string \<Rightarrow> prepayment \<Rightarrow> bool" where
  "revocable session p \<longleftrightarrow> pp_session p = session \<and> pp_revoked p = None"

definition revoke_prepayment :: "ms \<Rightarrow> string \<Rightarrow> string \<Rightarrow> ledger \<Rightarrow> string option \<times> ledger" where
  "revoke_prepayment now session reason t =
     (map_option pp_company (List.find (revocable session) t),
      update_first (revocable session) (\<lambda>p. p\<lparr>pp_revoked := Some now, pp_reason := Some reason\<rparr>) t)"

text \<open>
  The open window of a company: granted, not revoked, and still running. Of several the one that
  runs longest; the first of those in the table where SQL leaves the choice open.
\<close>

definition window_open :: "ms \<Rightarrow> string \<Rightarrow> prepayment \<Rightarrow> bool" where
  "window_open now company p \<longleftrightarrow>
     pp_company p = company \<and> pp_granted p \<noteq> None \<and> pp_revoked p = None
     \<and> (case pp_through p of None \<Rightarrow> False | Some th \<Rightarrow> now < th)"

fun latest :: "prepayment option \<Rightarrow> ledger \<Rightarrow> prepayment option" where
  "latest best [] = best"
| "latest None (p # ps) = latest (Some p) ps"
| "latest (Some b) (p # ps) =
     latest (Some (if the (pp_through b) < the (pp_through p) then p else b)) ps"

definition open_prepayment :: "ms \<Rightarrow> string \<Rightarrow> ledger \<Rightarrow> prepayment option" where
  "open_prepayment now company t = latest None (filter (window_open now company) t)"

text \<open>Whole months of the year that have passed, and what the rest is worth.\<close>

definition consumed_months :: "ms \<Rightarrow> prepayment \<Rightarrow> nat" where
  "consumed_months now p =
     (case pp_granted p of
        None \<Rightarrow> 0
      | Some g \<Rightarrow> length (filter (\<lambda>m. add_months_pg g (int m) \<le> now) [1..<Suc (pp_months p)]))"

definition conversion_credit :: "ms \<Rightarrow> prepayment \<Rightarrow> int" where
  "conversion_credit now p =
     max 0 (pp_amount p - pp_amount p * int (consumed_months now p) div int (pp_months p))"

text \<open>\<open>convert_prepayment\<close>: the row as it was converted, or \<open>None\<close> for \<open>noop\<close>.\<close>

definition convert_row :: "ms \<Rightarrow> string \<Rightarrow> prepayment \<Rightarrow> prepayment" where
  "convert_row now toPlan p =
     p\<lparr>pp_converted := Some now, pp_toPlan := Some toPlan, pp_credit := Some (conversion_credit now p),
       pp_revoked := Some now, pp_reason := Some (''converted_to_'' @ toPlan)\<rparr>"

definition convert_prepayment :: "ms \<Rightarrow> string \<Rightarrow> string \<Rightarrow> ledger \<Rightarrow> prepayment option \<times> ledger" where
  "convert_prepayment now company toPlan t =
     (case open_prepayment now company t of
        None \<Rightarrow> (None, t)
      | Some p \<Rightarrow>
          (Some (convert_row now toPlan p),
           map (\<lambda>q. if pp_id q = pp_id p then convert_row now toPlan q else q) t))"

text \<open>\<open>prepayment_conversion_preview\<close>: the consumed months and the credit of the open window.\<close>

definition conversion_preview :: "ms \<Rightarrow> string \<Rightarrow> ledger \<Rightarrow> (prepayment \<times> nat \<times> int) option" where
  "conversion_preview now company t =
     map_option (\<lambda>p. (p, consumed_months now p, conversion_credit now p)) (open_prepayment now company t)"

definition stamp_prepayment_credit :: "ms \<Rightarrow> string \<Rightarrow> string \<Rightarrow> ledger \<Rightarrow> ledger" where
  "stamp_prepayment_credit now i txn =
     map (\<lambda>p. if pp_id p = i \<and> pp_credited p = None
              then p\<lparr>pp_credited := Some now, pp_txn := Some txn\<rparr> else p)"

text \<open>
  \<open>prepayments_awaiting_credit\<close>, oldest conversion first and never more than 200; the caller asks for 50.
\<close>

definition awaiting_credit :: "prepayment \<Rightarrow> bool" where
  "awaiting_credit p \<longleftrightarrow> pp_converted p \<noteq> None \<and> pp_credited p = None
     \<and> (case pp_credit p of None \<Rightarrow> False | Some c \<Rightarrow> 0 < c)"

definition prepayments_awaiting_credit :: "nat \<Rightarrow> ledger \<Rightarrow> ledger" where
  "prepayments_awaiting_credit limit t =
     take (min (max limit 1) 200) (sort_key (\<lambda>p. the (pp_converted p)) (filter awaiting_credit t))"

definition prepayment_for_payment_intent :: "string \<Rightarrow> ledger \<Rightarrow> string option" where
  "prepayment_for_payment_intent i t =
     map_option pp_session (List.find (\<lambda>p. pp_intent p = Some i \<and> pp_revoked p = None) t)"


section \<open>What a window and its credit are\<close>

lemma latest_in: "latest best ps = Some p \<Longrightarrow> best = Some p \<or> p \<in> set ps"
  by (induction best ps rule: latest.induct) (auto split: if_splits)

lemma latest_max:
  "latest best ps = Some p \<Longrightarrow>
     (\<forall>q \<in> set ps. the (pp_through q) \<le> the (pp_through p))
     \<and> (\<forall>b. best = Some b \<longrightarrow> the (pp_through b) \<le> the (pp_through p))"
  by (induction best ps rule: latest.induct) (fastforce split: if_splits)+

lemma latest_kept: "latest (Some b) ps \<noteq> None"
  by (induction "Some b" ps arbitrary: b rule: latest.induct) auto

lemma latest_None: "latest None ps = None \<longleftrightarrow> ps = []"
  using latest_kept by (cases ps) auto

lemma open_prepayment_SomeD:
  assumes "open_prepayment now c t = Some p"
  shows "p \<in> set t \<and> window_open now c p
       \<and> (\<forall>q \<in> set t. window_open now c q \<longrightarrow> the (pp_through q) \<le> the (pp_through p))"
  using latest_in [OF assms [unfolded open_prepayment_def]] latest_max [OF assms [unfolded open_prepayment_def]]
  by auto

lemma open_prepayment_None:
  "open_prepayment now c t = None \<longleftrightarrow> (\<forall>p \<in> set t. \<not> window_open now c p)"
  by (auto simp: open_prepayment_def latest_None filter_empty_conv)

lemma consumed_le_months: "consumed_months now p \<le> pp_months p"
  using length_filter_le [of _ "[1..<Suc (pp_months p)]"]
  by (auto simp: consumed_months_def simp del: upt_Suc split: option.split intro: le_trans)

lemma length_filter_mono:
  "(\<And>x. x \<in> set xs \<Longrightarrow> P x \<Longrightarrow> Q x) \<Longrightarrow> length (filter P xs) \<le> length (filter Q xs)"
  by (induction xs) (auto simp: le_Suc_eq)

lemma consumed_mono: "now \<le> now' \<Longrightarrow> consumed_months now p \<le> consumed_months now' p"
  by (auto simp: consumed_months_def simp del: upt_Suc split: option.split intro: length_filter_mono)

lemma credit_nonneg: "0 \<le> conversion_credit now p"
  by (simp add: conversion_credit_def)

lemma credit_le_amount: "0 \<le> pp_amount p \<Longrightarrow> conversion_credit now p \<le> pp_amount p"
  by (simp add: conversion_credit_def pos_imp_zdiv_nonneg_iff div_int_pos_iff)

lemma credit_antimono:
  assumes "now \<le> now'" "0 \<le> pp_amount p"
  shows "conversion_credit now' p \<le> conversion_credit now p"
proof -
  have "pp_amount p * int (consumed_months now p) div int (pp_months p)
      \<le> pp_amount p * int (consumed_months now' p) div int (pp_months p)"
    using consumed_mono [OF assms(1), of p] assms(2)
    by (cases "pp_months p = 0") (auto intro!: zdiv_mono1 mult_left_mono)
  then show ?thesis by (simp add: conversion_credit_def)
qed

text \<open>The customer keeps at least the untaken share, and less than a cent more.\<close>

lemma credit_share:
  assumes "0 < pp_amount p" "0 < pp_months p"
  shows "pp_amount p * int (pp_months p - consumed_months now p) \<le> conversion_credit now p * int (pp_months p)"
    and "conversion_credit now p * int (pp_months p)
           < pp_amount p * int (pp_months p - consumed_months now p) + int (pp_months p)"
proof -
  let ?m = "int (pp_months p)" and ?k = "int (consumed_months now p)" and ?a = "pp_amount p"
  have km: "?k \<le> ?m" using consumed_le_months by simp
  have m: "0 < ?m" using assms by simp
  have dm: "?a * ?k div ?m * ?m + ?a * ?k mod ?m = ?a * ?k" by simp
  have r: "0 \<le> ?a * ?k mod ?m" "?a * ?k mod ?m < ?m" using m by simp_all
  have "?a * ?k \<le> ?a * ?m" using km assms by simp
  then have "?a * ?k div ?m \<le> ?a" using m by (metis dm nonzero_mult_div_cancel_right less_irrefl zdiv_mono1)
  then have c: "conversion_credit now p = ?a - ?a * ?k div ?m" by (simp add: conversion_credit_def)
  have d: "int (pp_months p - consumed_months now p) = ?m - ?k" using consumed_le_months by (simp add: of_nat_diff)
  have e: "(?a - ?a * ?k div ?m) * ?m = ?a * ?m - ?a * ?k + ?a * ?k mod ?m"
    unfolding left_diff_distrib using dm by linarith
  show "?a * int (pp_months p - consumed_months now p) \<le> conversion_credit now p * ?m"
    unfolding c d e using r by (simp add: right_diff_distrib)
  show "conversion_credit now p * ?m < ?a * int (pp_months p - consumed_months now p) + ?m"
    unfolding c d e using r by (simp add: right_diff_distrib)
qed

end
