(* ===== verification/Prepay_Grants.thy ===== *)
theory Prepay_Grants
  imports Prepay_Ledger
begin

text \<open>
  The prepaid year in \<open>apps/api/src/billing/prepay.ts\<close>: who may buy one, its delivery as a coupon
  on the licensed subscription item, its revocation, its conversion into credit, the repair of a
  coupon that went missing, and the sweep of credits that never reached Stripe; with the gates of
  \<open>billing/pause.ts\<close> and of the plan change in \<open>routes/billing.ts\<close>.

  Stripe is not modelled. What it returns is an argument (\<open>subscription\<close>, a looked-up
  subscription id), and what it is sent is a \<open>stripe_write\<close> with the idempotency key it carries.
  A function that writes to Stripe is cut where it awaits, into the part before and after.
\<close>

section \<open>Configuration and Stripe's objects\<close>

record billing_env =
  be_starter :: string
  be_pro :: string
  be_starterYear :: "string option"
  be_proYear :: "string option"
  be_pause :: "string option"
  be_yearCoupon :: "string option"
  be_referralCoupon :: "string option"

datatype coupon_ref = CouponString string | CouponObject "string option" | NoCouponField

datatype discount_ref = BareDiscount string | DiscountObject "string option" coupon_ref

record sub_item =
  si_id :: string
  si_price :: string
  si_discounts :: "discount_ref list"
  si_periodEnd :: "int option"

record subscription =
  sub_id :: string
  sub_status :: string
  sub_schedule :: bool
  sub_items :: "sub_item list"

datatype stripe_write =
    SetDiscounts string string "string option" "string list" string
  | ClearDiscounts string string
  | CreateCoupon string nat
  | BalanceCredit string int string string

definition PREPAY_MONTHS :: nat where "PREPAY_MONTHS = 12"

definition planForLicensedPrice :: "billing_env \<Rightarrow> string \<Rightarrow> string option" where
  "planForLicensedPrice env price =
     (if price = be_starter env then Some ''starter'' else if price = be_pro env then Some ''pro'' else None)"

definition licensedPrice :: "billing_env \<Rightarrow> string \<Rightarrow> string" where
  "licensedPrice env plan = (if plan = ''starter'' then be_starter env else be_pro env)"

definition pauseLicensedPrice :: "billing_env \<Rightarrow> string option" where
  "pauseLicensedPrice env = (if truthy (be_pause env) then be_pause env else None)"

definition isPauseLicensedPrice :: "billing_env \<Rightarrow> string \<Rightarrow> bool" where
  "isPauseLicensedPrice env price \<longleftrightarrow> pauseLicensedPrice env = Some price"

definition prepayYearPrice :: "billing_env \<Rightarrow> string \<Rightarrow> string option" where
  "prepayYearPrice env plan =
     (let i = if plan = ''starter'' then be_starterYear env else be_proYear env
      in if truthy i then i else None)"

definition licensedItemOf :: "billing_env \<Rightarrow> subscription \<Rightarrow> sub_item option" where
  "licensedItemOf env sub = List.find (\<lambda>i. planForLicensedPrice env (si_price i) \<noteq> None) (sub_items sub)"


section \<open>Coupons on an item\<close>

fun is_coupon :: "string \<Rightarrow> discount_ref \<Rightarrow> bool" where
  "is_coupon c (BareDiscount d) = (d = c)"
| "is_coupon c (DiscountObject i (CouponString s)) = (s = c)"
| "is_coupon c (DiscountObject i (CouponObject j)) = (if truthy j then j = Some c else i = Some c)"
| "is_coupon c (DiscountObject i NoCouponField) = (i = Some c)"

definition itemHasDiscount :: "sub_item \<Rightarrow> string option \<Rightarrow> bool" where
  "itemHasDiscount item coupon = (truthy coupon \<and> list_ex (is_coupon (the coupon)) (si_discounts item))"

definition prepaidRemainderCouponId :: "billing_env \<Rightarrow> nat \<Rightarrow> string option" where
  "prepaidRemainderCouponId env months =
     (if \<not> truthy (be_yearCoupon env) then None
      else if months < 1 \<or> months > PREPAY_MONTHS then None
      else if months = PREPAY_MONTHS then be_yearCoupon env
      else Some (the (be_yearCoupon env) @ ''_remainder_'' @ show_nat months))"

definition prepaidCouponIds :: "billing_env \<Rightarrow> string list" where
  "prepaidCouponIds env =
     (if \<not> truthy (be_yearCoupon env) then []
      else map (\<lambda>n. the (prepaidRemainderCouponId env n)) [1..<Suc PREPAY_MONTHS])"

definition itemHasPrepaidCoupon :: "billing_env \<Rightarrow> sub_item \<Rightarrow> bool" where
  "itemHasPrepaidCoupon env item = list_ex (\<lambda>c. itemHasDiscount item (Some c)) (prepaidCouponIds env)"

definition referralMonthPending :: "billing_env \<Rightarrow> subscription option \<Rightarrow> bool" where
  "referralMonthPending env sub =
     (case sub of None \<Rightarrow> False
      | Some s \<Rightarrow> (case licensedItemOf env s of None \<Rightarrow> False
                 | Some i \<Rightarrow> itemHasDiscount i (be_referralCoupon env)))"

definition prepaidCouponPending :: "billing_env \<Rightarrow> subscription option \<Rightarrow> bool" where
  "prepaidCouponPending env sub =
     (case sub of None \<Rightarrow> False
      | Some s \<Rightarrow> (case licensedItemOf env s of None \<Rightarrow> False | Some i \<Rightarrow> itemHasPrepaidCoupon env i))"

definition carried_referral :: "billing_env \<Rightarrow> sub_item \<Rightarrow> string list" where
  "carried_referral env item =
     (if itemHasDiscount item (be_referralCoupon env) then [the (be_referralCoupon env)] else [])"


section \<open>Eligibility\<close>

datatype prepay_reason = NotProvisioned | NoSubscriptionYet | SubscriptionUnhealthy | NotActivated
  | AlreadyPrepaid | PlanChangePending | ReferralMonthPending | WorkspacePaused | CurrencyUnavailable
  | AlreadyPaused | PrepaidCouponOrphaned

record prepay_company =
  pc_id :: string
  pc_plan :: "string option"
  pc_status :: "string option"
  pc_customer :: "string option"
  pc_subscription :: "string option"
  pc_paused :: "ms option"
  pc_currency :: "string option"

definition billingCurrencyOf :: "string option \<Rightarrow> string" where
  "billingCurrencyOf v = (if v = Some ''cad'' then ''cad'' else ''usd'')"

definition PLAN_PRICE_CENTS :: "string \<Rightarrow> string \<Rightarrow> int" where
  "PLAN_PRICE_CENTS currency plan =
     (if currency = ''usd'' then (if plan = ''starter'' then 2900 else 7900)
      else (if plan = ''starter'' then 3900 else 10900))"

definition PREPAY_MONTHS_CHARGED :: int where "PREPAY_MONTHS_CHARGED = 10"

definition PLAN_PREPAY_YEAR_CENTS :: "string \<Rightarrow> string \<Rightarrow> int" where
  "PLAN_PREPAY_YEAR_CENTS currency plan = PLAN_PRICE_CENTS currency plan * PREPAY_MONTHS_CHARGED"

text \<open>
  \<open>canCharge\<close>: whether the catalog's price carries the currency. \<open>hasSent\<close>: the activation probe.
  The price is absent from the answer where the source leaves it out.
\<close>

definition prepayEligibility ::
  "billing_env \<Rightarrow> ms \<Rightarrow> bool \<Rightarrow> bool \<Rightarrow> prepay_company \<Rightarrow> subscription option \<Rightarrow> ledger
     \<Rightarrow> prepay_reason option \<times> int option \<times> string" where
  "prepayEligibility env now canCharge hasSent co sub t =
     (let wanted = billingCurrencyOf (pc_currency co) in
      case pc_plan co of
        None \<Rightarrow> (Some NoSubscriptionYet, None, wanted)
      | Some plan \<Rightarrow>
        let price = Some (PLAN_PREPAY_YEAR_CENTS wanted plan) in
        if \<not> truthy (pc_subscription co) then (Some NoSubscriptionYet, None, wanted)
        else if prepayYearPrice env plan = None \<or> \<not> truthy (be_yearCoupon env) then (Some NotProvisioned, None, wanted)
        else if \<not> (wanted = ''usd'' \<or> canCharge) then (Some CurrencyUnavailable, None, wanted)
        else if pc_status co \<noteq> Some ''active'' then (Some SubscriptionUnhealthy, price, wanted)
        else if pc_paused co \<noteq> None then (Some WorkspacePaused, price, wanted)
        else if open_prepayment now (pc_id co) t \<noteq> None then (Some AlreadyPrepaid, price, wanted)
        else if (case sub of None \<Rightarrow> False | Some s \<Rightarrow> sub_schedule s) then (Some PlanChangePending, price, wanted)
        else if referralMonthPending env sub then (Some ReferralMonthPending, price, wanted)
        else if \<not> hasSent then (Some NotActivated, price, wanted)
        else (None, price, wanted))"

definition pauseEligibility ::
  "billing_env \<Rightarrow> ms \<Rightarrow> prepay_company \<Rightarrow> subscription option \<Rightarrow> ledger \<Rightarrow> prepay_reason option" where
  "pauseEligibility env now co sub t =
     (if pauseLicensedPrice env = None then Some NotProvisioned
      else if pc_plan co = None \<or> \<not> truthy (pc_subscription co) then Some NoSubscriptionYet
      else if pc_paused co \<noteq> None then Some AlreadyPaused
      else if pc_status co \<noteq> Some ''active'' then Some SubscriptionUnhealthy
      else if (case sub of None \<Rightarrow> False | Some s \<Rightarrow> sub_schedule s) then Some PlanChangePending
      else if referralMonthPending env sub then Some ReferralMonthPending
      else if open_prepayment now (pc_id co) t \<noteq> None then Some AlreadyPrepaid
      else if prepaidCouponPending env sub then Some PrepaidCouponOrphaned
      else None)"


section \<open>Delivery\<close>

record checkout =
  ck_id :: string
  ck_mode :: string
  ck_company :: "string option"
  ck_metadata :: "(string \<times> string) list"
  ck_amount :: "int option"
  ck_currency :: "string option"
  ck_intent :: "string option"

datatype prepay_error = NoReference | NoPlan | NothingCollected | ClaimFailed | NoSubscription
  | NoLicensedItem | NoCoupon

datatype grant_answer = Proceed | Already | Revoked

definition isPrepayCheckout :: "checkout \<Rightarrow> bool" where
  "isPrepayCheckout ck \<longleftrightarrow>
     ck_mode ck = ''payment'' \<and> map_of (ck_metadata ck) ''loonext_kind'' = Some ''prepaid_year''"

definition ck_plan :: "checkout \<Rightarrow> string option" where
  "ck_plan ck = map_of (ck_metadata ck) ''loonext_plan''"

text \<open>\<open>grantPrepaidYear\<close> up to the claim.\<close>

definition grant_claim :: "string \<Rightarrow> checkout \<Rightarrow> ledger \<Rightarrow> (prepay_error + grant_answer) \<times> ledger" where
  "grant_claim uuid ck t =
     (if \<not> truthy (ck_company ck) then (Inl NoReference, t)
      else if ck_plan ck \<noteq> Some ''starter'' \<and> ck_plan ck \<noteq> Some ''pro'' then (Inl NoPlan, t)
      else let amount = (case ck_amount ck of None \<Rightarrow> 0 | Some a \<Rightarrow> a)
      in if amount \<le> 0 then (Inl NothingCollected, t)
      else case claim_prepayment uuid (the (ck_company ck)) (ck_id ck) (the (ck_plan ck)) amount
                  (ck_currency ck) PREPAY_MONTHS (ck_intent ck) t of
          (AlreadyGranted, t') \<Rightarrow> (Inr Already, t')
        | (AlreadyRevoked, t') \<Rightarrow> (Inr Revoked, t')
        | (ClaimError, t') \<Rightarrow> (Inl ClaimFailed, t')
        | (_, t') \<Rightarrow> (Inr Proceed, t'))"

definition grant_key :: "string \<Rightarrow> string" where
  "grant_key s = ''prepay_grant:'' @ s"

text \<open>
  The item the coupon goes on: the licensed one, or the held one of a paused subscription together
  with the plan price that lifts the pause.
\<close>

definition grant_item :: "billing_env \<Rightarrow> string \<Rightarrow> subscription \<Rightarrow> (sub_item \<times> string option) option" where
  "grant_item env plan sub =
     (case licensedItemOf env sub of
        Some i \<Rightarrow> Some (i, None)
      | None \<Rightarrow> map_option (\<lambda>i. (i, Some (licensedPrice env plan)))
                  (List.find (\<lambda>i. isPauseLicensedPrice env (si_price i)) (sub_items sub)))"

text \<open>From the looked-up subscription to the write, if one is needed, and whether it lifts a pause.\<close>

definition grant_write ::
  "billing_env \<Rightarrow> checkout \<Rightarrow> string option \<Rightarrow> subscription \<Rightarrow> prepay_error + stripe_write list \<times> bool" where
  "grant_write env ck sid sub =
     (if \<not> truthy sid then Inl NoSubscription
      else case grant_item env (the (ck_plan ck)) sub of
        None \<Rightarrow> Inl NoLicensedItem
      | Some (i, resume) \<Rightarrow>
          if \<not> truthy (be_yearCoupon env) then Inl NoCoupon
          else Inr (if \<not> itemHasDiscount i (be_yearCoupon env) \<or> resume \<noteq> None
                    then [SetDiscounts (the sid) (si_id i) resume
                            (carried_referral env i @ [the (be_yearCoupon env)]) (grant_key (ck_id ck))]
                    else [], resume \<noteq> None))"

text \<open>The stamp after the write. That it failed is only logged.\<close>

definition grant_stamp :: "billing_env \<Rightarrow> ms \<Rightarrow> checkout \<Rightarrow> ledger \<Rightarrow> ledger" where
  "grant_stamp env now ck t =
     stamp_prepayment now (ck_id ck) (the (be_yearCoupon env)) (add_months_js now (int PREPAY_MONTHS)) t"


section \<open>Taking the year back\<close>

text \<open>\<open>clearItemDiscounts\<close> on the licensed item, where the company has a subscription with one.\<close>

definition clear_writes :: "billing_env \<Rightarrow> string option \<Rightarrow> subscription \<Rightarrow> stripe_write list" where
  "clear_writes env sid sub =
     (if \<not> truthy sid then []
      else case licensedItemOf env sub of None \<Rightarrow> [] | Some i \<Rightarrow> [ClearDiscounts (the sid) (si_id i)])"

text \<open>\<open>revokePrepaidYear\<close> up to Stripe: \<open>None\<close> is \<open>noop\<close>.\<close>

definition revokePrepaidYear :: "ms \<Rightarrow> string \<Rightarrow> string \<Rightarrow> ledger \<Rightarrow> string option \<times> ledger" where
  "revokePrepaidYear now session reason t =
     (case revoke_prepayment now session reason t of
        (Some company, t') \<Rightarrow> (if company = [] then None else Some company, t')
      | (None, t') \<Rightarrow> (None, t'))"

definition revokePrepaidYearForPaymentIntent ::
  "ms \<Rightarrow> string \<Rightarrow> string \<Rightarrow> ledger \<Rightarrow> string option \<times> ledger" where
  "revokePrepaidYearForPaymentIntent now intent reason t =
     (case prepayment_for_payment_intent intent t of
        None \<Rightarrow> (None, t)
      | Some session \<Rightarrow> if session = [] then (None, t) else revokePrepaidYear now session reason t)"

definition credit_key :: "string \<Rightarrow> string" where
  "credit_key i = ''prepay-credit:'' @ i"

text \<open>The money of a conversion, as the inline path and the sweep both send it.\<close>

definition credit_write :: "string option \<Rightarrow> string \<Rightarrow> int \<Rightarrow> string \<Rightarrow> stripe_write option" where
  "credit_write customer i cents currency =
     (if cents \<le> 0 \<or> \<not> truthy customer then None
      else Some (BalanceCredit (the customer) (- cents) currency (credit_key i)))"


section \<open>Putting a missing coupon back\<close>

fun count_invoices :: "nat \<Rightarrow> ms \<Rightarrow> ms \<Rightarrow> nat" where
  "count_invoices 0 t closes = 0"
| "count_invoices (Suc n) t closes =
     (if t < closes then Suc (count_invoices n (add_months_js t 1) closes) else 0)"

definition remainingPrepaidInvoices :: "int option \<Rightarrow> ms option \<Rightarrow> nat" where
  "remainingPrepaidInvoices periodEnd through =
     (case (periodEnd, through) of
        (Some e, Some closes) \<Rightarrow> if e = 0 then 0 else count_invoices PREPAY_MONTHS (e * 1000) closes
      | _ \<Rightarrow> 0)"

definition reassert_key :: "string \<Rightarrow> nat \<Rightarrow> string" where
  "reassert_key s n = ''prepay_reassert:'' @ s @ '':'' @ show_nat n"

text \<open>
  \<open>ensurePrepaidDiscount\<close> up to the coupon's lookup: the year's row, the item, and the coupon of the
  length that is left. Then the write, which carries a referral month through.
\<close>

definition ensure_read ::
  "billing_env \<Rightarrow> ms \<Rightarrow> string \<Rightarrow> subscription \<Rightarrow> ledger \<Rightarrow> (prepayment \<times> sub_item \<times> nat \<times> string) option" where
  "ensure_read env now company sub t =
     (if sub_status sub \<notin> {''active'', ''past_due'', ''unpaid'', ''trialing''} then None
      else if sub_schedule sub then None
      else case open_prepayment now company t of
        None \<Rightarrow> None
      | Some p \<Rightarrow>
        case licensedItemOf env sub of
          None \<Rightarrow> None
        | Some i \<Rightarrow>
          if itemHasPrepaidCoupon env i then None
          else let months = remainingPrepaidInvoices (si_periodEnd i) (pp_through p)
               in if months < 1 then None
                  else map_option (\<lambda>c. (p, i, months, c)) (prepaidRemainderCouponId env months))"

definition ensure_write :: "billing_env \<Rightarrow> string \<Rightarrow> prepayment \<times> sub_item \<times> nat \<times> string \<Rightarrow> stripe_write" where
  "ensure_write env sid = (\<lambda>(p, i, months, c).
     SetDiscounts sid (si_id i) None (carried_referral env i @ [c]) (reassert_key (pp_session p) months))"


section \<open>The plan change\<close>

datatype plan_gate =
    AskConsent "int option"
  | CurrencyMismatch
  | CouponStillThere "prepayment option"
  | Reprice "prepayment option"

text \<open>
  What \<open>POST /change-plan\<close> does about a prepaid year before it touches a price: \<open>sub\<close> is the
  subscription it retrieved at its start, and the conversion writes the row first.
\<close>

definition change_plan_gate ::
  "billing_env \<Rightarrow> ms \<Rightarrow> prepay_company \<Rightarrow> string \<Rightarrow> bool \<Rightarrow> subscription \<Rightarrow> ledger \<Rightarrow> plan_gate \<times> ledger" where
  "change_plan_gate env now co target consent sub t =
     (let check = (\<lambda>conv. if prepaidCouponPending env (Some sub) then CouponStillThere conv else Reprice conv) in
      case open_prepayment now (pc_id co) t of
        None \<Rightarrow> (check None, t)
      | Some p \<Rightarrow>
          let preview = conversion_preview now (pc_id co) t in
          if \<not> consent then (AskConsent (map_option (\<lambda>(_, _, c). c) preview), t)
          else if (case preview of None \<Rightarrow> False
                   | Some (q, _, c) \<Rightarrow> 0 < c \<and> billingCurrencyOf (Some (pp_currency q)) \<noteq> billingCurrencyOf (pc_currency co))
          then (CurrencyMismatch, t)
          else let (conv, t') = convert_prepayment now (pc_id co) target t in (check conv, t'))"


section \<open>What a year is worth a month\<close>

definition round_half_up :: "rat \<Rightarrow> int" where
  "round_half_up v = \<lfloor>v + 1 / 2\<rfloor>"

definition usdCentsOf :: "int \<Rightarrow> string \<Rightarrow> int" where
  "usdCentsOf cents currency =
     (if currency = ''usd'' then cents else round_half_up (of_int cents * (72 / 100)))"

definition amortisedMonthlyUsdCents :: "prepayment option \<Rightarrow> int \<Rightarrow> int" where
  "amortisedMonthlyUsdCents p listCents =
     (case p of
        None \<Rightarrow> listCents
      | Some q \<Rightarrow> if pp_months q = 0 then listCents
                  else round_half_up (of_int (usdCentsOf (pp_amount q) (billingCurrencyOf (Some (pp_currency q))))
                                      / of_nat (pp_months q)))"


section \<open>Facts\<close>

lemma prepaid_coupon_id_mem:
  "prepaidRemainderCouponId env n = Some c \<Longrightarrow> c \<in> set (prepaidCouponIds env) \<and> 1 \<le> n \<and> n \<le> PREPAY_MONTHS"
proof -
  assume a: "prepaidRemainderCouponId env n = Some c"
  then have b: "truthy (be_yearCoupon env)" "1 \<le> n" "n \<le> PREPAY_MONTHS"
    by (auto simp: prepaidRemainderCouponId_def split: if_splits)
  then have "c \<in> (\<lambda>n. the (prepaidRemainderCouponId env n)) ` set [1..<Suc PREPAY_MONTHS]"
    using a by (intro image_eqI [of _ _ n]) auto
  then show ?thesis using b by (simp add: prepaidCouponIds_def)
qed

text \<open>A coupon of \<open>n\<close> months covers invoices that all fall before the window closes, and no more fit.\<close>

definition invoice_at :: "ms \<Rightarrow> nat \<Rightarrow> ms" where
  "invoice_at t k = ((\<lambda>d. add_months_js d 1) ^^ k) t"

lemma count_invoices_exact:
  "(\<forall>k < count_invoices n t closes. invoice_at t k < closes)
   \<and> count_invoices n t closes \<le> n
   \<and> (count_invoices n t closes < n \<longrightarrow> closes \<le> invoice_at t (count_invoices n t closes))"
proof (induction n arbitrary: t)
  case (Suc n)
  have f: "invoice_at t (Suc k) = invoice_at (add_months_js t 1) k" for k
    by (simp add: invoice_at_def funpow_Suc_right del: funpow.simps)
  show ?case
  proof (cases "t < closes")
    case True
    have "invoice_at t k < closes" if "k < Suc (count_invoices n (add_months_js t 1) closes)" for k
      using that Suc.IH [of "add_months_js t 1"] True f by (cases k) (auto simp: invoice_at_def)
    then show ?thesis using True Suc.IH [of "add_months_js t 1"] by (auto simp: f)
  qed (simp add: invoice_at_def)
qed simp

lemma remaining_le_year: "remainingPrepaidInvoices e th \<le> PREPAY_MONTHS"
  using count_invoices_exact by (auto simp: remainingPrepaidInvoices_def split: option.split)

end
