(* ===== verification/Prepay_System.thy ===== *)
theory Prepay_System
  imports Prepay_Grants
begin

text \<open>
  Prepaid years as a system. Webhook deliveries, their retries, refunds, plan changes, mirror passes
  and the sweep run concurrently on one table, and any of them may stop at any await: an isolate is
  evicted, a request to Stripe throws or its answer is lost. So a task is the rest of one operation
  after an await, \<open>pstep\<close> runs one task to its next await or starts an operation, and \<open>p_drop\<close>
  loses a task. What Stripe answers is arbitrary in every step; what it was sent stays in \<open>p_sent\<close>,
  newest first.
\<close>

datatype prepay_task =
    GrantTask checkout
  | StampTask checkout
  | RevokeTask string string
  | ConvertTask string string int string "string option"
  | CreditTask string int string "string option"
  | CreditedTask string string
  | ReassertTask "prepayment \<times> sub_item \<times> nat \<times> string" string

record prepay_sys =
  p_now :: ms
  p_rows :: ledger
  p_tasks :: "prepay_task list"
  p_sent :: "stripe_write list"

definition add_task :: "prepay_task \<Rightarrow> prepay_sys \<Rightarrow> prepay_sys" where
  "add_task k y = y\<lparr>p_tasks := k # p_tasks y\<rparr>"

definition end_task :: "prepay_task \<Rightarrow> prepay_sys \<Rightarrow> prepay_sys" where
  "end_task k y = y\<lparr>p_tasks := remove1 k (p_tasks y)\<rparr>"

definition writes :: "stripe_write list \<Rightarrow> prepay_sys \<Rightarrow> prepay_sys" where
  "writes ws y = y\<lparr>p_sent := rev ws @ p_sent y\<rparr>"

definition rows_to :: "ledger \<Rightarrow> prepay_sys \<Rightarrow> prepay_sys" where
  "rows_to t y = y\<lparr>p_rows := t\<rparr>"

definition credit_task :: "string option \<Rightarrow> prepayment \<Rightarrow> prepay_task" where
  "credit_task customer p = CreditTask (pp_id p) (the (pp_credit p)) (pp_currency p) customer"

inductive pstep :: "billing_env \<Rightarrow> prepay_sys \<Rightarrow> prepay_sys \<Rightarrow> bool" for env where
  p_tick: "p_now y \<le> t \<Longrightarrow> pstep env y (y\<lparr>p_now := t\<rparr>)"
| p_drop: "k \<in> set (p_tasks y) \<Longrightarrow> pstep env y (end_task k y)"
| p_claim: "grant_claim uuid ck (p_rows y) = (Inr Proceed, t) \<Longrightarrow>
     pstep env y (add_task (GrantTask ck) (rows_to t y))"
| p_unclaimed: "grant_claim uuid ck (p_rows y) = (r, t) \<Longrightarrow> r \<noteq> Inr Proceed \<Longrightarrow>
     pstep env y (rows_to t y)"
| p_grant: "GrantTask ck \<in> set (p_tasks y) \<Longrightarrow> grant_write env ck sid sub = Inr (ws, resumed) \<Longrightarrow>
     pstep env y (add_task (StampTask ck) (writes ws (end_task (GrantTask ck) y)))"
| p_stamp: "StampTask ck \<in> set (p_tasks y) \<Longrightarrow>
     pstep env y (rows_to (grant_stamp env (p_now y) ck (p_rows y)) (end_task (StampTask ck) y))"
| p_revoke: "revokePrepaidYear (p_now y) session reason (p_rows y) = (Some company, t) \<Longrightarrow>
     pstep env y (add_task (RevokeTask session company) (rows_to t y))"
| p_unrevoked: "revokePrepaidYear (p_now y) session reason (p_rows y) = (None, t) \<Longrightarrow>
     pstep env y (rows_to t y)"
| p_refund: "revokePrepaidYearForPaymentIntent (p_now y) intent reason (p_rows y) = (Some company, t) \<Longrightarrow>
     prepayment_for_payment_intent intent (p_rows y) = Some session \<Longrightarrow>
     pstep env y (add_task (RevokeTask session company) (rows_to t y))"
| p_revoke_clear: "RevokeTask session company \<in> set (p_tasks y) \<Longrightarrow>
     pstep env y (writes (clear_writes env sid sub) (end_task (RevokeTask session company) y))"
| p_convert: "convert_prepayment (p_now y) company toPlan (p_rows y) = (Some p, t) \<Longrightarrow>
     pstep env y (add_task (ConvertTask company (pp_id p) (the (pp_credit p)) (pp_currency p) customer) (rows_to t y))"
| p_convert_clear: "ConvertTask company i cents currency customer \<in> set (p_tasks y) \<Longrightarrow>
     pstep env y (add_task (CreditTask i cents currency customer)
       (writes (clear_writes env sid sub) (end_task (ConvertTask company i cents currency customer) y)))"
| p_sweep: "p \<in> set (prepayments_awaiting_credit 50 (p_rows y)) \<Longrightarrow>
     pstep env y (add_task (credit_task customer p) y)"
| p_credit: "CreditTask i cents currency customer \<in> set (p_tasks y) \<Longrightarrow>
     credit_write customer i cents currency = Some w \<Longrightarrow>
     pstep env y (add_task (CreditedTask i txn) (writes [w] (end_task (CreditTask i cents currency customer) y)))"
| p_credited: "CreditedTask i txn \<in> set (p_tasks y) \<Longrightarrow>
     pstep env y (rows_to (stamp_prepayment_credit (p_now y) i txn (p_rows y)) (end_task (CreditedTask i txn) y))"
| p_reassert: "ensure_read env (p_now y) company sub (p_rows y) = Some r \<Longrightarrow>
     pstep env y (add_task (ReassertTask r (sub_id sub)) y)"
| p_create: "ReassertTask (p, i, n, c) sid \<in> set (p_tasks y) \<Longrightarrow> pstep env y (writes [CreateCoupon c n] y)"
| p_reasserted: "ReassertTask r sid \<in> set (p_tasks y) \<Longrightarrow>
     pstep env y (writes [ensure_write env sid r] (end_task (ReassertTask r sid) y))"

definition no_years :: "ms \<Rightarrow> prepay_sys" where
  "no_years t = \<lparr>p_now = t, p_rows = [], p_tasks = [], p_sent = []\<rparr>"

abbreviation pruns :: "billing_env \<Rightarrow> prepay_sys \<Rightarrow> prepay_sys \<Rightarrow> bool" where
  "pruns env \<equiv> (pstep env)\<^sup>*\<^sup>*"

lemma sys_simps [simp]:
  "p_now (add_task k y) = p_now y" "p_rows (add_task k y) = p_rows y"
  "p_tasks (add_task k y) = k # p_tasks y" "p_sent (add_task k y) = p_sent y"
  "p_now (end_task k y) = p_now y" "p_rows (end_task k y) = p_rows y"
  "p_tasks (end_task k y) = remove1 k (p_tasks y)" "p_sent (end_task k y) = p_sent y"
  "p_now (writes ws y) = p_now y" "p_rows (writes ws y) = p_rows y"
  "p_tasks (writes ws y) = p_tasks y" "p_sent (writes ws y) = rev ws @ p_sent y"
  "p_now (rows_to t y) = p_now y" "p_rows (rows_to t y) = t"
  "p_tasks (rows_to t y) = p_tasks y" "p_sent (rows_to t y) = p_sent y"
  by (simp_all add: add_task_def end_task_def writes_def rows_to_def)

lemma no_years_simps [simp]:
  "p_rows (no_years t) = []" "p_tasks (no_years t) = []" "p_sent (no_years t) = []" "p_now (no_years t) = t"
  by (simp_all add: no_years_def)

lemma remove1_in: "x \<in> set (remove1 k xs) \<Longrightarrow> x \<in> set xs"
  by (meson notin_set_remove1)


section \<open>What the table's writers keep\<close>

text \<open>
  \<open>evolves p q\<close>: how a row may change. Its identity, price and term are fixed; a grant, a revocation
  and a conversion happen once and stay; a conversion happens only to a granted row that was not
  revoked, and revokes it.
\<close>

definition evolves :: "prepayment \<Rightarrow> prepayment \<Rightarrow> bool" where
  "evolves p q \<longleftrightarrow>
     pp_id q = pp_id p \<and> pp_company q = pp_company p \<and> pp_session q = pp_session p
     \<and> pp_amount q = pp_amount p \<and> pp_currency q = pp_currency p \<and> pp_months q = pp_months p
     \<and> pp_intent q = pp_intent p
     \<and> (pp_granted p \<noteq> None \<longrightarrow> pp_granted q = pp_granted p \<and> pp_through q = pp_through p)
     \<and> (pp_revoked p \<noteq> None \<longrightarrow> pp_revoked q = pp_revoked p \<and> pp_converted q = pp_converted p
          \<and> pp_credit q = pp_credit p)
     \<and> (pp_credited p \<noteq> None \<longrightarrow> pp_credited q = pp_credited p)"

lemma evolves_refl [simp]: "evolves p p"
  by (simp add: evolves_def)

lemma evolves_trans: "evolves p q \<Longrightarrow> evolves q r \<Longrightarrow> evolves p r"
  by (auto simp: evolves_def)

text \<open>A row in order.\<close>

definition row_ok :: "prepayment \<Rightarrow> bool" where
  "row_ok p \<longleftrightarrow>
     0 < pp_amount p \<and> 0 < pp_months p
     \<and> (pp_granted p = None \<longleftrightarrow> pp_through p = None)
     \<and> (pp_converted p \<noteq> None \<longrightarrow> pp_granted p \<noteq> None \<and> pp_revoked p = pp_converted p)
     \<and> pp_credit p = map_option (\<lambda>c. conversion_credit c p) (pp_converted p)"

lemma credit_cong:
  "pp_amount q = pp_amount p \<Longrightarrow> pp_months q = pp_months p \<Longrightarrow> pp_granted q = pp_granted p
     \<Longrightarrow> conversion_credit now q = conversion_credit now p"
  by (cases "pp_granted p") (simp_all add: conversion_credit_def consumed_months_def)

lemma credit_fields [simp]:
  "conversion_credit now (p\<lparr>pp_revoked := a, pp_reason := b\<rparr>) = conversion_credit now p"
  "conversion_credit now (p\<lparr>pp_credited := a, pp_txn := b\<rparr>) = conversion_credit now p"
  "conversion_credit now (convert_row n toPlan p) = conversion_credit now p"
  by (rule credit_cong; simp add: convert_row_def)+

definition ledger_ok :: "ledger \<Rightarrow> bool" where
  "ledger_ok t \<longleftrightarrow> distinct (map pp_id t) \<and> distinct (map pp_session t) \<and> (\<forall>p \<in> set t. row_ok p)"

text \<open>
  The contract of the table's writers: rows are appended or changed in place as \<open>evolves\<close> allows.
\<close>

definition grows :: "ledger \<Rightarrow> ledger \<Rightarrow> bool" where
  "grows t u \<longleftrightarrow> (\<exists>v w. u = v @ w \<and> list_all2 evolves t v)"

lemma grows_refl [simp]: "grows t t"
  unfolding grows_def by (intro exI [of _ t] exI [of _ "[]"]) (simp add: list.rel_refl)

lemma grows_trans:
  assumes "grows t u" "grows u v" shows "grows t v"
proof -
  obtain a b where u: "u = a @ b" "list_all2 evolves t a" using assms(1) by (auto simp: grows_def)
  obtain c d where v: "v = c @ d" "list_all2 evolves u c" using assms(2) by (auto simp: grows_def)
  then obtain e f where c: "c = e @ f" "list_all2 evolves a e" using u by (auto simp: list_all2_append1)
  have "list_all2 evolves t e" using list_all2_trans [OF evolves_trans u(2) c(2)] .
  then show ?thesis unfolding grows_def v(1) c(1) by auto
qed

lemma grows_row:
  assumes "grows t u" "p \<in> set t"
  shows "\<exists>q \<in> set u. evolves p q"
proof -
  obtain v w where v: "u = v @ w" "list_all2 evolves t v" using assms(1) by (auto simp: grows_def)
  obtain i where i: "i < length t" "t ! i = p" using assms(2) by (auto simp: in_set_conv_nth)
  then have "v ! i \<in> set u" "evolves p (v ! i)" using v by (auto simp: list_all2_conv_all_nth)
  then show ?thesis by blast
qed

lemma grows_map: "(\<And>p. p \<in> set t \<Longrightarrow> evolves p (f p)) \<Longrightarrow> grows t (map f t)"
  unfolding grows_def by (intro exI [of _ "map f t"] exI [of _ "[]"]) (simp add: list_all2_conv_all_nth)

lemma grows_append: "grows t (t @ w)"
  unfolding grows_def by (intro exI [of _ t] exI [of _ w]) (simp add: list.rel_refl)

lemma grows_update_first:
  assumes "\<And>p. p \<in> set t \<Longrightarrow> P p \<Longrightarrow> evolves p (f p)"
  shows "grows t (update_first P f t)"
proof -
  have "list_all2 evolves t (update_first P f t)"
    using assms by (induction t) (auto simp: list.rel_refl)
  then show ?thesis unfolding grows_def by (intro exI [of _ "update_first P f t"] exI [of _ "[]"]) simp
qed

end
