(* ===== verification/Prepay_Invariants.thy ===== *)
theory Prepay_Invariants
  imports Prepay_System
begin

text \<open>
  What every writer of the \<open>prepayments\<close> table promises its readers, and what every state holds that
  concurrent, interrupted operations can reach. The locale \<open>ledger_writer\<close> is the promise: rows are
  appended or evolve, and the table stays in order. Every SQL function that writes is an
  interpretation. The locale \<open>prepay_invariant\<close> lifts a property of single steps to runs.
\<close>

section \<open>The writers' contract\<close>

locale ledger_writer =
  fixes update :: "ledger \<Rightarrow> ledger"
  assumes grow: "ledger_ok t \<Longrightarrow> grows t (update t)"
    and keep: "ledger_ok t \<Longrightarrow> ledger_ok (update t)"
begin

lemma evolved: "ledger_ok t \<Longrightarrow> p \<in> set t \<Longrightarrow> \<exists>q \<in> set (update t). evolves p q"
  using grows_row grow by blast

end

lemma ledger_ok_map:
  assumes "ledger_ok t" "\<And>p. p \<in> set t \<Longrightarrow> pp_id (f p) = pp_id p \<and> pp_session (f p) = pp_session p"
    "\<And>p. p \<in> set t \<Longrightarrow> row_ok p \<Longrightarrow> row_ok (f p)"
  shows "ledger_ok (map f t)"
proof -
  have m: "map (\<lambda>p. pp_id (f p)) t = map pp_id t" "map (\<lambda>p. pp_session (f p)) t = map pp_session t"
    using assms(2) by simp_all
  show ?thesis using assms(1, 3) by (auto simp: ledger_ok_def m comp_def)
qed

lemma ledger_ok_update_first:
  assumes "ledger_ok t" "\<And>p. pp_id (f p) = pp_id p" "\<And>p. pp_session (f p) = pp_session p"
    "\<And>p. P p \<Longrightarrow> row_ok p \<Longrightarrow> row_ok (f p)"
  shows "ledger_ok (update_first P f t)"
  using assms set_update_first [of _ P f t] by (fastforce simp: ledger_ok_def map_update_first)

interpretation stamp: ledger_writer "stamp_prepayment now session discount through" for now session discount through
proof
  fix t assume ok: "ledger_ok t"
  have row: "row_ok p \<Longrightarrow> pp_granted p = None \<Longrightarrow>
      row_ok (p\<lparr>pp_discount := d, pp_granted := Some now, pp_through := Some through\<rparr>)" for p d
    by (cases "pp_converted p") (auto simp: row_ok_def)
  show "grows t (stamp_prepayment now session discount through t)"
    unfolding stamp_prepayment_def using ok
    by (intro grows_map) (auto simp: evolves_def)
  show "ledger_ok (stamp_prepayment now session discount through t)"
    unfolding stamp_prepayment_def using ok by (rule ledger_ok_map) (auto simp: row)
qed

interpretation revoke: ledger_writer "\<lambda>t. snd (revoke_prepayment now session reason t)" for now session reason
proof
  fix t assume ok: "ledger_ok t"
  have row: "row_ok (p\<lparr>pp_revoked := Some now, pp_reason := Some reason\<rparr>)" if "revocable session p" "row_ok p" for p
    using that by (cases "pp_converted p") (auto simp: row_ok_def revocable_def)
  show "grows t (snd (revoke_prepayment now session reason t))"
    unfolding revoke_prepayment_def snd_conv
    by (rule grows_update_first) (auto simp: evolves_def revocable_def)
  show "ledger_ok (snd (revoke_prepayment now session reason t))"
    unfolding revoke_prepayment_def snd_conv using ok
    by (rule ledger_ok_update_first) (simp_all add: row)
qed

lemma convert_row_ok: "row_ok p \<Longrightarrow> pp_granted p \<noteq> None \<Longrightarrow> row_ok (convert_row now toPlan p)"
  using credit_fields(3) [of now now toPlan p] by (auto simp: row_ok_def convert_row_def simp del: credit_fields)

lemma same_id: "distinct (map pp_id t) \<Longrightarrow> p \<in> set t \<Longrightarrow> q \<in> set t \<Longrightarrow> pp_id p = pp_id q \<Longrightarrow> p = q"
  by (metis distinct_map inj_onD)

lemma same_session: "distinct (map pp_session t) \<Longrightarrow> p \<in> set t \<Longrightarrow> q \<in> set t \<Longrightarrow> pp_session p = pp_session q \<Longrightarrow> p = q"
  by (metis distinct_map inj_onD)

interpretation convert: ledger_writer "\<lambda>t. snd (convert_prepayment now company toPlan t)" for now company toPlan
proof
  fix t assume ok: "ledger_ok t"
  have win: "q = p \<and> window_open now company q"
    if "open_prepayment now company t = Some p" "q \<in> set t" "pp_id q = pp_id p" for p q
    using that open_prepayment_SomeD [OF that(1)] same_id ok by (auto simp: ledger_ok_def)
  have ev: "evolves q (convert_row now toPlan q) \<and> (row_ok q \<longrightarrow> row_ok (convert_row now toPlan q))"
    if "open_prepayment now company t = Some p" "q \<in> set t" "pp_id q = pp_id p" for p q
    using win [OF that] convert_row_ok [of q now toPlan] by (auto simp: evolves_def convert_row_def window_open_def)
  have id: "pp_id (convert_row now toPlan q) = pp_id q" "pp_session (convert_row now toPlan q) = pp_session q" for q
    by (simp_all add: convert_row_def)
  show "grows t (snd (convert_prepayment now company toPlan t))"
    by (auto simp: convert_prepayment_def split: option.split intro!: grows_map dest: ev)
  show "ledger_ok (snd (convert_prepayment now company toPlan t))"
    using ok by (auto simp: convert_prepayment_def id split: option.split intro!: ledger_ok_map dest: ev)
qed

interpretation credited: ledger_writer "stamp_prepayment_credit now i txn" for now i txn
proof
  fix t assume ok: "ledger_ok t"
  show "grows t (stamp_prepayment_credit now i txn t)"
    unfolding stamp_prepayment_credit_def by (intro grows_map) (auto simp: evolves_def)
  show "ledger_ok (stamp_prepayment_credit now i txn t)"
    unfolding stamp_prepayment_credit_def using ok by (rule ledger_ok_map) (auto simp: row_ok_def)
qed

lemma find_of_session: "List.find (of_session s) t = None \<longleftrightarrow> s \<notin> pp_session ` set t"
  by (auto simp: find_None_iff of_session_def)

lemma find_of_id: "List.find (of_id i) t = None \<longleftrightarrow> i \<notin> pp_id ` set t"
  by (auto simp: find_None_iff of_id_def)

interpretation claim: ledger_writer "\<lambda>t. snd (claim_prepayment uuid company session plan amount currency months intent t)"
  for uuid company session plan amount currency months intent
proof
  fix t assume ok: "ledger_ok t"
  show "grows t (snd (claim_prepayment uuid company session plan amount currency months intent t))"
    by (auto simp: claim_prepayment_def grows_append split: option.split)
  show "ledger_ok (snd (claim_prepayment uuid company session plan amount currency months intent t))"
    using ok by (auto simp: claim_prepayment_def ledger_ok_def row_ok_def find_of_session find_of_id split: option.split)
qed

lemma grant_claim_rows:
  "snd (grant_claim uuid ck t) = t \<or>
   (\<exists>company plan amount. snd (grant_claim uuid ck t)
      = snd (claim_prepayment uuid company (ck_id ck) plan amount (ck_currency ck) PREPAY_MONTHS (ck_intent ck) t))"
  by (cases "claim_prepayment uuid (the (ck_company ck)) (ck_id ck) (the (ck_plan ck))
        (case ck_amount ck of None \<Rightarrow> 0 | Some a \<Rightarrow> a) (ck_currency ck) PREPAY_MONTHS (ck_intent ck) t")
    (auto simp: grant_claim_def Let_def split: claim_outcome.split, (metis snd_conv)+)

interpretation checkout: ledger_writer "\<lambda>t. snd (grant_claim uuid ck t)" for uuid ck
proof
  fix t assume ok: "ledger_ok t"
  show "grows t (snd (grant_claim uuid ck t))" "ledger_ok (snd (grant_claim uuid ck t))"
    using grant_claim_rows [of uuid ck t] claim.grow [OF ok] claim.keep [OF ok] ok by (metis grows_refl)+
qed

lemma revoke_year_rows: "snd (revokePrepaidYear now s r t) = snd (revoke_prepayment now s r t)"
  by (auto simp: revokePrepaidYear_def split: prod.split option.split)

lemma refund_rows:
  "snd (revokePrepaidYearForPaymentIntent now i r t) = t
   \<or> (\<exists>s. snd (revokePrepaidYearForPaymentIntent now i r t) = snd (revoke_prepayment now s r t))"
  by (auto simp: revokePrepaidYearForPaymentIntent_def revoke_year_rows split: option.split)

interpretation refund: ledger_writer "\<lambda>t. snd (revokePrepaidYearForPaymentIntent now i r t)" for now i r
proof
  fix t assume ok: "ledger_ok t"
  show "grows t (snd (revokePrepaidYearForPaymentIntent now i r t))"
    "ledger_ok (snd (revokePrepaidYearForPaymentIntent now i r t))"
    using refund_rows [of now i r t] revoke.grow [OF ok] revoke.keep [OF ok] ok by (metis grows_refl)+
qed


section \<open>Steps and runs\<close>

lemma step_rows:
  assumes "pstep env y y'" "ledger_ok (p_rows y)"
  shows "grows (p_rows y) (p_rows y') \<and> ledger_ok (p_rows y')"
  using assms
proof (cases rule: pstep.cases)
  case (p_claim uuid ck t)
  then show ?thesis using checkout.grow checkout.keep assms(2) by (metis snd_conv sys_simps(2) sys_simps(14))
next
  case (p_unclaimed uuid ck r t)
  then show ?thesis using checkout.grow checkout.keep assms(2) by (metis snd_conv sys_simps(14))
next
  case (p_stamp ck)
  then show ?thesis using stamp.grow stamp.keep assms(2) by (simp add: grant_stamp_def)
next
  case (p_revoke session reason company t)
  then show ?thesis using revoke.grow revoke.keep assms(2) revoke_year_rows
    by (metis snd_conv sys_simps(2) sys_simps(14))
next
  case (p_unrevoked session reason t)
  then show ?thesis using revoke.grow revoke.keep assms(2) revoke_year_rows by (metis snd_conv sys_simps(14))
next
  case (p_refund intent reason company t session)
  then show ?thesis using refund.grow refund.keep assms(2) by (metis snd_conv sys_simps(2) sys_simps(14))
next
  case (p_convert company toPlan p t customer)
  then show ?thesis using convert.grow convert.keep assms(2) by (metis snd_conv sys_simps(2) sys_simps(14))
next
  case (p_credited i txn)
  then show ?thesis using credited.grow credited.keep assms(2) by simp
qed (auto simp: writes_def)

locale prepay_invariant =
  fixes env :: billing_env and inv :: "prepay_sys \<Rightarrow> bool"
  assumes start: "inv (no_years t)"
    and step: "pstep env y y' \<Longrightarrow> inv y \<Longrightarrow> ledger_ok (p_rows y) \<Longrightarrow> inv y'"
begin

lemma reached: "pruns env (no_years t) y \<Longrightarrow> inv y \<and> ledger_ok (p_rows y)"
  by (induction rule: rtranclp_induct)
    (auto simp: start ledger_ok_def [of "[]"] intro: step dest: step_rows)

end

interpretation rows: prepay_invariant env "\<lambda>y. ledger_ok (p_rows y)" for env
  by unfold_locales (auto simp: ledger_ok_def [of "[]"] dest: step_rows)

lemma runs_rows: "pruns env y y' \<Longrightarrow> ledger_ok (p_rows y) \<Longrightarrow> grows (p_rows y) (p_rows y') \<and> ledger_ok (p_rows y')"
  by (induction rule: rtranclp_induct) (auto dest: step_rows intro: grows_trans)

end
