(* ===== verification/Prepay_Claims.thy ===== *)
theory Prepay_Claims
  imports Prepay_Invariants
begin

text \<open>
  The properties of prepaid years: a conversion's credit is one amount under one key, a settled year
  is not granted again, a coupon is only ever written for a paid session and within its window, a
  revocation is not repeated, and a plan change that converts is refused.
\<close>

section \<open>Credits\<close>

text \<open>What a task or a write owes is the credit of a converted row.\<close>

definition owed :: "ledger \<Rightarrow> string \<Rightarrow> int \<Rightarrow> string \<Rightarrow> bool" where
  "owed t i cents currency \<longleftrightarrow>
     (\<exists>p \<in> set t. pp_id p = i \<and> pp_converted p \<noteq> None \<and> pp_credit p = Some cents \<and> pp_currency p = currency)"

lemma owed_grows: "grows t u \<Longrightarrow> ledger_ok t \<Longrightarrow> owed t i c cur \<Longrightarrow> owed u i c cur"
  unfolding owed_def
proof (elim bexE)
  fix p assume a: "grows t u" "ledger_ok t" "p \<in> set t"
    "pp_id p = i \<and> pp_converted p \<noteq> None \<and> pp_credit p = Some c \<and> pp_currency p = cur"
  obtain q where q: "q \<in> set u" "evolves p q" using grows_row [OF a(1, 3)] by blast
  have "pp_revoked p \<noteq> None" using a(2-4) by (auto simp: ledger_ok_def row_ok_def)
  then show "\<exists>p \<in> set u. pp_id p = i \<and> pp_converted p \<noteq> None \<and> pp_credit p = Some c \<and> pp_currency p = cur"
    using q a(4) by (intro bexI [of _ q]) (auto simp: evolves_def)
qed

fun owing_task :: "ledger \<Rightarrow> prepay_task \<Rightarrow> bool" where
  "owing_task t (ConvertTask co i cents cur cu) = owed t i cents cur"
| "owing_task t (CreditTask i cents cur cu) = owed t i cents cur"
| "owing_task t k = True"

fun owing_write :: "ledger \<Rightarrow> stripe_write \<Rightarrow> bool" where
  "owing_write t (BalanceCredit cu a cur key) = (\<exists>i. key = credit_key i \<and> owed t i (- a) cur \<and> a < 0)"
| "owing_write t w = True"

definition owing :: "prepay_sys \<Rightarrow> bool" where
  "owing y \<longleftrightarrow> (\<forall>k \<in> set (p_tasks y). owing_task (p_rows y) k) \<and> (\<forall>w \<in> set (p_sent y). owing_write (p_rows y) w)"

lemma owing_grows:
  assumes "grows t u" "ledger_ok t"
  shows "owing_task t k \<Longrightarrow> owing_task u k" "owing_write t w \<Longrightarrow> owing_write u w"
  by (cases k; auto intro: owed_grows [OF assms]) (cases w; auto intro: owed_grows [OF assms])

lemma converted_owed:
  assumes "convert_prepayment now company toPlan t = (Some p, u)" "ledger_ok t"
  shows "owed u (pp_id p) (the (pp_credit p)) (pp_currency p)"
proof -
  obtain q where q: "open_prepayment now company t = Some q" "p = convert_row now toPlan q"
    "u = map (\<lambda>r. if pp_id r = pp_id q then convert_row now toPlan r else r) t"
    using assms(1) by (auto simp: convert_prepayment_def split: option.splits)
  have "q \<in> set t" using open_prepayment_SomeD [OF q(1)] by blast
  then have "p \<in> set u" unfolding q(2, 3) set_map by (rule rev_image_eqI) simp
  moreover have "pp_converted (convert_row now toPlan q) \<noteq> None"
    "pp_credit (convert_row now toPlan q) = Some (the (pp_credit (convert_row now toPlan q)))"
    by (simp_all add: convert_row_def)
  ultimately show ?thesis unfolding owed_def q(2) by blast
qed

lemma awaiting_in: "p \<in> set (prepayments_awaiting_credit n t) \<Longrightarrow> p \<in> set t \<and> awaiting_credit p"
  unfolding prepayments_awaiting_credit_def by (drule in_set_takeD) simp

lemma clear_no_credit: "w \<in> set (clear_writes env sid sub) \<Longrightarrow> owing_write t w"
  by (auto simp: clear_writes_def split: if_splits option.splits)

lemma grant_no_credit: "grant_write env ck sid sub = Inr (ws, r) \<Longrightarrow> w \<in> set ws \<Longrightarrow> owing_write t w"
  by (auto simp: grant_write_def split: if_splits option.splits prod.splits)

lemma owing_step:
  assumes "pstep env y y'" "owing y" "ledger_ok (p_rows y)"
  shows "owing y'"
proof -
  have g: "grows (p_rows y) (p_rows y')" using step_rows assms by blast
  have old: "owing_task (p_rows y') k" if "k \<in> set (p_tasks y)" for k
    using that assms(2) owing_grows(1) [OF g assms(3)] by (auto simp: owing_def)
  have sent: "owing_write (p_rows y') w" if "w \<in> set (p_sent y)" for w
    using that assms(2) owing_grows(2) [OF g assms(3)] by (auto simp: owing_def)
  have new: "(\<forall>k \<in> set (p_tasks y'). k \<in> set (p_tasks y) \<or> owing_task (p_rows y') k)
      \<and> (\<forall>w \<in> set (p_sent y'). w \<in> set (p_sent y) \<or> owing_write (p_rows y') w)"
    using assms(1)
  proof (cases rule: pstep.cases)
    case (p_convert company toPlan p t customer)
    then show ?thesis using converted_owed assms(3) by auto
  next
    case (p_convert_clear company i cents currency customer sid sub)
    then have "owed (p_rows y) i cents currency" using assms(2) by (auto simp: owing_def)
    with p_convert_clear show ?thesis by (auto dest!: clear_no_credit remove1_in)
  next
    case (p_sweep p customer)
    then have "p \<in> set (p_rows y)" "awaiting_credit p" using awaiting_in by blast+
    then have "owed (p_rows y) (pp_id p) (the (pp_credit p)) (pp_currency p)"
      unfolding owed_def by (intro bexI [of _ p]) (auto simp: awaiting_credit_def split: option.splits)
    with p_sweep show ?thesis by (auto simp: credit_task_def)
  next
    case (p_credit i cents currency customer w txn)
    then have "owed (p_rows y) i cents currency" using assms(2) by (auto simp: owing_def)
    with p_credit show ?thesis by (auto simp: credit_write_def split: if_splits dest: remove1_in)
  qed (auto dest: remove1_in clear_no_credit grant_no_credit simp: ensure_write_def split: prod.splits)
  show ?thesis using old sent new unfolding owing_def by blast
qed

interpretation credits: prepay_invariant env owing for env
  by unfold_locales (simp add: owing_def, rule owing_step)


section \<open>Coupons\<close>

definition bought :: "ledger \<Rightarrow> string \<Rightarrow> bool" where
  "bought t s \<longleftrightarrow> (\<exists>p \<in> set t. pp_session p = s)"

text \<open>A row whose window runs to \<open>th\<close>; what a reassertion relied on.\<close>

definition window_to :: "ledger \<Rightarrow> string \<Rightarrow> ms \<Rightarrow> bool" where
  "window_to t s th \<longleftrightarrow> (\<exists>p \<in> set t. pp_session p = s \<and> pp_granted p \<noteq> None \<and> pp_through p = Some th)"

definition licensed_length :: "billing_env \<Rightarrow> ledger \<Rightarrow> string \<Rightarrow> nat \<Rightarrow> string \<Rightarrow> bool" where
  "licensed_length env t s n c \<longleftrightarrow>
     prepaidRemainderCouponId env n = Some c
     \<and> (\<exists>th e. window_to t s th \<and> (\<forall>k < n. invoice_at (e * 1000) k < th))"

fun licensed_task :: "billing_env \<Rightarrow> ledger \<Rightarrow> prepay_task \<Rightarrow> bool" where
  "licensed_task env t (GrantTask ck) = bought t (ck_id ck)"
| "licensed_task env t (ReassertTask (p, i, n, c) sid) = licensed_length env t (pp_session p) n c"
| "licensed_task env t k = True"

definition referral_then :: "billing_env \<Rightarrow> string \<Rightarrow> string list \<Rightarrow> bool" where
  "referral_then env c cs \<longleftrightarrow> cs = [c] \<or> cs = [the (be_referralCoupon env), c]"

fun licensed_write :: "billing_env \<Rightarrow> ledger \<Rightarrow> stripe_write \<Rightarrow> bool" where
  "licensed_write env t (SetDiscounts sid i price cs key) =
     ((\<exists>s. key = grant_key s \<and> bought t s \<and> referral_then env (the (be_yearCoupon env)) cs)
      \<or> (\<exists>s n c. key = reassert_key s n \<and> price = None \<and> licensed_length env t s n c \<and> referral_then env c cs))"
| "licensed_write env t w = True"

definition licensed :: "billing_env \<Rightarrow> prepay_sys \<Rightarrow> bool" where
  "licensed env y \<longleftrightarrow> (\<forall>k \<in> set (p_tasks y). licensed_task env (p_rows y) k)
                   \<and> (\<forall>w \<in> set (p_sent y). licensed_write env (p_rows y) w)"

lemma bought_grows: "grows t u \<Longrightarrow> bought t s \<Longrightarrow> bought u s"
  unfolding bought_def by (metis evolves_def grows_row)

lemma window_to_grows: "grows t u \<Longrightarrow> window_to t s th \<Longrightarrow> window_to u s th"
  unfolding window_to_def by (metis evolves_def grows_row)

lemma licensed_grows:
  assumes "grows t u"
  shows "licensed_task env t k \<Longrightarrow> licensed_task env u k" "licensed_write env t w \<Longrightarrow> licensed_write env u w"
proof -
  have l: "licensed_length env t s n c \<Longrightarrow> licensed_length env u s n c" for s n c
    using window_to_grows [OF assms] by (auto simp: licensed_length_def)
  show "licensed_task env t k \<Longrightarrow> licensed_task env u k"
    by (cases "(env, t, k)" rule: licensed_task.cases) (auto intro: l bought_grows [OF assms])
  show "licensed_write env t w \<Longrightarrow> licensed_write env u w"
    by (cases w) (auto dest: l bought_grows [OF assms])
qed

lemma carried_cases: "referral_then env c (carried_referral env i @ [c])"
  by (simp add: carried_referral_def referral_then_def)

lemma claimed_bought: "grant_claim uuid ck t = (Inr Proceed, u) \<Longrightarrow> bought u (ck_id ck)"
  by (auto simp: grant_claim_def claim_prepayment_def bought_def Let_def of_session_def
      split: if_splits option.splits claim_outcome.splits prod.splits dest!: find_SomeD)

lemma grant_licensed:
  "grant_write env ck sid sub = Inr (ws, r) \<Longrightarrow> bought t (ck_id ck) \<Longrightarrow> w \<in> set ws \<Longrightarrow> licensed_write env t w"
  using carried_cases by (auto simp: grant_write_def split: if_splits option.splits prod.splits)

lemma remaining_before:
  "k < remainingPrepaidInvoices e (Some th) \<Longrightarrow> \<exists>e'. e = Some e' \<and> (\<forall>k < remainingPrepaidInvoices e (Some th). invoice_at (e' * 1000) k < th)"
  using count_invoices_exact by (auto simp: remainingPrepaidInvoices_def split: option.splits if_splits)

lemma read_licensed:
  assumes "ensure_read env now company sub t = Some (p, i, n, c)"
  shows "licensed_length env t (pp_session p) n c"
proof -
  have o: "open_prepayment now company t = Some p" and n: "n = remainingPrepaidInvoices (si_periodEnd i) (pp_through p)"
    and c: "prepaidRemainderCouponId env n = Some c" and pos: "0 < n"
    using assms by (auto simp: ensure_read_def Let_def split: if_splits option.splits)
  have p: "p \<in> set t" "window_open now company p" using open_prepayment_SomeD [OF o] by auto
  then obtain th where th: "pp_through p = Some th" "pp_granted p \<noteq> None"
    by (auto simp: window_open_def split: option.splits)
  show ?thesis using remaining_before [of 0 "si_periodEnd i" th] pos n c p th
    unfolding licensed_length_def window_to_def by auto
qed

lemma clear_licensed: "w \<in> set (clear_writes env sid sub) \<Longrightarrow> licensed_write env t w"
  by (auto simp: clear_writes_def split: if_splits option.splits)

lemma licensed_step:
  assumes "pstep env y y'" "licensed env y" "ledger_ok (p_rows y)"
  shows "licensed env y'"
proof -
  have g: "grows (p_rows y) (p_rows y')" using step_rows assms by blast
  have old: "licensed_task env (p_rows y') k" if "k \<in> set (p_tasks y)" for k
    using that assms(2) licensed_grows(1) [OF g] by (auto simp: licensed_def)
  have sent: "licensed_write env (p_rows y') w" if "w \<in> set (p_sent y)" for w
    using that assms(2) licensed_grows(2) [OF g] by (auto simp: licensed_def)
  have new: "(\<forall>k \<in> set (p_tasks y'). k \<in> set (p_tasks y) \<or> licensed_task env (p_rows y') k)
      \<and> (\<forall>w \<in> set (p_sent y'). w \<in> set (p_sent y) \<or> licensed_write env (p_rows y') w)"
    using assms(1)
  proof (cases rule: pstep.cases)
    case (p_claim uuid ck t)
    then show ?thesis using claimed_bought by auto
  next
    case (p_grant ck sid sub ws resumed)
    then have "bought (p_rows y) (ck_id ck)" using assms(2) by (auto simp: licensed_def)
    with p_grant show ?thesis using grant_licensed by (auto dest: remove1_in)
  next
    case (p_reassert company sub r)
    then show ?thesis using read_licensed by (cases r) auto
  next
    case (p_reasserted r sid)
    obtain p i n c where r: "r = (p, i, n, c)" by (cases r) auto
    then have "licensed_length env (p_rows y) (pp_session p) n c" using p_reasserted assms(2) by (auto simp: licensed_def)
    then have "licensed_write env (p_rows y) (ensure_write env sid r)"
      using carried_cases [of env c i] unfolding r ensure_write_def by auto
    with p_reasserted show ?thesis by (auto dest: remove1_in)
  next
    case (p_credit i cents currency customer w txn)
    then show ?thesis by (auto simp: credit_write_def split: if_splits dest: remove1_in)
  qed (auto dest: remove1_in clear_licensed simp: credit_task_def)
  show ?thesis using old sent new unfolding licensed_def by blast
qed

interpretation coupons: prepay_invariant env "licensed env" for env
  by unfold_locales (simp add: licensed_def, rule licensed_step)


section \<open>A year that is bought, revoked or converted\<close>

definition demo_env :: billing_env where
  "demo_env = \<lparr>be_starter = ''ps'', be_pro = ''pp'', be_starterYear = Some ''ys'', be_proYear = Some ''yp'',
     be_pause = None, be_yearCoupon = Some ''year'', be_referralCoupon = None\<rparr>"

definition demo_checkout :: checkout where
  "demo_checkout = \<lparr>ck_id = ''cs'', ck_mode = ''payment'', ck_company = Some ''co'',
     ck_metadata = [(''loonext_kind'', ''prepaid_year''), (''loonext_plan'', ''starter'')],
     ck_amount = Some 29000, ck_currency = Some ''usd'', ck_intent = Some ''pi''\<rparr>"

definition demo_subscription :: "discount_ref list \<Rightarrow> subscription" where
  "demo_subscription ds = \<lparr>sub_id = ''sub'', sub_status = ''active'', sub_schedule = False,
     sub_items = [\<lparr>si_id = ''li'', si_price = ''ps'', si_discounts = ds, si_periodEnd = None\<rparr>]\<rparr>"

definition demo_claimed :: prepayment where
  "demo_claimed = \<lparr>pp_id = ''p1'', pp_company = ''co'', pp_session = ''cs'', pp_plan = ''starter'',
     pp_amount = 29000, pp_currency = ''usd'', pp_months = 12, pp_discount = None, pp_granted = None,
     pp_through = None, pp_revoked = None, pp_reason = None, pp_intent = Some ''pi'', pp_converted = None,
     pp_toPlan = None, pp_credit = None, pp_credited = None, pp_txn = None\<rparr>"

definition demo_year :: prepayment where
  "demo_year = demo_claimed\<lparr>pp_discount := Some ''year'', pp_granted := Some 0, pp_through := Some 31536000000\<rparr>"

definition demo_sys :: "ms \<Rightarrow> prepayment \<Rightarrow> prepay_task list \<Rightarrow> stripe_write list \<Rightarrow> prepay_sys" where
  "demo_sys now p ks ws = \<lparr>p_now = now, p_rows = [p], p_tasks = ks, p_sent = ws\<rparr>"

definition demo_grant :: stripe_write where
  "demo_grant = SetDiscounts ''sub'' ''li'' None [''year''] (grant_key ''cs'')"

lemma demo_simps [simp]:
  "p_rows (demo_sys now p ks ws) = [p]" "p_now (demo_sys now p ks ws) = now"
  "p_tasks (demo_sys now p ks ws) = ks" "p_sent (demo_sys now p ks ws) = ws"
  "rows_to [q] (demo_sys now p ks ws) = demo_sys now q ks ws"
  "add_task k (demo_sys now p ks ws) = demo_sys now p (k # ks) ws"
  "end_task k (demo_sys now p ks ws) = demo_sys now p (remove1 k ks) ws"
  "writes vs (demo_sys now p ks ws) = demo_sys now p ks (rev vs @ ws)"
  "rows_to [q] (no_years now) = demo_sys now q [] []"
  by (simp_all add: demo_sys_def rows_to_def add_task_def end_task_def writes_def no_years_def)

lemma demo_year_end: "add_months_js 0 12 = 31536000000"
  by code_simp

lemma demo_bought: "pruns demo_env (no_years 0) (demo_sys 0 demo_year [] [demo_grant])"
proof -
  have c: "grant_claim ''p1'' demo_checkout [] = (Inr Proceed, [demo_claimed])"
    by (simp add: grant_claim_def demo_checkout_def ck_plan_def claim_prepayment_def demo_claimed_def PREPAY_MONTHS_def)
  have w: "grant_write demo_env demo_checkout (Some ''sub'') (demo_subscription []) = Inr ([demo_grant], False)"
    by (simp add: grant_write_def grant_item_def licensedItemOf_def demo_subscription_def planForLicensedPrice_def
        demo_env_def itemHasDiscount_def carried_referral_def demo_grant_def demo_checkout_def)
  have s: "grant_stamp demo_env 0 demo_checkout [demo_claimed] = [demo_year]"
    by (simp add: grant_stamp_def stamp_prepayment_def demo_checkout_def demo_env_def demo_year_def demo_claimed_def
        PREPAY_MONTHS_def demo_year_end)
  have "pstep demo_env (no_years 0) (demo_sys 0 demo_claimed [GrantTask demo_checkout] [])"
    using p_claim [of "''p1''" demo_checkout "no_years 0" "[demo_claimed]" demo_env] c by simp
  moreover have "pstep demo_env (demo_sys 0 demo_claimed [GrantTask demo_checkout] [])
      (demo_sys 0 demo_claimed [StampTask demo_checkout] [demo_grant])"
    using p_grant [of demo_checkout "demo_sys 0 demo_claimed [GrantTask demo_checkout] []" demo_env] w by fastforce
  moreover have "pstep demo_env (demo_sys 0 demo_claimed [StampTask demo_checkout] [demo_grant])
      (demo_sys 0 demo_year [] [demo_grant])"
    using p_stamp [of demo_checkout "demo_sys 0 demo_claimed [StampTask demo_checkout] [demo_grant]" demo_env] s by simp
  ultimately show ?thesis by (meson converse_rtranclp_into_rtranclp rtranclp.rtrancl_refl)
qed

text \<open>A lost chargeback whose request to Stripe fails: the row is revoked, the coupon still on.\<close>

definition demo_revoked :: prepayment where
  "demo_revoked = demo_year\<lparr>pp_revoked := Some 0, pp_reason := Some ''chargeback_lost''\<rparr>"

lemma demo_lost: "pruns demo_env (no_years 0) (demo_sys 0 demo_revoked [] [demo_grant])"
proof -
  have r: "revokePrepaidYear 0 ''cs'' ''chargeback_lost'' [demo_year] = (Some ''co'', [demo_revoked])"
    by (simp add: revokePrepaidYear_def revoke_prepayment_def revocable_def demo_revoked_def demo_year_def demo_claimed_def)
  have "pstep demo_env (demo_sys 0 demo_year [] [demo_grant]) (demo_sys 0 demo_revoked [RevokeTask ''cs'' ''co''] [demo_grant])"
    using p_revoke [of "demo_sys 0 demo_year [] [demo_grant]" "''cs''" "''chargeback_lost''" "''co''" "[demo_revoked]"] r by simp
  moreover have "pstep demo_env (demo_sys 0 demo_revoked [RevokeTask ''cs'' ''co''] [demo_grant])
      (demo_sys 0 demo_revoked [] [demo_grant])"
    using p_drop [of "RevokeTask ''cs'' ''co''" "demo_sys 0 demo_revoked [RevokeTask ''cs'' ''co''] [demo_grant]"] by simp
  ultimately show ?thesis using demo_bought by (meson rtranclp.rtrancl_into_rtrancl)
qed

text \<open>The same year ended by a plan change a hundred days in: three months are taken.\<close>

definition demo_day :: ms where "demo_day = 8640000000"

definition demo_converted :: prepayment where
  "demo_converted = demo_year\<lparr>pp_converted := Some demo_day, pp_toPlan := Some ''pro'', pp_credit := Some 21750,
     pp_revoked := Some demo_day, pp_reason := Some ''converted_to_pro''\<rparr>"

definition demo_credit :: stripe_write where
  "demo_credit = BalanceCredit ''cus'' (- 21750) ''usd'' (credit_key ''p1'')"

lemma demo_consumed: "consumed_months demo_day demo_year = 3"
  by code_simp

lemma demo_amount: "conversion_credit demo_day demo_year = 21750"
  unfolding conversion_credit_def demo_consumed by (simp add: demo_year_def demo_claimed_def)

lemma demo_open: "open_prepayment demo_day ''co'' [demo_year] = Some demo_year"
  by (simp add: open_prepayment_def window_open_def demo_year_def demo_claimed_def demo_day_def)

lemma demo_conversion: "convert_prepayment demo_day ''co'' ''pro'' [demo_year] = (Some demo_converted, [demo_converted])"
proof -
  have "convert_row demo_day ''pro'' demo_year = demo_converted"
    unfolding convert_row_def demo_amount by (simp add: demo_converted_def)
  then show ?thesis by (simp add: convert_prepayment_def demo_open)
qed

lemma demo_paid: "pruns demo_env (no_years 0)
    (demo_sys demo_day demo_converted [CreditedTask ''p1'' ''txn''] [demo_credit, ClearDiscounts ''sub'' ''li'', demo_grant])"
proof -
  let ?k = "ConvertTask ''co'' ''p1'' 21750 ''usd'' (Some ''cus'')" and ?c = "CreditTask ''p1'' 21750 ''usd'' (Some ''cus'')"
  have f: "pp_id demo_converted = ''p1''" "pp_credit demo_converted = Some 21750" "pp_currency demo_converted = ''usd''"
    by (simp_all add: demo_converted_def demo_year_def demo_claimed_def)
  have cl: "clear_writes demo_env (Some ''sub'') (demo_subscription []) = [ClearDiscounts ''sub'' ''li'']"
    by (simp add: clear_writes_def licensedItemOf_def demo_subscription_def planForLicensedPrice_def demo_env_def)
  have cr: "credit_write (Some ''cus'') ''p1'' 21750 ''usd'' = Some demo_credit"
    by (simp add: credit_write_def demo_credit_def)
  have t: "(demo_sys 0 demo_year [] [demo_grant])\<lparr>p_now := demo_day\<rparr> = demo_sys demo_day demo_year [] [demo_grant]"
    by (simp add: demo_sys_def)
  have "pstep demo_env (demo_sys 0 demo_year [] [demo_grant]) (demo_sys demo_day demo_year [] [demo_grant])"
    using p_tick [of "demo_sys 0 demo_year [] [demo_grant]" demo_day] unfolding t by (simp add: demo_day_def)
  moreover have "pstep demo_env (demo_sys demo_day demo_year [] [demo_grant]) (demo_sys demo_day demo_converted [?k] [demo_grant])"
    using p_convert [of "demo_sys demo_day demo_year [] [demo_grant]" "''co''" "''pro''" demo_converted "[demo_converted]"
        demo_env "Some ''cus''"] demo_conversion f by simp
  moreover have "pstep demo_env (demo_sys demo_day demo_converted [?k] [demo_grant])
      (demo_sys demo_day demo_converted [?c] [ClearDiscounts ''sub'' ''li'', demo_grant])"
    using p_convert_clear [of "''co''" "''p1''" 21750 "''usd''" "Some ''cus''" "demo_sys demo_day demo_converted [?k] [demo_grant]"
        demo_env "Some ''sub''" "demo_subscription []"] cl by simp
  moreover have "pstep demo_env (demo_sys demo_day demo_converted [?c] [ClearDiscounts ''sub'' ''li'', demo_grant])
      (demo_sys demo_day demo_converted [CreditedTask ''p1'' ''txn''] [demo_credit, ClearDiscounts ''sub'' ''li'', demo_grant])"
    using p_credit [of "''p1''" 21750 "''usd''" "Some ''cus''"
        "demo_sys demo_day demo_converted [?c] [ClearDiscounts ''sub'' ''li'', demo_grant]" demo_credit demo_env "''txn''"] cr by simp
  ultimately show ?thesis using demo_bought by (meson rtranclp.rtrancl_into_rtrancl)
qed


section \<open>Properties\<close>

lemma credit_key_inj: "credit_key i = credit_key j \<longleftrightarrow> i = j"
  by (simp add: credit_key_def)

text \<open>
  C9. The rest of a year that ends early is paid back once. Through any interleaving of deliveries,
  retries, sweeps and crashes, every balance transaction sent to Stripe belongs to one converted
  row: its key names that row alone, its amount is the credit computed when the row was converted,
  at most what was collected, and every other transaction under that key is for the same amount and
  currency. So a refunded or charged-back year, which is revoked and never converted, is not
  credited as well.
\<close>

theorem conversion_paid_once:
  assumes "pruns env (no_years t) y" "BalanceCredit cu a cur key \<in> set (p_sent y)"
  shows "\<exists>p \<in> set (p_rows y). \<exists>c.
      key = credit_key (pp_id p) \<and> pp_converted p = Some c \<and> pp_revoked p = Some c \<and> pp_granted p \<noteq> None
      \<and> a = - conversion_credit c p \<and> 0 < - a \<and> - a \<le> pp_amount p \<and> cur = pp_currency p
      \<and> (\<forall>q \<in> set (p_rows y). key = credit_key (pp_id q) \<longrightarrow> q = p)
      \<and> (\<forall>cu' a' cur'. BalanceCredit cu' a' cur' key \<in> set (p_sent y) \<longrightarrow> a' = a \<and> cur' = cur)"
proof -
  have inv: "owing y" and ok: "ledger_ok (p_rows y)" using credits.reached [OF assms(1)] by blast+
  have row: "\<exists>p \<in> set (p_rows y). key = credit_key (pp_id p) \<and> pp_converted p \<noteq> None
      \<and> pp_credit p = Some (- b) \<and> pp_currency p = d \<and> b < 0"
    if "BalanceCredit x b d key \<in> set (p_sent y)" for x b d
    using inv that by (fastforce simp: owing_def owed_def)
  obtain p c where p: "p \<in> set (p_rows y)" "key = credit_key (pp_id p)" "pp_converted p = Some c"
    "pp_credit p = Some (- a)" "pp_currency p = cur" "a < 0" using row [OF assms(2)] by auto
  have r: "row_ok p" using ok p(1) by (simp add: ledger_ok_def)
  have uniq: "q = p" if "q \<in> set (p_rows y)" "key = credit_key (pp_id q)" for q
    using that p(1, 2) same_id [of "p_rows y" q p] ok by (simp add: ledger_ok_def credit_key_inj)
  have same: "a' = a \<and> cur' = cur" if "BalanceCredit x a' cur' key \<in> set (p_sent y)" for x a' cur'
    using row [OF that] uniq p by fastforce
  have f: "a = - conversion_credit c p" "pp_revoked p = Some c" "pp_granted p \<noteq> None" "0 \<le> pp_amount p"
    using r p(3, 4) by (auto simp: row_ok_def)
  have le: "- a \<le> pp_amount p" using credit_le_amount [OF f(4), of c] f(1) by simp
  have pos: "0 < - a" "cur = pp_currency p" using p(5, 6) by auto
  show ?thesis
    using p(2, 3) f(1-3) le pos uniq same by (intro bexI [OF _ p(1)] exI [of _ c] conjI) blast+
qed

theorem conversion_paid_once_witness:
  "BalanceCredit ''cus'' (- 21750) ''usd'' (credit_key ''p1'') \<in> {demo_credit}
   \<and> conversion_credit demo_day demo_converted = 21750 \<and> 21750 \<le> pp_amount demo_converted"
  using conversion_paid_once [OF demo_paid, of "''cus''" "- 21750" "''usd''" "credit_key ''p1''"]
  by (auto simp: demo_credit_def credit_key_inj demo_converted_def)



text \<open>
  C25. A payment buys one year. Once the year of a session is granted or taken back, no later
  delivery or replay of that session is let through to Stripe, whatever happens in between; the
  claim leaves the table as it is, and the end of a granted window never moves.
\<close>

theorem settled_year_not_regranted:
  assumes "pruns env (no_years t) y" "p \<in> set (p_rows y)" "pp_granted p \<noteq> None \<or> pp_revoked p \<noteq> None"
    "pruns env y y'" "ck_id ck = pp_session p"
  shows "fst (grant_claim uuid ck (p_rows y')) \<noteq> Inr Proceed \<and> snd (grant_claim uuid ck (p_rows y')) = p_rows y'
       \<and> (\<exists>q \<in> set (p_rows y'). pp_session q = pp_session p
            \<and> (pp_granted p = None \<or> pp_granted q = pp_granted p \<and> pp_through q = pp_through p))"
proof -
  have ok: "ledger_ok (p_rows y)" using rows.reached [OF assms(1)] by blast
  have run: "grows (p_rows y) (p_rows y')" "ledger_ok (p_rows y')" using runs_rows [OF assms(4) ok] by blast+
  obtain q where q: "q \<in> set (p_rows y')" "evolves p q" using grows_row [OF run(1) assms(2)] by blast
  have s: "pp_granted q \<noteq> None \<or> pp_revoked q \<noteq> None" "pp_session q = ck_id ck"
    using q(2) assms(3, 5) by (auto simp: evolves_def)
  have "List.find (of_session (ck_id ck)) (p_rows y') = Some q"
  proof (cases "List.find (of_session (ck_id ck)) (p_rows y')")
    case None
    then show ?thesis using q(1) s(2) find_of_session by force
  next
    case (Some r)
    then have "r \<in> set (p_rows y')" "pp_session r = ck_id ck" using find_SomeD by (fastforce simp: of_session_def)+
    then show ?thesis using Some same_session [of "p_rows y'" r q] run(2) q(1) s(2) by (simp add: ledger_ok_def)
  qed
  then have "fst (grant_claim uuid ck (p_rows y')) \<noteq> Inr Proceed \<and> snd (grant_claim uuid ck (p_rows y')) = p_rows y'"
    using s(1) by (auto simp: grant_claim_def claim_prepayment_def Let_def)
  then show ?thesis using q by (auto simp: evolves_def)
qed

theorem settled_year_not_regranted_witness:
  "grant_claim ''p2'' demo_checkout [demo_year] = (Inr Already, [demo_year])"
proof -
  have "fst (grant_claim ''p2'' demo_checkout [demo_year]) \<noteq> Inr Proceed"
    using settled_year_not_regranted [OF demo_bought, of demo_year "demo_sys 0 demo_year [] [demo_grant]" demo_checkout "''p2''"]
    by (simp add: demo_year_def demo_claimed_def demo_checkout_def)
  then show ?thesis
    by (simp add: grant_claim_def claim_prepayment_def demo_checkout_def ck_plan_def of_session_def demo_year_def
        demo_claimed_def)
qed

text \<open>
  C31. A revocation that loses its request to Stripe is never repeated. The row is marked first, and
  from then on every retry of the same refund or chargeback answers \<open>noop\<close> and starts nothing, so
  no later run of it takes the coupon off. The witness is a year whose coupon is still on the item
  with no task left.
\<close>

theorem revocation_never_repeated:
  assumes "pruns env (no_years t) y" "p \<in> set (p_rows y)" "pp_revoked p \<noteq> None" "pruns env y y'"
  shows "revokePrepaidYear now (pp_session p) reason (p_rows y') = (None, p_rows y')"
proof -
  have ok: "ledger_ok (p_rows y)" using rows.reached [OF assms(1)] by blast
  have run: "grows (p_rows y) (p_rows y')" "ledger_ok (p_rows y')" using runs_rows [OF assms(4) ok] by blast+
  obtain q where q: "q \<in> set (p_rows y')" "evolves p q" using grows_row [OF run(1) assms(2)] by blast
  have "\<not> revocable (pp_session p) r" if "r \<in> set (p_rows y')" for r
    using that q same_session [of "p_rows y'" r q] run(2) assms(3)
    by (auto simp: ledger_ok_def evolves_def revocable_def)
  then have "List.find (revocable (pp_session p)) (p_rows y') = None" by (simp add: find_None_iff)
  then show ?thesis by (simp add: revokePrepaidYear_def revoke_prepayment_def update_first_None)
qed

theorem revocation_never_repeated_witness:
  "pruns demo_env (no_years 0) (demo_sys 0 demo_revoked [] [demo_grant])
   \<and> revokePrepaidYear 1 ''cs'' ''chargeback_lost'' [demo_revoked] = (None, [demo_revoked])"
  using demo_lost revocation_never_repeated [OF demo_lost, of demo_revoked "demo_sys 0 demo_revoked [] [demo_grant]" 1]
  by (simp add: demo_revoked_def demo_year_def demo_claimed_def)



text \<open>
  Two smaller facts. A year that is revoked between its claim and its grant is delivered all the
  same: \<open>revoke_prepayment\<close> marks a row that was never granted, and the grant under way does not look
  again. And \<open>setUTCMonth\<close> counts one invoice too many for a subscription anchored on a day its
  current month does not have: renewals clamped to the month's end from 31 January, seen from 28
  February, with a window that closes on 29 December.
\<close>

lemma revoked_before_grant:
  "\<exists>y. pruns demo_env (no_years 0) y \<and> p_tasks y = [StampTask demo_checkout] \<and> hd (p_sent y) = demo_grant
     \<and> pp_revoked (hd (p_rows y)) \<noteq> None"
proof -
  let ?r = "demo_claimed\<lparr>pp_revoked := Some 0, pp_reason := Some ''refund''\<rparr>"
  have c: "grant_claim ''p1'' demo_checkout [] = (Inr Proceed, [demo_claimed])"
    by (simp add: grant_claim_def demo_checkout_def ck_plan_def claim_prepayment_def demo_claimed_def PREPAY_MONTHS_def)
  have w: "grant_write demo_env demo_checkout (Some ''sub'') (demo_subscription []) = Inr ([demo_grant], False)"
    by (simp add: grant_write_def grant_item_def licensedItemOf_def demo_subscription_def planForLicensedPrice_def
        demo_env_def itemHasDiscount_def carried_referral_def demo_grant_def demo_checkout_def)
  have r: "revokePrepaidYear 0 ''cs'' ''refund'' [demo_claimed] = (Some ''co'', [?r])"
    by (simp add: revokePrepaidYear_def revoke_prepayment_def revocable_def demo_claimed_def)
  let ?k = "RevokeTask ''cs'' ''co''"
  have "pstep demo_env (no_years 0) (demo_sys 0 demo_claimed [GrantTask demo_checkout] [])"
    using p_claim [of "''p1''" demo_checkout "no_years 0" "[demo_claimed]" demo_env] c by simp
  moreover have "pstep demo_env (demo_sys 0 demo_claimed [GrantTask demo_checkout] [])
      (demo_sys 0 ?r [?k, GrantTask demo_checkout] [])"
    using p_revoke [of "demo_sys 0 demo_claimed [GrantTask demo_checkout] []" "''cs''" "''refund''" "''co''" "[?r]"] r by simp
  moreover have "pstep demo_env (demo_sys 0 ?r [?k, GrantTask demo_checkout] [])
      (demo_sys 0 ?r [GrantTask demo_checkout] [ClearDiscounts ''sub'' ''li''])"
    using p_revoke_clear [of "''cs''" "''co''" "demo_sys 0 ?r [?k, GrantTask demo_checkout] []" demo_env "Some ''sub''"
        "demo_subscription []"]
    by (simp add: clear_writes_def licensedItemOf_def demo_subscription_def planForLicensedPrice_def demo_env_def)
  moreover have "pstep demo_env (demo_sys 0 ?r [GrantTask demo_checkout] [ClearDiscounts ''sub'' ''li''])
      (demo_sys 0 ?r [StampTask demo_checkout] [demo_grant, ClearDiscounts ''sub'' ''li''])"
    using p_grant [of demo_checkout "demo_sys 0 ?r [GrantTask demo_checkout] [ClearDiscounts ''sub'' ''li'']" demo_env] w
    by fastforce
  ultimately have "pruns demo_env (no_years 0)
      (demo_sys 0 ?r [StampTask demo_checkout] [demo_grant, ClearDiscounts ''sub'' ''li''])"
    by (meson converse_rtranclp_into_rtranclp rtranclp.rtrancl_refl)
  then show ?thesis by (intro exI conjI) (assumption, simp_all)
qed

lemma invoice_count_overruns:
  "let anchor = days_from_civil 2027 1 31 * day_ms; due = days_from_civil 2027 2 28 * day_ms;
       closes = days_from_civil 2027 12 29 * day_ms
   in due = add_months_pg anchor 1 \<and> count_invoices PREPAY_MONTHS due closes = 11
      \<and> closes \<le> add_months_pg anchor 11"
  by code_simp

end
