(* ===== verification/Nanp.thy ===== *)
theory Nanp
  imports Prelude
begin

text \<open>
  The area codes of the United States and Canada and what the product derives from a number
  (\<open>packages/shared/src/nanp.ts\<close>): the strict parse of \<open>+1NXXNXXXXXX\<close>, the entry of its area code,
  the check that a destination may be texted at all, and the number as a person reads it. The
  table is the source's, entry by entry, in one definition per leading digit.
\<close>

section \<open>The table\<close>

datatype nanp_country = US | CA

datatype nanp_entry =
    Geographic nanp_country (region: string) (zone: string)
  | NonGeographic nanp_country

definition country :: "nanp_entry \<Rightarrow> nanp_country" where
  "country e = (case e of Geographic c r z \<Rightarrow> c | NonGeographic c \<Rightarrow> c)"

lemma country_simps [simp]: "country (Geographic c r z) = c" "country (NonGeographic c) = c"
  by (simp_all add: country_def)

definition tz_anchorage :: string where "tz_anchorage = ''America/Anchorage''"
definition tz_boise :: string where "tz_boise = ''America/Boise''"
definition tz_chicago :: string where "tz_chicago = ''America/Chicago''"
definition tz_denver :: string where "tz_denver = ''America/Denver''"
definition tz_detroit :: string where "tz_detroit = ''America/Detroit''"
definition tz_edmonton :: string where "tz_edmonton = ''America/Edmonton''"
definition tz_halifax :: string where "tz_halifax = ''America/Halifax''"
definition tz_indianapolis :: string where "tz_indianapolis = ''America/Indiana/Indianapolis''"
definition tz_los_angeles :: string where "tz_los_angeles = ''America/Los_Angeles''"
definition tz_moncton :: string where "tz_moncton = ''America/Moncton''"
definition tz_new_york :: string where "tz_new_york = ''America/New_York''"
definition tz_phoenix :: string where "tz_phoenix = ''America/Phoenix''"
definition tz_puerto_rico :: string where "tz_puerto_rico = ''America/Puerto_Rico''"
definition tz_regina :: string where "tz_regina = ''America/Regina''"
definition tz_st_johns :: string where "tz_st_johns = ''America/St_Johns''"
definition tz_toronto :: string where "tz_toronto = ''America/Toronto''"
definition tz_vancouver :: string where "tz_vancouver = ''America/Vancouver''"
definition tz_whitehorse :: string where "tz_whitehorse = ''America/Whitehorse''"
definition tz_winnipeg :: string where "tz_winnipeg = ''America/Winnipeg''"
definition tz_guam :: string where "tz_guam = ''Pacific/Guam''"
definition tz_honolulu :: string where "tz_honolulu = ''Pacific/Honolulu''"
definition tz_pago_pago :: string where "tz_pago_pago = ''Pacific/Pago_Pago''"
definition tz_saipan :: string where "tz_saipan = ''Pacific/Saipan''"

definition area_codes_2 :: "(string \<times> nanp_entry) list" where
  "area_codes_2 = [
     (''201'', Geographic US ''NJ'' tz_new_york), (''202'', Geographic US ''DC'' tz_new_york),
     (''203'', Geographic US ''CT'' tz_new_york), (''204'', Geographic CA ''MB'' tz_winnipeg),
     (''205'', Geographic US ''AL'' tz_chicago), (''206'', Geographic US ''WA'' tz_los_angeles),
     (''207'', Geographic US ''ME'' tz_new_york), (''208'', Geographic US ''ID'' tz_boise),
     (''209'', Geographic US ''CA'' tz_los_angeles), (''210'', Geographic US ''TX'' tz_chicago),
     (''212'', Geographic US ''NY'' tz_new_york), (''213'', Geographic US ''CA'' tz_los_angeles),
     (''214'', Geographic US ''TX'' tz_chicago), (''215'', Geographic US ''PA'' tz_new_york),
     (''216'', Geographic US ''OH'' tz_new_york), (''217'', Geographic US ''IL'' tz_chicago),
     (''218'', Geographic US ''MN'' tz_chicago), (''219'', Geographic US ''IN'' tz_chicago),
     (''220'', Geographic US ''OH'' tz_new_york), (''223'', Geographic US ''PA'' tz_new_york),
     (''224'', Geographic US ''IL'' tz_chicago), (''225'', Geographic US ''LA'' tz_chicago),
     (''226'', Geographic CA ''ON'' tz_toronto), (''227'', Geographic US ''MD'' tz_new_york),
     (''228'', Geographic US ''MS'' tz_chicago), (''229'', Geographic US ''GA'' tz_new_york),
     (''231'', Geographic US ''MI'' tz_detroit), (''234'', Geographic US ''OH'' tz_new_york),
     (''235'', Geographic US ''MO'' tz_chicago), (''236'', Geographic CA ''BC'' tz_vancouver),
     (''239'', Geographic US ''FL'' tz_new_york), (''240'', Geographic US ''MD'' tz_new_york),
     (''248'', Geographic US ''MI'' tz_detroit), (''249'', Geographic CA ''ON'' tz_toronto),
     (''250'', Geographic CA ''BC'' tz_vancouver), (''251'', Geographic US ''AL'' tz_chicago),
     (''252'', Geographic US ''NC'' tz_new_york), (''253'', Geographic US ''WA'' tz_los_angeles),
     (''254'', Geographic US ''TX'' tz_chicago), (''256'', Geographic US ''AL'' tz_chicago),
     (''257'', Geographic CA ''BC'' tz_vancouver), (''260'', Geographic US ''IN'' tz_indianapolis),
     (''262'', Geographic US ''WI'' tz_chicago), (''263'', Geographic CA ''QC'' tz_toronto),
     (''267'', Geographic US ''PA'' tz_new_york), (''269'', Geographic US ''MI'' tz_detroit),
     (''270'', Geographic US ''KY'' tz_chicago), (''272'', Geographic US ''PA'' tz_new_york),
     (''274'', Geographic US ''WI'' tz_chicago), (''276'', Geographic US ''VA'' tz_new_york),
     (''279'', Geographic US ''CA'' tz_los_angeles), (''281'', Geographic US ''TX'' tz_chicago),
     (''283'', Geographic US ''OH'' tz_new_york), (''289'', Geographic CA ''ON'' tz_toronto)]"

definition area_codes_3 :: "(string \<times> nanp_entry) list" where
  "area_codes_3 = [
     (''301'', Geographic US ''MD'' tz_new_york), (''302'', Geographic US ''DE'' tz_new_york),
     (''303'', Geographic US ''CO'' tz_denver), (''304'', Geographic US ''WV'' tz_new_york),
     (''305'', Geographic US ''FL'' tz_new_york), (''306'', Geographic CA ''SK'' tz_regina),
     (''307'', Geographic US ''WY'' tz_denver), (''308'', Geographic US ''NE'' tz_chicago),
     (''309'', Geographic US ''IL'' tz_chicago), (''310'', Geographic US ''CA'' tz_los_angeles),
     (''312'', Geographic US ''IL'' tz_chicago), (''313'', Geographic US ''MI'' tz_detroit),
     (''314'', Geographic US ''MO'' tz_chicago), (''315'', Geographic US ''NY'' tz_new_york),
     (''316'', Geographic US ''KS'' tz_chicago), (''317'', Geographic US ''IN'' tz_indianapolis),
     (''318'', Geographic US ''LA'' tz_chicago), (''319'', Geographic US ''IA'' tz_chicago),
     (''320'', Geographic US ''MN'' tz_chicago), (''321'', Geographic US ''FL'' tz_new_york),
     (''323'', Geographic US ''CA'' tz_los_angeles), (''324'', Geographic US ''FL'' tz_new_york),
     (''325'', Geographic US ''TX'' tz_chicago), (''326'', Geographic US ''OH'' tz_new_york),
     (''327'', Geographic US ''AR'' tz_chicago), (''329'', Geographic US ''NY'' tz_new_york),
     (''330'', Geographic US ''OH'' tz_new_york), (''331'', Geographic US ''IL'' tz_chicago),
     (''332'', Geographic US ''NY'' tz_new_york), (''334'', Geographic US ''AL'' tz_chicago),
     (''336'', Geographic US ''NC'' tz_new_york), (''337'', Geographic US ''LA'' tz_chicago),
     (''339'', Geographic US ''MA'' tz_new_york), (''340'', Geographic US ''VI'' tz_puerto_rico),
     (''341'', Geographic US ''CA'' tz_los_angeles), (''343'', Geographic CA ''ON'' tz_toronto),
     (''346'', Geographic US ''TX'' tz_chicago), (''347'', Geographic US ''NY'' tz_new_york),
     (''350'', Geographic US ''CA'' tz_los_angeles), (''351'', Geographic US ''MA'' tz_new_york),
     (''352'', Geographic US ''FL'' tz_new_york), (''353'', Geographic US ''WI'' tz_chicago),
     (''354'', Geographic CA ''QC'' tz_toronto), (''357'', Geographic US ''CA'' tz_los_angeles),
     (''360'', Geographic US ''WA'' tz_los_angeles), (''361'', Geographic US ''TX'' tz_chicago),
     (''363'', Geographic US ''NY'' tz_new_york), (''364'', Geographic US ''KY'' tz_chicago),
     (''365'', Geographic CA ''ON'' tz_toronto), (''367'', Geographic CA ''QC'' tz_toronto),
     (''368'', Geographic CA ''AB'' tz_edmonton), (''369'', Geographic US ''CA'' tz_los_angeles),
     (''380'', Geographic US ''OH'' tz_new_york), (''382'', Geographic CA ''ON'' tz_toronto),
     (''385'', Geographic US ''UT'' tz_denver), (''386'', Geographic US ''FL'' tz_new_york)]"

definition area_codes_4 :: "(string \<times> nanp_entry) list" where
  "area_codes_4 = [
     (''401'', Geographic US ''RI'' tz_new_york), (''402'', Geographic US ''NE'' tz_chicago),
     (''403'', Geographic CA ''AB'' tz_edmonton), (''404'', Geographic US ''GA'' tz_new_york),
     (''405'', Geographic US ''OK'' tz_chicago), (''406'', Geographic US ''MT'' tz_denver),
     (''407'', Geographic US ''FL'' tz_new_york), (''408'', Geographic US ''CA'' tz_los_angeles),
     (''409'', Geographic US ''TX'' tz_chicago), (''410'', Geographic US ''MD'' tz_new_york),
     (''412'', Geographic US ''PA'' tz_new_york), (''413'', Geographic US ''MA'' tz_new_york),
     (''414'', Geographic US ''WI'' tz_chicago), (''415'', Geographic US ''CA'' tz_los_angeles),
     (''416'', Geographic CA ''ON'' tz_toronto), (''417'', Geographic US ''MO'' tz_chicago),
     (''418'', Geographic CA ''QC'' tz_toronto), (''419'', Geographic US ''OH'' tz_new_york),
     (''423'', Geographic US ''TN'' tz_new_york), (''424'', Geographic US ''CA'' tz_los_angeles),
     (''425'', Geographic US ''WA'' tz_los_angeles), (''428'', Geographic CA ''NB'' tz_moncton),
     (''430'', Geographic US ''TX'' tz_chicago), (''431'', Geographic CA ''MB'' tz_winnipeg),
     (''432'', Geographic US ''TX'' tz_chicago), (''434'', Geographic US ''VA'' tz_new_york),
     (''435'', Geographic US ''UT'' tz_denver), (''436'', Geographic US ''OH'' tz_new_york),
     (''437'', Geographic CA ''ON'' tz_toronto), (''438'', Geographic CA ''QC'' tz_toronto),
     (''440'', Geographic US ''OH'' tz_new_york), (''442'', Geographic US ''CA'' tz_los_angeles),
     (''443'', Geographic US ''MD'' tz_new_york), (''445'', Geographic US ''PA'' tz_new_york),
     (''447'', Geographic US ''IL'' tz_chicago), (''448'', Geographic US ''FL'' tz_chicago),
     (''450'', Geographic CA ''QC'' tz_toronto), (''457'', Geographic US ''LA'' tz_chicago),
     (''458'', Geographic US ''OR'' tz_los_angeles), (''463'', Geographic US ''IN'' tz_indianapolis),
     (''464'', Geographic US ''IL'' tz_chicago), (''465'', Geographic US ''NY'' tz_new_york),
     (''468'', Geographic CA ''QC'' tz_toronto), (''469'', Geographic US ''TX'' tz_chicago),
     (''470'', Geographic US ''GA'' tz_new_york), (''471'', Geographic US ''MS'' tz_chicago),
     (''472'', Geographic US ''NC'' tz_new_york), (''474'', Geographic CA ''SK'' tz_regina),
     (''475'', Geographic US ''CT'' tz_new_york), (''478'', Geographic US ''GA'' tz_new_york),
     (''479'', Geographic US ''AR'' tz_chicago), (''480'', Geographic US ''AZ'' tz_phoenix),
     (''483'', Geographic US ''AL'' tz_chicago), (''484'', Geographic US ''PA'' tz_new_york)]"

definition area_codes_5 :: "(string \<times> nanp_entry) list" where
  "area_codes_5 = [
     (''501'', Geographic US ''AR'' tz_chicago), (''502'', Geographic US ''KY'' tz_new_york),
     (''503'', Geographic US ''OR'' tz_los_angeles), (''504'', Geographic US ''LA'' tz_chicago),
     (''505'', Geographic US ''NM'' tz_denver), (''506'', Geographic CA ''NB'' tz_moncton),
     (''507'', Geographic US ''MN'' tz_chicago), (''508'', Geographic US ''MA'' tz_new_york),
     (''509'', Geographic US ''WA'' tz_los_angeles), (''510'', Geographic US ''CA'' tz_los_angeles),
     (''512'', Geographic US ''TX'' tz_chicago), (''513'', Geographic US ''OH'' tz_new_york),
     (''514'', Geographic CA ''QC'' tz_toronto), (''515'', Geographic US ''IA'' tz_chicago),
     (''516'', Geographic US ''NY'' tz_new_york), (''517'', Geographic US ''MI'' tz_detroit),
     (''518'', Geographic US ''NY'' tz_new_york), (''519'', Geographic CA ''ON'' tz_toronto),
     (''520'', Geographic US ''AZ'' tz_phoenix), (''521'', NonGeographic US),
     (''523'', NonGeographic US), (''524'', NonGeographic US),
     (''525'', NonGeographic US), (''526'', NonGeographic US),
     (''527'', NonGeographic US), (''528'', NonGeographic US),
     (''529'', NonGeographic US), (''530'', Geographic US ''CA'' tz_los_angeles),
     (''531'', Geographic US ''NE'' tz_chicago), (''532'', NonGeographic US),
     (''534'', Geographic US ''WI'' tz_chicago), (''539'', Geographic US ''OK'' tz_chicago),
     (''540'', Geographic US ''VA'' tz_new_york), (''541'', Geographic US ''OR'' tz_los_angeles),
     (''548'', Geographic CA ''ON'' tz_toronto), (''551'', Geographic US ''NJ'' tz_new_york),
     (''557'', Geographic US ''MO'' tz_chicago), (''559'', Geographic US ''CA'' tz_los_angeles),
     (''561'', Geographic US ''FL'' tz_new_york), (''562'', Geographic US ''CA'' tz_los_angeles),
     (''563'', Geographic US ''IA'' tz_chicago), (''564'', Geographic US ''WA'' tz_los_angeles),
     (''567'', Geographic US ''OH'' tz_new_york), (''570'', Geographic US ''PA'' tz_new_york),
     (''571'', Geographic US ''VA'' tz_new_york), (''572'', Geographic US ''OK'' tz_chicago),
     (''573'', Geographic US ''MO'' tz_chicago), (''574'', Geographic US ''IN'' tz_indianapolis),
     (''575'', Geographic US ''NM'' tz_denver), (''579'', Geographic CA ''QC'' tz_toronto),
     (''580'', Geographic US ''OK'' tz_chicago), (''581'', Geographic CA ''QC'' tz_toronto),
     (''582'', Geographic US ''PA'' tz_new_york), (''584'', Geographic CA ''MB'' tz_winnipeg),
     (''585'', Geographic US ''NY'' tz_new_york), (''586'', Geographic US ''MI'' tz_detroit),
     (''587'', Geographic CA ''AB'' tz_edmonton)]"

definition area_codes_6 :: "(string \<times> nanp_entry) list" where
  "area_codes_6 = [
     (''600'', NonGeographic CA), (''601'', Geographic US ''MS'' tz_chicago),
     (''602'', Geographic US ''AZ'' tz_phoenix), (''603'', Geographic US ''NH'' tz_new_york),
     (''604'', Geographic CA ''BC'' tz_vancouver), (''605'', Geographic US ''SD'' tz_chicago),
     (''606'', Geographic US ''KY'' tz_new_york), (''607'', Geographic US ''NY'' tz_new_york),
     (''608'', Geographic US ''WI'' tz_chicago), (''609'', Geographic US ''NJ'' tz_new_york),
     (''610'', Geographic US ''PA'' tz_new_york), (''612'', Geographic US ''MN'' tz_chicago),
     (''613'', Geographic CA ''ON'' tz_toronto), (''614'', Geographic US ''OH'' tz_new_york),
     (''615'', Geographic US ''TN'' tz_chicago), (''616'', Geographic US ''MI'' tz_detroit),
     (''617'', Geographic US ''MA'' tz_new_york), (''618'', Geographic US ''IL'' tz_chicago),
     (''619'', Geographic US ''CA'' tz_los_angeles), (''620'', Geographic US ''KS'' tz_chicago),
     (''621'', Geographic US ''TX'' tz_chicago), (''622'', NonGeographic CA),
     (''623'', Geographic US ''AZ'' tz_phoenix), (''624'', Geographic US ''NY'' tz_new_york),
     (''626'', Geographic US ''CA'' tz_los_angeles), (''628'', Geographic US ''CA'' tz_los_angeles),
     (''629'', Geographic US ''TN'' tz_chicago), (''630'', Geographic US ''IL'' tz_chicago),
     (''631'', Geographic US ''NY'' tz_new_york), (''633'', NonGeographic CA),
     (''636'', Geographic US ''MO'' tz_chicago), (''639'', Geographic CA ''SK'' tz_regina),
     (''640'', Geographic US ''NJ'' tz_new_york), (''641'', Geographic US ''IA'' tz_chicago),
     (''645'', Geographic US ''FL'' tz_new_york), (''646'', Geographic US ''NY'' tz_new_york),
     (''647'', Geographic CA ''ON'' tz_toronto), (''650'', Geographic US ''CA'' tz_los_angeles),
     (''651'', Geographic US ''MN'' tz_chicago), (''656'', Geographic US ''FL'' tz_new_york),
     (''657'', Geographic US ''CA'' tz_los_angeles), (''659'', Geographic US ''AL'' tz_chicago),
     (''660'', Geographic US ''MO'' tz_chicago), (''661'', Geographic US ''CA'' tz_los_angeles),
     (''662'', Geographic US ''MS'' tz_chicago), (''667'', Geographic US ''MD'' tz_new_york),
     (''669'', Geographic US ''CA'' tz_los_angeles), (''670'', Geographic US ''MP'' tz_saipan),
     (''671'', Geographic US ''GU'' tz_guam), (''672'', Geographic CA ''BC'' tz_vancouver),
     (''678'', Geographic US ''GA'' tz_new_york), (''679'', Geographic US ''MI'' tz_detroit),
     (''680'', Geographic US ''NY'' tz_new_york), (''681'', Geographic US ''WV'' tz_new_york),
     (''682'', Geographic US ''TX'' tz_chicago), (''683'', Geographic CA ''ON'' tz_toronto),
     (''684'', Geographic US ''AS'' tz_pago_pago), (''686'', Geographic US ''VA'' tz_new_york),
     (''689'', Geographic US ''FL'' tz_new_york)]"

definition area_codes_7 :: "(string \<times> nanp_entry) list" where
  "area_codes_7 = [
     (''701'', Geographic US ''ND'' tz_chicago), (''702'', Geographic US ''NV'' tz_los_angeles),
     (''703'', Geographic US ''VA'' tz_new_york), (''704'', Geographic US ''NC'' tz_new_york),
     (''705'', Geographic CA ''ON'' tz_toronto), (''706'', Geographic US ''GA'' tz_new_york),
     (''707'', Geographic US ''CA'' tz_los_angeles), (''708'', Geographic US ''IL'' tz_chicago),
     (''709'', Geographic CA ''NL'' tz_st_johns), (''710'', NonGeographic US),
     (''712'', Geographic US ''IA'' tz_chicago), (''713'', Geographic US ''TX'' tz_chicago),
     (''714'', Geographic US ''CA'' tz_los_angeles), (''715'', Geographic US ''WI'' tz_chicago),
     (''716'', Geographic US ''NY'' tz_new_york), (''717'', Geographic US ''PA'' tz_new_york),
     (''718'', Geographic US ''NY'' tz_new_york), (''719'', Geographic US ''CO'' tz_denver),
     (''720'', Geographic US ''CO'' tz_denver), (''724'', Geographic US ''PA'' tz_new_york),
     (''725'', Geographic US ''NV'' tz_los_angeles), (''726'', Geographic US ''TX'' tz_chicago),
     (''727'', Geographic US ''FL'' tz_new_york), (''728'', Geographic US ''FL'' tz_new_york),
     (''729'', Geographic US ''TN'' tz_new_york), (''730'', Geographic US ''IL'' tz_chicago),
     (''731'', Geographic US ''TN'' tz_chicago), (''732'', Geographic US ''NJ'' tz_new_york),
     (''734'', Geographic US ''MI'' tz_detroit), (''737'', Geographic US ''TX'' tz_chicago),
     (''738'', Geographic US ''CA'' tz_los_angeles), (''740'', Geographic US ''OH'' tz_new_york),
     (''742'', Geographic CA ''ON'' tz_toronto), (''743'', Geographic US ''NC'' tz_new_york),
     (''747'', Geographic US ''CA'' tz_los_angeles), (''748'', Geographic US ''CO'' tz_denver),
     (''753'', Geographic CA ''ON'' tz_toronto), (''754'', Geographic US ''FL'' tz_new_york),
     (''757'', Geographic US ''VA'' tz_new_york), (''760'', Geographic US ''CA'' tz_los_angeles),
     (''762'', Geographic US ''GA'' tz_new_york), (''763'', Geographic US ''MN'' tz_chicago),
     (''765'', Geographic US ''IN'' tz_indianapolis), (''769'', Geographic US ''MS'' tz_chicago),
     (''770'', Geographic US ''GA'' tz_new_york), (''771'', Geographic US ''DC'' tz_new_york),
     (''772'', Geographic US ''FL'' tz_new_york), (''773'', Geographic US ''IL'' tz_chicago),
     (''774'', Geographic US ''MA'' tz_new_york), (''775'', Geographic US ''NV'' tz_los_angeles),
     (''778'', Geographic CA ''BC'' tz_vancouver), (''779'', Geographic US ''IL'' tz_chicago),
     (''780'', Geographic CA ''AB'' tz_edmonton), (''781'', Geographic US ''MA'' tz_new_york),
     (''782'', Geographic CA ''NS'' tz_halifax), (''785'', Geographic US ''KS'' tz_chicago),
     (''786'', Geographic US ''FL'' tz_new_york), (''787'', Geographic US ''PR'' tz_puerto_rico)]"

definition area_codes_8 :: "(string \<times> nanp_entry) list" where
  "area_codes_8 = [
     (''801'', Geographic US ''UT'' tz_denver), (''802'', Geographic US ''VT'' tz_new_york),
     (''803'', Geographic US ''SC'' tz_new_york), (''804'', Geographic US ''VA'' tz_new_york),
     (''805'', Geographic US ''CA'' tz_los_angeles), (''806'', Geographic US ''TX'' tz_chicago),
     (''807'', Geographic CA ''ON'' tz_toronto), (''808'', Geographic US ''HI'' tz_honolulu),
     (''810'', Geographic US ''MI'' tz_detroit), (''812'', Geographic US ''IN'' tz_indianapolis),
     (''813'', Geographic US ''FL'' tz_new_york), (''814'', Geographic US ''PA'' tz_new_york),
     (''815'', Geographic US ''IL'' tz_chicago), (''816'', Geographic US ''MO'' tz_chicago),
     (''817'', Geographic US ''TX'' tz_chicago), (''818'', Geographic US ''CA'' tz_los_angeles),
     (''819'', Geographic CA ''QC'' tz_toronto), (''820'', Geographic US ''CA'' tz_los_angeles),
     (''821'', Geographic US ''SC'' tz_new_york), (''825'', Geographic CA ''AB'' tz_edmonton),
     (''826'', Geographic US ''VA'' tz_new_york), (''828'', Geographic US ''NC'' tz_new_york),
     (''830'', Geographic US ''TX'' tz_chicago), (''831'', Geographic US ''CA'' tz_los_angeles),
     (''832'', Geographic US ''TX'' tz_chicago), (''835'', Geographic US ''PA'' tz_new_york),
     (''837'', Geographic US ''CA'' tz_los_angeles), (''838'', Geographic US ''NY'' tz_new_york),
     (''839'', Geographic US ''SC'' tz_new_york), (''840'', Geographic US ''CA'' tz_los_angeles),
     (''843'', Geographic US ''SC'' tz_new_york), (''845'', Geographic US ''NY'' tz_new_york),
     (''847'', Geographic US ''IL'' tz_chicago), (''848'', Geographic US ''NJ'' tz_new_york),
     (''850'', Geographic US ''FL'' tz_chicago), (''854'', Geographic US ''SC'' tz_new_york),
     (''856'', Geographic US ''NJ'' tz_new_york), (''857'', Geographic US ''MA'' tz_new_york),
     (''858'', Geographic US ''CA'' tz_los_angeles), (''859'', Geographic US ''KY'' tz_new_york),
     (''860'', Geographic US ''CT'' tz_new_york), (''861'', Geographic US ''IL'' tz_chicago),
     (''862'', Geographic US ''NJ'' tz_new_york), (''863'', Geographic US ''FL'' tz_new_york),
     (''864'', Geographic US ''SC'' tz_new_york), (''865'', Geographic US ''TN'' tz_new_york),
     (''867'', Geographic CA ''YT'' tz_whitehorse), (''870'', Geographic US ''AR'' tz_chicago),
     (''872'', Geographic US ''IL'' tz_chicago), (''873'', Geographic CA ''QC'' tz_toronto),
     (''878'', Geographic US ''PA'' tz_new_york), (''879'', Geographic CA ''NL'' tz_st_johns)]"

definition area_codes_9 :: "(string \<times> nanp_entry) list" where
  "area_codes_9 = [
     (''901'', Geographic US ''TN'' tz_chicago), (''902'', Geographic CA ''NS'' tz_halifax),
     (''903'', Geographic US ''TX'' tz_chicago), (''904'', Geographic US ''FL'' tz_new_york),
     (''905'', Geographic CA ''ON'' tz_toronto), (''906'', Geographic US ''MI'' tz_detroit),
     (''907'', Geographic US ''AK'' tz_anchorage), (''908'', Geographic US ''NJ'' tz_new_york),
     (''909'', Geographic US ''CA'' tz_los_angeles), (''910'', Geographic US ''NC'' tz_new_york),
     (''912'', Geographic US ''GA'' tz_new_york), (''913'', Geographic US ''KS'' tz_chicago),
     (''914'', Geographic US ''NY'' tz_new_york), (''915'', Geographic US ''TX'' tz_denver),
     (''916'', Geographic US ''CA'' tz_los_angeles), (''917'', Geographic US ''NY'' tz_new_york),
     (''918'', Geographic US ''OK'' tz_chicago), (''919'', Geographic US ''NC'' tz_new_york),
     (''920'', Geographic US ''WI'' tz_chicago), (''924'', Geographic US ''MN'' tz_chicago),
     (''925'', Geographic US ''CA'' tz_los_angeles), (''928'', Geographic US ''AZ'' tz_phoenix),
     (''929'', Geographic US ''NY'' tz_new_york), (''930'', Geographic US ''IN'' tz_indianapolis),
     (''931'', Geographic US ''TN'' tz_chicago), (''934'', Geographic US ''NY'' tz_new_york),
     (''936'', Geographic US ''TX'' tz_chicago), (''937'', Geographic US ''OH'' tz_new_york),
     (''938'', Geographic US ''AL'' tz_chicago), (''939'', Geographic US ''PR'' tz_puerto_rico),
     (''940'', Geographic US ''TX'' tz_chicago), (''941'', Geographic US ''FL'' tz_new_york),
     (''942'', Geographic CA ''ON'' tz_toronto), (''943'', Geographic US ''GA'' tz_new_york),
     (''945'', Geographic US ''TX'' tz_chicago), (''947'', Geographic US ''MI'' tz_detroit),
     (''948'', Geographic US ''VA'' tz_new_york), (''949'', Geographic US ''CA'' tz_los_angeles),
     (''951'', Geographic US ''CA'' tz_los_angeles), (''952'', Geographic US ''MN'' tz_chicago),
     (''954'', Geographic US ''FL'' tz_new_york), (''956'', Geographic US ''TX'' tz_chicago),
     (''959'', Geographic US ''CT'' tz_new_york), (''970'', Geographic US ''CO'' tz_denver),
     (''971'', Geographic US ''OR'' tz_los_angeles), (''972'', Geographic US ''TX'' tz_chicago),
     (''973'', Geographic US ''NJ'' tz_new_york), (''975'', Geographic US ''MO'' tz_chicago),
     (''978'', Geographic US ''MA'' tz_new_york), (''979'', Geographic US ''TX'' tz_chicago),
     (''980'', Geographic US ''NC'' tz_new_york), (''983'', Geographic US ''CO'' tz_denver),
     (''984'', Geographic US ''NC'' tz_new_york), (''985'', Geographic US ''LA'' tz_chicago),
     (''986'', Geographic US ''ID'' tz_boise), (''989'', Geographic US ''MI'' tz_detroit)]"

definition NANP_AREA_CODES :: "(string \<times> nanp_entry) list" where
  "NANP_AREA_CODES = area_codes_2 @ area_codes_3 @ area_codes_4 @ area_codes_5 @ area_codes_6
     @ area_codes_7 @ area_codes_8 @ area_codes_9"


section \<open>Reading a number\<close>

text \<open>\<open>/^\+1([2-9]\d{2})[2-9]\d{2}\d{4}$/\<close>: the area code of a match.\<close>

definition leading :: "char \<Rightarrow> bool" where
  "leading c \<longleftrightarrow> is_digit c \<and> 2 \<le> digit_val c"

definition E164_US_CA :: "string \<Rightarrow> string option" where
  "E164_US_CA s =
     (case s of
        p # o' # a # b # c # d # rest \<Rightarrow>
          if p = CHR ''+'' \<and> o' = CHR ''1'' \<and> leading a \<and> is_digit b \<and> is_digit c \<and> leading d
             \<and> length rest = 6 \<and> list_all is_digit rest
          then Some [a, b, c] else None
      | _ \<Rightarrow> None)"

definition lookupAreaCode :: "string \<Rightarrow> nanp_entry option" where
  "lookupAreaCode e164 =
     (case E164_US_CA e164 of None \<Rightarrow> None | Some code \<Rightarrow> map_of NANP_AREA_CODES code)"

definition isUsCaDestination :: "string \<Rightarrow> bool" where
  "isUsCaDestination e164 \<longleftrightarrow> lookupAreaCode e164 \<noteq> None"

text \<open>\<open>/^\+1(\d{3})(\d{3})(\d{4})$/\<close>, and the number in the form \<open>(415) 555-0142\<close>.\<close>

definition formatNanpNumber :: "string \<Rightarrow> string" where
  "formatNanpNumber e164 =
     (if take 2 e164 = ''+1'' \<and> length e164 = 12 \<and> list_all is_digit (drop 2 e164)
      then let n = drop 2 e164
           in ''('' @ take 3 n @ '') '' @ take 3 (drop 3 n) @ ''-'' @ drop 6 n
      else e164)"


end
