(* ===== verification/Quiet_Hours.thy ===== *)
theory Quiet_Hours
  imports Nanp
begin

text \<open>
  Which clock a destination is on and when it may be texted
  (\<open>apps/api/src/messaging/destination-clock.ts\<close>). The runtime's table of time zones is an argument:
  a zone name has an offset from UTC at every instant, or is unknown and then \<open>Intl.DateTimeFormat\<close>
  throws. The policy, the two searches for an instant that may be used, and the choice of the clock
  are the source's.
\<close>

section \<open>The clock of a zone\<close>

definition hour_ms :: ms where "hour_ms = 3600000"
definition minute_ms :: ms where "minute_ms = 60000"

lemma unit_ms: "day_ms = 24 * hour_ms" "hour_ms = 60 * minute_ms" "hour_ms = 3600000" "minute_ms = 60000"
  by (simp_all add: day_ms_def hour_ms_def minute_ms_def)

type_synonym offset = "ms \<Rightarrow> ms"
type_synonym zones = "string \<Rightarrow> offset option"

definition local_time :: "offset \<Rightarrow> ms \<Rightarrow> ms" where
  "local_time off t = t + off t"

definition localHourIn :: "offset \<Rightarrow> ms \<Rightarrow> int" where
  "localHourIn off t = local_time off t div hour_ms mod 24"

text \<open>Sunday is 0; the epoch was a Thursday.\<close>

definition localWeekdayIn :: "offset \<Rightarrow> ms \<Rightarrow> int" where
  "localWeekdayIn off t = (local_time off t div day_ms + 4) mod 7"

definition localMinuteIn :: "offset \<Rightarrow> ms \<Rightarrow> int" where
  "localMinuteIn off t = local_time off t div minute_ms mod 60"


section \<open>The policy\<close>

definition QUIET_HOURS_START :: int where "QUIET_HOURS_START = 20"
definition QUIET_HOURS_END :: int where "QUIET_HOURS_END = 8"

definition isQuietHour :: "int \<Rightarrow> bool" where
  "isQuietHour h \<longleftrightarrow> QUIET_HOURS_START \<le> h \<or> h < QUIET_HOURS_END"

definition quietOpenHourFor :: "string option \<Rightarrow> int \<Rightarrow> int" where
  "quietOpenHourFor state weekday = (if state = Some ''TX'' \<and> weekday = 0 then 12 else QUIET_HOURS_END)"

definition isQuietAt :: "offset \<Rightarrow> string option \<Rightarrow> ms \<Rightarrow> bool" where
  "isQuietAt off state t \<longleftrightarrow>
     QUIET_HOURS_START \<le> localHourIn off t
     \<or> localHourIn off t < quietOpenHourFor state (localWeekdayIn off t)"

text \<open>
  The searches step whole UTC hours, at most 26 of them, and snap the first hour that may be used to
  its beginning on the local clock.
\<close>

definition hour_floor :: "ms \<Rightarrow> ms" where
  "hour_floor t = t - t mod hour_ms"

definition snapped :: "offset \<Rightarrow> ms \<Rightarrow> ms" where
  "snapped off t = t - localMinuteIn off t * minute_ms"

fun scan_hours :: "ms \<Rightarrow> offset \<Rightarrow> string option \<Rightarrow> nat \<Rightarrow> ms \<Rightarrow> ms option" where
  "scan_hours d off state 0 cursor = None"
| "scan_hours d off state (Suc n) cursor =
     (if isQuietAt off state (cursor + d) then scan_hours d off state n (cursor + d)
      else Some (snapped off (cursor + d)))"

definition nextSendableInstant :: "offset \<Rightarrow> string option \<Rightarrow> ms \<Rightarrow> ms option" where
  "nextSendableInstant off state t =
     (if \<not> isQuietAt off state t then None else scan_hours hour_ms off state 26 (hour_floor t))"

definition lastSendableInstantBefore :: "offset \<Rightarrow> string option \<Rightarrow> ms \<Rightarrow> ms option" where
  "lastSendableInstantBefore off state t =
     (if \<not> isQuietAt off state t then Some t else scan_hours (- hour_ms) off state 26 (hour_floor t))"


section \<open>Whose clock\<close>

datatype clock_source = ContactClock | AreaCodeClock | CompanyClock

record destination_clock =
  dc_timezone :: string
  dc_source :: clock_source
  dc_region :: "string option"
  dc_localHour :: int
  dc_quiet :: bool

text \<open>
  \<open>at\<close>. \<open>localHourInZone\<close> answers null for an unknown zone and reads as hour 0, but the weekday is
  asked of a formatter that throws for it, so the whole answer is the exception: \<open>None\<close>.
\<close>

definition clock_at :: "zones \<Rightarrow> string \<Rightarrow> clock_source \<Rightarrow> string option \<Rightarrow> ms \<Rightarrow> destination_clock option" where
  "clock_at tz name source state t =
     (case tz name of
        None \<Rightarrow> None
      | Some off \<Rightarrow> Some \<lparr>dc_timezone = name, dc_source = source, dc_region = state,
                         dc_localHour = localHourIn off t, dc_quiet = isQuietAt off state t\<rparr>)"

definition region_of :: "nanp_entry option \<Rightarrow> string option" where
  "region_of e = (case e of Some (Geographic c r z) \<Rightarrow> Some r | _ \<Rightarrow> None)"

text \<open>The ladder: the contact's own zone, the area code's, the company's.\<close>

definition resolveDestinationClock ::
  "zones \<Rightarrow> string \<Rightarrow> string option \<Rightarrow> string \<Rightarrow> ms \<Rightarrow> destination_clock option" where
  "resolveDestinationClock tz phone contactZone companyZone t =
     (let e = lookupAreaCode phone in
      if truthy contactZone then clock_at tz (the contactZone) ContactClock (region_of e) t
      else case e of
        Some (Geographic c r z) \<Rightarrow>
          if z \<noteq> [] then clock_at tz z AreaCodeClock (region_of e) t
          else clock_at tz companyZone CompanyClock (region_of e) t
      | _ \<Rightarrow> clock_at tz companyZone CompanyClock (region_of e) t)"


section \<open>Around an instant where no clock changes\<close>

text \<open>The offset is \<open>o'\<close>, a whole number of minutes, from \<open>a\<close> to \<open>b\<close>.\<close>

definition steady :: "offset \<Rightarrow> ms \<Rightarrow> ms \<Rightarrow> ms \<Rightarrow> bool" where
  "steady off a b o' \<longleftrightarrow> o' mod minute_ms = 0 \<and> (\<forall>u. a \<le> u \<and> u \<le> b \<longrightarrow> off u = o')"

lemma steadyD: "steady off a b o' \<Longrightarrow> a \<le> u \<Longrightarrow> u \<le> b \<Longrightarrow> off u = o'"
  by (simp add: steady_def)

lemma steady_const: "o' mod minute_ms = 0 \<Longrightarrow> steady (\<lambda>u. o') a b o'"
  by (simp add: steady_def)

text \<open>The hour's number on the local clock, and quietness as a matter of it alone.\<close>

definition hour_no :: "ms \<Rightarrow> ms \<Rightarrow> int" where
  "hour_no o' t = (t + o') div hour_ms"

definition quiet_no :: "string option \<Rightarrow> int \<Rightarrow> bool" where
  "quiet_no state k \<longleftrightarrow>
     QUIET_HOURS_START \<le> k mod 24 \<or> k mod 24 < quietOpenHourFor state ((k div 24 + 4) mod 7)"

lemma quiet_by_no: "off t = o' \<Longrightarrow> isQuietAt off state t \<longleftrightarrow> quiet_no state (hour_no o' t)"
  using zdiv_zmult2_eq [of 24 "t + o'" hour_ms]
  by (simp add: isQuietAt_def quiet_no_def hour_no_def localHourIn_def localWeekdayIn_def local_time_def
      unit_ms(1) mult.commute)

lemma open_by_noon: "quietOpenHourFor state d \<le> 12"
  by (simp add: quietOpenHourFor_def QUIET_HOURS_END_def)

lemma noon_not_quiet: "k mod 24 = 12 \<Longrightarrow> \<not> quiet_no state k"
  using open_by_noon [of state "(k div 24 + 4) mod 7"] by (simp add: quiet_no_def QUIET_HOURS_START_def)

lemma awake_ahead: "\<exists>j. 1 \<le> j \<and> j \<le> 24 \<and> \<not> quiet_no state (k + int j)"
proof -
  define j where "j = (11 - k) mod 24 + 1"
  have "1 \<le> j" "j \<le> 24" unfolding j_def by simp_all
  moreover have "(k + j) mod 24 = (k + 1 + (11 - k)) mod 24"
    unfolding j_def by (metis add.assoc add.commute mod_add_right_eq)
  ultimately have "1 \<le> j" "j \<le> 24" "(k + j) mod 24 = 12" by simp_all
  then show ?thesis using noon_not_quiet [of "k + j" state] by (intro exI [of _ "nat j"]) (auto simp: nat_le_iff Suc_le_eq)
qed

lemma awake_behind: "\<exists>j. 1 \<le> j \<and> j \<le> 24 \<and> \<not> quiet_no state (k - int j)"
proof -
  define j where "j = (k - 13) mod 24 + 1"
  have "1 \<le> j" "j \<le> 24" unfolding j_def by simp_all
  moreover have "(k - j) mod 24 = (k - 1 - (k - 13)) mod 24"
    unfolding j_def by (metis diff_diff_eq add.commute mod_diff_right_eq)
  ultimately have "1 \<le> j" "j \<le> 24" "(k - j) mod 24 = 12" by simp_all
  then show ?thesis using noon_not_quiet [of "k - j" state] by (intro exI [of _ "nat j"]) (auto simp: nat_le_iff Suc_le_eq)
qed

lemma scan_finds:
  "\<exists>j \<ge> 1. j \<le> n \<and> \<not> isQuietAt off state (c + int j * d) \<Longrightarrow>
   \<exists>j \<ge> 1. j \<le> n \<and> \<not> isQuietAt off state (c + int j * d)
     \<and> (\<forall>i \<ge> 1. i < j \<longrightarrow> isQuietAt off state (c + int i * d))
     \<and> scan_hours d off state n c = Some (snapped off (c + int j * d))"
proof (induction n arbitrary: c)
  case (Suc n)
  show ?case
  proof (cases "isQuietAt off state (c + d)")
    case False
    then show ?thesis by (intro exI [of _ 1]) auto
  next
    case True
    have e: "c + d + int i * d = c + int (Suc i) * d" for i by (simp add: algebra_simps)
    obtain j where "1 \<le> j" "j \<le> Suc n" "\<not> isQuietAt off state (c + int j * d)" using Suc.prems by blast
    moreover from this True have "j \<noteq> 1" by auto
    ultimately obtain i where "j = Suc i" "1 \<le> i" "i \<le> n" "\<not> isQuietAt off state (c + int (Suc i) * d)"
      by (cases j) auto
    then have "\<exists>i \<ge> 1. i \<le> n \<and> \<not> isQuietAt off state (c + d + int i * d)" unfolding e by blast
    from Suc.IH [OF this] obtain i where i: "1 \<le> i" "i \<le> n" "\<not> isQuietAt off state (c + int (Suc i) * d)"
      "\<forall>k \<ge> 1. k < i \<longrightarrow> isQuietAt off state (c + int (Suc k) * d)"
      "scan_hours d off state n (c + d) = Some (snapped off (c + int (Suc i) * d))" unfolding e by blast
    have "isQuietAt off state (c + int k * d)" if "1 \<le> k" "k < Suc i" for k
      using that True i(4) by (cases "k = 1") (auto elim!: allE [of _ "k - 1"])
    then show ?thesis using i True by (intro exI [of _ "Suc i"]) auto
  qed
qed simp

lemma hour_floor_bounds: "hour_floor t \<le> t" "t < hour_floor t + hour_ms" "hour_floor t mod hour_ms = 0"
  by (simp_all add: hour_floor_def unit_ms(3) minus_mod_eq_mult_div)

lemma snapped_steady:
  assumes "off c = o'" "o' mod minute_ms = 0" "c mod hour_ms = 0"
  shows "snapped off c = hour_no o' c * hour_ms - o'"
proof -
  obtain x where x: "c + o' = x * minute_ms" using assms(2, 3)
    by (metis (no_types, lifting) mod_0_imp_dvd dvd_add dvd_def dvd_trans mult.commute unit_ms(2) dvd_triv_right)
  have "x * minute_ms div minute_ms mod 60 * minute_ms = x * minute_ms mod hour_ms"
    using mult_mod_right [of 60000 x 60] by (simp add: unit_ms(4) unit_ms(3) mult.commute)
  then have "localMinuteIn off c * minute_ms = (c + o') mod hour_ms"
    using assms(1) x by (simp add: localMinuteIn_def local_time_def)
  then show ?thesis by (simp add: snapped_def hour_no_def minus_mod_eq_div_mult [symmetric])
qed

lemma hour_no_add: "hour_no o' (c + n * hour_ms) = hour_no o' c + n"
proof -
  have "c + n * hour_ms + o' = (c + o') + n * hour_ms" by simp
  then show ?thesis unfolding hour_no_def by (simp add: unit_ms(3))
qed

lemma hour_no_iff: "hour_no o' u = k \<longleftrightarrow> k * hour_ms - o' \<le> u \<and> u < (k + 1) * hour_ms - o'"
  by (auto simp: hour_no_def unit_ms(3))

lemma hour_no_less: "hour_no o' u < k \<longleftrightarrow> u < k * hour_ms - o'"
  by (auto simp: hour_no_def unit_ms(3))

lemma hour_no_mono: "u \<le> v \<Longrightarrow> hour_no o' u \<le> hour_no o' v"
  by (simp add: hour_no_def zdiv_mono1 unit_ms(3))

text \<open>Either search, where no clock changes on its way, by the numbers of the hours.\<close>

lemma scan_steady:
  fixes e :: int
  assumes e: "e = 1 \<or> e = - 1" and st: "steady off a b o'" and c: "c mod hour_ms = 0"
    and inside: "\<And>j. 1 \<le> j \<Longrightarrow> j \<le> 26 \<Longrightarrow> a \<le> c + int j * (e * hour_ms) \<and> c + int j * (e * hour_ms) \<le> b"
  shows "\<exists>j \<ge> 1. j \<le> 26 \<and> \<not> quiet_no state (hour_no o' c + e * int j)
     \<and> (\<forall>i \<ge> 1. i < j \<longrightarrow> quiet_no state (hour_no o' c + e * int i))
     \<and> scan_hours (e * hour_ms) off state 26 c = Some ((hour_no o' c + e * int j) * hour_ms - o')"
proof -
  have no: "hour_no o' (c + int j * (e * hour_ms)) = hour_no o' c + e * int j" for j
    using hour_no_add [of o' c "e * int j"] by (simp add: mult.commute mult.left_commute)
  have q: "isQuietAt off state (c + int j * (e * hour_ms)) \<longleftrightarrow> quiet_no state (hour_no o' c + e * int j)"
    if "1 \<le> j" "j \<le> 26" for j
    using quiet_by_no [of off "c + int j * (e * hour_ms)" o' state] steadyD [OF st, of "c + int j * (e * hour_ms)"]
      inside [OF that] by (simp add: no)
  obtain i where "1 \<le> i" "i \<le> 24" "\<not> quiet_no state (hour_no o' c + e * int i)"
    using e awake_ahead [of state "hour_no o' c"] awake_behind [of state "hour_no o' c"] by auto
  then have "\<exists>j \<ge> 1. j \<le> 26 \<and> \<not> isQuietAt off state (c + int j * (e * hour_ms))"
    using q [of i] by (intro exI [of _ i]) simp
  from scan_finds [OF this] obtain j where j: "1 \<le> j" "j \<le> 26" "\<not> isQuietAt off state (c + int j * (e * hour_ms))"
    "\<forall>i \<ge> 1. i < j \<longrightarrow> isQuietAt off state (c + int i * (e * hour_ms))"
    "scan_hours (e * hour_ms) off state 26 c = Some (snapped off (c + int j * (e * hour_ms)))" by blast
  have "off (c + int j * (e * hour_ms)) = o'" using steadyD [OF st] inside [OF j(1, 2)] by blast
  moreover have "o' mod minute_ms = 0" using st by (simp add: steady_def)
  moreover have "(c + int j * (e * hour_ms)) mod hour_ms = 0" using c by (simp add: mult.assoc [symmetric])
  ultimately have "snapped off (c + int j * (e * hour_ms)) = (hour_no o' c + e * int j) * hour_ms - o'"
    using snapped_steady [of off "c + int j * (e * hour_ms)" o'] by (simp add: no)
  then show ?thesis using j q by (intro exI [of _ j]) auto
qed

text \<open>The first instant that may be used, and nothing before it.\<close>

lemma next_sendable_first:
  assumes "steady off t (t + 27 * hour_ms) o'" "isQuietAt off state t"
  shows "\<exists>r. nextSendableInstant off state t = Some r \<and> t \<le> r \<and> r \<le> t + 26 * hour_ms
       \<and> \<not> isQuietAt off state r \<and> (\<forall>u. t \<le> u \<and> u < r \<longrightarrow> isQuietAt off state u)"
proof -
  let ?c = "hour_floor t" and ?q = "isQuietAt off state"
  have h: "hour_ms = 3600000" by (rule unit_ms)
  have q: "?q u \<longleftrightarrow> quiet_no state (hour_no o' u)" if "t \<le> u" "u \<le> t + 27 * hour_ms" for u
    by (rule quiet_by_no) (rule steadyD [OF assms(1) that])
  have c: "?c \<le> t" "t < ?c + hour_ms" "?c mod hour_ms = 0" by (rule hour_floor_bounds)+
  have "\<exists>j \<ge> 1. j \<le> 26 \<and> \<not> quiet_no state (hour_no o' ?c + 1 * int j)
     \<and> (\<forall>i \<ge> 1. i < j \<longrightarrow> quiet_no state (hour_no o' ?c + 1 * int i))
     \<and> scan_hours (1 * hour_ms) off state 26 ?c = Some ((hour_no o' ?c + 1 * int j) * hour_ms - o')"
    by (rule scan_steady [OF _ assms(1) c(3)]) (use c in \<open>auto simp: h\<close>)
  then obtain j where j: "1 \<le> j" "j \<le> 26" "\<not> quiet_no state (hour_no o' ?c + int j)"
    "\<And>i. 1 \<le> i \<Longrightarrow> i < j \<Longrightarrow> quiet_no state (hour_no o' ?c + int i)"
    "scan_hours hour_ms off state 26 ?c = Some ((hour_no o' ?c + int j) * hour_ms - o')" by auto
  let ?k = "hour_no o' ?c + int j"
  let ?r = "?k * hour_ms - o'"
  have ct: "hour_no o' ?c \<le> hour_no o' t" "hour_no o' t \<le> hour_no o' ?c + 1"
    using hour_no_mono [OF c(1)] hour_no_mono [of t "?c + 1 * hour_ms" o'] c(2) by (simp_all only: hour_no_add)
  have kt: "quiet_no state (hour_no o' t)" using q [of t] assms(2) h by simp
  have before: "quiet_no state (hour_no o' u)" if "t \<le> u" "hour_no o' u < ?k" for u
  proof (cases "hour_no o' u = hour_no o' t")
    case False
    then have lo: "hour_no o' t < hour_no o' u" using hour_no_mono [OF that(1)] by (simp add: less_le)
    have "quiet_no state (hour_no o' ?c + int (nat (hour_no o' u - hour_no o' ?c)))"
      using lo ct(1) that(2) by (intro j(4)) auto
    then show ?thesis using lo ct(1) by simp
  qed (use kt in simp)
  have rk: "hour_no o' ?r = ?k" unfolding hour_no_iff by (simp add: h algebra_simps)
  have tr: "t \<le> ?r"
  proof (rule ccontr)
    assume "\<not> t \<le> ?r"
    then have "?k \<le> hour_no o' t" using hour_no_less [of o' t ?k] by simp
    then have "hour_no o' t = ?k" using ct(2) j(1) by simp
    then show False using kt j(3) by simp
  qed
  have "?c + int j * hour_ms < t + 27 * hour_ms" "?k * hour_ms - o' \<le> ?c + int j * hour_ms"
    using j(2) c hour_no_add [of o' ?c "int j"] hour_no_iff [of o' "?c + int j * hour_ms" ?k] by (auto simp: h)
  moreover have "?c + int j * hour_ms \<le> t + 26 * hour_ms" using j(2) c(1) by (simp add: h)
  ultimately have rt: "?r \<le> t + 26 * hour_ms" by linarith
  show ?thesis
  proof (intro exI conjI allI impI)
    show "nextSendableInstant off state t = Some ?r" using assms(2) j(5) by (simp add: nextSendableInstant_def)
    show "\<not> ?q ?r" using q [OF tr] rt rk j(3) by (simp add: h)
    fix u assume u: "t \<le> u \<and> u < ?r"
    then show "?q u" using q [of u] before [of u] hour_no_less [of o' u ?k] rt by (simp add: h)
  qed (use tr rt in blast)+
qed

text \<open>
  The way back. It begins an hour before the UTC hour of \<open>t\<close>, so on a clock that is not a whole number of
  hours from UTC the local hour just before \<open>t\<close>'s may be passed over; no other is.
\<close>

lemma last_sendable_back:
  assumes "steady off (t - 28 * hour_ms) t o'" "isQuietAt off state t"
  shows "\<exists>r. lastSendableInstantBefore off state t = Some r \<and> r < t \<and> t - 28 * hour_ms \<le> r
       \<and> \<not> isQuietAt off state r
       \<and> (\<forall>u. r + hour_ms \<le> u \<and> u \<le> t \<and> \<not> isQuietAt off state u
              \<longrightarrow> o' mod hour_ms \<noteq> 0 \<and> hour_no o' u = hour_no o' t - 1)"
proof -
  let ?c = "hour_floor t" and ?q = "isQuietAt off state"
  have h: "hour_ms = 3600000" by (rule unit_ms)
  have q: "?q u \<longleftrightarrow> quiet_no state (hour_no o' u)" if "t - 28 * hour_ms \<le> u" "u \<le> t" for u
    by (rule quiet_by_no) (rule steadyD [OF assms(1) that])
  have c: "?c \<le> t" "t < ?c + hour_ms" "?c mod hour_ms = 0" by (rule hour_floor_bounds)+
  have "\<exists>j \<ge> 1. j \<le> 26 \<and> \<not> quiet_no state (hour_no o' ?c + (- 1) * int j)
     \<and> (\<forall>i \<ge> 1. i < j \<longrightarrow> quiet_no state (hour_no o' ?c + (- 1) * int i))
     \<and> scan_hours ((- 1) * hour_ms) off state 26 ?c = Some ((hour_no o' ?c + (- 1) * int j) * hour_ms - o')"
    by (rule scan_steady [OF _ assms(1) c(3)]) (use c in \<open>auto simp: h\<close>)
  then obtain j where j: "1 \<le> j" "j \<le> 26" "\<not> quiet_no state (hour_no o' ?c - int j)"
    "\<And>i. 1 \<le> i \<Longrightarrow> i < j \<Longrightarrow> quiet_no state (hour_no o' ?c - int i)"
    "scan_hours (- hour_ms) off state 26 ?c = Some ((hour_no o' ?c - int j) * hour_ms - o')" by auto
  let ?k = "hour_no o' ?c - int j"
  let ?r = "?k * hour_ms - o'"
  have ct: "hour_no o' ?c \<le> hour_no o' t" "hour_no o' t \<le> hour_no o' ?c + 1"
    using hour_no_mono [OF c(1)] hour_no_mono [of t "?c + 1 * hour_ms" o'] c(2) by (simp_all only: hour_no_add)
  have whole: "hour_no o' ?c = hour_no o' t" if "o' mod hour_ms = 0"
  proof -
    have "?c + o' = (?c div hour_ms + o' div hour_ms) * hour_ms"
      using c(3) that by (simp add: distrib_right) (metis add.commute add_0 div_mult_mod_eq)
    then have "hour_no o' ?c * hour_ms = ?c + o'" by (simp add: hour_no_def h)
    then show ?thesis using ct(1) hour_no_less [of o' t "hour_no o' ?c + 1"] c(2) by (simp add: h)
  qed
  have rk: "hour_no o' ?r = ?k" unfolding hour_no_iff by (simp add: h algebra_simps)
  have cj: "?r \<le> ?c - int j * hour_ms" "?c - int j * hour_ms < ?r + hour_ms"
    using hour_no_add [of o' ?c "- int j"] hour_no_iff [of o' "?c - int j * hour_ms" ?k] by (auto simp: h)
  have rt: "?r < t" "t - 28 * hour_ms \<le> ?r" using cj c j(1, 2) by (auto simp: h)
  show ?thesis
  proof (intro exI conjI allI impI)
    show "lastSendableInstantBefore off state t = Some ?r" using assms(2) j(5) by (simp add: lastSendableInstantBefore_def)
    show "\<not> ?q ?r" using q [of ?r] rt rk j(3) by simp
  next
    fix u assume u: "?r + hour_ms \<le> u \<and> u \<le> t \<and> \<not> ?q u"
    then have uq: "\<not> quiet_no state (hour_no o' u)" using q [of u] rt(2) h by simp
    have lo: "?k < hour_no o' u" using u hour_no_less [of o' u "?k + 1"] by (simp add: h)
    have ut: "hour_no o' u \<noteq> hour_no o' t" using uq q [of t] assms(2) h by auto
    then have hi: "hour_no o' u < hour_no o' t" using hour_no_mono [of u t o'] u by (simp add: less_le)
    have eq: "hour_no o' u = hour_no o' ?c"
    proof (rule ccontr)
      assume "hour_no o' u \<noteq> hour_no o' ?c"
      then have "quiet_no state (hour_no o' ?c - int (nat (hour_no o' ?c - hour_no o' u)))"
        using lo hi ct by (intro j(4)) auto
      then show False using uq lo hi ct \<open>hour_no o' u \<noteq> hour_no o' ?c\<close> by simp
    qed
    show "o' mod hour_ms \<noteq> 0" using eq ut whole by auto
    show "hour_no o' u = hour_no o' t - 1" using eq hi ct by simp
  qed (use rt in blast)+
qed

text \<open>
  Newfoundland: twenty past eight in the evening is quiet, and the hour from seven, which may be used,
  is passed over for six o'clock.
\<close>

lemma newfoundland_passed_over:
  "let nl = (\<lambda>_. - 12600000); t = 85800000
   in isQuietAt nl None t \<and> localHourIn nl t = 20 \<and> localMinuteIn nl t = 20
      \<and> lastSendableInstantBefore nl None t = Some 77400000 \<and> localHourIn nl 77400000 = 18
      \<and> \<not> isQuietAt nl None 81000000 \<and> localHourIn nl 81000000 = 19"
  by code_simp

end
