(* ===== verification/Civil.thy ===== *)
theory Civil
  imports Prelude
begin

text \<open>
  The calendar of the prelude read back: a day's year, month and day name that day. The one hard
  step is the year within its cycle of four centuries; it is a monotone function of the day, so
  its value at the first and the last day of each of the 400 years settles it.
\<close>

definition cycle_year :: "int \<Rightarrow> int" where
  "cycle_year doe = (doe - doe div 1460 + doe div 36524 - doe div 146096) div 365"

definition year_start :: "int \<Rightarrow> int" where
  "year_start y = 365 * y + y div 4 - y div 100"

lemma cycle_year_mono:
  assumes "a \<le> b" shows "cycle_year a \<le> cycle_year b"
proof -
  have f: "x div 146096 = x div 36524 div 4" for x :: int using zdiv_zmult2_eq [of 4 x 36524] by simp
  have "a - a div 1460 \<le> b - b div 1460"
  proof -
    have "b div 1460 \<le> a div 1460 + (b - a)" using assms by linarith
    then show ?thesis by linarith
  qed
  moreover have "a div 36524 - a div 146096 \<le> b div 36524 - b div 146096"
  proof -
    have "a div 36524 \<le> b div 36524" using assms by (simp add: zdiv_mono1)
    then show ?thesis unfolding f by linarith
  qed
  ultimately show ?thesis unfolding cycle_year_def by (intro zdiv_mono1) linarith+
qed

lemma cycle_year_checked:
  "list_all (\<lambda>y. cycle_year (year_start y) = y \<and> cycle_year (year_start (y + 1) - 1) = y
     \<and> year_start (y + 1) - year_start y \<le> 366) [0..399]"
  by code_simp

lemma cycle_year_at:
  assumes "0 \<le> y" "y \<le> 399"
  shows "cycle_year (year_start y) = y" "cycle_year (year_start (y + 1) - 1) = y"
    "year_start (y + 1) - year_start y \<le> 366"
  using cycle_year_checked assms by (auto simp: list_all_iff)

lemma cycle_year_bounds:
  assumes "0 \<le> doe" "doe \<le> 146096"
  shows "0 \<le> cycle_year doe \<and> cycle_year doe \<le> 399
     \<and> year_start (cycle_year doe) \<le> doe \<and> doe - year_start (cycle_year doe) \<le> 365"
proof -
  let ?y = "cycle_year doe"
  have e: "cycle_year 0 = 0" "cycle_year 146096 = 399" by code_simp+
  have b: "0 \<le> ?y" "?y \<le> 399" using cycle_year_mono [OF assms(1)] cycle_year_mono [OF assms(2)] e by simp_all
  have lo: "year_start ?y \<le> doe"
  proof (rule ccontr)
    assume c: "\<not> year_start ?y \<le> doe"
    show False
    proof (cases "?y = 0")
      case True
      then show False using c assms(1) by (simp add: year_start_def)
    next
      case False
      then have "cycle_year (year_start (?y - 1 + 1) - 1) = ?y - 1" using b cycle_year_at(2) [of "?y - 1"] by simp
      moreover have "?y \<le> cycle_year (year_start ?y - 1)" using c cycle_year_mono [of doe "year_start ?y - 1"] by simp
      ultimately show False by simp
    qed
  qed
  have "doe - year_start ?y \<le> 365"
  proof (cases "?y = 399")
    case True
    then show ?thesis using assms(2) by (simp add: year_start_def)
  next
    case False
    have "\<not> year_start (?y + 1) \<le> doe"
    proof
      assume "year_start (?y + 1) \<le> doe"
      then have "cycle_year (year_start (?y + 1)) \<le> ?y" by (rule cycle_year_mono)
      then show False using False b cycle_year_at(1) [of "?y + 1"] by simp
    qed
    then show ?thesis using cycle_year_at(3) [OF b] by linarith
  qed
  then show ?thesis using b lo by blast
qed

lemma split_cycles:
  fixes e :: int
  shows "0 \<le> y \<Longrightarrow> y \<le> 399 \<Longrightarrow> (y + e * 400) div 400 = e \<and> (y + e * 400) mod 400 = y"
  by simp

theorem civil_round_trip:
  assumes "civil_from_days n = (y, m, d)"
  shows "days_from_civil y m d = n"
proof -
  let ?z = "n + 719468"
  let ?era = "?z div 146097" and ?doe = "?z mod 146097"
  define yoe where "yoe = cycle_year ?doe"
  define doy where "doy = ?doe - year_start yoe"
  define mp where "mp = (5 * doy + 2) div 153"
  have doe: "0 \<le> ?doe" "?doe \<le> 146096" using pos_mod_bound [of 146097 ?z] by simp_all
  have yb: "0 \<le> yoe" "yoe \<le> 399" "0 \<le> doy" "doy \<le> 365"
    using cycle_year_bounds [OF doe] by (simp_all add: yoe_def doy_def)
  have mb: "0 \<le> mp" "mp \<le> 11" using yb(3, 4) by (simp_all add: mp_def)
  have ymd: "y = yoe + ?era * 400 + (if m \<le> 2 then 1 else 0)" "m = (if mp < 10 then mp + 3 else mp - 9)"
    "d = doy - (153 * mp + 2) div 5 + 1"
  proof -
    have "civil_from_days n = (let m = (if mp < 10 then mp + 3 else mp - 9) in
        (yoe + ?era * 400 + (if m \<le> 2 then 1 else 0), m, doy - (153 * mp + 2) div 5 + 1))"
      unfolding civil_from_days_def Let_def mp_def doy_def yoe_def cycle_year_def year_start_def by (rule refl)
    then show "y = yoe + ?era * 400 + (if m \<le> 2 then 1 else 0)" "m = (if mp < 10 then mp + 3 else mp - 9)"
      "d = doy - (153 * mp + 2) div 5 + 1" using assms by (simp_all add: Let_def)
  qed
  have y': "(if m \<le> 2 then y - 1 else y) = yoe + ?era * 400" using ymd(1) by simp
  have m': "(if m > 2 then m - 3 else m + 9) = mp" using ymd(2) mb by auto
  have "(yoe + ?era * 400) div 400 = ?era" "(yoe + ?era * 400) mod 400 = yoe" using split_cycles [OF yb(1, 2)] by blast+
  then have "days_from_civil y m d = ?era * 146097 + (yoe * 365 + yoe div 4 - yoe div 100
      + ((153 * mp + 2) div 5 + d - 1)) - 719468"
    unfolding days_from_civil_def Let_def y' m' by simp
  also have "\<dots> = ?era * 146097 + ?doe - 719468" using ymd(3) by (simp add: doy_def year_start_def)
  also have "\<dots> = n" by simp
  finally show ?thesis .
qed

lemma days_from_civil_add: "days_from_civil y m (d + k) = days_from_civil y m d + k"
  by (simp add: days_from_civil_def Let_def)

end
