(* ===== verification/Schedule_Clock.thy ===== *)
theory Schedule_Clock
  imports Quiet_Hours Civil
begin

text \<open>
  When a text that is not sent now goes: the presets of the picker
  (\<open>packages/shared/src/scheduled-send.ts\<close>), the reminders of a job
  (\<open>messaging/appointment-reminders.ts\<close>) and the question after it (\<open>messaging/job-ratings.ts\<close>).
\<close>

section \<open>The presets\<close>

definition SCHEDULED_PRESET_HOUR :: int where "SCHEDULED_PRESET_HOUR = 8"

text \<open>Year, month, day and hour on the local clock, and the day of the week.\<close>

definition localParts :: "offset \<Rightarrow> ms \<Rightarrow> (int \<times> int \<times> int) \<times> int \<times> int" where
  "localParts off t = (civil_from_days (local_time off t div day_ms), localHourIn off t, localWeekdayIn off t)"

text \<open>\<open>Date.UTC(year, month - 1, day, hour)\<close>; the day may run over the month.\<close>

definition date_utc :: "int \<Rightarrow> int \<Rightarrow> int \<Rightarrow> int \<Rightarrow> ms" where
  "date_utc y m d h = days_from_civil y m d * day_ms + h * hour_ms"

definition nextLocalHour :: "ms \<Rightarrow> offset \<Rightarrow> int \<Rightarrow> ms" where
  "nextLocalHour now off addDays =
     (let ((y, m, d), _) = localParts off now;
          guess = date_utc y m (d + addDays) SCHEDULED_PRESET_HOUR;
          landed = localHourIn off guess;
          hourError = landed - SCHEDULED_PRESET_HOUR
      in guess - hourError * hour_ms)"

definition daysUntilMonday :: "ms \<Rightarrow> offset \<Rightarrow> int" where
  "daysUntilMonday now off =
     (let delta = (8 - localWeekdayIn off now) mod 7 in if delta = 0 then 7 else delta)"

datatype preset_id = Tomorrow | Monday | Custom

text \<open>The labels are the reader's words for the three keys.\<close>

definition schedulePresets :: "ms \<Rightarrow> offset \<Rightarrow> (string \<Rightarrow> string) \<Rightarrow> (preset_id \<times> string \<times> ms option) list" where
  "schedulePresets now off say =
     [(Tomorrow, say ''domain.scheduledPresetTomorrow'', Some (nextLocalHour now off 1)),
      (Monday, say ''domain.scheduledPresetMonday'', Some (nextLocalHour now off (daysUntilMonday now off))),
      (Custom, say ''domain.scheduledPresetCustom'', None)]"


section \<open>The reminders of a job\<close>

definition REMINDER_OFFSET_MIN_MINUTES :: int where "REMINDER_OFFSET_MIN_MINUTES = 15"
definition REMINDER_OFFSET_MAX_MINUTES :: int where "REMINDER_OFFSET_MAX_MINUTES = 20160"
definition REMINDER_HOLD_HOURS :: int where "REMINDER_HOLD_HOURS = 2"

record reminder_rule =
  rr_offset :: int
  rr_body :: string
  rr_enabled :: bool

record planned_reminder =
  pr_offset :: int
  pr_body :: string
  pr_sendAt :: ms

definition planReminders :: "ms option \<Rightarrow> reminder_rule list \<Rightarrow> ms \<Rightarrow> (string \<Rightarrow> string) \<Rightarrow> planned_reminder list" where
  "planReminders dueAt rules now render =
     (case dueAt of
        None \<Rightarrow> []
      | Some due \<Rightarrow>
          map (\<lambda>(r, t). \<lparr>pr_offset = rr_offset r, pr_body = render (rr_body r), pr_sendAt = t\<rparr>)
            (filter (\<lambda>(r, t). now < t)
              (map (\<lambda>r. (r, due - rr_offset r * minute_ms))
                (filter (\<lambda>r. REMINDER_OFFSET_MIN_MINUTES \<le> rr_offset r \<and> rr_offset r \<le> REMINDER_OFFSET_MAX_MINUTES)
                  (filter rr_enabled rules)))))"

text \<open>Out of the quiet hours, backwards, and dropped where that is no longer ahead.\<close>

definition legal_reminders :: "offset \<Rightarrow> string option \<Rightarrow> ms \<Rightarrow> planned_reminder list \<Rightarrow> planned_reminder list" where
  "legal_reminders off state now ps =
     filter (\<lambda>p. now < pr_sendAt p)
       (List.map_filter (\<lambda>p. map_option (\<lambda>t. p\<lparr>pr_sendAt := t\<rparr>)
          (lastSendableInstantBefore off state (pr_sendAt p))) ps)"

text \<open>
  \<open>syncTaskReminders\<close> up to its call of the database: the reminders, whose clock they are on, and
  their common horizon. \<open>None\<close> is the exception of an unknown zone.
\<close>

record reminder_task =
  rt_due :: "ms option"
  rt_off :: bool
  rt_destination :: "string option"
  rt_contactZone :: "string option"

definition reminder_horizon :: "ms \<Rightarrow> ms option \<Rightarrow> ms" where
  "reminder_horizon now dueAt = (case dueAt of None \<Rightarrow> now | Some d \<Rightarrow> d) + REMINDER_HOLD_HOURS * hour_ms"

definition sync_plan ::
  "zones \<Rightarrow> string \<Rightarrow> reminder_task \<Rightarrow> reminder_rule list \<Rightarrow> (string \<Rightarrow> string) \<Rightarrow> ms
     \<Rightarrow> (planned_reminder list \<times> string \<times> clock_source \<times> ms) option" where
  "sync_plan tz companyZone task rules render now =
     (let horizon = reminder_horizon now (rt_due task) in
      if \<not> truthy (rt_destination task) then Some ([], ''UTC'', CompanyClock, horizon)
      else case resolveDestinationClock tz (the (rt_destination task)) (rt_contactZone task) companyZone
                  (case rt_due task of None \<Rightarrow> now | Some d \<Rightarrow> d) of
        None \<Rightarrow> None
      | Some clock \<Rightarrow>
          let off = the (tz (dc_timezone clock));
              planned = (if rt_due task = None \<or> rt_off task then []
                         else legal_reminders off (dc_region clock) now (planReminders (rt_due task) rules now render))
          in Some (planned, dc_timezone clock, dc_source clock, horizon))"


section \<open>The question after a job\<close>

definition RATING_ASK_DELAY_HOURS :: int where "RATING_ASK_DELAY_HOURS = 4"
definition RATING_ASK_HORIZON_HOURS :: int where "RATING_ASK_HORIZON_HOURS = 24"

text \<open>When it goes and when it expires.\<close>

definition rating_ask :: "offset \<Rightarrow> string option \<Rightarrow> ms \<Rightarrow> ms \<times> ms" where
  "rating_ask off state now =
     (let wanted = now + RATING_ASK_DELAY_HOURS * hour_ms;
          sendAt = (case nextSendableInstant off state wanted of None \<Rightarrow> wanted | Some t \<Rightarrow> t)
      in (sendAt, sendAt + RATING_ASK_HORIZON_HOURS * hour_ms))"


section \<open>Where they land\<close>

text \<open>
  A preset lands on its day at its hour, with two exceptions: on a clock more than eight hours behind
  UTC it is a day early, and on one that is not whole hours from UTC it keeps the odd minutes.
\<close>

lemma preset_lands:
  assumes st: "steady off (now - 2 * day_ms) (now + (k + 2) * day_ms) o'" and k: "0 \<le> k"
    and o: "- 15 * hour_ms \<le> o'" "o' < 16 * hour_ms"
  shows "nextLocalHour now off k + o'
       = (local_time off now div day_ms + k - (if o' < - 8 * hour_ms then 1 else 0)) * day_ms
         + SCHEDULED_PRESET_HOUR * hour_ms + o' mod hour_ms"
proof -
  have h: "hour_ms = 3600000" "day_ms = 86400000" by (simp_all add: hour_ms_def day_ms_def)
  define D where "D = local_time off now div day_ms"
  obtain y m d where c: "civil_from_days D = (y, m, d)" by (cases "civil_from_days D")
  define g where "g = (D + k) * day_ms + 8 * hour_ms"
  have guess: "date_utc y m (d + k) SCHEDULED_PRESET_HOUR = g"
    by (simp add: date_utc_def days_from_civil_add civil_round_trip [OF c] g_def SCHEDULED_PRESET_HOUR_def)
  have on: "off now = o'" using steadyD [OF st, of now] k by (simp add: h)
  have D: "D * day_ms \<le> now + o'" "now + o' < D * day_ms + day_ms"
    unfolding D_def local_time_def on h by simp_all
  have "now - 2 * day_ms \<le> g" "g \<le> now + (k + 2) * day_ms"
    using D o k unfolding g_def h by (simp_all add: algebra_simps)
  then have og: "off g = o'" using steadyD [OF st] by blast
  define q where "q = o' div hour_ms"
  have oq: "o' = q * hour_ms + o' mod hour_ms" by (simp add: q_def)
  have qb: "- 15 \<le> q" "q \<le> 15" "o' < - 8 * hour_ms \<longleftrightarrow> q < - 8" using o unfolding q_def h by auto
  have "local_time off g = o' mod hour_ms + ((D + k) * 24 + 8 + q) * hour_ms"
    unfolding local_time_def og using oq by (simp add: g_def h algebra_simps)
  then have "local_time off g div hour_ms = (D + k) * 24 + 8 + q" by (simp add: h)
  then have "localHourIn off g = (8 + q + (D + k) * 24) mod 24" by (simp add: localHourIn_def algebra_simps)
  then have "localHourIn off g = (8 + q) mod 24" unfolding mod_mult_self1 .
  also have "\<dots> = 8 + q + (if q < - 8 then 24 else 0)" using qb(1, 2) by presburger
  finally have "nextLocalHour now off k = g - (q + (if q < - 8 then 24 else 0)) * hour_ms"
    using guess by (simp add: nextLocalHour_def localParts_def c [unfolded D_def] Let_def SCHEDULED_PRESET_HOUR_def)
  then show ?thesis using oq qb(3) unfolding D_def [symmetric] unfolding g_def h SCHEDULED_PRESET_HOUR_def
    by (cases "q < - 8"; simp add: algebra_simps; linarith)
qed

lemma monday_ahead:
  "1 \<le> daysUntilMonday now off \<and> daysUntilMonday now off \<le> 7
   \<and> (localWeekdayIn off now + daysUntilMonday now off) mod 7 = 1"
proof -
  define w where "w = localWeekdayIn off now"
  have "0 \<le> w" "w < 7" by (simp_all add: w_def localWeekdayIn_def)
  then have "w = 0 \<or> w = 1 \<or> w = 2 \<or> w = 3 \<or> w = 4 \<or> w = 5 \<or> w = 6" by linarith
  then show ?thesis unfolding daysUntilMonday_def Let_def w_def [symmetric] by auto
qed

text \<open>
  A reminder that is planned is ahead, at least a quarter of an hour before the job and not in the
  quiet hours; but the horizon all reminders share is two hours after the job has begun.
\<close>

lemma planned_ahead:
  "p \<in> set (planReminders dueAt rules now render) \<Longrightarrow>
     \<exists>due. dueAt = Some due \<and> now < pr_sendAt p \<and> pr_sendAt p \<le> due - REMINDER_OFFSET_MIN_MINUTES * minute_ms
       \<and> due - REMINDER_OFFSET_MAX_MINUTES * minute_ms \<le> pr_sendAt p"
  by (auto simp: planReminders_def minute_ms_def split: option.splits)

lemma legal_reminder:
  assumes "p \<in> set (legal_reminders off state now ps)"
    "\<And>q. q \<in> set ps \<Longrightarrow> \<exists>o'. steady off (pr_sendAt q - 28 * hour_ms) (pr_sendAt q) o'"
  shows "\<exists>q \<in> set ps. now < pr_sendAt p \<and> pr_sendAt p \<le> pr_sendAt q \<and> \<not> isQuietAt off state (pr_sendAt p)
           \<and> pr_offset p = pr_offset q \<and> pr_body p = pr_body q"
proof -
  from assms(1) obtain q t where q: "q \<in> set ps" "lastSendableInstantBefore off state (pr_sendAt q) = Some t"
    "p = q\<lparr>pr_sendAt := t\<rparr>" "now < t"
    by (auto simp: legal_reminders_def List.map_filter_def)
  have "t \<le> pr_sendAt q \<and> \<not> isQuietAt off state t"
  proof (cases "isQuietAt off state (pr_sendAt q)")
    case True
    then show ?thesis using assms(2) [OF q(1)] last_sendable_back [OF _ True] q(2) by fastforce
  qed (use q(2) in \<open>simp add: lastSendableInstantBefore_def\<close>)
  then show ?thesis using q by (intro bexI [of _ q]) simp_all
qed

lemma horizon_crosses: "due < reminder_horizon now (Some due)"
  by (simp add: reminder_horizon_def REMINDER_HOLD_HOURS_def hour_ms_def)

end
