(* ===== verification/Send_Gates.thy ===== *)
theory Send_Gates
  imports Nanp
begin

text \<open>
  What every outgoing text passes (\<open>apps/api/src/messaging/send.ts\<close>): the gates that run before it,
  in their order, the clearance they mint for one destination, and the dispatch that asks for it;
  with the flags a workspace's rows give (\<open>telnyx/registration.ts\<close>) and the reasons of a carrier's
  refusal (\<open>packages/shared/src/carrier-failure.ts\<close>).

  The database's answers are arguments; \<open>None\<close> of a lookup is its error, which throws.
\<close>

section \<open>A workspace's flags\<close>

definition trim_char :: "char \<Rightarrow> bool" where
  "trim_char c \<longleftrightarrow> (of_char c :: nat) \<in> {9, 10, 11, 12, 13, 32, 160}"

definition trim :: "string \<Rightarrow> string" where
  "trim s = rev (dropWhile trim_char (rev (dropWhile trim_char s)))"

record gate_company =
  gc_country :: string
  gc_usTexting :: bool
  gc_status :: string
  gc_paused :: "ms option"
  gc_aup :: "string option"

record campaign =
  cp_status :: string
  cp_deactivated :: "ms option"

record send_gates =
  sg_active :: bool
  sg_paused :: bool
  sg_aup :: string
  sg_usApproved :: bool
  sg_caAllowed :: bool

definition getSendGates :: "gate_company \<Rightarrow> campaign option \<Rightarrow> send_gates" where
  "getSendGates co c =
     \<lparr>sg_active = (gc_status co = ''active''),
      sg_paused = (gc_paused co \<noteq> None),
      sg_aup = (case gc_aup co of None \<Rightarrow> ''none'' | Some a \<Rightarrow> a),
      sg_usApproved = ((gc_country co = ''US'' \<or> gc_usTexting co)
        \<and> (case c of None \<Rightarrow> False | Some k \<Rightarrow> cp_status k = ''approved'' \<and> cp_deactivated k = None)),
      sg_caAllowed = True\<rparr>"

record offramp_row =
  or_optedIn :: "string option"
  or_message :: "string option"
  or_canceled :: "ms option"

definition GRACE_PERIOD_DAYS :: int where "GRACE_PERIOD_DAYS = 30"

definition offRampAllowed :: "ms \<Rightarrow> offramp_row option \<Rightarrow> bool" where
  "offRampAllowed now row =
     (case row of
        None \<Rightarrow> False
      | Some r \<Rightarrow>
          if \<not> truthy (or_optedIn r) \<or> \<not> truthy (map_option trim (or_message r)) then False
          else case or_canceled r of None \<Rightarrow> False | Some c \<Rightarrow> now < c + GRACE_PERIOD_DAYS * day_ms)"


section \<open>The gates\<close>

datatype error_code = ServiceUnavailable | SendingSuspended | RateLimited | SubscriptionInactive
  | WorkspacePaused | ValidationFailed | RegistrationPending | RecipientOptedOut

datatype gate_error = Api error_code | Thrown

datatype clearance = Cleared string

definition RATE_LIMITED_SENDS_PER_HOUR :: nat where "RATE_LIMITED_SENDS_PER_HOUR = 20"

text \<open>What the lookups of one run of the gates answer.\<close>

record gate_world =
  gw_killed :: bool
  gw_gates :: "send_gates option"
  gw_lastHour :: "nat option"
  gw_offRamp :: "offramp_row option"
  gw_optedOut :: "bool option"

definition destination_gate :: "send_gates \<Rightarrow> string \<Rightarrow> error_code option" where
  "destination_gate g e164 =
     (case lookupAreaCode e164 of
        None \<Rightarrow> Some ValidationFailed
      | Some e \<Rightarrow>
          if country e = US \<and> \<not> sg_usApproved g then Some RegistrationPending
          else if country e = CA \<and> \<not> sg_caAllowed g then Some RegistrationPending
          else None)"

definition runPreSendGates :: "gate_world \<Rightarrow> ms \<Rightarrow> string \<Rightarrow> bool \<Rightarrow> gate_error + clearance" where
  "runPreSendGates w now e164 offRamp =
     (if gw_killed w then Inl (Api ServiceUnavailable)
      else case gw_gates w of
        None \<Rightarrow> Inl Thrown
      | Some g \<Rightarrow>
          if sg_aup g = ''suspended'' then Inl (Api SendingSuspended)
          else if sg_aup g = ''rate_limited'' \<and> gw_lastHour w = None then Inl Thrown
          else if sg_aup g = ''rate_limited'' \<and> RATE_LIMITED_SENDS_PER_HOUR \<le> the (gw_lastHour w)
            then Inl (Api RateLimited)
          else
            let granted = \<not> sg_active g \<and> offRamp \<and> offRampAllowed now (gw_offRamp w) in
            if \<not> sg_active g \<and> \<not> granted then Inl (Api SubscriptionInactive)
            else if sg_paused g \<and> \<not> granted then Inl (Api WorkspacePaused)
            else case destination_gate g e164 of
              Some e \<Rightarrow> Inl (Api e)
            | None \<Rightarrow>
                (case gw_optedOut w of
                   None \<Rightarrow> Inl Thrown
                 | Some out \<Rightarrow> if out then Inl (Api RecipientOptedOut) else Inr (Cleared e164)))"


section \<open>The carrier's reasons\<close>

datatype failure_reason = OptOut | Unreachable | ContentBlocked | SpamBlocked | CarrierRateLimited
  | CarrierExpired | NotProvisioned | UnknownReason

definition TELNYX_REASONS :: "(string \<times> failure_reason) list" where
  "TELNYX_REASONS =
     [(''40300'', OptOut),
      (''40001'', Unreachable), (''40012'', Unreachable), (''40310'', Unreachable),
      (''40004'', Unreachable), (''40006'', Unreachable), (''40008'', Unreachable),
      (''40002'', ContentBlocked), (''40017'', ContentBlocked), (''40009'', ContentBlocked),
      (''40316'', ContentBlocked), (''40317'', ContentBlocked), (''40328'', ContentBlocked),
      (''40003'', SpamBlocked), (''40015'', SpamBlocked), (''40322'', SpamBlocked),
      (''40011'', CarrierRateLimited), (''40016'', CarrierRateLimited), (''40018'', CarrierRateLimited),
      (''40318'', CarrierRateLimited),
      (''40005'', CarrierExpired), (''40014'', CarrierExpired),
      (''40010'', NotProvisioned), (''40329'', NotProvisioned), (''40330'', NotProvisioned),
      (''40100'', NotProvisioned), (''40314'', NotProvisioned), (''40305'', NotProvisioned),
      (''40308'', NotProvisioned)]"

definition classifySendFailure :: "string option \<Rightarrow> failure_reason" where
  "classifySendFailure code =
     (if \<not> truthy code then UnknownReason
      else case map_of TELNYX_REASONS (trim (the code)) of None \<Rightarrow> UnknownReason | Some r \<Rightarrow> r)"

definition isRetryableFailure :: "failure_reason \<Rightarrow> bool" where
  "isRetryableFailure r \<longleftrightarrow> r \<noteq> OptOut"


section \<open>Dispatch\<close>

record message =
  m_id :: string
  m_company :: string
  m_thread :: string
  m_body :: string
  m_telnyx :: "string option"
  m_status :: string
  m_errorCode :: "string option"
  m_errorReason :: "failure_reason option"

datatype telnyx_result = Accepted string | Refused "string option"

text \<open>
  What a dispatch leaves: the request to Telnyx with its idempotency key, a patch of the row, a
  recorded opt-out, and the events of an accepted text. Analytics and the founder's notices are left
  out.
\<close>

datatype send_effect =
    TelnyxSend (sent_to: string) (sent_text: string) (sent_key: string)
  | PatchMessage message
  | RecordCarrierOptOut string string
  | AcceptedEvents string

record dispatch_world =
  dw_allowed :: "bool option"
  dw_refusal :: "string option"
  dw_result :: telnyx_result

definition sendIdempotencyKey :: "string \<Rightarrow> string" where
  "sendIdempotencyKey i = ''message:'' @ i"

definition telnyxCreateMessage :: "dispatch_world \<Rightarrow> string \<Rightarrow> string \<Rightarrow> string \<Rightarrow> telnyx_result \<times> send_effect list" where
  "telnyxCreateMessage w dest body key =
     (case dw_refusal w of
        Some code \<Rightarrow> (Refused (Some code), [])
      | None \<Rightarrow> (dw_result w, [TelnyxSend dest body key]))"

definition dispatchOutbound ::
  "dispatch_world \<Rightarrow> message \<Rightarrow> string \<Rightarrow> string \<Rightarrow> clearance \<Rightarrow> (gate_error + message) \<times> send_effect list" where
  "dispatchOutbound w m dest body c =
     (if c \<noteq> Cleared dest then (Inl Thrown, [])
      else if dw_allowed w = Some False then
        (Inl (Api RateLimited), [PatchMessage (m\<lparr>m_status := ''failed'', m_errorCode := Some ''rate_limited''\<rparr>)])
      else case telnyxCreateMessage w dest body (sendIdempotencyKey (m_id m)) of
        (Accepted i, effs) \<Rightarrow>
          let m' = m\<lparr>m_telnyx := Some i\<rparr> in (Inr m', effs @ [PatchMessage m', AcceptedEvents (m_id m)])
      | (Refused code, effs) \<Rightarrow>
          let r = classifySendFailure code;
              m' = m\<lparr>m_status := ''failed'', m_errorCode := code, m_errorReason := Some r\<rparr>
          in (Inr m', effs @ [PatchMessage m']
                      @ (if r = OptOut then [RecordCarrierOptOut (m_company m) dest] else [])))"


section \<open>What a clearance means\<close>

lemma destination_gate_None:
  "destination_gate g e164 = None \<longleftrightarrow>
     (\<exists>e. lookupAreaCode e164 = Some e \<and> (country e = US \<longrightarrow> sg_usApproved g) \<and> (country e = CA \<longrightarrow> sg_caAllowed g))"
  by (auto simp: destination_gate_def split: option.splits)

lemma cleared_iff:
  "runPreSendGates w now e164 offRamp = Inr c \<longleftrightarrow>
     c = Cleared e164 \<and> \<not> gw_killed w
     \<and> (\<exists>g. gw_gates w = Some g \<and> sg_aup g \<noteq> ''suspended''
          \<and> (sg_aup g = ''rate_limited'' \<longrightarrow> (\<exists>n. gw_lastHour w = Some n \<and> n < RATE_LIMITED_SENDS_PER_HOUR))
          \<and> (sg_active g \<and> \<not> sg_paused g
             \<or> \<not> sg_active g \<and> offRamp \<and> offRampAllowed now (gw_offRamp w))
          \<and> destination_gate g e164 = None)
     \<and> gw_optedOut w = Some False"
  by (auto simp: runPreSendGates_def Let_def not_le split: option.splits)

lemma dispatched_text:
  "TelnyxSend a b k \<in> set (snd (dispatchOutbound w m dest body c)) \<Longrightarrow>
     a = dest \<and> b = body \<and> k = sendIdempotencyKey (m_id m) \<and> c = Cleared dest \<and> dw_allowed w \<noteq> Some False"
  by (auto simp: dispatchOutbound_def telnyxCreateMessage_def Let_def split: if_splits option.splits telnyx_result.splits)

end
