(* ===== verification/Schedule_Store.thy ===== *)
theory Schedule_Store
  imports Schedule_Clock Send_Gates
begin

text \<open>
  The table of texts not yet sent (\<open>scheduled_messages\<close>) and the database functions that alone write
  it: schedule, claim, fire, hold, fail, cancel, expire, the cancellation of a closed workspace and
  the regeneration of a job's reminders; with the states and reasons the clients share
  (\<open>packages/shared/src/scheduled-send.ts\<close>).

  A table is a list of rows in any order. \<open>now\<close> is the transaction's clock, \<open>locked\<close> the rows another
  transaction holds (\<open>for update skip locked\<close> passes over them), a fresh id is an argument. The
  bookkeeping columns \<open>created_at\<close> and \<open>updated_at\<close> are left out.
\<close>

section \<open>States and reasons\<close>

datatype scheduled_status = Pending | Held | Sent | Canceled | Expired | Failed

definition isScheduledMessageLive :: "scheduled_status \<Rightarrow> bool" where
  "isScheduledMessageLive s \<longleftrightarrow> s = Pending \<or> s = Held"

datatype hold_reason = SubscriptionLapsed | PlanPaused | AwaitingRegistration | ServiceDown
  | CalendarUnverified | CustomerReplied | OptedOut | InvalidDestination | HorizonPassed
  | WorkspaceClosed | JobNoLongerScheduled

fun SCHEDULED_HOLD_REASONS :: "hold_reason \<Rightarrow> string" where
  "SCHEDULED_HOLD_REASONS SubscriptionLapsed = ''Your subscription has lapsed, so this has not been sent. It will go out when billing is sorted.''"
| "SCHEDULED_HOLD_REASONS PlanPaused = ''Your plan is paused, so this has not been sent. It will go out when you resume.''"
| "SCHEDULED_HOLD_REASONS AwaitingRegistration = ''This is waiting on carrier approval for US texting. It will send once that clears.''"
| "SCHEDULED_HOLD_REASONS ServiceDown = ''Texting is paused while we deal with an issue. This is still queued and nothing was lost.''"
| "SCHEDULED_HOLD_REASONS CalendarUnverified = ''Calendar sync is disconnected or has not checked in recently, so this reminder is waiting. It will send after sync is verified again.''"
| "SCHEDULED_HOLD_REASONS CustomerReplied = ''They replied after you scheduled this, so we held it rather than talk over them. Send it anyway, or cancel it.''"
| "SCHEDULED_HOLD_REASONS OptedOut = ''They replied STOP after you scheduled this, so it was not sent. Only they can undo that.''"
| "SCHEDULED_HOLD_REASONS InvalidDestination = ''We cannot text this number any more, so this was not sent.''"
| "SCHEDULED_HOLD_REASONS HorizonPassed = ''The send window passed before this could go, so it was not sent. A late message is usually worse than none.''"
| "SCHEDULED_HOLD_REASONS WorkspaceClosed = ''The workspace was closed before this was due to send.''"
| "SCHEDULED_HOLD_REASONS JobNoLongerScheduled = ''That job is no longer booked, so this reminder was not sent.''"

fun SCHEDULED_HOLD_REASON_KEYS :: "hold_reason \<Rightarrow> string" where
  "SCHEDULED_HOLD_REASON_KEYS SubscriptionLapsed = ''domain.scheduledHoldSubscriptionInactive''"
| "SCHEDULED_HOLD_REASON_KEYS PlanPaused = ''domain.scheduledHoldWorkspacePaused''"
| "SCHEDULED_HOLD_REASON_KEYS AwaitingRegistration = ''domain.scheduledHoldRegistrationPending''"
| "SCHEDULED_HOLD_REASON_KEYS ServiceDown = ''domain.scheduledHoldServiceUnavailable''"
| "SCHEDULED_HOLD_REASON_KEYS CalendarUnverified = ''domain.scheduledHoldCalendarUnverified''"
| "SCHEDULED_HOLD_REASON_KEYS CustomerReplied = ''domain.scheduledHoldCustomerReplied''"
| "SCHEDULED_HOLD_REASON_KEYS OptedOut = ''domain.scheduledHoldOptedOut''"
| "SCHEDULED_HOLD_REASON_KEYS InvalidDestination = ''domain.scheduledHoldInvalidDestination''"
| "SCHEDULED_HOLD_REASON_KEYS HorizonPassed = ''domain.scheduledHoldExpired''"
| "SCHEDULED_HOLD_REASON_KEYS WorkspaceClosed = ''domain.scheduledHoldWorkspaceClosed''"
| "SCHEDULED_HOLD_REASON_KEYS JobNoLongerScheduled = ''domain.scheduledHoldJobUnscheduled''"

definition scheduledHoldText :: "string option \<Rightarrow> string option \<Rightarrow> (string \<Rightarrow> string) \<Rightarrow> string option" where
  "scheduledHoldText reasonKey storedEnglish translate =
     (if truthy reasonKey \<and> translate (the reasonKey) \<noteq> [] \<and> translate (the reasonKey) \<noteq> the reasonKey
      then Some (translate (the reasonKey)) else storedEnglish)"

definition scheduledReasonRecovers :: "hold_reason \<Rightarrow> bool" where
  "scheduledReasonRecovers r \<longleftrightarrow>
     r = SubscriptionLapsed \<or> r = PlanPaused \<or> r = AwaitingRegistration \<or> r = ServiceDown
     \<or> r = CalendarUnverified \<or> r = CustomerReplied"

definition scheduledClockProvenance :: "clock_source \<Rightarrow> string" where
  "scheduledClockProvenance s =
     (case s of ContactClock \<Rightarrow> ''domain.clockTheirTimeContact''
      | AreaCodeClock \<Rightarrow> ''domain.clockTheirTimeAreaCode''
      | CompanyClock \<Rightarrow> ''domain.clockWorkspaceTime'')"


section \<open>The table\<close>

datatype origin = Human | Reminder | Rating

record scheduled =
  sc_id :: string
  sc_company :: string
  sc_thread :: string
  sc_body :: string
  sc_sendAt :: ms
  sc_zone :: string
  sc_source :: clock_source
  sc_status :: scheduled_status
  sc_reason :: "string option"
  sc_reasonKey :: "string option"
  sc_heldAt :: "ms option"
  sc_expires :: ms
  sc_watermark :: "ms option"
  sc_message :: "string option"
  sc_claimed :: "ms option"
  sc_canceledAt :: "ms option"
  sc_canceledBy :: "string option"
  sc_createdBy :: string
  sc_task :: "string option"
  sc_origin :: origin
  sc_offset :: "int option"

type_synonym queue = "scheduled list"

abbreviation live :: "scheduled \<Rightarrow> bool" where
  "live r \<equiv> isScheduledMessageLive (sc_status r)"

definition SCHEDULED_BODY_MAX :: nat where "SCHEDULED_BODY_MAX = 1600"
definition SCHEDULED_HORIZON_DAYS :: int where "SCHEDULED_HORIZON_DAYS = 90"
definition SCHEDULED_PER_COMPANY_CAP :: nat where "SCHEDULED_PER_COMPANY_CAP = 200"
definition SCHEDULED_PER_THREAD_CAP :: nat where "SCHEDULED_PER_THREAD_CAP = 20"

text \<open>\<open>btrim\<close> takes spaces only; the column's check counts what it leaves.\<close>

definition btrim :: "string \<Rightarrow> string" where
  "btrim s = rev (dropWhile (\<lambda>c. c = CHR '' '') (rev (dropWhile (\<lambda>c. c = CHR '' '') s)))"

definition body_ok :: "string \<Rightarrow> bool" where
  "body_ok b \<longleftrightarrow> 1 \<le> length (btrim b) \<and> length (btrim b) \<le> SCHEDULED_BODY_MAX"

text \<open>An update of the rows that satisfy a condition.\<close>

definition upd_rows :: "(scheduled \<Rightarrow> bool) \<Rightarrow> (scheduled \<Rightarrow> scheduled) \<Rightarrow> queue \<Rightarrow> queue" where
  "upd_rows P f t = map (\<lambda>r. if P r then f r else r) t"

definition new_row :: "string \<Rightarrow> string \<Rightarrow> string \<Rightarrow> string \<Rightarrow> ms \<Rightarrow> string \<Rightarrow> clock_source \<Rightarrow> ms \<Rightarrow> string \<Rightarrow> scheduled" where
  "new_row i company thread body sendAt tz source expires user =
     \<lparr>sc_id = i, sc_company = company, sc_thread = thread, sc_body = body, sc_sendAt = sendAt,
      sc_zone = tz, sc_source = source, sc_status = Pending, sc_reason = None, sc_reasonKey = None,
      sc_heldAt = None, sc_expires = expires, sc_watermark = None, sc_message = None, sc_claimed = None,
      sc_canceledAt = None, sc_canceledBy = None, sc_createdBy = user, sc_task = None,
      sc_origin = Human, sc_offset = None\<rparr>"


section \<open>Schedule\<close>

datatype schedule_outcome = NotFound | InThePast | TooFarOut int | CompanyCap nat | ThreadCap nat
  | Scheduled scheduled

text \<open>The result is \<open>None\<close> where the column's check raises.\<close>

definition api_schedule_message ::
  "ms \<Rightarrow> bool \<Rightarrow> ms option \<Rightarrow> string \<Rightarrow> string \<Rightarrow> string \<Rightarrow> string \<Rightarrow> string \<Rightarrow> ms \<Rightarrow> string \<Rightarrow> clock_source \<Rightarrow> ms
     \<Rightarrow> queue \<Rightarrow> schedule_outcome option \<times> queue" where
  "api_schedule_message now inCompany newest i company thread user body sendAt tz source expires t =
     (if \<not> inCompany then (Some NotFound, t)
      else if sendAt \<le> now then (Some InThePast, t)
      else if now + SCHEDULED_HORIZON_DAYS * day_ms < sendAt then (Some (TooFarOut SCHEDULED_HORIZON_DAYS), t)
      else if SCHEDULED_PER_COMPANY_CAP \<le> length (filter (\<lambda>r. sc_company r = company \<and> live r) t)
        then (Some (CompanyCap SCHEDULED_PER_COMPANY_CAP), t)
      else if SCHEDULED_PER_THREAD_CAP \<le> length (filter (\<lambda>r. sc_thread r = thread \<and> live r) t)
        then (Some (ThreadCap SCHEDULED_PER_THREAD_CAP), t)
      else if \<not> body_ok (btrim body) then (None, t)
      else let r = (new_row i company thread (btrim body) sendAt tz source expires user)\<lparr>sc_watermark := newest\<rparr>
           in (Some (Scheduled r), r # t))"


section \<open>Claim and fire\<close>

definition claimable :: "ms \<Rightarrow> int \<Rightarrow> scheduled \<Rightarrow> bool" where
  "claimable now lease r \<longleftrightarrow> live r \<and> sc_sendAt r \<le> now
     \<and> (case sc_claimed r of None \<Rightarrow> True | Some c \<Rightarrow> c < now - lease * 1000)"

definition api_claim_due_scheduled_messages ::
  "ms \<Rightarrow> nat \<Rightarrow> int \<Rightarrow> string list \<Rightarrow> queue \<Rightarrow> scheduled list \<times> queue" where
  "api_claim_due_scheduled_messages now limit lease locked t =
     (let due = map sc_id (take limit (sort_key sc_sendAt
                  (filter (\<lambda>r. claimable now lease r \<and> sc_id r \<notin> set locked) t)));
          t' = upd_rows (\<lambda>r. sc_id r \<in> set due) (\<lambda>r. r\<lparr>sc_claimed := Some now\<rparr>) t
      in (filter (\<lambda>r. sc_id r \<in> set due) t', t'))"

text \<open>A job, its links to calendars and their connections, as the transaction of \<open>fire\<close> sees them.\<close>

record job_row =
  jb_deleted :: "ms option"
  jb_off :: bool
  jb_due :: "ms option"
  jb_done :: "ms option"

record cal_link =
  cl_connection :: string
  cl_state :: string

record connection =
  cn_id :: string
  cn_status :: string
  cn_verified :: "ms option"
  cn_revoked :: "ms option"
  cn_due :: "ms option"
  cn_lease :: "string option"

record calendar =
  ca_open :: bool
  ca_outbox :: bool
  ca_links :: "cal_link list"
  ca_connections :: "connection list"

definition CALENDAR_VERIFICATION_MAX_AGE_MS :: ms where "CALENDAR_VERIFICATION_MAX_AGE_MS = 15 * minute_ms"

definition connection_of :: "connection list \<Rightarrow> string \<Rightarrow> connection option" where
  "connection_of cs i = find (\<lambda>c. cn_id c = i) cs"

definition unsafe_link :: "ms \<Rightarrow> connection list \<Rightarrow> cal_link \<Rightarrow> bool" where
  "unsafe_link now cs l \<longleftrightarrow> cl_state l \<noteq> ''active''
     \<or> (case connection_of cs (cl_connection l) of
          None \<Rightarrow> True
        | Some c \<Rightarrow> cn_status c \<noteq> ''active'' \<or> cn_revoked c \<noteq> None
            \<or> (case cn_verified c of None \<Rightarrow> True | Some v \<Rightarrow> v < now - CALENDAR_VERIFICATION_MAX_AGE_MS)
            \<or> (case cn_due c of None \<Rightarrow> False | Some d \<Rightarrow> d \<le> now)
            \<or> cn_lease c \<noteq> None)"

definition calendar_backed :: "calendar \<Rightarrow> bool" where
  "calendar_backed k \<longleftrightarrow> ca_outbox k \<or> filter (\<lambda>l. cl_state l \<noteq> ''unlinked'') (ca_links k) \<noteq> []"

definition calendar_safe :: "ms \<Rightarrow> calendar \<Rightarrow> bool" where
  "calendar_safe now k \<longleftrightarrow> ca_open k \<and> \<not> ca_outbox k
     \<and> (\<forall>l \<in> set (filter (\<lambda>l. cl_state l \<noteq> ''unlinked'') (ca_links k)). \<not> unsafe_link now (ca_connections k) l)"

definition job_booked :: "job_row option \<Rightarrow> bool" where
  "job_booked j = (case j of None \<Rightarrow> False
     | Some b \<Rightarrow> jb_deleted b = None \<and> \<not> jb_off b \<and> jb_due b \<noteq> None \<and> jb_done b = None)"

definition is_reminder :: "scheduled \<Rightarrow> bool" where
  "is_reminder r \<longleftrightarrow> sc_origin r = Reminder \<and> sc_task r \<noteq> None"

datatype fire_outcome = Fired message | Gone | FireHeld string scheduled | FireFailed string scheduled

definition fired_message :: "string \<Rightarrow> scheduled \<Rightarrow> message" where
  "fired_message mid r =
     \<lparr>m_id = mid, m_company = sc_company r, m_thread = sc_thread r, m_body = sc_body r, m_telnyx = None,
      m_status = ''queued'', m_errorCode = None, m_errorReason = None\<rparr>"

definition find_live :: "string \<Rightarrow> queue \<Rightarrow> scheduled option" where
  "find_live i t = find (\<lambda>r. sc_id r = i \<and> live r) t"

definition api_fire_scheduled_message ::
  "ms \<Rightarrow> job_row option \<Rightarrow> calendar \<Rightarrow> string \<Rightarrow> string \<Rightarrow> queue \<Rightarrow> fire_outcome \<times> queue" where
  "api_fire_scheduled_message now job cal mid i t =
     (case find_live i t of
        None \<Rightarrow> (Gone, t)
      | Some r \<Rightarrow>
          if is_reminder r \<and> \<not> job_booked job then
            let r' = r\<lparr>sc_status := Failed, sc_reason := Some ''The job is no longer scheduled.'',
                       sc_reasonKey := Some ''job_no_longer_scheduled'', sc_claimed := None\<rparr>
            in (FireFailed ''job_no_longer_scheduled'' r', upd_rows (\<lambda>x. sc_id x = i) (\<lambda>_. r') t)
          else if is_reminder r \<and> calendar_backed cal \<and> \<not> calendar_safe now cal then
            let r' = r\<lparr>sc_status := Held, sc_reason := Some ''Calendar verification is pending.'',
                       sc_reasonKey := Some ''calendar_unverified'',
                       sc_heldAt := or_else (sc_heldAt r) (Some now), sc_claimed := None\<rparr>
            in (FireHeld ''calendar_unverified'' r', upd_rows (\<lambda>x. sc_id x = i) (\<lambda>_. r') t)
          else
            (Fired (fired_message mid r),
             upd_rows (\<lambda>x. sc_id x = i)
               (\<lambda>x. x\<lparr>sc_status := Sent, sc_message := Some mid, sc_reason := None, sc_reasonKey := None\<rparr>) t))"


section \<open>Hold, fail, cancel, expire\<close>

text \<open>Each answers whether it found the row waiting; \<open>gone\<close> otherwise.\<close>

definition settle_row :: "(scheduled \<Rightarrow> bool) \<Rightarrow> (scheduled \<Rightarrow> scheduled) \<Rightarrow> queue \<Rightarrow> bool \<times> queue" where
  "settle_row P f t = (list_ex (\<lambda>r. P r \<and> live r) t, upd_rows (\<lambda>r. P r \<and> live r) f t)"

definition api_hold_scheduled_message :: "ms \<Rightarrow> string \<Rightarrow> string \<Rightarrow> string \<Rightarrow> queue \<Rightarrow> bool \<times> queue" where
  "api_hold_scheduled_message now i reason key =
     settle_row (\<lambda>r. sc_id r = i)
       (\<lambda>r. r\<lparr>sc_status := Held, sc_reason := Some reason, sc_reasonKey := Some key,
              sc_heldAt := or_else (sc_heldAt r) (Some now), sc_claimed := None\<rparr>)"

definition api_fail_scheduled_message :: "string \<Rightarrow> string \<Rightarrow> string \<Rightarrow> queue \<Rightarrow> bool \<times> queue" where
  "api_fail_scheduled_message i reason key =
     settle_row (\<lambda>r. sc_id r = i)
       (\<lambda>r. r\<lparr>sc_status := Failed, sc_reason := Some reason, sc_reasonKey := Some key, sc_claimed := None\<rparr>)"

definition api_cancel_scheduled_message :: "ms \<Rightarrow> string \<Rightarrow> string \<Rightarrow> string \<Rightarrow> queue \<Rightarrow> bool \<times> queue" where
  "api_cancel_scheduled_message now i company user =
     settle_row (\<lambda>r. sc_id r = i \<and> sc_company r = company)
       (\<lambda>r. r\<lparr>sc_status := Canceled, sc_canceledAt := Some now, sc_canceledBy := Some user, sc_claimed := None\<rparr>)"

definition stale :: "ms \<Rightarrow> scheduled \<Rightarrow> bool" where
  "stale now r \<longleftrightarrow> live r \<and> sc_expires r \<le> now"

definition api_expire_scheduled_messages :: "ms \<Rightarrow> nat \<Rightarrow> string list \<Rightarrow> queue \<Rightarrow> scheduled list \<times> queue" where
  "api_expire_scheduled_messages now limit locked t =
     (let gone = map sc_id (take limit (sort_key sc_expires
                   (filter (\<lambda>r. stale now r \<and> sc_id r \<notin> set locked) t)));
          t' = upd_rows (\<lambda>r. sc_id r \<in> set gone)
                 (\<lambda>r. r\<lparr>sc_status := Expired,
                        sc_reason := or_else (sc_reason r) (Some ''the send window passed before it could go''),
                        sc_claimed := None\<rparr>) t
      in (filter (\<lambda>r. sc_id r \<in> set gone) t', t'))"

definition api_cancel_scheduled_for_company :: "ms \<Rightarrow> string \<Rightarrow> string \<Rightarrow> queue \<Rightarrow> bool \<times> queue" where
  "api_cancel_scheduled_for_company now company reason =
     settle_row (\<lambda>r. sc_company r = company)
       (\<lambda>r. r\<lparr>sc_status := Canceled, sc_reason := Some reason, sc_canceledAt := Some now, sc_claimed := None\<rparr>)"


section \<open>A job's reminders, and the question after it\<close>

definition reminder_of :: "string \<Rightarrow> string \<Rightarrow> scheduled_status \<Rightarrow> scheduled \<Rightarrow> bool" where
  "reminder_of company task s r \<longleftrightarrow>
     sc_task r = Some task \<and> sc_company r = company \<and> sc_origin r = Reminder \<and> sc_status r = s"

definition planned_for :: "planned_reminder list \<Rightarrow> scheduled \<Rightarrow> planned_reminder option" where
  "planned_for ps r = find (\<lambda>p. sc_offset r = Some (pr_offset p)) ps"

text \<open>
  The insert of one reminder; the unique index on a job's waiting offsets turns a second one away
  (\<open>on conflict do nothing\<close>).
\<close>

definition insert_reminder ::
  "string \<Rightarrow> string \<Rightarrow> string \<Rightarrow> string \<Rightarrow> string \<Rightarrow> clock_source \<Rightarrow> ms \<Rightarrow> string \<times> planned_reminder \<Rightarrow> queue \<Rightarrow> queue" where
  "insert_reminder company task thread user tz source expires ip t =
     (case ip of (i, p) \<Rightarrow>
        if list_ex (\<lambda>r. live r \<and> sc_task r = Some task \<and> sc_offset r = Some (pr_offset p)) t then t
        else (new_row i company thread (pr_body p) (pr_sendAt p) tz source expires user)
               \<lparr>sc_task := Some task, sc_origin := Reminder, sc_offset := Some (pr_offset p)\<rparr> # t)"

record sync_task =
  st_thread :: string
  st_deleted :: "ms option"
  st_off :: bool

definition api_sync_task_reminders ::
  "ms \<Rightarrow> string list \<Rightarrow> string \<Rightarrow> string \<Rightarrow> sync_task option \<Rightarrow> string \<Rightarrow> planned_reminder list \<Rightarrow> string \<Rightarrow> clock_source
     \<Rightarrow> ms \<Rightarrow> queue \<Rightarrow> queue option" where
  "api_sync_task_reminders now fresh company task job user ps tz source expires t =
     (case job of
        None \<Rightarrow> Some t
      | Some j \<Rightarrow>
          let off = (st_deleted j \<noteq> None \<or> st_off j);
              t1 = filter (\<lambda>r. \<not> reminder_of company task Pending r) t;
              t2 = (if off then t1
                    else upd_rows (\<lambda>r. reminder_of company task Held r \<and> planned_for ps r \<noteq> None)
                           (\<lambda>r. r\<lparr>sc_body := pr_body (the (planned_for ps r)),
                                  sc_sendAt := pr_sendAt (the (planned_for ps r)),
                                  sc_zone := tz, sc_source := source, sc_expires := expires, sc_claimed := None\<rparr>) t1);
              t3 = upd_rows (\<lambda>r. reminder_of company task Held r \<and> (off \<or> planned_for ps r = None))
                     (\<lambda>r. r\<lparr>sc_status := Canceled, sc_canceledAt := Some now, sc_claimed := None\<rparr>) t2
          in if off then Some t3
             else if \<exists>p \<in> set ps. \<not> body_ok (pr_body p) then None
             else Some (fold (insert_reminder company task (st_thread j) user tz source expires) (zip fresh ps) t3))"

text \<open>\<open>askForRating\<close>'s insert, with the two times of \<open>rating_ask\<close>.\<close>

definition insert_rating ::
  "string \<Rightarrow> string \<Rightarrow> string \<Rightarrow> string \<Rightarrow> string \<Rightarrow> string \<Rightarrow> ms \<times> ms \<Rightarrow> string \<Rightarrow> clock_source \<Rightarrow> queue \<Rightarrow> queue option" where
  "insert_rating i company task thread user body ask tz source t =
     (if \<not> body_ok body then None
      else Some ((new_row i company thread body (fst ask) tz source (snd ask) user)
                   \<lparr>sc_task := Some task, sc_origin := Rating\<rparr> # t))"


section \<open>What every operation keeps\<close>

text \<open>
  \<open>evolves t t'\<close>: ids stay unique, a row that is no longer waiting stays as it is, a waiting row keeps
  what it was written with and is not sent, and a row that was not there is unsent, and without a
  watermark unless a person wrote it. Every
  operation but \<open>fire\<close> does this; \<open>fire\<close> does it to every other row.
\<close>

definition ids :: "queue \<Rightarrow> string set" where
  "ids t = sc_id ` set t"

definition wf_queue :: "queue \<Rightarrow> bool" where
  "wf_queue t \<longleftrightarrow> distinct (map sc_id t) \<and> (\<forall>r \<in> set t. sc_message r \<noteq> None \<longleftrightarrow> sc_status r = Sent)"

definition same_intent :: "scheduled \<Rightarrow> scheduled \<Rightarrow> bool" where
  "same_intent r r' \<longleftrightarrow> sc_id r' = sc_id r \<and> sc_company r' = sc_company r \<and> sc_thread r' = sc_thread r
     \<and> sc_watermark r' = sc_watermark r \<and> sc_task r' = sc_task r \<and> sc_origin r' = sc_origin r"

definition row_evolves :: "scheduled \<Rightarrow> scheduled \<Rightarrow> bool" where
  "row_evolves r r' \<longleftrightarrow> same_intent r r' \<and> (live r \<and> sc_status r' \<noteq> Sent \<and> sc_message r' = sc_message r \<or> r' = r)"

definition born :: "scheduled \<Rightarrow> bool" where
  "born r \<longleftrightarrow> sc_status r \<noteq> Sent \<and> sc_message r = None \<and> (sc_origin r \<noteq> Human \<longrightarrow> sc_watermark r = None)"

definition evolves :: "queue \<Rightarrow> queue \<Rightarrow> bool" where
  "evolves t t' \<longleftrightarrow> distinct (map sc_id t')
     \<and> (\<forall>r' \<in> set t'. (\<exists>r \<in> set t. row_evolves r r')
          \<or> sc_id r' \<notin> ids t \<and> born r')
     \<and> (\<forall>r \<in> set t. \<not> live r \<longrightarrow> r \<in> set t')"

lemma row_evolves_refl [simp]: "row_evolves r r"
  by (simp add: row_evolves_def same_intent_def)

lemma row_evolves_trans: "row_evolves a b \<Longrightarrow> row_evolves b c \<Longrightarrow> row_evolves a c"
  by (auto simp: row_evolves_def same_intent_def)

lemma row_evolves_id: "row_evolves r r' \<Longrightarrow> sc_id r' = sc_id r"
  by (simp add: row_evolves_def same_intent_def)

lemma queue_evolves_refl: "wf_queue t \<Longrightarrow> evolves t t"
  unfolding evolves_def wf_queue_def using row_evolves_refl by blast

lemma row_by_id: "distinct (map sc_id t) \<Longrightarrow> r \<in> set t \<Longrightarrow> r' \<in> set t \<Longrightarrow> sc_id r = sc_id r' \<Longrightarrow> r = r'"
  by (auto simp: distinct_map inj_on_def)

lemma evolves_wf: "wf_queue t \<Longrightarrow> evolves t t' \<Longrightarrow> wf_queue t'"
  unfolding wf_queue_def evolves_def row_evolves_def born_def
  by (metis isScheduledMessageLive_def scheduled_status.distinct(3) scheduled_status.distinct(11) scheduled_status.distinct(9) scheduled_status.distinct(1))

lemma queue_evolves_trans:
  assumes "wf_queue t" "evolves t u" "evolves u v" "ids v \<inter> ids t \<subseteq> ids u"
  shows "evolves t v"
  unfolding evolves_def
proof (intro conjI ballI impI)
  show "distinct (map sc_id v)" using assms(3) by (simp add: evolves_def)
next
  fix r assume r: "r \<in> set v"
  from assms(3) r consider s where "s \<in> set u" "row_evolves s r"
    | "sc_id r \<notin> ids u" "born r"
    by (auto simp: evolves_def)
  then show "(\<exists>s \<in> set t. row_evolves s r) \<or> sc_id r \<notin> ids t \<and> born r"
  proof cases
    case 1
    from assms(2) 1(1) consider q where "q \<in> set t" "row_evolves q s"
      | "sc_id s \<notin> ids t" "born s"
      by (auto simp: evolves_def)
    then show ?thesis
    proof cases
      case 1
      then show ?thesis using row_evolves_trans [OF _ \<open>row_evolves s r\<close>] by blast
    next
      case 2
      then show ?thesis using \<open>row_evolves s r\<close> row_evolves_id [OF \<open>row_evolves s r\<close>]
        by (auto simp: row_evolves_def born_def same_intent_def)
    qed
  next
    case 2
    then show ?thesis using assms(4) r by (auto simp: ids_def)
  qed
next
  fix r assume "r \<in> set t" "\<not> live r"
  then show "r \<in> set v" using assms(2,3) by (simp add: evolves_def)
qed

locale waiting_op =
  fixes ok :: "queue \<Rightarrow> bool" and f :: "queue \<Rightarrow> queue"
  assumes evolve: "wf_queue t \<Longrightarrow> ok t \<Longrightarrow> evolves t (f t)"
begin

lemma wf: "wf_queue t \<Longrightarrow> ok t \<Longrightarrow> wf_queue (f t)"
  using evolve evolves_wf by blast

lemma settled: "wf_queue t \<Longrightarrow> ok t \<Longrightarrow> r \<in> set t \<Longrightarrow> \<not> live r \<Longrightarrow> r \<in> set (f t)"
  using evolve by (simp add: evolves_def)

lemma unsent:
  assumes "wf_queue t" "ok t" "r \<in> set (f t)" "sc_status r = Sent"
  shows "r \<in> set t"
  using evolve [OF assms(1,2)] assms(3,4) unfolding evolves_def row_evolves_def born_def by blast

end

lemma evolves_upd:
  assumes "wf_queue t" "\<And>r. r \<in> set t \<Longrightarrow> P r \<Longrightarrow> row_evolves r (f r)"
  shows "evolves t (upd_rows P f t)"
proof -
  define g where "g = (\<lambda>r. if P r then f r else r)"
  have u: "upd_rows P f t = map g t" by (simp add: upd_rows_def g_def)
  have e: "row_evolves r (g r)" if "r \<in> set t" for r using assms(2) that by (simp add: g_def)
  have "map sc_id (map g t) = map sc_id t" using row_evolves_id [OF e] by simp
  then have "distinct (map sc_id (map g t))" using assms(1) unfolding wf_queue_def by metis
  moreover have "\<exists>r \<in> set t. row_evolves r r'" if "r' \<in> g ` set t" for r' using e that by blast
  moreover have "r \<in> g ` set t" if "r \<in> set t" "\<not> live r" for r
  proof -
    have "g r = r" using e [OF that(1)] that(2) by (auto simp: row_evolves_def)
    then show ?thesis using that(1) by (metis imageI)
  qed
  ultimately show ?thesis unfolding evolves_def u set_map by blast
qed

lemma ids_upd [simp]: "(\<And>r. sc_id (f r) = sc_id r) \<Longrightarrow> ids (upd_rows P f t) = ids t"
  unfolding ids_def upd_rows_def set_map image_image by (simp add: if_distrib [of sc_id] cong: if_cong del: if_image_distrib)

lemma evolves_filter: "wf_queue t \<Longrightarrow> (\<And>r. r \<in> set t \<Longrightarrow> \<not> live r \<Longrightarrow> P r) \<Longrightarrow> evolves t (filter P t)"
  using row_evolves_refl by (fastforce simp: evolves_def wf_queue_def distinct_map_filter)

lemma evolves_insert:
  "wf_queue t \<Longrightarrow> sc_id r \<notin> ids t \<Longrightarrow> born r \<Longrightarrow> evolves t (r # t)"
  using row_evolves_refl by (fastforce simp: evolves_def wf_queue_def ids_def)

lemmas row_update_simps = row_evolves_def same_intent_def isScheduledMessageLive_def

lemma limited_ids: "i \<in> set (map sc_id (take n (sort_key k (filter P t)))) \<Longrightarrow> \<exists>r \<in> set t. P r \<and> sc_id r = i"
  by (auto dest!: in_set_takeD)

lemma limited_row:
  assumes "wf_queue t" "r \<in> set t" "sc_id r \<in> set (map sc_id (take n (sort_key k (filter P t))))"
  shows "P r"
  using limited_ids [OF assms(3)] assms(1,2) row_by_id by (auto simp: wf_queue_def)

interpretation claim: waiting_op "\<lambda>_. True" "\<lambda>t. snd (api_claim_due_scheduled_messages now limit lease locked t)"
  for now limit lease locked
proof
  fix t assume wf: "wf_queue t"
  show "evolves t (snd (api_claim_due_scheduled_messages now limit lease locked t))"
    unfolding api_claim_due_scheduled_messages_def Let_def snd_conv
  proof (rule evolves_upd [OF wf], goal_cases)
    case (1 r)
    then have "live r" using limited_row [OF wf 1(1) 1(2)] by (simp add: claimable_def)
    then show ?case using wf 1(1) by (auto simp: row_update_simps wf_queue_def)
  qed
qed

interpretation expire: waiting_op "\<lambda>_. True" "\<lambda>t. snd (api_expire_scheduled_messages now limit locked t)"
  for now limit locked
proof
  fix t assume wf: "wf_queue t"
  show "evolves t (snd (api_expire_scheduled_messages now limit locked t))"
    unfolding api_expire_scheduled_messages_def Let_def snd_conv
  proof (rule evolves_upd [OF wf], goal_cases)
    case (1 r)
    then have "live r" using limited_row [OF wf 1(1) 1(2)] by (simp add: stale_def)
    then show ?case by (auto simp: row_update_simps)
  qed
qed

interpretation hold: waiting_op "\<lambda>_. True" "\<lambda>t. snd (api_hold_scheduled_message now i reason key t)"
  for now i reason key
  by unfold_locales (auto simp: api_hold_scheduled_message_def settle_row_def row_update_simps intro!: evolves_upd)

interpretation fail: waiting_op "\<lambda>_. True" "\<lambda>t. snd (api_fail_scheduled_message i reason key t)"
  for i reason key
  by unfold_locales (auto simp: api_fail_scheduled_message_def settle_row_def row_update_simps intro!: evolves_upd)

interpretation cancel: waiting_op "\<lambda>_. True" "\<lambda>t. snd (api_cancel_scheduled_message now i company user t)"
  for now i company user
  by unfold_locales (auto simp: api_cancel_scheduled_message_def settle_row_def row_update_simps intro!: evolves_upd)

interpretation close: waiting_op "\<lambda>_. True" "\<lambda>t. snd (api_cancel_scheduled_for_company now company reason t)"
  for now company reason
  by unfold_locales (auto simp: api_cancel_scheduled_for_company_def settle_row_def row_update_simps intro!: evolves_upd)

interpretation schedule: waiting_op "\<lambda>t. i \<notin> ids t"
  "\<lambda>t. snd (api_schedule_message now inCompany newest i company thread user body sendAt tz source expires t)"
  for now inCompany newest i company thread user body sendAt tz source expires
  by unfold_locales
    (auto simp: api_schedule_message_def new_row_def born_def Let_def intro!: queue_evolves_refl evolves_insert)

lemma insert_reminder_cases:
  "insert_reminder company task thread user tz source expires ip t = t
   \<or> (\<exists>r. insert_reminder company task thread user tz source expires ip t = r # t \<and> sc_id r = fst ip
        \<and> born r)"
  by (auto simp: insert_reminder_def new_row_def born_def split: prod.splits)

lemma evolves_reminders:
  "wf_queue t \<Longrightarrow> evolves t u \<Longrightarrow> distinct (map fst ips) \<Longrightarrow> fst ` set ips \<inter> (ids t \<union> ids u) = {} \<Longrightarrow>
     evolves t (fold (insert_reminder company task thread user tz source expires) ips u)"
proof (induction ips arbitrary: u)
  case (Cons ip ips)
  let ?v = "insert_reminder company task thread user tz source expires ip u"
  have wu: "wf_queue u" using evolves_wf [OF Cons.prems(1,2)] .
  have fresh: "fst ip \<notin> ids t" "fst ip \<notin> ids u" using Cons.prems(4) by auto
  have v: "evolves t ?v \<and> ids ?v \<subseteq> insert (fst ip) (ids u)"
    using insert_reminder_cases [of company task thread user tz source expires ip u]
  proof (elim disjE exE conjE)
    fix r assume r: "?v = r # u" "sc_id r = fst ip" "born r"
    then have "evolves u ?v" using wu fresh(2) by (auto intro: evolves_insert)
    moreover have "ids ?v \<inter> ids t \<subseteq> ids u" using r(1,2) fresh(1) by (auto simp: ids_def)
    ultimately show ?thesis using queue_evolves_trans [OF Cons.prems(1,2)] r(1,2) by (auto simp: ids_def)
  qed (use Cons.prems(2) in auto)
  have "fst ip \<notin> fst ` set ips" using Cons.prems(3) by simp
  moreover have "fst ` set ips \<inter> (ids t \<union> ids u) = {}" using Cons.prems(4) by auto
  moreover have "\<And>A B C D x. x \<notin> A \<Longrightarrow> A \<inter> (B \<union> C) = {} \<Longrightarrow> D \<subseteq> insert x C \<Longrightarrow> A \<inter> (B \<union> D) = {}" by blast
  ultimately have "fst ` set ips \<inter> (ids t \<union> ids ?v) = {}" using v by metis
  then show ?case using Cons.IH [of ?v] Cons.prems(1,3) v by simp
qed simp

lemma evolves_sync:
  assumes wf: "wf_queue t" and fresh: "distinct fresh" "set fresh \<inter> ids t = {}"
    and sync: "api_sync_task_reminders now fresh company task job user ps tz source expires t = Some t'"
  shows "evolves t t'"
proof (cases job)
  case None
  then show ?thesis using sync queue_evolves_refl [OF wf] by (simp add: api_sync_task_reminders_def)
next
  case (Some j)
  define off where "off \<longleftrightarrow> st_deleted j \<noteq> None \<or> st_off j"
  define t1 where "t1 = filter (\<lambda>r. \<not> reminder_of company task Pending r) t"
  define t2 where "t2 = (if off then t1
    else upd_rows (\<lambda>r. reminder_of company task Held r \<and> planned_for ps r \<noteq> None)
           (\<lambda>r. r\<lparr>sc_body := pr_body (the (planned_for ps r)), sc_sendAt := pr_sendAt (the (planned_for ps r)),
                  sc_zone := tz, sc_source := source, sc_expires := expires, sc_claimed := None\<rparr>) t1)"
  define t3 where "t3 = upd_rows (\<lambda>r. reminder_of company task Held r \<and> (off \<or> planned_for ps r = None))
    (\<lambda>r. r\<lparr>sc_status := Canceled, sc_canceledAt := Some now, sc_claimed := None\<rparr>) t2"
  have t': "t' = (if off then t3
      else fold (insert_reminder company task (st_thread j) user tz source expires) (zip fresh ps) t3)"
    using sync unfolding api_sync_task_reminders_def Some option.case Let_def off_def [symmetric] t1_def [symmetric]
      t2_def [symmetric] t3_def [symmetric] by (simp split: if_splits)
  have e1: "evolves t t1" unfolding t1_def
    by (rule evolves_filter [OF wf]) (auto simp: reminder_of_def isScheduledMessageLive_def)
  have w1: "wf_queue t1" using evolves_wf [OF wf e1] .
  have e2: "evolves t1 t2" unfolding t2_def
    by (auto intro!: evolves_upd queue_evolves_refl w1 simp: row_update_simps reminder_of_def)
  have i2: "ids t2 = ids t1" by (simp add: t2_def)
  have e12: "evolves t t2" using queue_evolves_trans [OF wf e1 e2] i2 by simp
  have w2: "wf_queue t2" using evolves_wf [OF wf e12] .
  have e3: "evolves t2 t3" unfolding t3_def
    by (rule evolves_upd [OF w2]) (auto simp: row_update_simps reminder_of_def)
  have i3: "ids t3 = ids t2" by (simp add: t3_def)
  have e13: "evolves t t3" using queue_evolves_trans [OF wf e12 e3] i3 by simp
  have "ids t3 \<subseteq> ids t" using i3 i2 by (auto simp: t1_def ids_def)
  then have "set fresh \<inter> (ids t \<union> ids t3) = {}" using fresh(2) by blast
  then have "evolves t (fold (insert_reminder company task (st_thread j) user tz source expires) (zip fresh ps) t3)"
    using fresh(1) by (intro evolves_reminders [OF wf e13])
      (auto simp: map_fst_zip_take distinct_take dest!: set_zip_leftD)
  then show ?thesis using t' e13 by simp
qed

lemma evolves_rating:
  "wf_queue t \<Longrightarrow> i \<notin> ids t \<Longrightarrow> insert_rating i company task thread user body ask tz source t = Some t' \<Longrightarrow> evolves t t'"
  by (auto simp: insert_rating_def new_row_def born_def intro!: evolves_insert split: if_splits)


section \<open>Claims and the horizon\<close>

lemma claimed_row:
  assumes "wf_queue t" "r' \<in> set (fst (api_claim_due_scheduled_messages now limit lease locked t))"
  shows "\<exists>r \<in> set t. claimable now lease r \<and> r' = r\<lparr>sc_claimed := Some now\<rparr>"
proof -
  from assms(2) obtain r where r: "r \<in> set t"
      "sc_id r \<in> set (map sc_id (take limit (sort_key sc_sendAt
         (filter (\<lambda>r. claimable now lease r \<and> sc_id r \<notin> set locked) t))))"
      "r' = r\<lparr>sc_claimed := Some now\<rparr>"
    unfolding api_claim_due_scheduled_messages_def Let_def fst_conv upd_rows_def by (auto split: if_splits)
  then show ?thesis using limited_row [OF assms(1) r(1,2)] by blast
qed

lemma claimed_now:
  assumes "wf_queue t" "r' \<in> set (fst (api_claim_due_scheduled_messages now limit lease locked t))"
  shows "r' \<in> set (snd (api_claim_due_scheduled_messages now limit lease locked t))"
  using assms(2) by (simp add: api_claim_due_scheduled_messages_def Let_def)

text \<open>While a lease runs, no second claim takes the row unless something has cleared the claim.\<close>

lemma claims_apart:
  assumes "wf_queue t" "wf_queue u"
    and c: "r \<in> set (fst (api_claim_due_scheduled_messages n limit lease locked t))"
    and u: "q \<in> set u" "sc_id q = sc_id r" "sc_claimed q = sc_claimed r"
    and m: "m \<le> n + lease * 1000"
  shows "sc_id r \<notin> ids (fst (api_claim_due_scheduled_messages m limit' lease locked' u))"
proof
  assume "sc_id r \<in> ids (fst (api_claim_due_scheduled_messages m limit' lease locked' u))"
  then obtain p where "p \<in> set u" "claimable m lease p" "sc_id p = sc_id r"
    using claimed_row [OF assms(2)] unfolding ids_def by fastforce
  moreover have "p = q" using row_by_id [of u p q] u assms(2) calculation by (simp add: wf_queue_def)
  moreover have "sc_claimed r = Some n" using claimed_row [OF assms(1) c] by auto
  ultimately show False using u m by (simp add: claimable_def)
qed

text \<open>
  An expiry leaves as many rows past their horizon as there are beyond its limit: none where the
  limit is enough, and then the claim that follows takes only rows whose window is open.
\<close>

lemma stale_left:
  assumes wf: "wf_queue t"
  shows "length (filter (stale now) (snd (api_expire_scheduled_messages now limit [] t)))
         = length (filter (stale now) t) - limit"
proof -
  define gone where "gone = take limit (sort_key sc_expires (filter (stale now) t))"
  define G where "G = set (map sc_id gone)"
  have d: "distinct (map sc_id t)" using wf by (simp add: wf_queue_def)
  have dt: "distinct t" using d by (simp add: distinct_map)
  have sub: "set gone \<subseteq> set (filter (stale now) t)" by (auto simp: gone_def dest!: in_set_takeD)
  have ing: "sc_id r \<in> G \<longleftrightarrow> r \<in> set gone" if "r \<in> set t" for r
    using sub that row_by_id [OF d] by (auto simp: G_def)
  have "filter (stale now) (snd (api_expire_scheduled_messages now limit [] t))
        = filter (\<lambda>r. stale now r \<and> sc_id r \<notin> G) t"
    unfolding api_expire_scheduled_messages_def Let_def snd_conv list.set empty_iff not_False_eq_True simp_thms
      gone_def [symmetric] G_def [symmetric] upd_rows_def filter_map o_def
    by (induction t) (auto simp: stale_def isScheduledMessageLive_def)
  also have "\<dots> = filter (\<lambda>r. stale now r \<and> r \<notin> set gone) t" using ing by (intro filter_cong) auto
  finally have "length (filter (stale now) (snd (api_expire_scheduled_messages now limit [] t)))
      = card (set (filter (stale now) t) - set gone)"
    using dt by (simp add: distinct_card [symmetric] set_diff_eq Collect_conj_eq Int_assoc)
  also have "\<dots> = length (filter (stale now) t) - length gone"
  proof -
    have "card (set gone) = length gone" using dt by (intro distinct_card) (simp add: gone_def)
    moreover have "card (set (filter (stale now) t)) = length (filter (stale now) t)"
      using dt by (intro distinct_card) simp
    ultimately show ?thesis using card_Diff_subset [OF finite_set sub] by simp
  qed
  also have "\<dots> = length (filter (stale now) t) - limit" by (simp add: gone_def min_def)
  finally show ?thesis .
qed

lemma expire_then_claim:
  assumes wf: "wf_queue t" and few: "length (filter (stale now) t) \<le> limit"
    and c: "r \<in> set (fst (api_claim_due_scheduled_messages now limit' lease locked
                       (snd (api_expire_scheduled_messages now limit [] t))))"
  shows "now < sc_expires r"
proof -
  let ?u = "snd (api_expire_scheduled_messages now limit [] t)"
  obtain q where q: "q \<in> set ?u" "claimable now lease q" "r = q\<lparr>sc_claimed := Some now\<rparr>"
    using claimed_row [OF expire.wf [OF wf TrueI] c] by blast
  have "filter (stale now) ?u = []" using stale_left [OF wf, of now limit] few by simp
  then have "\<not> stale now q" using q(1) by (metis filter_empty_conv)
  then show ?thesis using q(2,3) by (auto simp: stale_def claimable_def)
qed


section \<open>Firing\<close>

lemma find_live_Some: "find_live i t = Some r \<Longrightarrow> r \<in> set t \<and> sc_id r = i \<and> live r"
  by (auto simp: find_live_def find_Some_iff)

lemma fire_keeps:
  assumes wf: "wf_queue t" and f: "api_fire_scheduled_message now job cal mid i t = (out, t')"
    and n: "\<And>m. out \<noteq> Fired m"
  shows "evolves t t'"
proof (cases "find_live i t")
  case None
  then show ?thesis using f queue_evolves_refl [OF wf] by (simp add: api_fire_scheduled_message_def)
next
  case (Some r)
  note r = find_live_Some [OF Some]
  have same: "x = r" if "x \<in> set t" "sc_id x = i" for x
    using row_by_id [of t x r] wf that r by (simp add: wf_queue_def)
  show ?thesis using f n r unfolding api_fire_scheduled_message_def Some option.case Let_def
    by (auto split: if_splits intro!: evolves_upd [OF wf] dest!: same simp: row_update_simps)
qed

lemma fired:
  assumes "api_fire_scheduled_message now job cal mid i t = (Fired m, t')"
  shows "\<exists>r \<in> set t. sc_id r = i \<and> live r \<and> m = fired_message mid r
           \<and> (is_reminder r \<longrightarrow> job_booked job \<and> (calendar_backed cal \<longrightarrow> calendar_safe now cal))
           \<and> t' = upd_rows (\<lambda>x. sc_id x = i)
                (\<lambda>x. x\<lparr>sc_status := Sent, sc_message := Some mid, sc_reason := None, sc_reasonKey := None\<rparr>) t"
  using assms find_live_Some [of i t]
  by (auto simp: api_fire_scheduled_message_def Let_def split: option.splits if_splits)

end
