(* ===== verification/Schedule_Job.thy ===== *)
theory Schedule_Job
  imports Schedule_Store
begin

text \<open>
  What the worker decides about a claimed row (\<open>messaging/scheduled-send.ts\<close>), and the three routes by
  which a person schedules, edits and cancels one (\<open>routes/scheduled-messages.ts\<close>). Every answer of
  the database or of another module is an argument, \<open>None\<close> its error.
\<close>

section \<open>The checks of one row\<close>

definition SCAN_LIMIT :: nat where "SCAN_LIMIT = 100"
definition LEASE_SECONDS :: int where "LEASE_SECONDS = 300"

definition reasonFor :: "gate_error \<Rightarrow> hold_reason" where
  "reasonFor cause =
     (case cause of
        Thrown \<Rightarrow> ServiceDown
      | Api code \<Rightarrow>
          (case code of
             RecipientOptedOut \<Rightarrow> OptedOut
           | SubscriptionInactive \<Rightarrow> SubscriptionLapsed
           | WorkspacePaused \<Rightarrow> PlanPaused
           | RegistrationPending \<Rightarrow> AwaitingRegistration
           | ValidationFailed \<Rightarrow> InvalidDestination
           | _ \<Rightarrow> ServiceDown))"

record conversation_read =
  cv_to :: "string option"
  cv_number :: "(string \<times> string) option"

record destination =
  ds_from :: string
  ds_to :: string
  ds_newest :: "ms option"

text \<open>\<open>None\<close> is a lookup that failed, \<open>Some None\<close> no destination.\<close>

definition resolveDestination :: "conversation_read option option \<Rightarrow> ms option option \<Rightarrow> destination option option" where
  "resolveDestination conversation newest =
     (case conversation of
        None \<Rightarrow> None
      | Some None \<Rightarrow> Some None
      | Some (Some c) \<Rightarrow>
          (case cv_number c of
             None \<Rightarrow> Some None
           | Some (e164, status) \<Rightarrow>
               if \<not> truthy (cv_to c) \<or> status = ''released'' then Some None
               else case newest of
                 None \<Rightarrow> None
               | Some m \<Rightarrow> Some (Some \<lparr>ds_from = e164, ds_to = the (cv_to c), ds_newest = m\<rparr>)))"

definition customerReplied :: "scheduled \<Rightarrow> destination \<Rightarrow> bool" where
  "customerReplied r d =
     (case ds_newest d of
        None \<Rightarrow> False
      | Some n \<Rightarrow> (case sc_watermark r of None \<Rightarrow> True | Some w \<Rightarrow> w < n))"

definition jobStillBooked :: "scheduled \<Rightarrow> job_row option option \<Rightarrow> bool" where
  "jobStillBooked r job \<longleftrightarrow> \<not> is_reminder r \<or> (case job of None \<Rightarrow> True | Some j \<Rightarrow> job_booked j)"

record cal_reads =
  cr_outbox :: "bool option"
  cr_links :: "cal_link list option"
  cr_connections :: "connection list option"

definition connection_verified :: "ms \<Rightarrow> connection option \<Rightarrow> bool" where
  "connection_verified now c =
     (case c of
        None \<Rightarrow> False
      | Some x \<Rightarrow> cn_status x = ''active'' \<and> cn_revoked x = None \<and> cn_lease x = None
          \<and> (case cn_verified x of None \<Rightarrow> False | Some v \<Rightarrow> now - CALENDAR_VERIFICATION_MAX_AGE_MS \<le> v)
          \<and> (case cn_due x of None \<Rightarrow> False | Some d \<Rightarrow> now < d))"

definition linkedCalendarsVerifiedRecently :: "scheduled \<Rightarrow> cal_reads \<Rightarrow> ms \<Rightarrow> bool" where
  "linkedCalendarsVerifiedRecently r k now \<longleftrightarrow>
     \<not> is_reminder r
     \<or> cr_outbox k = Some False
       \<and> (case cr_links k of
            None \<Rightarrow> False
          | Some ls \<Rightarrow>
              (\<forall>l \<in> set ls. cl_state l = ''active'' \<and> cl_connection l \<noteq> [])
              \<and> (ls = [] \<or>
                 (case cr_connections k of
                    None \<Rightarrow> False
                  | Some cs \<Rightarrow> \<forall>l \<in> set ls. connection_verified now (connection_of cs (cl_connection l)))))"

record row_reads =
  rd_conversation :: "conversation_read option option"
  rd_newest :: "ms option option"
  rd_job :: "job_row option option"
  rd_calendar :: cal_reads
  rd_gates :: gate_world

datatype send_decision = Throws | HoldFor hold_reason | FailFor hold_reason | GoTo string string clearance

definition decide :: "ms \<Rightarrow> scheduled \<Rightarrow> row_reads \<Rightarrow> send_decision" where
  "decide now r k =
     (case resolveDestination (rd_conversation k) (rd_newest k) of
        None \<Rightarrow> Throws
      | Some None \<Rightarrow> FailFor InvalidDestination
      | Some (Some d) \<Rightarrow>
          if customerReplied r d then HoldFor CustomerReplied
          else if \<not> jobStillBooked r (rd_job k) then FailFor JobNoLongerScheduled
          else if \<not> linkedCalendarsVerifiedRecently r (rd_calendar k) now then HoldFor CalendarUnverified
          else case runPreSendGates (rd_gates k) now (ds_to d) False of
            Inl cause \<Rightarrow>
              let reason = reasonFor cause in
              if scheduledReasonRecovers reason then HoldFor reason else FailFor reason
          | Inr c \<Rightarrow> GoTo (ds_from d) (ds_to d) c)"


section \<open>The routes\<close>

definition HOLD_HORIZON_HOURS :: int where "HOLD_HORIZON_HOURS = 24"

datatype route_error = RouteNotFound | RouteInvalid | QuietHours int | RouteThrown

definition body_given :: "string \<Rightarrow> bool" where
  "body_given b \<longleftrightarrow> trim b \<noteq> [] \<and> length (trim b) \<le> SCHEDULED_BODY_MAX"

text \<open>The conversation is its number and its contact's zone.\<close>

definition post_scheduled ::
  "zones \<Rightarrow> string \<Rightarrow> (string option \<times> string option) option \<Rightarrow> ms \<Rightarrow> bool \<Rightarrow> ms option \<Rightarrow> string \<Rightarrow> string \<Rightarrow> string
     \<Rightarrow> string \<Rightarrow> string \<Rightarrow> ms \<Rightarrow> bool \<Rightarrow> queue \<Rightarrow> (route_error + scheduled) \<times> queue" where
  "post_scheduled tz companyZone conversation now inCompany newest i company thread user body sendAt confirmed t =
     (if \<not> body_given body then (Inl RouteInvalid, t)
      else case conversation of
        None \<Rightarrow> (Inl RouteNotFound, t)
      | Some (phone, contactZone) \<Rightarrow>
          if \<not> truthy phone then (Inl RouteNotFound, t)
          else case resolveDestinationClock tz (the phone) contactZone companyZone sendAt of
            None \<Rightarrow> (Inl RouteThrown, t)
          | Some clock \<Rightarrow>
              if dc_quiet clock \<and> \<not> confirmed then (Inl (QuietHours (dc_localHour clock)), t)
              else case api_schedule_message now inCompany newest i company thread user (trim body) sendAt
                          (dc_timezone clock) (dc_source clock) (sendAt + HOLD_HORIZON_HOURS * hour_ms) t of
                (Some (Scheduled r), t') \<Rightarrow> (Inr r, t')
              | (Some NotFound, t') \<Rightarrow> (Inl RouteNotFound, t')
              | (Some _, t') \<Rightarrow> (Inl RouteInvalid, t')
              | (None, t') \<Rightarrow> (Inl RouteThrown, t'))"

record edit =
  ed_body :: "string option"
  ed_sendAt :: "ms option"
  ed_confirmed :: bool

record row_patch =
  rp_body :: "string option"
  rp_clock :: "(string \<times> clock_source) option"
  rp_times :: "(ms \<times> ms) option"

text \<open>What an edit reads: the row's state, and its contact's first number and zone.\<close>

definition patch_read ::
  "zones \<Rightarrow> string \<Rightarrow> ms \<Rightarrow> (scheduled_status \<times> (string \<times> string option) option) option \<Rightarrow> edit \<Rightarrow> route_error + row_patch" where
  "patch_read tz companyZone now existing e =
     (if (case ed_body e of None \<Rightarrow> False | Some b \<Rightarrow> \<not> body_given b) then Inl RouteInvalid
      else case existing of
        None \<Rightarrow> Inl RouteNotFound
      | Some (status, contact) \<Rightarrow>
          if \<not> isScheduledMessageLive status then Inl RouteInvalid
          else case ed_sendAt e of
            None \<Rightarrow> Inr \<lparr>rp_body = map_option trim (ed_body e), rp_clock = None, rp_times = None\<rparr>
          | Some sendAt \<Rightarrow>
              let patch = \<lparr>rp_body = map_option trim (ed_body e), rp_clock = None,
                           rp_times = Some (sendAt, sendAt + HOLD_HORIZON_HOURS * hour_ms)\<rparr> in
              if sendAt \<le> now then Inl RouteInvalid
              else case contact of
                None \<Rightarrow> Inr patch
              | Some (phone, contactZone) \<Rightarrow>
                  if phone = [] then Inr patch
                  else case resolveDestinationClock tz phone contactZone companyZone sendAt of
                    None \<Rightarrow> Inl RouteThrown
                  | Some clock \<Rightarrow>
                      if dc_quiet clock \<and> \<not> ed_confirmed e then Inl (QuietHours (dc_localHour clock))
                      else Inr (patch\<lparr>rp_clock := Some (dc_timezone clock, dc_source clock)\<rparr>))"

definition apply_patch :: "row_patch \<Rightarrow> scheduled \<Rightarrow> scheduled" where
  "apply_patch p r =
     (let r1 = (case rp_body p of None \<Rightarrow> r | Some b \<Rightarrow> r\<lparr>sc_body := b\<rparr>);
          r2 = (case rp_clock p of None \<Rightarrow> r1 | Some (z, s) \<Rightarrow> r1\<lparr>sc_zone := z, sc_source := s\<rparr>)
      in case rp_times p of
           None \<Rightarrow> r2
         | Some (sendAt, expires) \<Rightarrow>
             r2\<lparr>sc_sendAt := sendAt, sc_expires := expires, sc_status := Pending, sc_reason := None, sc_heldAt := None\<rparr>)"

definition patch_write :: "string \<Rightarrow> string \<Rightarrow> row_patch \<Rightarrow> queue \<Rightarrow> bool \<times> queue" where
  "patch_write company i p = settle_row (\<lambda>r. sc_id r = i \<and> sc_company r = company) (apply_patch p)"

definition delete_scheduled :: "ms \<Rightarrow> string \<Rightarrow> string \<Rightarrow> string \<Rightarrow> queue \<Rightarrow> (route_error + unit) \<times> queue" where
  "delete_scheduled now company user i t =
     (case api_cancel_scheduled_message now i company user t of
        (found, t') \<Rightarrow> (if found then Inr () else Inl RouteNotFound, t'))"

interpretation patch: waiting_op "\<lambda>_. True" "\<lambda>t. snd (patch_write company i p t)" for company i p
  by unfold_locales
    (auto simp: patch_write_def settle_row_def apply_patch_def Let_def row_update_simps
       split: option.splits prod.splits intro!: evolves_upd)


section \<open>When a row goes\<close>

lemma reason_recovers:
  "scheduledReasonRecovers (reasonFor e) \<longleftrightarrow> e \<noteq> Api RecipientOptedOut \<and> e \<noteq> Api ValidationFailed"
  by (cases e) (auto simp: reasonFor_def scheduledReasonRecovers_def split: error_code.splits)

lemma goes_iff:
  "decide now r k = GoTo dfrom dto c \<longleftrightarrow>
     (\<exists>cv st n. rd_conversation k = Some (Some cv) \<and> cv_to cv = Some dto \<and> dto \<noteq> []
        \<and> cv_number cv = Some (dfrom, st) \<and> st \<noteq> ''released'' \<and> rd_newest k = Some n
        \<and> (case n of None \<Rightarrow> True | Some m \<Rightarrow> (\<exists>w. sc_watermark r = Some w \<and> m \<le> w)))
     \<and> jobStillBooked r (rd_job k)
     \<and> linkedCalendarsVerifiedRecently r (rd_calendar k) now
     \<and> runPreSendGates (rd_gates k) now dto False = Inr c"
  by (auto simp: decide_def resolveDestination_def customerReplied_def truthy_iff Let_def not_less
      split: option.splits prod.splits sum.splits if_splits)

lemma verified_link:
  "cl_state l = ''active'' \<Longrightarrow> connection_verified now (connection_of cs (cl_connection l)) \<Longrightarrow> \<not> unsafe_link now cs l"
  by (auto simp: unsafe_link_def connection_verified_def split: option.splits)

text \<open>
  The worker's calendar check is the stricter of the two: what it passes, the transaction of \<open>fire\<close>
  passes at that instant, provided the company is open.
\<close>

lemma calendar_check_stricter:
  assumes "linkedCalendarsVerifiedRecently r \<lparr>cr_outbox = Some (ca_outbox k),
             cr_links = Some (filter (\<lambda>l. cl_state l \<noteq> ''unlinked'') (ca_links k)),
             cr_connections = Some (ca_connections k)\<rparr> now"
    "is_reminder r" "ca_open k"
  shows "calendar_safe now k"
proof -
  let ?ls = "filter (\<lambda>l. cl_state l \<noteq> ''unlinked'') (ca_links k)"
  have "\<not> ca_outbox k" and "\<forall>l \<in> set ?ls. cl_state l = ''active''"
    and "\<forall>l \<in> set ?ls. connection_verified now (connection_of (ca_connections k) (cl_connection l))"
    using assms(1,2) unfolding linkedCalendarsVerifiedRecently_def by (force, force, cases "?ls = []") simp_all
  then show ?thesis using assms(3) verified_link unfolding calendar_safe_def by blast
qed

end
