(* ===== verification/Schedule_System.thy ===== *)
theory Schedule_System
  imports Schedule_Job
begin

text \<open>
  Scheduled sends as a system. The worker's runs overlap (one starts every minute), each works
  through the rows it claimed one after the other, and between any two of its awaits people schedule,
  edit and cancel, jobs change, customers answer and opt out. So a task is the rest of one run after
  an await; \<open>sstep\<close> runs one task to its next await, or one operation of somebody else.

  \<open>y_inbound\<close> is the newest inbound text of a thread, \<open>y_optouts\<close> who opted out of which company,
  \<open>y_messages\<close> the rows of \<open>messages\<close> that fired, \<open>y_sent\<close> and \<open>y_told\<close> what went to Telnyx and
  what was disclosed, newest first, and \<open>y_ids\<close> every id the database has given out.
\<close>

datatype sched_task =
    ClaimTask ms
  | CheckTask ms scheduled "scheduled list"
  | SettleTask ms bool hold_reason scheduled "scheduled list"
  | FireTask ms string clearance scheduled "scheduled list"
  | DispatchTask ms message string string clearance "scheduled list"

record sched_sys =
  y_now :: ms
  y_rows :: queue
  y_inbound :: "string \<Rightarrow> ms option"
  y_optouts :: "(string \<times> string) set"
  y_messages :: "message list"
  y_tasks :: "sched_task list"
  y_sent :: "send_effect list"
  y_told :: "(string \<times> hold_reason) list"
  y_ids :: "string set"

definition next_row :: "ms \<Rightarrow> scheduled list \<Rightarrow> sched_task list" where
  "next_row n rs = (case rs of [] \<Rightarrow> [] | r # rest \<Rightarrow> [CheckTask n r rest])"

fun rest_of :: "sched_task \<Rightarrow> sched_task list" where
  "rest_of (ClaimTask n) = []"
| "rest_of (CheckTask n r rest) = next_row n rest"
| "rest_of (SettleTask n h q r rest) = next_row n rest"
| "rest_of (FireTask n d c r rest) = next_row n rest"
| "rest_of (DispatchTask n m d b c rest) = next_row n rest"

text \<open>One task ends and these begin.\<close>

definition becomes :: "sched_task \<Rightarrow> sched_task list \<Rightarrow> sched_sys \<Rightarrow> sched_sys" where
  "becomes k ks y = y\<lparr>y_tasks := ks @ remove1 k (y_tasks y)\<rparr>"

definition tell :: "(string \<times> hold_reason) list \<Rightarrow> sched_sys \<Rightarrow> sched_sys" where
  "tell ts y = y\<lparr>y_told := rev ts @ y_told y\<rparr>"

definition queue_to :: "queue \<Rightarrow> sched_sys \<Rightarrow> sched_sys" where
  "queue_to t y = y\<lparr>y_rows := t\<rparr>"

definition after_check :: "ms \<Rightarrow> scheduled \<Rightarrow> scheduled list \<Rightarrow> send_decision \<Rightarrow> sched_task list" where
  "after_check n r rest d =
     (case d of
        Throws \<Rightarrow> next_row n rest
      | HoldFor reason \<Rightarrow> [SettleTask n True reason r rest]
      | FailFor reason \<Rightarrow> [SettleTask n False reason r rest]
      | GoTo dfrom dto c \<Rightarrow> [FireTask n dto c r rest])"

text \<open>\<open>hold\<close> and \<open>fail\<close>: the row, and the disclosure whether or not the row was still waiting.\<close>

definition settle :: "ms \<Rightarrow> bool \<Rightarrow> hold_reason \<Rightarrow> scheduled \<Rightarrow> queue \<Rightarrow> queue" where
  "settle now hold reason r t =
     snd (if hold
          then api_hold_scheduled_message now (sc_id r) (SCHEDULED_HOLD_REASONS reason) (SCHEDULED_HOLD_REASON_KEYS reason) t
          else api_fail_scheduled_message (sc_id r) (SCHEDULED_HOLD_REASONS reason) (SCHEDULED_HOLD_REASON_KEYS reason) t)"

definition after_fire :: "sched_task \<Rightarrow> fire_outcome \<Rightarrow> sched_sys \<Rightarrow> sched_sys" where
  "after_fire k out y =
     (case k of
        FireTask n dto c r rest \<Rightarrow>
          (case out of
             Fired m \<Rightarrow> becomes k [DispatchTask n m dto (sc_body r) c rest] (y\<lparr>y_messages := m # y_messages y\<rparr>)
           | Gone \<Rightarrow> becomes k (rest_of k) y
           | FireHeld key q \<Rightarrow> becomes k (rest_of k) (tell [(sc_id r, CalendarUnverified)] y)
           | FireFailed key q \<Rightarrow> becomes k (rest_of k) (tell [(sc_id r, JobNoLongerScheduled)] y))
      | _ \<Rightarrow> y)"

fun patch_message :: "send_effect \<Rightarrow> message list \<Rightarrow> message list" where
  "patch_message (PatchMessage m) ms = map (\<lambda>x. if m_id x = m_id m then m else x) ms"
| "patch_message e ms = ms"

definition dispatched :: "send_effect list \<Rightarrow> sched_sys \<Rightarrow> sched_sys" where
  "dispatched effs y = y\<lparr>y_messages := fold patch_message effs (y_messages y), y_sent := rev effs @ y_sent y\<rparr>"

text \<open>The reads of one row's checks, as the state answers them or not at all.\<close>

definition read_to :: "row_reads \<Rightarrow> string" where
  "read_to k = (case rd_conversation k of
     Some (Some c) \<Rightarrow> (case cv_to c of Some p \<Rightarrow> p | None \<Rightarrow> []) | _ \<Rightarrow> [])"

definition seen :: "sched_sys \<Rightarrow> scheduled \<Rightarrow> row_reads \<Rightarrow> bool" where
  "seen y r k \<longleftrightarrow>
     rd_newest k \<in> {None, Some (y_inbound y (sc_thread r))}
     \<and> gw_optedOut (rd_gates k) \<in> {None, Some ((sc_company r, read_to k) \<in> y_optouts y)}"

inductive sstep :: "sched_sys \<Rightarrow> sched_sys \<Rightarrow> bool" where
  s_tick: "y_now y \<le> t \<Longrightarrow> sstep y (y\<lparr>y_now := t\<rparr>)"
| s_inbound: "sstep y (y\<lparr>y_inbound := (y_inbound y)(thread := Some (y_now y))\<rparr>)"
| s_optout: "sstep y (y\<lparr>y_optouts := insert (company, phone) (y_optouts y)\<rparr>)"
| s_optin: "sstep y (y\<lparr>y_optouts := y_optouts y - {(company, phone)}\<rparr>)"
| s_drop: "k \<in> set (y_tasks y) \<Longrightarrow> sstep y (becomes k [] y)"
| s_throw: "k \<in> set (y_tasks y) \<Longrightarrow> sstep y (becomes k (rest_of k) y)"
| s_expire: "api_expire_scheduled_messages (y_now y) SCAN_LIMIT locked (y_rows y) = (gone, t) \<Longrightarrow>
     y' = queue_to t (tell (map (\<lambda>r. (sc_id r, HorizonPassed)) gone) y) \<Longrightarrow>
     sstep y (y'\<lparr>y_tasks := ClaimTask (y_now y) # y_tasks y'\<rparr>)"
| s_claim: "ClaimTask n \<in> set (y_tasks y) \<Longrightarrow>
     api_claim_due_scheduled_messages n SCAN_LIMIT LEASE_SECONDS locked (y_rows y) = (due, t) \<Longrightarrow>
     sstep y (becomes (ClaimTask n) (next_row n due) (queue_to t y))"
| s_check: "k = CheckTask n r rest \<Longrightarrow> k \<in> set (y_tasks y) \<Longrightarrow> seen y r reads \<Longrightarrow>
     sstep y (becomes k (after_check n r rest (decide n r reads)) y)"
| s_settle: "k = SettleTask n hold reason r rest \<Longrightarrow> k \<in> set (y_tasks y) \<Longrightarrow>
     sstep y (becomes k (rest_of k) (tell [(sc_id r, reason)] (queue_to (settle (y_now y) hold reason r (y_rows y)) y)))"
| s_fire: "k = FireTask n dto c r rest \<Longrightarrow> k \<in> set (y_tasks y) \<Longrightarrow> mid \<notin> y_ids y \<Longrightarrow>
     api_fire_scheduled_message (y_now y) job cal mid (sc_id r) (y_rows y) = (out, t) \<Longrightarrow>
     sstep y (after_fire k out (queue_to t (y\<lparr>y_ids := insert mid (y_ids y)\<rparr>)))"
| s_dispatch: "k = DispatchTask n m dto body c rest \<Longrightarrow> k \<in> set (y_tasks y) \<Longrightarrow>
     sstep y (becomes k (rest_of k) (dispatched (snd (dispatchOutbound w m dto body c)) y))"
| s_post: "i \<notin> y_ids y \<Longrightarrow>
     post_scheduled tz companyZone conversation (y_now y) inCompany (y_inbound y thread) i company thread user body
       sendAt confirmed (y_rows y) = (result, t) \<Longrightarrow>
     sstep y (queue_to t (y\<lparr>y_ids := insert i (y_ids y)\<rparr>))"
| s_patch: "patch_read tz companyZone now existing e = Inr p \<Longrightarrow>
     sstep y (queue_to (snd (patch_write company i p (y_rows y))) y)"
| s_delete: "sstep y (queue_to (snd (delete_scheduled (y_now y) company user i (y_rows y))) y)"
| s_sync: "distinct fresh \<Longrightarrow> set fresh \<inter> y_ids y = {} \<Longrightarrow>
     api_sync_task_reminders (y_now y) fresh company task job user ps tz source expires (y_rows y) = Some t \<Longrightarrow>
     sstep y (queue_to t (y\<lparr>y_ids := set fresh \<union> y_ids y\<rparr>))"
| s_rating: "i \<notin> y_ids y \<Longrightarrow>
     insert_rating i company task thread user body (rating_ask off state (y_now y)) tz source (y_rows y) = Some t \<Longrightarrow>
     sstep y (queue_to t (y\<lparr>y_ids := insert i (y_ids y)\<rparr>))"

definition sched_start :: "ms \<Rightarrow> sched_sys" where
  "sched_start n = \<lparr>y_now = n, y_rows = [], y_inbound = (\<lambda>_. None), y_optouts = {}, y_messages = [], y_tasks = [],
     y_sent = [], y_told = [], y_ids = {}\<rparr>"

inductive sreach :: "sched_sys \<Rightarrow> bool" where
  start: "sreach (sched_start n)"
| step: "sreach y \<Longrightarrow> sstep y y' \<Longrightarrow> sreach y'"

lemma becomes_simps [simp]:
  "y_now (becomes k ks y) = y_now y" "y_rows (becomes k ks y) = y_rows y" "y_inbound (becomes k ks y) = y_inbound y"
  "y_optouts (becomes k ks y) = y_optouts y" "y_messages (becomes k ks y) = y_messages y"
  "y_tasks (becomes k ks y) = ks @ remove1 k (y_tasks y)" "y_sent (becomes k ks y) = y_sent y"
  "y_told (becomes k ks y) = y_told y" "y_ids (becomes k ks y) = y_ids y"
  by (simp_all add: becomes_def)

lemma tell_simps [simp]:
  "y_now (tell ts y) = y_now y" "y_rows (tell ts y) = y_rows y" "y_inbound (tell ts y) = y_inbound y"
  "y_optouts (tell ts y) = y_optouts y" "y_messages (tell ts y) = y_messages y"
  "y_tasks (tell ts y) = y_tasks y" "y_sent (tell ts y) = y_sent y" "y_ids (tell ts y) = y_ids y"
  by (simp_all add: tell_def)

lemma queue_to_simps [simp]:
  "y_now (queue_to t y) = y_now y" "y_rows (queue_to t y) = t" "y_inbound (queue_to t y) = y_inbound y"
  "y_optouts (queue_to t y) = y_optouts y" "y_messages (queue_to t y) = y_messages y"
  "y_tasks (queue_to t y) = y_tasks y" "y_sent (queue_to t y) = y_sent y" "y_told (queue_to t y) = y_told y"
  "y_ids (queue_to t y) = y_ids y"
  by (simp_all add: queue_to_def)

lemma dispatched_simps [simp]:
  "y_now (dispatched es y) = y_now y" "y_rows (dispatched es y) = y_rows y" "y_inbound (dispatched es y) = y_inbound y"
  "y_optouts (dispatched es y) = y_optouts y" "y_tasks (dispatched es y) = y_tasks y"
  "y_ids (dispatched es y) = y_ids y" "y_sent (dispatched es y) = rev es @ y_sent y"
  "y_messages (dispatched es y) = fold patch_message es (y_messages y)"
  by (simp_all add: dispatched_def)

end
