(* ===== verification/Schedule_Invariants.thy ===== *)
theory Schedule_Invariants
  imports Schedule_System "HOL-Library.Multiset"
begin

text \<open>
  What holds in every reachable state of scheduled sends: the rows that fired and the messages they
  became are in one-to-one correspondence, a row that has come to rest stays as it is, the rows a run
  holds are rows of the table as they were written, and no message goes to Telnyx twice.
\<close>

section \<open>What one step does to the rows\<close>

lemma ids_claim [simp]: "ids (snd (api_claim_due_scheduled_messages now limit lease locked t)) = ids t"
  by (simp add: api_claim_due_scheduled_messages_def Let_def)

lemma ids_expire [simp]: "ids (snd (api_expire_scheduled_messages now limit locked t)) = ids t"
  by (simp add: api_expire_scheduled_messages_def Let_def)

lemma ids_settle_row: "(\<And>r. sc_id (f r) = sc_id r) \<Longrightarrow> ids (snd (settle_row P f t)) = ids t"
  by (simp add: settle_row_def)

lemma ids_hold [simp]: "ids (snd (api_hold_scheduled_message now i reason key t)) = ids t"
  by (simp add: api_hold_scheduled_message_def ids_settle_row)

lemma ids_fail [simp]: "ids (snd (api_fail_scheduled_message i reason key t)) = ids t"
  by (simp add: api_fail_scheduled_message_def ids_settle_row)

lemma ids_cancel [simp]: "ids (snd (api_cancel_scheduled_message now i company user t)) = ids t"
  by (simp add: api_cancel_scheduled_message_def ids_settle_row)

lemma ids_patch [simp]: "ids (snd (patch_write company i p t)) = ids t"
  unfolding patch_write_def
  by (rule ids_settle_row) (simp add: apply_patch_def Let_def split: option.splits prod.splits)

lemma ids_schedule:
  "ids (snd (api_schedule_message now inCompany newest i company thread user body sendAt tz source expires t))
     \<subseteq> insert i (ids t)"
  by (auto simp: api_schedule_message_def new_row_def ids_def Let_def)

lemma ids_insert_reminder:
  "ids (insert_reminder company task thread user tz source expires ip t) \<subseteq> insert (fst ip) (ids t)"
  using insert_reminder_cases [of company task thread user tz source expires ip t] by (auto simp: ids_def)

lemma ids_reminders:
  "ids (fold (insert_reminder company task thread user tz source expires) ips t) \<subseteq> fst ` set ips \<union> ids t"
proof (induction ips arbitrary: t)
  case (Cons ip ips)
  show ?case using Cons.IH [of "insert_reminder company task thread user tz source expires ip t"]
      ids_insert_reminder [of company task thread user tz source expires ip t] by fastforce
qed simp

lemma ids_filter: "ids (filter P t) \<subseteq> ids t"
  by (auto simp: ids_def)

lemma ids_sync:
  assumes "api_sync_task_reminders now fresh company task job user ps tz source expires t = Some t'"
  shows "ids t' \<subseteq> set fresh \<union> ids t"
proof -
  have z: "fst ` set (zip fresh ps) \<subseteq> set fresh" by (auto dest: set_zip_leftD)
  show ?thesis
    using assms z ids_filter [of "\<lambda>r. \<not> reminder_of company task Pending r" t]
    unfolding api_sync_task_reminders_def Let_def
    by (auto split: option.splits if_splits dest!: subsetD [OF ids_reminders])
qed

lemma ids_replace: "sc_id q = i \<Longrightarrow> ids (upd_rows (\<lambda>x. sc_id x = i) (\<lambda>_. q) t) = ids t"
  unfolding ids_def upd_rows_def set_map image_image by (rule image_cong) auto

lemma ids_fire: "api_fire_scheduled_message now job cal mid i t = (out, t') \<Longrightarrow> ids t' = ids t"
  using find_live_Some [of i t]
  by (auto simp: api_fire_scheduled_message_def Let_def ids_replace split: option.splits if_splits)

definition fires :: "sched_sys \<Rightarrow> sched_sys \<Rightarrow> string \<Rightarrow> string \<Rightarrow> scheduled \<Rightarrow> bool" where
  "fires y y' i mid r \<longleftrightarrow> r \<in> set (y_rows y) \<and> sc_id r = i \<and> live r \<and> mid \<notin> y_ids y
     \<and> y_rows y' = upd_rows (\<lambda>x. sc_id x = i)
         (\<lambda>x. x\<lparr>sc_status := Sent, sc_message := Some mid, sc_reason := None, sc_reasonKey := None\<rparr>) (y_rows y)
     \<and> y_messages y' = fired_message mid r # y_messages y \<and> y_ids y' = insert mid (y_ids y)
     \<and> (\<exists>n d c q rest. FireTask n d c q rest \<in> set (y_tasks y) \<and> sc_id q = i)"

lemma after_fire_simps [simp]:
  "y_rows (after_fire k out y) = y_rows y" "y_ids (after_fire k out y) = y_ids y" "y_now (after_fire k out y) = y_now y"
  "y_inbound (after_fire k out y) = y_inbound y" "y_sent (after_fire k out y) = y_sent y"
  by (auto simp: after_fire_def split: sched_task.splits fire_outcome.splits)

lemma after_fire_tasks:
  "k = FireTask n dto c r rest \<Longrightarrow> y_tasks (after_fire k out y) =
     (case out of Fired m \<Rightarrow> [DispatchTask n m dto (sc_body r) c rest] | _ \<Rightarrow> next_row n rest) @ remove1 k (y_tasks y)"
  by (simp add: after_fire_def split: fire_outcome.splits)

lemma settle_wf: "wf_queue t \<Longrightarrow> evolves t (settle now hold reason r t)"
  by (simp add: settle_def hold.evolve fail.evolve)

lemma ids_settle [simp]: "ids (settle now hold reason r t) = ids t"
  by (simp add: settle_def)

lemma post_rows:
  assumes "post_scheduled tz companyZone conversation now inCompany newest i company thread user body sendAt confirmed t
             = (result, t')"
  shows "t' = t \<or> (\<exists>tz source expires b. t' = snd (api_schedule_message now inCompany newest i company thread user b
           sendAt tz source expires t))"
proof (cases "\<not> body_given body \<or> conversation = None")
  case False
  then obtain phone contactZone where c: "conversation = Some (phone, contactZone)" "body_given body" by auto
  show ?thesis
  proof (cases "truthy phone")
    case True
    then obtain p where p: "phone = Some p" "p \<noteq> []" by (auto simp: truthy_iff)
    show ?thesis
    proof (cases "resolveDestinationClock tz p contactZone companyZone sendAt")
      case (Some clock)
      obtain out u where a: "api_schedule_message now inCompany newest i company thread user (trim body) sendAt
          (dc_timezone clock) (dc_source clock) (sendAt + HOLD_HORIZON_HOURS * hour_ms) t = (out, u)" by force
      have q: "(if dc_quiet clock \<and> \<not> confirmed then (Inl (QuietHours (dc_localHour clock)), t)
             else case out of
                 Some (Scheduled r) \<Rightarrow> (Inr r, u)
               | Some NotFound \<Rightarrow> (Inl RouteNotFound, u)
               | Some _ \<Rightarrow> (Inl RouteInvalid, u)
               | None \<Rightarrow> (Inl RouteThrown, u)) = (result, t')"
        using assms c p Some a by (cases "dc_quiet clock"; cases confirmed; simp add: post_scheduled_def)
      have "t' = t \<or> t' = u"
      proof (cases out)
        case (Some x)
        then show ?thesis using q by (cases x) (auto split: if_splits)
      qed (use q in \<open>auto split: if_splits\<close>)
      then show ?thesis using a by (metis snd_conv)
    qed (use assms c p in \<open>simp add: post_scheduled_def\<close>)
  qed (use assms c in \<open>simp add: post_scheduled_def\<close>)
next
  case True
  then show ?thesis using assms by (cases "body_given body") (simp_all add: post_scheduled_def)
qed

lemma step_queue:
  assumes s: "sstep y y'" and wf: "wf_queue (y_rows y)" and i: "ids (y_rows y) \<subseteq> y_ids y"
  shows "evolves (y_rows y) (y_rows y') \<and> ids (y_rows y') \<inter> y_ids y \<subseteq> ids (y_rows y) \<and> ids (y_rows y') \<subseteq> y_ids y'
           \<and> y_ids y \<subseteq> y_ids y'
         \<or> (\<exists>i mid r. fires y y' i mid r)"
  using s
proof cases
  case (s_expire locked gone t y1)
  have "evolves (y_rows y) t" "ids t = ids (y_rows y)"
    using expire.evolve [OF wf TrueI] ids_expire s_expire(2) by (metis snd_conv)+
  then show ?thesis using s_expire(1,3) i by simp
next
  case (s_claim n locked due t)
  have "evolves (y_rows y) t" "ids t = ids (y_rows y)"
    using claim.evolve [OF wf TrueI] ids_claim s_claim(3) by (metis snd_conv)+
  then show ?thesis using s_claim(1) i by simp
next
  case (s_settle k n hold reason r rest)
  then show ?thesis using i settle_wf [OF wf] by simp
next
  case (s_fire k n dto c r rest mid job cal out t)
  show ?thesis
  proof (cases "\<exists>m. out = Fired m")
    case True
    then obtain m where m: "out = Fired m" ..
    show ?thesis using fired [OF s_fire(5) [unfolded m]] s_fire m
      by (fastforce simp: fires_def after_fire_def)
  next
    case False
    then have e: "evolves (y_rows y) t" using fire_keeps [OF wf s_fire(5)] by blast
    then show ?thesis using i s_fire(1) ids_fire [OF s_fire(5)] by auto
  qed
next
  case (s_post j tz companyZone conversation inCompany thread company user body sendAt confirmed result t)
  from post_rows [OF s_post(3)] show ?thesis
  proof (elim disjE exE)
    fix z source expires b
    assume t: "t = snd (api_schedule_message (y_now y) inCompany (y_inbound y thread) j company thread user b sendAt z
      source expires (y_rows y))"
    have "j \<notin> ids (y_rows y)" using s_post(2) i by blast
    then have "evolves (y_rows y) t" unfolding t by (rule schedule.evolve [OF wf])
    then show ?thesis using s_post(1,2) i
        ids_schedule [of "y_now y" inCompany "y_inbound y thread" j company thread user b sendAt z source expires "y_rows y"]
      unfolding t by auto
  qed (use s_post i wf queue_evolves_refl in auto)
next
  case (s_patch tz companyZone now existing e p company i')
  then show ?thesis using i patch.evolve [OF wf TrueI] by simp
next
  case (s_delete company user j)
  have "snd (delete_scheduled (y_now y) company user j (y_rows y))
        = snd (api_cancel_scheduled_message (y_now y) j company user (y_rows y))"
    by (simp add: delete_scheduled_def split: prod.splits)
  then show ?thesis using s_delete i cancel.evolve [OF wf TrueI] by simp
next
  case (s_sync fresh company task job user ps tz source expires t)
  have "set fresh \<inter> ids (y_rows y) = {}" using s_sync(3) i by blast
  then have "evolves (y_rows y) t" using evolves_sync [OF wf s_sync(2) _ s_sync(4)] by simp
  then show ?thesis using s_sync(1,3) i ids_sync [OF s_sync(4)] by auto
next
  case (s_rating j company task thread user body off state tz source t)
  have "j \<notin> ids (y_rows y)" using s_rating(2) i by blast
  then have "evolves (y_rows y) t" using evolves_rating [OF wf _ s_rating(3)] by simp
  moreover have "ids t = insert j (ids (y_rows y))" using s_rating(3)
    by (auto simp: insert_rating_def ids_def new_row_def split: if_splits)
  ultimately show ?thesis using s_rating(1,2) i by auto
qed (use i wf queue_evolves_refl in auto)


section \<open>Fired rows and their messages\<close>

definition message_intent :: "message \<Rightarrow> string \<times> string \<times> string \<times> string" where
  "message_intent m = (m_id m, m_company m, m_thread m, m_body m)"

definition row_intent :: "scheduled \<Rightarrow> (string \<times> string \<times> string \<times> string) option" where
  "row_intent r = map_option (\<lambda>i. (i, sc_company r, sc_thread r, sc_body r)) (sc_message r)"

text \<open>
  The messages that fired are the messages of the rows that are sent, one for one; \<open>xs\<close> is the list of
  what they say.
\<close>

definition fired_inv :: "queue \<Rightarrow> (string \<times> string \<times> string \<times> string) list \<Rightarrow> string set \<Rightarrow> bool" where
  "fired_inv t xs U \<longleftrightarrow> distinct (map fst xs) \<and> fst ` set xs \<subseteq> U
     \<and> (\<forall>r \<in> set t. \<forall>x. row_intent r = Some x \<longrightarrow> x \<in> set xs)
     \<and> (\<forall>x \<in> set xs. \<exists>r \<in> set t. row_intent r = Some x)
     \<and> (\<forall>r \<in> set t. \<forall>q \<in> set t. sc_message r \<noteq> None \<longrightarrow> sc_message r = sc_message q \<longrightarrow> r = q)"

lemma sent_rows:
  assumes wf: "wf_queue t" and e: "evolves t t'" and m: "sc_message r \<noteq> None"
  shows "r \<in> set t' \<longleftrightarrow> r \<in> set t"
proof
  assume "r \<in> set t'"
  then consider q where "q \<in> set t" "row_evolves q r" | "sc_message r = None" using e by (auto simp: evolves_def born_def)
  then show "r \<in> set t"
  proof cases
    case 1
    then have "\<not> live q \<or> q = r" using wf m by (auto simp: wf_queue_def row_update_simps)
    then show ?thesis using 1 by (auto simp: row_evolves_def)
  qed (use m in simp)
next
  assume r: "r \<in> set t"
  then have "\<not> live r" using wf m by (auto simp: wf_queue_def isScheduledMessageLive_def)
  then show "r \<in> set t'" using e r by (simp add: evolves_def)
qed

lemma row_intent_Some: "row_intent r = Some x \<Longrightarrow> sc_message r = Some (fst x)"
  by (auto simp: row_intent_def)

lemma fired_inv_evolves:
  assumes wf: "wf_queue t" and e: "evolves t t'" and f: "fired_inv t xs U" and U: "U \<subseteq> U'"
  shows "fired_inv t' xs U'"
proof -
  have s: "sc_message r \<noteq> None \<Longrightarrow> r \<in> set t' \<longleftrightarrow> r \<in> set t" for r by (rule sent_rows [OF wf e])
  have i: "row_intent r = Some x \<Longrightarrow> r \<in> set t' \<longleftrightarrow> r \<in> set t" for r x using s [of r] row_intent_Some [of r x] by simp
  show ?thesis unfolding fired_inv_def
  proof (intro conjI ballI allI impI)
    fix r q assume rq: "r \<in> set t'" "q \<in> set t'" "sc_message r \<noteq> None" "sc_message r = sc_message q"
    then show "r = q" using s [of r] s [of q] f by (simp add: fired_inv_def)
  next
    fix x assume "x \<in> set xs"
    then obtain r where "r \<in> set t" "row_intent r = Some x" using f unfolding fired_inv_def by blast
    then show "\<exists>r \<in> set t'. row_intent r = Some x" using i by blast
  next
    fix r x assume "r \<in> set t'" "row_intent r = Some x"
    then show "x \<in> set xs" using i f unfolding fired_inv_def by blast
  qed (use f U in \<open>auto simp: fired_inv_def\<close>)
qed

lemma fired_inv_fires:
  assumes wf: "wf_queue (y_rows y)" and F: "fires y y' i mid r"
    and f: "fired_inv (y_rows y) (map message_intent (y_messages y)) (y_ids y)"
  shows "fired_inv (y_rows y') (map message_intent (y_messages y')) (y_ids y')"
proof -
  define g where "g = (\<lambda>x::scheduled. x\<lparr>sc_status := Sent, sc_message := Some mid, sc_reason := None, sc_reasonKey := None\<rparr>)"
  have r: "r \<in> set (y_rows y)" "sc_id r = i" "live r" "mid \<notin> y_ids y"
    and rows: "y_rows y' = upd_rows (\<lambda>x. sc_id x = i) g (y_rows y)"
    and ms: "map message_intent (y_messages y') = (mid, sc_company r, sc_thread r, sc_body r) # map message_intent (y_messages y)"
    and U: "y_ids y' = insert mid (y_ids y)"
    using F by (simp_all add: fires_def g_def fired_message_def message_intent_def)
  have one: "x = r" if "x \<in> set (y_rows y)" "sc_id x = i" for x
    using row_by_id [of "y_rows y" x r] wf that r by (simp add: wf_queue_def)
  have set': "x \<in> set (y_rows y') \<longleftrightarrow> x = g r \<or> x \<in> set (y_rows y) \<and> x \<noteq> r" for x
  proof -
    have "x \<in> set (y_rows y') \<longleftrightarrow> (\<exists>q \<in> set (y_rows y). x = (if sc_id q = i then g q else q))"
      unfolding rows upd_rows_def set_map by blast
    then show ?thesis using one r(1,2) by metis
  qed
  have old: "sc_message x \<noteq> Some mid" if "x \<in> set (y_rows y)" for x
  proof
    assume "sc_message x = Some mid"
    then have "row_intent x = Some (mid, sc_company x, sc_thread x, sc_body x)" by (simp add: row_intent_def)
    then have "(mid, sc_company x, sc_thread x, sc_body x) \<in> set (map message_intent (y_messages y))"
      using f that unfolding fired_inv_def by blast
    then have "mid \<in> fst ` set (map message_intent (y_messages y))" by (rule image_eqI [rotated]) simp
    then show False using f r(4) unfolding fired_inv_def by blast
  qed
  have nr: "sc_message r = None" using wf r by (auto simp: wf_queue_def isScheduledMessageLive_def)
  have gr: "sc_message (g r) = Some mid" "row_intent (g r) = Some (mid, sc_company r, sc_thread r, sc_body r)"
    by (simp_all add: g_def row_intent_def)
  show ?thesis unfolding fired_inv_def ms U
  proof (intro conjI ballI allI impI)
    show "distinct (map fst ((mid, sc_company r, sc_thread r, sc_body r) # map message_intent (y_messages y)))"
      using f r(4) unfolding fired_inv_def by auto
  next
    fix x q assume xq: "x \<in> set (y_rows y')" "q \<in> set (y_rows y')" "sc_message x \<noteq> None" "sc_message x = sc_message q"
    then show "x = q" using old [of x] old [of q] gr(1) f unfolding fired_inv_def set' by (metis (no_types))
  next
    fix z assume "z \<in> set ((mid, sc_company r, sc_thread r, sc_body r) # map message_intent (y_messages y))"
    then consider "Some z = row_intent (g r)" | q where "q \<in> set (y_rows y)" "row_intent q = Some z"
      using f gr(2) unfolding fired_inv_def by auto
    then show "\<exists>x \<in> set (y_rows y'). row_intent x = Some z"
    proof cases
      case 2
      then have "q \<noteq> r" using nr row_intent_Some [OF 2(2)] by auto
      then show ?thesis using 2 set' by blast
    qed (use set' in force)
  next
    fix x z assume xz: "x \<in> set (y_rows y')" "row_intent x = Some z"
    show "z \<in> set ((mid, sc_company r, sc_thread r, sc_body r) # map message_intent (y_messages y))"
    proof (cases "x = g r")
      case False
      then have "z \<in> set (map message_intent (y_messages y))" using xz f unfolding fired_inv_def set' by blast
      then show ?thesis by simp
    qed (use gr(2) xz(2) in simp)
  qed (use f in \<open>auto simp: fired_inv_def\<close>)
qed


section \<open>What the runs hold\<close>

fun snapshots :: "sched_task \<Rightarrow> scheduled list" where
  "snapshots (ClaimTask n) = []"
| "snapshots (CheckTask n r rest) = r # rest"
| "snapshots (SettleTask n h q r rest) = r # rest"
| "snapshots (FireTask n d c r rest) = r # rest"
| "snapshots (DispatchTask n m d b c rest) = rest"

definition snaps :: "sched_sys \<Rightarrow> scheduled set" where
  "snaps y = (\<Union>k \<in> set (y_tasks y). set (snapshots k))"

definition snap_ok :: "string set \<Rightarrow> queue \<Rightarrow> scheduled \<Rightarrow> bool" where
  "snap_ok U t q \<longleftrightarrow> sc_id q \<in> U \<and> (\<forall>r \<in> set t. sc_id r = sc_id q \<longrightarrow> same_intent r q)"

lemma snapshots_next [simp]: "(\<Union>k \<in> set (next_row n rs). set (snapshots k)) = set rs"
  by (cases rs) (simp_all add: next_row_def)

lemma snapshots_rest: "(\<Union>k' \<in> set (rest_of k). set (snapshots k')) \<subseteq> set (snapshots k)"
  by (cases k) auto

lemma snaps_becomes:
  assumes "k \<in> set (y_tasks y)" "(\<Union>k' \<in> set ks. set (snapshots k')) \<subseteq> set (snapshots k) \<union> S"
  shows "snaps (becomes k ks y) \<subseteq> snaps y \<union> S"
proof
  fix q assume "q \<in> snaps (becomes k ks y)"
  then obtain k' where "k' \<in> set ks \<or> k' \<in> set (y_tasks y)" "q \<in> set (snapshots k')"
    using set_remove1_subset [of k "y_tasks y"] by (auto simp: snaps_def)
  then show "q \<in> snaps y \<union> S" using assms unfolding snaps_def by blast
qed

lemma snaps_same [simp]:
  "snaps (tell ts y) = snaps y" "snaps (queue_to t y) = snaps y" "snaps (dispatched es y) = snaps y"
  "snaps (y\<lparr>y_now := n\<rparr>) = snaps y" "snaps (y\<lparr>y_ids := U\<rparr>) = snaps y" "snaps (y\<lparr>y_inbound := f\<rparr>) = snaps y"
  "snaps (y\<lparr>y_optouts := oo\<rparr>) = snaps y" "snaps (y\<lparr>y_messages := ms\<rparr>) = snaps y"
  by (simp_all add: snaps_def)

lemma snapshots_check:
  "(\<Union>k \<in> set (after_check n r rest d). set (snapshots k)) \<subseteq> set (r # rest)"
  by (auto simp: after_check_def split: send_decision.splits)

lemma step_snaps:
  assumes s: "sstep y y'" and wf: "wf_queue (y_rows y)"
  shows "snaps y' \<subseteq> snaps y \<union> set (y_rows y')"
  using s
proof cases
  case (s_claim n locked due t)
  have "set due \<subseteq> set t" using claimed_now [OF wf] s_claim(3) by (metis fst_conv snd_conv subsetI)
  then show ?thesis using s_claim(1) snaps_becomes [OF s_claim(2), of "next_row n due" "set t"]
    by (force simp: snaps_def)
next
  case (s_check k n r rest reads)
  then show ?thesis using snaps_becomes [OF s_check(3), of "after_check n r rest (decide n r reads)" "{}"]
      snapshots_check [of n r rest "decide n r reads"] by auto
next
  case (s_fire k n dto c r rest mid job cal out t)
  define ks where "ks = (case out of Fired m \<Rightarrow> [DispatchTask n m dto (sc_body r) c rest] | _ \<Rightarrow> next_row n rest)"
  have "snaps y' = snaps (becomes k ks y)"
    unfolding snaps_def s_fire(1) after_fire_tasks [OF s_fire(2)] ks_def by simp
  moreover have "(\<Union>k' \<in> set ks. set (snapshots k')) \<subseteq> set (snapshots k) \<union> {}"
    by (auto simp: ks_def s_fire(2) split: fire_outcome.splits)
  ultimately have "snaps y' \<subseteq> snaps y" using snaps_becomes [OF s_fire(3), of ks "{}"] by simp
  then show ?thesis by blast
next
  case (s_expire locked gone t y1)
  then show ?thesis by (auto simp: snaps_def)
next
  case (s_drop k)
  then show ?thesis using snaps_becomes [OF s_drop(2), of "[]" "{}"] by auto
next
  case (s_throw k)
  then show ?thesis using snaps_becomes [OF s_throw(2), of "rest_of k" "{}"] snapshots_rest [of k] by auto
next
  case (s_settle k n hold reason r rest)
  then show ?thesis using snaps_becomes [of k y "rest_of k" "{}"] snapshots_rest [of k] by (auto simp: snaps_def)
next
  case (s_dispatch k n m dto body c rest w)
  then show ?thesis using snaps_becomes [of k y "rest_of k" "{}"] snapshots_rest [of k] by (auto simp: snaps_def)
qed auto

lemma same_intent_trans: "same_intent a b \<Longrightarrow> same_intent a c \<Longrightarrow> same_intent b c"
  by (simp add: same_intent_def)

lemma snap_ok_evolves:
  assumes e: "evolves t t'" and n: "ids t' \<inter> U \<subseteq> ids t" and U: "U \<subseteq> U'" and q: "snap_ok U t q"
  shows "snap_ok U' t' q"
  unfolding snap_ok_def
proof (intro conjI ballI impI)
  fix r' assume r': "r' \<in> set t'" "sc_id r' = sc_id q"
  have "sc_id r' \<in> ids t'" using r'(1) by (simp add: ids_def)
  moreover have "sc_id r' \<in> U" using q r'(2) by (simp add: snap_ok_def)
  ultimately have "sc_id r' \<in> ids t" using n by blast
  then have "\<exists>r \<in> set t. row_evolves r r'" using e r'(1) unfolding evolves_def by blast
  then obtain r where "r \<in> set t" "row_evolves r r'" by blast
  then have "same_intent r r'" "same_intent r q" using q r'(2) row_evolves_id [of r r']
    by (auto simp: snap_ok_def row_evolves_def)
  then show "same_intent r' q" by (rule same_intent_trans)
qed (use q U in \<open>auto simp: snap_ok_def\<close>)

lemma snap_ok_fires: "fires y y' i mid r \<Longrightarrow> snap_ok (y_ids y) (y_rows y) q \<Longrightarrow> snap_ok (y_ids y') (y_rows y') q"
  by (auto simp: fires_def snap_ok_def upd_rows_def same_intent_def split: if_splits)

lemma step_snap_ok:
  assumes "sstep y y'" "wf_queue (y_rows y)" "ids (y_rows y) \<subseteq> y_ids y" "snap_ok (y_ids y) (y_rows y) q"
  shows "snap_ok (y_ids y') (y_rows y') q"
  using step_queue [OF assms(1-3)]
proof (elim disjE conjE exE)
  show "evolves (y_rows y) (y_rows y') \<Longrightarrow> ids (y_rows y') \<inter> y_ids y \<subseteq> ids (y_rows y) \<Longrightarrow> y_ids y \<subseteq> y_ids y' \<Longrightarrow> ?thesis"
    using snap_ok_evolves assms(4) by metis
qed (rule snap_ok_fires [OF _ assms(4)])


section \<open>One request for each message\<close>

definition task_ok :: "(string \<times> string \<times> string \<times> string) list \<Rightarrow> sched_task \<Rightarrow> bool" where
  "task_ok xs k = (case k of
     FireTask n d c r rest \<Rightarrow> c = Cleared d
   | DispatchTask n m d b c rest \<Rightarrow> c = Cleared d \<and> message_intent m \<in> set xs
   | _ \<Rightarrow> True)"

fun pend :: "sched_task \<Rightarrow> string list" where
  "pend (DispatchTask n m d b c rest) = [sendIdempotencyKey (m_id m)]"
| "pend (ClaimTask n) = []"
| "pend (CheckTask n r rest) = []"
| "pend (SettleTask n h q r rest) = []"
| "pend (FireTask n d c r rest) = []"

definition sends :: "send_effect list \<Rightarrow> string list" where
  "sends es = map sent_key (filter is_TelnyxSend es)"

text \<open>The keys that went to Telnyx, and those that a dispatch still to come will send.\<close>

definition all_keys :: "sched_sys \<Rightarrow> string multiset" where
  "all_keys y = mset (concat (map pend (y_tasks y))) + mset (sends (y_sent y))"

definition key_inv :: "sched_sys \<Rightarrow> bool" where
  "key_inv y \<longleftrightarrow> (\<forall>x. count (all_keys y) x \<le> 1)
     \<and> set_mset (all_keys y) \<subseteq> sendIdempotencyKey ` m_id ` set (y_messages y)"

lemma concat_remove1:
  "k \<in> set ks \<Longrightarrow> mset (concat (map f ks)) = mset (f k) + mset (concat (map f (remove1 k ks)))"
  by (induction ks) auto

lemma pend_next: "k \<in> set (next_row n rs) \<Longrightarrow> pend k = []"
  by (cases rs) (auto simp: next_row_def)

lemma pend_rest: "k' \<in> set (rest_of k) \<Longrightarrow> pend k' = []"
  by (cases k) (auto dest: pend_next)

lemma pend_check: "k \<in> set (after_check n r rest d) \<Longrightarrow> pend k = []"
  by (auto simp: after_check_def dest: pend_next split: send_decision.splits)

lemma keys_becomes:
  assumes "k \<in> set (y_tasks y)" "\<And>k'. k' \<in> set ks \<Longrightarrow> pend k' = []"
  shows "all_keys (becomes k ks y) + mset (pend k) = all_keys y"
proof -
  have "concat (map pend ks) = []" using assms(2) by simp
  then show ?thesis using concat_remove1 [OF assms(1), of pend] by (simp add: all_keys_def)
qed

lemma keys_same [simp]:
  "all_keys (tell ts y) = all_keys y" "all_keys (queue_to t y) = all_keys y"
  "all_keys (y\<lparr>y_now := n\<rparr>) = all_keys y" "all_keys (y\<lparr>y_ids := U\<rparr>) = all_keys y" "all_keys (y\<lparr>y_inbound := f\<rparr>) = all_keys y"
  "all_keys (y\<lparr>y_optouts := oo\<rparr>) = all_keys y" "all_keys (y\<lparr>y_messages := ms\<rparr>) = all_keys y"
  by (simp_all add: all_keys_def)

lemma sends_append [simp]: "sends (es @ fs) = sends es @ sends fs"
  by (simp add: sends_def)

lemma dispatch_sends:
  "mset (sends (rev (snd (dispatchOutbound w m dto body c)))) \<subseteq># {#sendIdempotencyKey (m_id m)#}"
  by (auto simp: dispatchOutbound_def telnyxCreateMessage_def sends_def Let_def
      split: option.splits telnyx_result.splits)

lemma dispatch_patches:
  "PatchMessage m' \<in> set (snd (dispatchOutbound w m dto body c)) \<Longrightarrow> message_intent m' = message_intent m"
  by (auto simp: dispatchOutbound_def telnyxCreateMessage_def message_intent_def Let_def
      split: if_splits option.splits telnyx_result.splits)

lemma patch_intents:
  assumes d: "distinct (map fst (map message_intent ms))"
    and e: "\<And>m'. e = PatchMessage m' \<Longrightarrow> message_intent m' \<in> set (map message_intent ms)"
  shows "map message_intent (patch_message e ms) = map message_intent ms"
proof (cases e)
  case (PatchMessage m')
  have "message_intent x = message_intent m'" if "x \<in> set ms" "m_id x = m_id m'" for x
  proof -
    from e [OF PatchMessage] obtain q where q: "q \<in> set ms" "message_intent q = message_intent m'" by auto
    then have "m_id q = m_id x" using that(2) by (simp add: message_intent_def)
    moreover have "inj_on m_id (set ms)" using d by (simp add: distinct_map message_intent_def o_def inj_on_def)
    ultimately show ?thesis using q that(1) by (metis inj_onD)
  qed
  then show ?thesis using PatchMessage by (auto simp: message_intent_def)
qed simp_all

lemma dispatched_intents:
  assumes d: "distinct (map fst (map message_intent ms))" and m: "message_intent m \<in> set (map message_intent ms)"
    and e: "\<And>m'. PatchMessage m' \<in> set es \<Longrightarrow> message_intent m' = message_intent m"
  shows "map message_intent (fold patch_message es ms) = map message_intent ms"
  using d m e
proof (induction es arbitrary: ms)
  case (Cons x es)
  have "map message_intent (patch_message x ms) = map message_intent ms"
    using Cons.prems by (intro patch_intents) auto
  then show ?case using Cons.IH [of "patch_message x ms"] Cons.prems by simp
qed simp



section \<open>The invariant\<close>

definition sched_inv :: "sched_sys \<Rightarrow> bool" where
  "sched_inv y \<longleftrightarrow> wf_queue (y_rows y) \<and> ids (y_rows y) \<subseteq> y_ids y
     \<and> fired_inv (y_rows y) (map message_intent (y_messages y)) (y_ids y)
     \<and> (\<forall>q \<in> snaps y. snap_ok (y_ids y) (y_rows y) q)
     \<and> (\<forall>k \<in> set (y_tasks y). task_ok (map message_intent (y_messages y)) k)
     \<and> key_inv y
     \<and> (\<forall>thread n. y_inbound y thread = Some n \<longrightarrow> n \<le> y_now y)"

lemma fires_rows:
  assumes "fires y y' i mid r" "wf_queue (y_rows y)"
  shows "wf_queue (y_rows y') \<and> ids (y_rows y') = ids (y_rows y)"
proof -
  define g where "g = (\<lambda>x::scheduled. x\<lparr>sc_status := Sent, sc_message := Some mid, sc_reason := None, sc_reasonKey := None\<rparr>)"
  have r: "y_rows y' = map (\<lambda>x. if sc_id x = i then g x else x) (y_rows y)"
    using assms(1) by (simp add: fires_def upd_rows_def g_def)
  have "map sc_id (y_rows y') = map sc_id (y_rows y)" unfolding r by (simp add: g_def)
  moreover have "\<forall>x \<in> set (y_rows y'). sc_message x \<noteq> None \<longleftrightarrow> sc_status x = Sent"
    using assms(2) unfolding r wf_queue_def by (auto simp: g_def split: if_splits)
  ultimately show ?thesis using assms(2) unfolding wf_queue_def ids_def by (metis set_map)
qed

lemma step_intents:
  assumes s: "sstep y y'" and inv: "sched_inv y"
  shows "map message_intent (y_messages y') = map message_intent (y_messages y) \<or> (\<exists>i mid r. fires y y' i mid r)"
  using s
proof cases
  case (s_fire k n dto c r rest mid job cal out t)
  show ?thesis
  proof (cases "\<exists>m. out = Fired m")
    case True
    then obtain m where m: "out = Fired m" ..
    show ?thesis using fired [OF s_fire(5) [unfolded m]] s_fire m by (fastforce simp: fires_def after_fire_def)
  next
    case False
    then show ?thesis using s_fire by (auto simp: after_fire_def split: fire_outcome.splits)
  qed
next
  case (s_dispatch k n m dto body c rest w)
  have "message_intent m \<in> set (map message_intent (y_messages y))"
    using inv s_dispatch(2,3) by (fastforce simp: sched_inv_def task_ok_def)
  moreover have "distinct (map fst (map message_intent (y_messages y)))"
    using inv by (simp add: sched_inv_def fired_inv_def)
  ultimately show ?thesis using s_dispatch(1) dispatched_intents dispatch_patches by simp
qed simp_all

lemma task_ok_mono: "set xs \<subseteq> set zs \<Longrightarrow> task_ok xs k \<Longrightarrow> task_ok zs k"
  by (auto simp: task_ok_def split: sched_task.splits)

lemma task_ok_next: "k \<in> set (next_row n rs) \<Longrightarrow> task_ok xs k"
  by (cases rs) (auto simp: next_row_def task_ok_def)

lemma task_ok_rest: "k' \<in> set (rest_of k) \<Longrightarrow> task_ok xs k'"
  by (cases k) (auto dest: task_ok_next)

lemma step_tasks:
  assumes s: "sstep y y'" and k: "k \<in> set (y_tasks y')"
  shows "k \<in> set (y_tasks y) \<or> pend k = [] \<and> task_ok xs k
         \<or> (\<exists>n m d b c r rest. k = DispatchTask n m d b c rest \<and> FireTask n d c r rest \<in> set (y_tasks y)
              \<and> m \<in> set (y_messages y') \<and> m_id m \<notin> y_ids y \<and> b = sc_body r)"
  using s
proof cases
  case (s_check k1 n r rest reads)
  have "\<And>f d c. decide n r reads = GoTo f d c \<Longrightarrow> c = Cleared d" by (auto simp: goes_iff cleared_iff)
  then have "k' \<in> set (after_check n r rest (decide n r reads)) \<Longrightarrow> task_ok xs k'" for k'
    by (auto simp: after_check_def task_ok_def dest: task_ok_next split: send_decision.splits)
  moreover have "k \<in> set (after_check n r rest (decide n r reads)) \<or> k \<in> set (remove1 k1 (y_tasks y))"
    using s_check(1) k by simp
  ultimately show ?thesis using pend_check [of k n r rest "decide n r reads"] set_remove1_subset [of k1 "y_tasks y"]
    by blast
next
  case (s_fire k1 n d c r rest mid job cal out t)
  show ?thesis
  proof (cases "\<exists>m. out = Fired m")
    case True
    then obtain m where m: "out = Fired m" ..
    have "m_id m = mid" using fired [OF s_fire(5) [unfolded m]] by (auto simp: fired_message_def)
    moreover have "k = DispatchTask n m d (sc_body r) c rest \<or> k \<in> set (remove1 k1 (y_tasks y))"
      using s_fire(1) k unfolding s_fire(1) after_fire_tasks [OF s_fire(2)] m by simp
    moreover have "m \<in> set (y_messages y')" unfolding s_fire(1) using m by (simp add: after_fire_def s_fire(2))
    ultimately show ?thesis using s_fire(2-4) by (auto dest: notin_set_remove1)
  next
    case False
    then show ?thesis using s_fire k
      by (auto simp: after_fire_tasks dest: notin_set_remove1 task_ok_next pend_next split: fire_outcome.splits)
  qed
qed (use k in \<open>auto dest: notin_set_remove1 task_ok_next task_ok_rest pend_next pend_rest simp: task_ok_def\<close>)

lemma keys_less:
  "k \<in> set (y_tasks y) \<Longrightarrow> (\<And>k'. k' \<in> set ks \<Longrightarrow> pend k' = []) \<Longrightarrow> all_keys (becomes k ks y) \<subseteq># all_keys y"
  by (metis keys_becomes mset_subset_eq_add_left)

lemma step_keys:
  assumes s: "sstep y y'"
  shows "all_keys y' \<subseteq># all_keys y
         \<or> (\<exists>m \<in> set (y_messages y'). m_id m \<notin> y_ids y
              \<and> all_keys y' \<subseteq># add_mset (sendIdempotencyKey (m_id m)) (all_keys y))"
  using s
proof cases
  case (s_expire locked gone t y1)
  then show ?thesis by (simp add: all_keys_def)
next
  case (s_claim n locked due t)
  then show ?thesis using keys_less [of "ClaimTask n" "queue_to t y" "next_row n due"] pend_next by simp
next
  case (s_check k n r rest reads)
  then show ?thesis using keys_less [of k y] pend_check by blast
next
  case (s_settle k n hold reason r rest)
  then show ?thesis
    using keys_less [of k "tell [(sc_id r, reason)] (queue_to (settle (y_now y) hold reason r (y_rows y)) y)" "rest_of k"]
      pend_rest [of _ k] by fastforce
next
  case (s_throw k)
  then show ?thesis using keys_less pend_rest by blast
next
  case (s_drop k)
  then show ?thesis using keys_less [of k y "[]"] by simp
next
  case (s_fire k n d c r rest mid job cal out t)
  define ks where "ks = (case out of Fired m \<Rightarrow> [DispatchTask n m d (sc_body r) c rest] | _ \<Rightarrow> next_row n rest)"
  have a: "all_keys y' = all_keys (becomes k ks y)"
    unfolding all_keys_def s_fire(1) after_fire_tasks [OF s_fire(2)] ks_def by simp
  show ?thesis
  proof (cases "\<exists>m. out = Fired m")
    case True
    then obtain m where m: "out = Fired m" ..
    have "m_id m = mid" using fired [OF s_fire(5) [unfolded m]] by (auto simp: fired_message_def)
    moreover have "m \<in> set (y_messages y')" unfolding s_fire(1) using m by (simp add: after_fire_def s_fire(2))
    moreover have "all_keys y' = add_mset (sendIdempotencyKey (m_id m)) (all_keys (becomes k [] y))"
      unfolding a by (simp add: all_keys_def ks_def m)
    ultimately show ?thesis using s_fire(4) keys_less [OF s_fire(3), of "[]"] by auto
  next
    case False
    then have "ks = next_row n rest" by (auto simp: ks_def split: fire_outcome.splits)
    then show ?thesis using a keys_less [OF s_fire(3), of ks] pend_next by auto
  qed
next
  case (s_dispatch k n m dto body c rest w)
  let ?es = "snd (dispatchOutbound w m dto body c)"
  have "all_keys y' = all_keys (becomes k (rest_of k) y) + mset (sends (rev ?es))"
    unfolding s_dispatch(1) by (simp add: all_keys_def)
  also have "\<dots> \<subseteq># all_keys (becomes k (rest_of k) y) + mset (pend k)"
    using dispatch_sends [of w m dto body c] s_dispatch(2) by simp
  also have "\<dots> = all_keys y" using keys_becomes [OF s_dispatch(3)] pend_rest by blast
  finally show ?thesis by blast
qed simp_all

lemma m_id_image: "m_id ` S = fst ` message_intent ` S"
  by (simp add: image_image message_intent_def)

lemma message_ids_grow:
  assumes "sstep y y'" "sched_inv y"
  shows "m_id ` set (y_messages y) \<subseteq> m_id ` set (y_messages y')"
proof -
  show ?thesis using step_intents [OF assms]
  proof (elim disjE exE)
    fix i mid r
    assume "fires y y' i mid r"
    then show ?thesis unfolding fires_def by auto
  next
    assume "map message_intent (y_messages y') = map message_intent (y_messages y)"
    then have "message_intent ` set (y_messages y') = message_intent ` set (y_messages y)" by (metis set_map)
    then show ?thesis by (simp add: m_id_image)
  qed
qed

lemma step_key_inv:
  assumes s: "sstep y y'" and inv: "sched_inv y"
  shows "key_inv y'"
proof -
  have k: "count (all_keys y) x \<le> 1" "set_mset (all_keys y) \<subseteq> sendIdempotencyKey ` m_id ` set (y_messages y)" for x
    using inv by (simp_all add: sched_inv_def key_inv_def)
  have "fired_inv (y_rows y) (map message_intent (y_messages y)) (y_ids y)" using inv by (simp add: sched_inv_def)
  then have U: "m_id ` set (y_messages y) \<subseteq> y_ids y" unfolding fired_inv_def by (simp add: m_id_image)
  have g: "set_mset (all_keys y) \<subseteq> sendIdempotencyKey ` m_id ` set (y_messages y')"
    using k(2) image_mono [OF message_ids_grow [OF s inv]] by (rule order_trans)
  from step_keys [OF s] show ?thesis
  proof (elim disjE bexE conjE)
    assume a: "all_keys y' \<subseteq># all_keys y"
    have "count (all_keys y') x \<le> 1" for x using k(1) [of x] mset_subset_eq_count [OF a, of x] by simp
    moreover have "set_mset (all_keys y') \<subseteq> set_mset (all_keys y)" using a by (rule set_mset_mono)
    ultimately show ?thesis using g unfolding key_inv_def by auto
  next
    fix m assume m: "m \<in> set (y_messages y')" "m_id m \<notin> y_ids y"
      and a: "all_keys y' \<subseteq># add_mset (sendIdempotencyKey (m_id m)) (all_keys y)"
    have n: "sendIdempotencyKey (m_id m) \<notin># all_keys y"
    proof
      assume "sendIdempotencyKey (m_id m) \<in># all_keys y"
      then obtain q where "q \<in> m_id ` set (y_messages y)" "sendIdempotencyKey (m_id m) = sendIdempotencyKey q"
        using k(2) by blast
      then show False using m(2) U by (auto simp: sendIdempotencyKey_def)
    qed
    have "count (all_keys y') x \<le> 1" for x
      using mset_subset_eq_count [OF a, of x] k(1) [of x] n by (auto simp: not_in_iff split: if_splits)
    moreover have "set_mset (all_keys y') \<subseteq> insert (sendIdempotencyKey (m_id m)) (set_mset (all_keys y))"
      using set_mset_mono [OF a] by simp
    ultimately show ?thesis using g m(1) unfolding key_inv_def by fastforce
  qed
qed

lemma sched_inv_step:
  assumes s: "sstep y y'" and inv: "sched_inv y"
  shows "sched_inv y'"
proof -
  have wf: "wf_queue (y_rows y)" and i: "ids (y_rows y) \<subseteq> y_ids y"
    and f: "fired_inv (y_rows y) (map message_intent (y_messages y)) (y_ids y)"
    and inb: "\<And>th n. y_inbound y th = Some n \<Longrightarrow> n \<le> y_now y"
    and sn: "\<And>q. q \<in> snaps y \<Longrightarrow> snap_ok (y_ids y) (y_rows y) q"
    and tk: "\<And>k. k \<in> set (y_tasks y) \<Longrightarrow> task_ok (map message_intent (y_messages y)) k"
    using inv by (auto simp: sched_inv_def)
  have base: "wf_queue (y_rows y') \<and> ids (y_rows y') \<subseteq> y_ids y'
      \<and> fired_inv (y_rows y') (map message_intent (y_messages y')) (y_ids y')"
  proof (cases "\<exists>i mid r. fires y y' i mid r")
    case True
    then obtain i' mid r where F: "fires y y' i' mid r" by blast
    then have "y_ids y \<subseteq> y_ids y'" by (auto simp: fires_def)
    then show ?thesis using fires_rows [OF F wf] fired_inv_fires [OF wf F f] i by auto
  next
    case False
    then show ?thesis using step_queue [OF s wf i] step_intents [OF s inv] evolves_wf [OF wf]
        fired_inv_evolves [OF wf _ f] by metis
  qed
  have grow: "set (map message_intent (y_messages y)) \<subseteq> set (map message_intent (y_messages y'))"
    using step_intents [OF s inv]
  proof (elim disjE exE)
    fix i mid r
    assume "fires y y' i mid r"
    then show ?thesis unfolding fires_def by auto
  qed simp
  have "task_ok (map message_intent (y_messages y')) k" if k: "k \<in> set (y_tasks y')" for k
    using step_tasks [OF s k, of "map message_intent (y_messages y')"]
  proof (elim disjE conjE exE)
    assume "k \<in> set (y_tasks y)"
    then show ?thesis using tk task_ok_mono [OF grow] by blast
  next
    fix n m d b c r rest
    assume "k = DispatchTask n m d b c rest" "FireTask n d c r rest \<in> set (y_tasks y)" "m \<in> set (y_messages y')"
    then show ?thesis using tk by (fastforce simp: task_ok_def)
  qed
  moreover have "snap_ok (y_ids y') (y_rows y') q" if "q \<in> snaps y'" for q
  proof (cases "q \<in> snaps y")
    case True
    then show ?thesis using step_snap_ok [OF s wf i] sn by blast
  next
    case False
    then have "q \<in> set (y_rows y')" using step_snaps [OF s wf] that by blast
    then show ?thesis using base row_by_id [of "y_rows y'" _ q]
      by (auto simp: snap_ok_def wf_queue_def ids_def same_intent_def)
  qed
  moreover have "y_inbound y' th = Some n \<Longrightarrow> n \<le> y_now y'" for th n
    using s by cases (use inb in \<open>fastforce split: if_splits\<close>)+
  ultimately show ?thesis using base step_key_inv [OF s inv] unfolding sched_inv_def by blast
qed

theorem sreach_inv: "sreach y \<Longrightarrow> sched_inv y"
proof (induction rule: sreach.induct)
  case (start n)
  show ?case
    by (simp add: sched_inv_def sched_start_def wf_queue_def ids_def fired_inv_def snaps_def key_inv_def all_keys_def sends_def)
next
  case (step y y')
  then show ?case using sched_inv_step by blast
qed

end
