(* ===== verification/Schedule_Claims.thy ===== *)
theory Schedule_Claims
  imports Schedule_Invariants
begin

text \<open>
  What scheduled sends promise: one message for one row and one request for one message, no word to
  a customer who has answered or opted out, rows that have come to rest stay so, nothing leaves after
  its horizon while an expiry can take all that are due; and where the code falls short of that.
\<close>

section \<open>A customer who has answered\<close>

text \<open>The thread holds an inbound text newer than the row's watermark, or any where it has none.\<close>

definition replied :: "sched_sys \<Rightarrow> scheduled \<Rightarrow> bool" where
  "replied y r \<longleftrightarrow> (\<exists>n. y_inbound y (sc_thread r) = Some n \<and> (\<forall>w. sc_watermark r = Some w \<longrightarrow> w < n))"

lemma replied_holds:
  assumes "seen y q k" "replied y q"
  shows "decide n q k \<noteq> GoTo f d c"
proof
  assume "decide n q k = GoTo f d c"
  then obtain m where m: "rd_newest k = Some m" "case m of None \<Rightarrow> True | Some x \<Rightarrow> (\<exists>w. sc_watermark q = Some w \<and> x \<le> w)"
    unfolding goes_iff by blast
  obtain x where "y_inbound y (sc_thread q) = Some x" "\<And>w. sc_watermark q = Some w \<Longrightarrow> w < x"
    using assms(2) unfolding replied_def by blast
  then show False using m assms(1) by (fastforce simp: seen_def)
qed

lemma step_fire_task:
  assumes s: "sstep y y'" and k: "FireTask n d c q rest \<in> set (y_tasks y')"
  shows "FireTask n d c q rest \<in> set (y_tasks y)
         \<or> CheckTask n q rest \<in> set (y_tasks y) \<and> (\<exists>reads f. seen y q reads \<and> decide n q reads = GoTo f d c)"
proof -
  have nn: "FireTask n d c q rest \<notin> set (next_row n' rs)" for n' rs by (cases rs) (simp_all add: next_row_def)
  have nr: "FireTask n d c q rest \<notin> set (rest_of k')" for k' using nn by (cases k') simp_all
  have rm: "FireTask n d c q rest \<in> set (remove1 k' ks) \<Longrightarrow> FireTask n d c q rest \<in> set ks" for k' ks
    by (meson notin_set_remove1)
  show ?thesis using s
  proof cases
    case (s_check k' n' r rest' reads)
    then show ?thesis using k by (auto simp: after_check_def nn dest!: rm split: send_decision.splits)
  next
    case (s_fire k' n' d' c' r rest' mid job cal out t)
    then show ?thesis using k by (auto simp: after_fire_tasks nn dest!: rm split: fire_outcome.splits)
  qed (use k in \<open>auto simp: nn nr dest!: rm\<close>)
qed

definition watermark_inv :: "sched_sys \<Rightarrow> bool" where
  "watermark_inv y \<longleftrightarrow> (\<forall>r \<in> set (y_rows y). sc_origin r \<noteq> Human \<longrightarrow> sc_watermark r = None)"

lemma reach_watermarks: "sreach y \<Longrightarrow> watermark_inv y"
proof (induction rule: sreach.induct)
  case (start n)
  then show ?case by (simp add: watermark_inv_def sched_start_def)
next
  case (step y y')
  have inv: "wf_queue (y_rows y)" "ids (y_rows y) \<subseteq> y_ids y"
    using sreach_inv [OF step.hyps(1)] by (simp_all add: sched_inv_def)
  from step_queue [OF step.hyps(2) inv] show ?case
  proof (elim disjE conjE exE)
    assume "evolves (y_rows y) (y_rows y')"
    then show ?thesis using step.IH
      by (fastforce simp: watermark_inv_def evolves_def born_def row_evolves_def same_intent_def)
  next
    fix i mid r
    assume "fires y y' i mid r"
    then show ?thesis using step.IH by (auto simp: fires_def watermark_inv_def upd_rows_def)
  qed
qed

text \<open>What holds from then on of a row whose customer has answered and that no run is about to fire.\<close>

definition held_back :: "scheduled \<Rightarrow> sched_sys \<Rightarrow> bool" where
  "held_back r y \<longleftrightarrow> sc_id r \<in> y_ids y \<and> replied y r
     \<and> (\<forall>q \<in> snaps y. sc_id q = sc_id r \<longrightarrow> same_intent r q)
     \<and> (\<forall>n d c q rest. FireTask n d c q rest \<in> set (y_tasks y) \<longrightarrow> sc_id q \<noteq> sc_id r)
     \<and> (\<forall>q \<in> set (y_rows y). sc_id q = sc_id r \<longrightarrow> same_intent r q \<and> (sc_status q = Sent \<longrightarrow> q = r))"

lemma replied_stays:
  assumes "sstep y y'" "sched_inv y" "replied y r"
  shows "replied y' r"
  using assms(1)
proof cases
  case (s_inbound thread)
  then show ?thesis using assms(2,3) unfolding replied_def sched_inv_def by fastforce
qed (use assms(3) in \<open>auto simp: replied_def\<close>)

lemma replied_same: "same_intent r q \<Longrightarrow> replied y q \<longleftrightarrow> replied y r"
  by (simp add: replied_def same_intent_def)

lemma ids_stay: "sstep y y' \<Longrightarrow> y_ids y \<subseteq> y_ids y'"
  by (cases rule: sstep.cases) auto

lemma held_back_step:
  assumes s: "sstep y y'" and inv: "sched_inv y" and h: "held_back r y"
  shows "held_back r y'"
proof -
  have wf: "wf_queue (y_rows y)" and i: "ids (y_rows y) \<subseteq> y_ids y" using inv by (simp_all add: sched_inv_def)
  have hr: "sc_id r \<in> y_ids y" "replied y r"
    and hs: "\<And>q. q \<in> snaps y \<Longrightarrow> sc_id q = sc_id r \<Longrightarrow> same_intent r q"
    and hf: "\<And>n d c q rest. FireTask n d c q rest \<in> set (y_tasks y) \<Longrightarrow> sc_id q \<noteq> sc_id r"
    and hq: "\<And>q. q \<in> set (y_rows y) \<Longrightarrow> sc_id q = sc_id r \<Longrightarrow> same_intent r q \<and> (sc_status q = Sent \<longrightarrow> q = r)"
    using h unfolding held_back_def by blast+
  have rows: "same_intent r q \<and> (sc_status q = Sent \<longrightarrow> q = r)" if q: "q \<in> set (y_rows y')" "sc_id q = sc_id r" for q
    using step_queue [OF s wf i]
  proof (elim disjE conjE exE)
    assume e: "evolves (y_rows y) (y_rows y')" and n: "ids (y_rows y') \<inter> y_ids y \<subseteq> ids (y_rows y)"
    have "sc_id q \<in> ids (y_rows y')" using q(1) by (simp add: ids_def)
    then have "sc_id q \<in> ids (y_rows y)" using n q(2) hr(1) by auto
    then have "\<exists>p \<in> set (y_rows y). row_evolves p q" using e q(1) unfolding evolves_def by blast
    then obtain p where p: "p \<in> set (y_rows y)" "row_evolves p q" by blast
    then have "same_intent r p" "sc_status p = Sent \<longrightarrow> p = r" using hq q(2) row_evolves_id [of p q] by auto
    then show ?thesis using p(2) by (auto simp: row_evolves_def same_intent_def)
  next
    fix j mid p
    assume F: "fires y y' j mid p"
    then have "j \<noteq> sc_id r" using hf unfolding fires_def by metis
    then show ?thesis using F hq [of q] q unfolding fires_def upd_rows_def by (auto split: if_splits)
  qed
  have fire: "sc_id q \<noteq> sc_id r" if "FireTask n d c q rest \<in> set (y_tasks y')" for n d c q rest
    using step_fire_task [OF s that]
  proof (elim disjE conjE exE)
    fix reads f
    assume c: "CheckTask n q rest \<in> set (y_tasks y)" "seen y q reads" "decide n q reads = GoTo f d c"
    have "q \<in> snaps y" using c(1) unfolding snaps_def by force
    then show ?thesis using hs [of q] replied_same [of r q y] hr(2) replied_holds [OF c(2)] c(3) by metis
  qed (use hf in blast)
  have "same_intent r q" if "q \<in> snaps y'" "sc_id q = sc_id r" for q
    using step_snaps [OF s wf] that hs rows by blast
  then show ?thesis using rows fire replied_stays [OF s inv hr(2)] ids_stay [OF s] hr(1)
    unfolding held_back_def by blast
qed

lemma held_back_runs:
  "rtranclp sstep y y' \<Longrightarrow> sreach y \<Longrightarrow> held_back r y \<Longrightarrow> sreach y' \<and> held_back r y'"
proof (induction rule: rtranclp_induct)
  case (step u v)
  then show ?case using held_back_step sreach_inv sreach.step by blast
qed simp

lemma held_back_start:
  assumes "sreach y" "r \<in> set (y_rows y)" "replied y r"
    "\<And>n d c q rest. FireTask n d c q rest \<in> set (y_tasks y) \<Longrightarrow> sc_id q \<noteq> sc_id r"
  shows "held_back r y"
proof -
  have inv: "sched_inv y" using sreach_inv [OF assms(1)] .
  then have one: "q = r" if "q \<in> set (y_rows y)" "sc_id q = sc_id r" for q
    using row_by_id [of "y_rows y" q r] that assms(2) by (simp add: sched_inv_def wf_queue_def)
  have "sc_id r \<in> y_ids y" using inv assms(2) by (auto simp: sched_inv_def ids_def)
  moreover have "same_intent r q" if "q \<in> snaps y" "sc_id q = sc_id r" for q
    using inv that assms(2) by (fastforce simp: sched_inv_def snap_ok_def)
  ultimately show ?thesis using assms(3,4) one unfolding held_back_def by (metis row_evolves_def row_evolves_refl)
qed


section \<open>A short run\<close>

text \<open>
  A text scheduled at midnight for noon, claimed and checked at noon, edited while it waits to fire:
  new words for another day.
\<close>

definition noon :: ms where "noon = 12 * hour_ms"

definition every_zone :: zones where "every_zone = (\<lambda>_. Some (\<lambda>_. 0))"

definition row_old :: scheduled where
  "row_old = (new_row ''r'' ''co'' ''th'' ''old'' noon ''UTC'' ContactClock (noon + 24 * hour_ms) ''u'')\<lparr>sc_watermark := None\<rparr>"

definition row_claimed :: scheduled where "row_claimed = row_old\<lparr>sc_claimed := Some noon\<rparr>"

definition row_new :: scheduled where
  "row_new = row_claimed\<lparr>sc_body := ''new'', sc_zone := ''UTC'', sc_source := ContactClock,
     sc_sendAt := noon + 24 * hour_ms, sc_expires := noon + 48 * hour_ms,
     sc_status := Pending, sc_reason := None, sc_heldAt := None\<rparr>"

definition short_reads :: row_reads where
  "short_reads = \<lparr>rd_conversation = Some (Some \<lparr>cv_to = Some ''+14165550100'', cv_number = Some (''+14165550199'', ''active'')\<rparr>),
     rd_newest = Some None, rd_job = Some None,
     rd_calendar = \<lparr>cr_outbox = Some False, cr_links = Some [], cr_connections = Some []\<rparr>,
     rd_gates = \<lparr>gw_killed = False,
       gw_gates = Some \<lparr>sg_active = True, sg_paused = False, sg_aup = ''none'', sg_usApproved = False, sg_caAllowed = True\<rparr>,
       gw_lastHour = None, gw_offRamp = None, gw_optedOut = Some False\<rparr>\<rparr>"

definition short_state :: "queue \<Rightarrow> sched_task list \<Rightarrow> sched_sys" where
  "short_state t ks = (sched_start noon)\<lparr>y_rows := t, y_tasks := ks, y_ids := {''r''}\<rparr>"

lemma short_post:
  "post_scheduled every_zone ''UTC'' (Some (Some ''+14165550100'', Some ''UTC'')) 0 True None ''r'' ''co'' ''th'' ''u'' ''old'' noon
     False [] = (Inr row_old, [row_old])"
  by code_simp

lemma short_check: "decide noon row_claimed short_reads = GoTo ''+14165550199'' ''+14165550100'' (Cleared ''+14165550100'')"
  by code_simp

lemma short_patch:
  "patch_read every_zone ''UTC'' noon (Some (Pending, Some (''+14165550100'', Some ''UTC'')))
     \<lparr>ed_body = Some ''new'', ed_sendAt = Some (noon + 24 * hour_ms), ed_confirmed = False\<rparr>
   = Inr \<lparr>rp_body = Some ''new'', rp_clock = Some (''UTC'', ContactClock), rp_times = Some (noon + 24 * hour_ms, noon + 48 * hour_ms)\<rparr>"
  by code_simp

lemma short_edit:
  "snd (patch_write ''co'' ''r'' \<lparr>rp_body = Some ''new'', rp_clock = Some (''UTC'', ContactClock),
      rp_times = Some (noon + 24 * hour_ms, noon + 48 * hour_ms)\<rparr> [row_claimed]) = [row_new]"
  by code_simp

lemma short_queue:
  "api_expire_scheduled_messages noon SCAN_LIMIT [] [row_old] = ([], [row_old])"
  "api_claim_due_scheduled_messages noon SCAN_LIMIT LEASE_SECONDS [] [row_old] = ([row_claimed], [row_claimed])"
  by code_simp+

lemma short_posted: "sreach (short_state [row_old] [])"
proof -
  have "sstep (sched_start 0) (queue_to [row_old] ((sched_start 0)\<lparr>y_ids := insert ''r'' {}\<rparr>))"
    using s_post [of "''r''" "sched_start 0" every_zone "''UTC''" "Some (Some ''+14165550100'', Some ''UTC'')" True "''th''" "''co''"
        "''u''" "''old''" noon False "Inr row_old" "[row_old]"] short_post
    by (simp add: sched_start_def)
  then have "sreach (queue_to [row_old] ((sched_start 0)\<lparr>y_ids := {''r''}\<rparr>))" using sreach.start sreach.step by blast
  then have "sreach ((queue_to [row_old] ((sched_start 0)\<lparr>y_ids := {''r''}\<rparr>))\<lparr>y_now := noon\<rparr>)"
    by (rule sreach.step) (rule s_tick, simp add: sched_start_def noon_def hour_ms_def)
  then show ?thesis by (simp add: short_state_def sched_start_def queue_to_def)
qed

lemma short_claimed: "sreach (short_state [row_claimed] [CheckTask noon row_claimed []])"
proof -
  have "sstep (short_state [row_old] []) (short_state [row_old] [ClaimTask noon])"
    using s_expire [of "short_state [row_old] []" "[]" "[]" "[row_old]"] short_queue(1)
    by (simp add: short_state_def sched_start_def queue_to_def tell_def)
  then have "sreach (short_state [row_old] [ClaimTask noon])" using short_posted sreach.step by blast
  moreover have "sstep (short_state [row_old] [ClaimTask noon]) (short_state [row_claimed] [CheckTask noon row_claimed []])"
    using s_claim [of noon "short_state [row_old] [ClaimTask noon]" "[]" "[row_claimed]" "[row_claimed]"] short_queue(2)
    by (simp add: short_state_def sched_start_def queue_to_def becomes_def next_row_def)
  ultimately show ?thesis by (rule sreach.step)
qed

lemma short_checked:
  "sstep (short_state [row_claimed] [CheckTask noon row_claimed []])
     (short_state [row_claimed] [FireTask noon ''+14165550100'' (Cleared ''+14165550100'') row_claimed []])"
proof -
  let ?y = "short_state [row_claimed] [CheckTask noon row_claimed []]"
  have "seen ?y row_claimed short_reads" by (simp add: seen_def short_reads_def short_state_def sched_start_def)
  then have "sstep ?y (becomes (CheckTask noon row_claimed [])
      (after_check noon row_claimed [] (decide noon row_claimed short_reads)) ?y)"
    by (intro s_check [OF refl]) (simp_all add: short_state_def)
  then show ?thesis unfolding short_check by (simp add: after_check_def becomes_def short_state_def sched_start_def)
qed

text \<open>
  The text that goes out need not be the one the row and the message say: a row edited while its
  checks run is fired all the same, for whatever day it now asks, and Telnyx is sent the words of the
  claim.
\<close>

lemma edited_in_flight:
  "\<exists>y r m to b. sreach y \<and> r \<in> set (y_rows y) \<and> m \<in> set (y_messages y) \<and> sc_message r = Some (m_id m)
     \<and> TelnyxSend to b (sendIdempotencyKey (m_id m)) \<in> set (y_sent y)
     \<and> sc_status r = Sent \<and> y_now y < sc_sendAt r \<and> m_body m = sc_body r \<and> b \<noteq> m_body m"
proof -
  let ?c = "Cleared ''+14165550100''" and ?n = "''+14165550100''"
  let ?m = "fired_message ''m'' row_new"
  let ?r = "row_new\<lparr>sc_status := Sent, sc_message := Some ''m'', sc_reason := None, sc_reasonKey := None\<rparr>"
  define y1 where "y1 = short_state [row_claimed] [FireTask noon ?n ?c row_claimed []]"
  define y2 where "y2 = short_state [row_new] [FireTask noon ?n ?c row_claimed []]"
  have "sreach y1" unfolding y1_def using short_claimed short_checked by (rule sreach.step)
  moreover have "sstep y1 y2"
    using s_patch [OF short_patch, of y1 "''co''" "''r''"]
    by (simp add: short_edit y1_def y2_def short_state_def sched_start_def queue_to_def)
  ultimately have r2: "sreach y2" by (rule sreach.step)
  have f: "api_fire_scheduled_message noon None \<lparr>ca_open = True, ca_outbox = False, ca_links = [], ca_connections = []\<rparr>
      ''m'' (sc_id row_claimed) [row_new] = (Fired ?m, [?r])"
    by code_simp
  define y3 where "y3 = after_fire (FireTask noon ?n ?c row_claimed []) (Fired ?m)
    (queue_to [?r] (y2\<lparr>y_ids := insert ''m'' (y_ids y2)\<rparr>))"
  have "sstep y2 y3" unfolding y3_def
    by (rule s_fire [OF refl, where rest = "[]"]) (use f in \<open>simp_all add: y2_def short_state_def sched_start_def\<close>)
  then have r3: "sreach y3" using r2 sreach.step by blast
  let ?w = "\<lparr>dw_allowed = Some True, dw_refusal = None, dw_result = Accepted ''t''\<rparr>"
  let ?k = "DispatchTask noon ?m ?n (sc_body row_claimed) ?c []"
  define y4 where "y4 = becomes ?k (rest_of ?k) (dispatched (snd (dispatchOutbound ?w ?m ?n (sc_body row_claimed) ?c)) y3)"
  have e: "snd (dispatchOutbound ?w ?m ?n (sc_body row_claimed) ?c)
      = [TelnyxSend ?n (sc_body row_claimed) (sendIdempotencyKey ''m''), PatchMessage (?m\<lparr>m_telnyx := Some ''t''\<rparr>), AcceptedEvents ''m'']"
    by (simp add: dispatchOutbound_def telnyxCreateMessage_def fired_message_def Let_def)
  have y4: "y4 = becomes ?k (rest_of ?k) (dispatched [TelnyxSend ?n (sc_body row_claimed) (sendIdempotencyKey ''m''),
      PatchMessage (?m\<lparr>m_telnyx := Some ''t''\<rparr>), AcceptedEvents ''m''] y3)" unfolding y4_def e ..
  have "sstep y3 y4" unfolding y4_def
    by (rule s_dispatch [OF refl]) (simp add: y3_def after_fire_def becomes_def)
  then have "sreach y4" using r3 sreach.step by blast
  moreover have "y_rows y4 = [?r]" "y_messages y4 = [?m\<lparr>m_telnyx := Some ''t''\<rparr>]" "y_now y4 = noon"
    "set (y_sent y4) = {TelnyxSend ?n (sc_body row_claimed) (sendIdempotencyKey ''m''), PatchMessage (?m\<lparr>m_telnyx := Some ''t''\<rparr>),
       AcceptedEvents ''m''}"
    unfolding y4 by (auto simp: y3_def y2_def short_state_def sched_start_def after_fire_def fired_message_def)
  moreover have "sc_body row_claimed \<noteq> sc_body row_new" "noon < sc_sendAt row_new"
    by (simp_all add: row_claimed_def row_old_def row_new_def new_row_def hour_ms_def)
  ultimately show ?thesis
    by (intro exI [of _ y4] exI [of _ ?r] exI [of _ "?m\<lparr>m_telnyx := Some ''t''\<rparr>"] exI [of _ ?n] exI [of _ "sc_body row_claimed"])
      (simp add: fired_message_def)
qed


section \<open>The properties\<close>

text \<open>
  C10. In every reachable state the messages that fired and the rows that are sent correspond one to
  one, each message with the company, thread and words its row has; a row that is not sent has no
  message; and no message was handed to Telnyx twice, nor anything that is no row's message.
\<close>

theorem fired_once:
  assumes "sreach y"
  shows "(\<forall>m \<in> set (y_messages y). \<exists>!r. r \<in> set (y_rows y) \<and> sc_message r = Some (m_id m))
    \<and> (\<forall>r \<in> set (y_rows y). sc_status r = Sent \<longrightarrow>
         (\<exists>!m. m \<in> set (y_messages y) \<and> sc_message r = Some (m_id m) \<and> m_company m = sc_company r
              \<and> m_thread m = sc_thread r \<and> m_body m = sc_body r))
    \<and> (\<forall>r \<in> set (y_rows y). sc_status r \<noteq> Sent \<longrightarrow> sc_message r = None)
    \<and> distinct (sends (y_sent y))
    \<and> set (sends (y_sent y)) \<subseteq> sendIdempotencyKey ` m_id ` set (y_messages y)"
proof -
  have inv: "sched_inv y" using sreach_inv [OF assms] .
  then have f: "fired_inv (y_rows y) (map message_intent (y_messages y)) (y_ids y)" and wf: "wf_queue (y_rows y)"
    and k: "key_inv y" by (simp_all add: sched_inv_def)
  have inj: "p = q" if "p \<in> set (y_messages y)" "q \<in> set (y_messages y)" "m_id p = m_id q" for p q
  proof -
    have "distinct (map m_id (y_messages y))" using f by (simp add: fired_inv_def message_intent_def o_def)
    then show ?thesis using that by (simp add: distinct_map inj_on_def)
  qed
  have row: "\<exists>!r. r \<in> set (y_rows y) \<and> sc_message r = Some (m_id m)" if m: "m \<in> set (y_messages y)" for m
  proof -
    obtain r where "r \<in> set (y_rows y)" "row_intent r = Some (message_intent m)"
      using f m unfolding fired_inv_def by fastforce
    then show ?thesis using f row_intent_Some unfolding fired_inv_def message_intent_def
      by (metis (no_types, lifting) fst_conv option.distinct(1))
  qed
  have msg: "\<exists>!m. m \<in> set (y_messages y) \<and> sc_message r = Some (m_id m) \<and> m_company m = sc_company r
      \<and> m_thread m = sc_thread r \<and> m_body m = sc_body r" if r: "r \<in> set (y_rows y)" "sc_status r = Sent" for r
  proof -
    obtain i where i: "sc_message r = Some i" using wf r by (auto simp: wf_queue_def)
    then have "(i, sc_company r, sc_thread r, sc_body r) \<in> set (map message_intent (y_messages y))"
      using f r(1) unfolding fired_inv_def row_intent_def by simp
    then obtain m where "m \<in> set (y_messages y)" "message_intent m = (i, sc_company r, sc_thread r, sc_body r)" by auto
    then show ?thesis using inj i by (auto simp: message_intent_def)
  qed
  have "count (mset (sends (y_sent y))) x \<le> 1" for x
    using k unfolding key_inv_def all_keys_def by (metis add_leD2 count_union)
  then have "distinct (sends (y_sent y))"
    by (auto simp: distinct_count_atmost_1 le_Suc_eq not_in_iff dest: antisym)
  moreover have "set (sends (y_sent y)) \<subseteq> sendIdempotencyKey ` m_id ` set (y_messages y)"
    using k by (simp add: key_inv_def all_keys_def)
  ultimately show ?thesis using row msg wf by (auto simp: wf_queue_def)
qed

theorem fired_once_witness:
  "\<exists>y. sreach y \<and> (\<exists>r \<in> set (y_rows y). sc_status r = Sent
     \<and> (\<exists>!m. m \<in> set (y_messages y) \<and> sc_message r = Some (m_id m) \<and> m_company m = sc_company r
              \<and> m_thread m = sc_thread r \<and> m_body m = sc_body r)) \<and> distinct (sends (y_sent y))"
  using edited_in_flight fired_once by meson



text \<open>
  C15. A run comes to fire a row only by a check that, at that moment, found its customer neither
  opted out of the company nor answering since it was written, a number the company may text, the
  workspace active, neither paused nor suspended, and the number it goes from not released; the
  clearance it then holds is for that number.
\<close>

theorem checked_before_going:
  assumes "sstep y y'" "FireTask n d c q rest \<in> set (y_tasks y')" "FireTask n d c q rest \<notin> set (y_tasks y)"
  shows "CheckTask n q rest \<in> set (y_tasks y) \<and> (sc_company q, d) \<notin> y_optouts y \<and> \<not> replied y q \<and> c = Cleared d
    \<and> (\<exists>reads g. seen y q reads \<and> gw_gates (rd_gates reads) = Some g \<and> \<not> gw_killed (rd_gates reads)
         \<and> sg_active g \<and> \<not> sg_paused g \<and> sg_aup g \<noteq> ''suspended'' \<and> destination_gate g d = None
         \<and> (\<exists>cv dfrom st. rd_conversation reads = Some (Some cv) \<and> cv_to cv = Some d
              \<and> cv_number cv = Some (dfrom, st) \<and> st \<noteq> ''released''))"
proof -
  obtain reads f where k: "CheckTask n q rest \<in> set (y_tasks y)" "seen y q reads" "decide n q reads = GoTo f d c"
    using step_fire_task [OF assms(1,2)] assms(3) by blast
  have "\<not> replied y q" using replied_holds [OF k(2)] k(3) by blast
  moreover have r: "runPreSendGates (rd_gates reads) n d False = Inr c"
    and cv: "\<exists>cv st. rd_conversation reads = Some (Some cv) \<and> cv_to cv = Some d \<and> cv_number cv = Some (f, st) \<and> st \<noteq> ''released''"
    using k(3) unfolding goes_iff by blast+
  moreover have "read_to reads = d" using cv by (auto simp: read_to_def)
  then have "(sc_company q, d) \<notin> y_optouts y" using r k(2) by (auto simp: cleared_iff seen_def)
  ultimately show ?thesis using k(1,2) unfolding cleared_iff by blast
qed

theorem checked_before_going_witness:
  "(''co'', ''+14165550100'') \<notin> y_optouts (short_state [row_claimed] [CheckTask noon row_claimed []])
   \<and> \<not> replied (short_state [row_claimed] [CheckTask noon row_claimed []]) row_claimed"
  using checked_before_going [OF short_checked, of noon "''+14165550100''" "Cleared ''+14165550100''" row_claimed "[]"]
  by (simp add: short_state_def row_claimed_def row_old_def new_row_def)

text \<open>
  C14. A row that is sent, canceled, expired or failed never changes again: through any further
  operations, runs and crashes it stays in the table as it is.
\<close>

theorem rows_at_rest:
  assumes "sreach y" "rtranclp sstep y y'" "r \<in> set (y_rows y)" "\<not> live r"
  shows "r \<in> set (y_rows y')"
proof -
  have "sreach y' \<and> r \<in> set (y_rows y')" using assms(2)
  proof (induction rule: rtranclp_induct)
    case (step u v)
    then have inv: "wf_queue (y_rows u)" "ids (y_rows u) \<subseteq> y_ids u"
      using sreach_inv [of u] by (simp_all add: sched_inv_def)
    have "r \<in> set (y_rows v)" using step_queue [OF step.hyps(2) inv]
    proof (elim disjE conjE exE)
      assume "evolves (y_rows u) (y_rows v)"
      then show ?thesis using step.IH assms(4) by (simp add: evolves_def)
    next
      fix i mid q
      assume F: "fires u v i mid q"
      then have "sc_id r \<noteq> i" using row_by_id [of "y_rows u" r q] inv(1) step.IH assms(4)
        by (auto simp: fires_def wf_queue_def)
      then show ?thesis using F step.IH unfolding fires_def upd_rows_def set_map by force
    qed
    then show ?case using step sreach.step by blast
  qed (use assms in simp)
  then show ?thesis by blast
qed

definition row_canceled :: scheduled where
  "row_canceled = row_old\<lparr>sc_status := Canceled, sc_canceledAt := Some noon, sc_canceledBy := Some ''u'', sc_claimed := None\<rparr>"

lemma short_canceled: "sreach (short_state [row_canceled] [])"
proof -
  have "snd (delete_scheduled noon ''co'' ''u'' ''r'' [row_old]) = [row_canceled]" by code_simp
  then have "sstep (short_state [row_old] []) (short_state [row_canceled] [])"
    using s_delete [of "short_state [row_old] []" "''co''" "''u''" "''r''"]
    by (simp add: short_state_def sched_start_def queue_to_def)
  then show ?thesis using short_posted sreach.step by blast
qed

theorem rows_at_rest_witness:
  "\<exists>y'. rtranclp sstep (short_state [row_canceled] []) y' \<and> y_tasks y' = [ClaimTask noon] \<and> row_canceled \<in> set (y_rows y')"
proof -
  have "api_expire_scheduled_messages noon SCAN_LIMIT [] [row_canceled] = ([], [row_canceled])" by code_simp
  then have "sstep (short_state [row_canceled] []) (short_state [row_canceled] [ClaimTask noon])"
    using s_expire [of "short_state [row_canceled] []" "[]" "[]" "[row_canceled]"]
    by (simp add: short_state_def sched_start_def queue_to_def tell_def)
  then have s: "rtranclp sstep (short_state [row_canceled] []) (short_state [row_canceled] [ClaimTask noon])" by blast
  have "row_canceled \<in> set (y_rows (short_state [row_canceled] [ClaimTask noon]))"
    by (rule rows_at_rest [OF short_canceled s])
      (simp_all add: short_state_def row_canceled_def isScheduledMessageLive_def)
  then show ?thesis using s by (intro exI [of _ "short_state [row_canceled] [ClaimTask noon]"]) (simp add: short_state_def)
qed

text \<open>
  The question after a job goes at the first instant four hours on that is outside the quiet
  hours of its destination, within thirty hours, and is worth sending for a day from then.
\<close>

theorem rating_ask_first_open:
  assumes "steady off (now + 4 * hour_ms) (now + 31 * hour_ms) o'" "rating_ask off state now = (sendAt, expires)"
  shows "now + 4 * hour_ms \<le> sendAt \<and> sendAt \<le> now + 30 * hour_ms \<and> \<not> isQuietAt off state sendAt
    \<and> (\<forall>u. now + 4 * hour_ms \<le> u \<and> u < sendAt \<longrightarrow> isQuietAt off state u) \<and> expires = sendAt + 24 * hour_ms"
proof -
  let ?t = "now + 4 * hour_ms"
  have h: "0 < hour_ms" by (simp add: hour_ms_def)
  have r: "sendAt = (case nextSendableInstant off state ?t of None \<Rightarrow> ?t | Some t \<Rightarrow> t)" "expires = sendAt + 24 * hour_ms"
    using assms(2) by (auto simp: rating_ask_def RATING_ASK_DELAY_HOURS_def RATING_ASK_HORIZON_HOURS_def Let_def)
  show ?thesis
  proof (cases "isQuietAt off state ?t")
    case True
    have e: "?t + 27 * hour_ms = now + 31 * hour_ms" by simp
    have "steady off ?t (?t + 27 * hour_ms) o'" unfolding e by (rule assms(1))
    from next_sendable_first [OF this True] show ?thesis using r by auto
  next
    case False
    then have "sendAt = ?t" using r(1) by (simp add: nextSendableInstant_def)
    then show ?thesis using False r(2) h by auto
  qed
qed

theorem rating_ask_first_open_witness:
  "isQuietAt (\<lambda>_. 0) None (20 * hour_ms) \<and> \<not> isQuietAt (\<lambda>_. 0) None (fst (rating_ask (\<lambda>_. 0) None (16 * hour_ms)))
   \<and> fst (rating_ask (\<lambda>_. 0) None (16 * hour_ms)) \<le> 46 * hour_ms"
proof -
  have "steady (\<lambda>_. 0) (16 * hour_ms + 4 * hour_ms) (16 * hour_ms + 31 * hour_ms) 0" by (rule steady_const) simp
  from rating_ask_first_open [OF this, of None "fst (rating_ask (\<lambda>_. 0) None (16 * hour_ms))"
      "snd (rating_ask (\<lambda>_. 0) None (16 * hour_ms))"]
  have "\<not> isQuietAt (\<lambda>_. 0) None (fst (rating_ask (\<lambda>_. 0) None (16 * hour_ms)))
      \<and> fst (rating_ask (\<lambda>_. 0) None (16 * hour_ms)) \<le> 46 * hour_ms" by (simp add: algebra_simps)
  moreover have "isQuietAt (\<lambda>_. 0) None (20 * hour_ms)" by code_simp
  ultimately show ?thesis by blast
qed




section \<open>Where the code falls short\<close>

text \<open>The reasons \<open>fire\<close> stores are no catalogue keys, so every reader gets its English sentence.\<close>

lemma fire_key_untranslated:
  assumes "\<And>k. k \<notin> range SCHEDULED_HOLD_REASON_KEYS \<Longrightarrow> translate k = k"
  shows "scheduledHoldText (Some ''calendar_unverified'') stored translate = stored"
    "scheduledHoldText (Some ''job_no_longer_scheduled'') stored translate = stored"
proof -
  have "SCHEDULED_HOLD_REASON_KEYS r \<noteq> ''calendar_unverified''" "SCHEDULED_HOLD_REASON_KEYS r \<noteq> ''job_no_longer_scheduled''" for r
    by (cases r; simp)+
  then have "''calendar_unverified'' \<notin> range SCHEDULED_HOLD_REASON_KEYS"
    "''job_no_longer_scheduled'' \<notin> range SCHEDULED_HOLD_REASON_KEYS" by (metis rangeE)+
  then show "scheduledHoldText (Some ''calendar_unverified'') stored translate = stored"
    "scheduledHoldText (Some ''job_no_longer_scheduled'') stored translate = stored"
    using assms by (simp_all add: scheduledHoldText_def)
qed

text \<open>A row canceled while its checks ran is disclosed as waiting: \<open>hold\<close> does not look whether it was found.\<close>

lemma canceled_disclosed_as_waiting:
  assumes "\<And>q. q \<in> set (y_rows y) \<Longrightarrow> sc_id q = sc_id r \<Longrightarrow> \<not> live q"
    and "SettleTask n hold reason r rest \<in> set (y_tasks y)"
  shows "\<exists>y'. sstep y y' \<and> y_rows y' = y_rows y \<and> y_told y' = (sc_id r, reason) # y_told y"
proof -
  let ?k = "SettleTask n hold reason r rest"
  have "upd_rows (\<lambda>q. sc_id q = sc_id r \<and> live q) f (y_rows y) = y_rows y" for f
    using assms(1) by (auto simp: upd_rows_def intro!: map_idI)
  then have "settle (y_now y) hold reason r (y_rows y) = y_rows y"
    by (simp add: settle_def api_hold_scheduled_message_def api_fail_scheduled_message_def settle_row_def)
  then show ?thesis using s_settle [OF refl assms(2)]
    by (intro exI [of _ "becomes ?k (rest_of ?k) (tell [(sc_id r, reason)] (queue_to (y_rows y) y))"])
      (simp add: tell_def queue_to_def becomes_def)
qed

text \<open>An edit moves a text past the ninety days that bound its first time, and keeps the row's watermark and key.\<close>

lemma edit_beyond_horizon:
  "\<exists>p. patch_read every_zone ''UTC'' 0 (Some (Held, None)) \<lparr>ed_body = None, ed_sendAt = Some (365 * day_ms), ed_confirmed = False\<rparr>
     = Inr p \<and> rp_times p = Some (365 * day_ms, 366 * day_ms) \<and> SCHEDULED_HORIZON_DAYS < 365"
  by (simp add: patch_read_def isScheduledMessageLive_def Let_def day_ms_def hour_ms_def HOLD_HORIZON_HOURS_def
      SCHEDULED_HORIZON_DAYS_def)

lemma edit_keeps: "sc_watermark (apply_patch p r) = sc_watermark r" "sc_reasonKey (apply_patch p r) = sc_reasonKey r"
  by (simp_all add: apply_patch_def Let_def split: option.splits prod.splits)

text \<open>A held row that expires keeps the sentence that says it will still go.\<close>

lemma expired_keeps_promise:
  assumes "wf_queue t" "r' \<in> set (fst (api_expire_scheduled_messages now limit locked t))"
  shows "\<exists>r \<in> set t. sc_id r = sc_id r' \<and> sc_status r' = Expired \<and> sc_reasonKey r' = sc_reasonKey r
           \<and> (sc_reason r \<noteq> None \<longrightarrow> sc_reason r' = sc_reason r)"
proof -
  from assms(2) obtain r where "r \<in> set t" "r' = r\<lparr>sc_status := Expired,
      sc_reason := or_else (sc_reason r) (Some ''the send window passed before it could go''), sc_claimed := None\<rparr>"
    unfolding api_expire_scheduled_messages_def Let_def fst_conv upd_rows_def by (auto split: if_splits)
  then show ?thesis by (intro bexI [of _ r]) auto
qed

text \<open>
  The preset for tomorrow at eight, in Hawaii at nine in the morning, is an hour ago; in Denver on
  the eve of the spring change it is nine o'clock.
\<close>

lemma hawaii_preset_past: "let now = 19 * hour_ms in nextLocalHour now (\<lambda>_. - 10 * hour_ms) 1 = now - hour_ms"
  by code_simp

lemma spring_preset_late:
  "let change = 20891 * day_ms + 9 * hour_ms; off = (\<lambda>t. if t < change then - 7 * hour_ms else - 6 * hour_ms);
       lands = nextLocalHour (change - 13 * hour_ms) off 1
   in localHourIn off lands = 9"
  by code_simp

end
