(* ===== verification/Message_Store.thy ===== *)
theory Message_Store
  imports Schedule_Job
begin

text \<open>
  The rows of \<open>messages\<close> that go out, the ledger of metered texts (\<open>usage_events\<close>) and the database
  functions that admit, requeue and fail a text: the send gate, the spend check it shares with the
  automatic replies, the arbiter of a retry, the claim of the automatic retry, the sweep of what is
  stuck, the claims of an away reply and of a missed call's text, and the insert of a fired schedule.

  A table is a list of rows in any order, \<open>now\<close> the clock of the transaction, a fresh id an argument.
  Every update stamps \<open>updated_at\<close>, as the trigger of the table does. A function holds the company's
  row, so it is one step. Of the conversation only what the functions read is an argument; their
  writes to it (\<open>last_message_at\<close>, the throttle, the audit events) are left out, but for the event
  that ties a text to a missed call, which is the row's \<open>ob_call\<close>.
\<close>

section \<open>Rows\<close>

datatype msg_direction = DirInbound | DirOutbound | DirNote

datatype msg_status = MsgReceived | MsgQueued | MsgSent | MsgDelivered | MsgFailed

record outbox_row =
  ob_id :: string
  ob_company :: string
  ob_thread :: string
  ob_direction :: msg_direction
  ob_body :: string
  ob_telnyx :: "string option"
  ob_status :: "msg_status option"
  ob_segments :: "int option"
  ob_encoding :: "string option"
  ob_sender :: "string option"
  ob_errorCode :: "string option"
  ob_errorReason :: "failure_reason option"
  ob_errorDetail :: "string option"
  ob_key :: "string option"
  ob_cost :: "rat option"
  ob_autoRetries :: nat
  ob_call :: "string option"
  ob_created :: ms
  ob_updated :: ms

record usage_row =
  ug_id :: string
  ug_company :: string
  ug_message :: "string option"
  ug_mms :: bool
  ug_quantity :: int
  ug_identifier :: "string option"
  ug_reported :: "ms option"
  ug_created :: ms

datatype plan_id = StarterPlan | ProPlan

record workspace =
  wk_status :: string
  wk_plan :: "plan_id option"
  wk_paused :: "ms option"
  wk_capTimes :: "rat option"
  wk_periodStart :: "ms option"
  wk_owner :: string

type_synonym outbox = "outbox_row list"
type_synonym usage_ledger = "usage_row list"

definition segs :: "outbox_row \<Rightarrow> int" where
  "segs r = (case ob_segments r of None \<Rightarrow> 1 | Some n \<Rightarrow> n)"

definition find_message :: "string \<Rightarrow> string \<Rightarrow> outbox \<Rightarrow> outbox_row option" where
  "find_message company i t = find (\<lambda>r. ob_id r = i \<and> ob_company r = company) t"

definition find_key :: "string \<Rightarrow> string \<Rightarrow> outbox \<Rightarrow> outbox_row option" where
  "find_key company key t = find (\<lambda>r. ob_company r = company \<and> ob_key r = Some key) t"

definition upd_out :: "ms \<Rightarrow> (outbox_row \<Rightarrow> bool) \<Rightarrow> (outbox_row \<Rightarrow> outbox_row) \<Rightarrow> outbox \<Rightarrow> outbox" where
  "upd_out now P f t = map (\<lambda>r. if P r then (f r)\<lparr>ob_updated := now\<rparr> else r) t"

definition queued_row :: "ms \<Rightarrow> string \<Rightarrow> string \<Rightarrow> string \<Rightarrow> string \<Rightarrow> int \<Rightarrow> string \<Rightarrow> string option \<Rightarrow> string option \<Rightarrow> outbox_row" where
  "queued_row now i company thread body est sender key call =
     \<lparr>ob_id = i, ob_company = company, ob_thread = thread, ob_direction = DirOutbound, ob_body = body,
      ob_telnyx = None, ob_status = Some MsgQueued, ob_segments = Some est, ob_encoding = None,
      ob_sender = Some sender, ob_errorCode = None, ob_errorReason = None, ob_errorDetail = None,
      ob_key = key, ob_cost = None, ob_autoRetries = 0, ob_call = call, ob_created = now, ob_updated = now\<rparr>"


section \<open>Why a workspace may not send\<close>

datatype sql_error = SqlInactive | SqlPaused | SqlOptedOut | SqlRateLimited | SqlCapReached | SqlNotFound
  | SqlInvalid | SqlConflict | SqlThrottled | SqlDuplicate

definition company_send_block :: "workspace \<Rightarrow> sql_error option" where
  "company_send_block w =
     (if wk_status w \<noteq> ''active'' \<or> wk_plan w = None then Some SqlInactive
      else if wk_paused w \<noteq> None then Some SqlPaused
      else None)"

definition HOURLY_SEGMENTS :: int where "HOURLY_SEGMENTS = 250"

definition hour_segments :: "ms \<Rightarrow> string \<Rightarrow> outbox \<Rightarrow> int" where
  "hour_segments now company t =
     sum_list (map segs (filter (\<lambda>r. ob_company r = company \<and> ob_direction r = DirOutbound
       \<and> now - hour_ms < ob_created r) t))"

definition since_start :: "ms option \<Rightarrow> ms \<Rightarrow> bool" where
  "since_start start x = (case start of None \<Rightarrow> True | Some s \<Rightarrow> s \<le> x)"

definition metered :: "usage_ledger \<Rightarrow> string \<Rightarrow> bool" where
  "metered us i \<longleftrightarrow> list_ex (\<lambda>u. ug_message u = Some i) us"

definition period_used :: "ms option \<Rightarrow> string \<Rightarrow> usage_ledger \<Rightarrow> int" where
  "period_used start company us =
     sum_list (map ug_quantity (filter (\<lambda>u. ug_company u = company \<and> since_start start (ug_created u)) us))"

definition counts_pending :: "ms option \<Rightarrow> string \<Rightarrow> usage_ledger \<Rightarrow> outbox_row \<Rightarrow> bool" where
  "counts_pending start company us r \<longleftrightarrow> ob_company r = company \<and> ob_direction r = DirOutbound
     \<and> ob_status r \<in> {Some MsgQueued, Some MsgSent} \<and> since_start start (ob_created r) \<and> \<not> metered us (ob_id r)"

definition period_pending :: "ms option \<Rightarrow> string \<Rightarrow> usage_ledger \<Rightarrow> outbox \<Rightarrow> int" where
  "period_pending start company us t = sum_list (map segs (filter (counts_pending start company us) t))"

definition plan_quota :: "plan_id \<Rightarrow> int" where
  "plan_quota p = (case p of StarterPlan \<Rightarrow> 500 | ProPlan \<Rightarrow> 2500)"

text \<open>SQL's null: no multiplier, or no plan, and the comparison is not true.\<close>

definition spend_cap :: "workspace \<Rightarrow> rat option" where
  "spend_cap w = (case wk_capTimes w of None \<Rightarrow> None
     | Some x \<Rightarrow> (case wk_plan w of None \<Rightarrow> None | Some p \<Rightarrow> Some (x * of_int (plan_quota p))))"

definition above_cap :: "rat option \<Rightarrow> int \<Rightarrow> bool" where
  "above_cap cap n = (case cap of None \<Rightarrow> False | Some c \<Rightarrow> c < of_int n)"

definition outbound_spend_check :: "ms \<Rightarrow> workspace option \<Rightarrow> string \<Rightarrow> int \<Rightarrow> outbox \<Rightarrow> usage_ledger \<Rightarrow> sql_error option" where
  "outbound_spend_check now w company est t us =
     (if est < 1 then Some SqlInvalid
      else case w of
        None \<Rightarrow> Some SqlNotFound
      | Some k \<Rightarrow>
          if HOURLY_SEGMENTS \<le> hour_segments now company t then Some SqlRateLimited
          else if wk_capTimes k \<noteq> None
            \<and> above_cap (spend_cap k)
                (period_used (wk_periodStart k) company us + period_pending (wk_periodStart k) company us t + est)
            then Some SqlCapReached
          else None)"


section \<open>The send gate\<close>

text \<open>
  \<open>early\<close> is the table as the first statement saw it, before the company's lock; \<open>primary\<close> the number
  the contact's row carries, or none where the conversation is not the company's.
\<close>

datatype gate_result = GateRejects sql_error | GateAdmits outbox_row | GateExisting outbox_row

definition gate_outbound_send ::
  "ms \<Rightarrow> workspace option \<Rightarrow> string option \<Rightarrow> (string \<Rightarrow> bool) \<Rightarrow> outbox \<Rightarrow> string \<Rightarrow> string \<Rightarrow> string \<Rightarrow> string option
     \<Rightarrow> string option \<Rightarrow> string option \<Rightarrow> int option \<Rightarrow> outbox \<Rightarrow> usage_ledger \<Rightarrow> gate_result \<times> outbox" where
  "gate_outbound_send now w primary optedOut early i company thread sender body key est t us =
     (case (key, sender, est) of
        (Some k, Some user, Some n) \<Rightarrow>
          if btrim k = [] \<or> n < 1 then (GateRejects SqlInvalid, t)
          else (case find_key company k early of
            Some r \<Rightarrow> (GateExisting r, t)
          | None \<Rightarrow>
            (case w of None \<Rightarrow> (GateRejects SqlNotFound, t)
             | Some c \<Rightarrow>
              (case primary of None \<Rightarrow> (GateRejects SqlNotFound, t)
               | Some phone \<Rightarrow>
                (case company_send_block c of
                   Some e \<Rightarrow> (GateRejects e, t)
                 | None \<Rightarrow>
                   if optedOut phone then (GateRejects SqlOptedOut, t)
                   else if HOURLY_SEGMENTS \<le> hour_segments now company t then (GateRejects SqlRateLimited, t)
                   else if wk_capTimes c \<noteq> None
                     \<and> above_cap (spend_cap c)
                         (period_used (wk_periodStart c) company us + period_pending (wk_periodStart c) company us t + n)
                     then (GateRejects SqlCapReached, t)
                   else (case find_key company k t of
                       Some r \<Rightarrow> (GateExisting r, t)
                     | None \<Rightarrow>
                         let r = queued_row now i company thread (case body of None \<Rightarrow> [] | Some b \<Rightarrow> b) n user (Some k) None
                         in (GateAdmits r, r # t))))))
      | _ \<Rightarrow> (GateRejects SqlInvalid, t))"


section \<open>Retries\<close>

definition STUCK_SEND_SECONDS :: int where "STUCK_SEND_SECONDS = 15 * 60"
definition SEND_INTERRUPTED_ERROR_CODE :: string where "SEND_INTERRUPTED_ERROR_CODE = ''send_interrupted''"

definition interrupted_detail :: string where
  "interrupted_detail = ''The send was interrupted before reaching the carrier.''"

definition older_than :: "ms \<Rightarrow> int \<Rightarrow> outbox_row \<Rightarrow> bool" where
  "older_than now secs r \<longleftrightarrow> ob_updated r < now - secs * 1000"

definition stuck :: "ms \<Rightarrow> int \<Rightarrow> outbox_row \<Rightarrow> bool" where
  "stuck now secs r \<longleftrightarrow> ob_direction r = DirOutbound \<and> ob_status r = Some MsgQueued \<and> ob_telnyx r = None
     \<and> older_than now secs r"

definition fail_out :: "outbox_row \<Rightarrow> outbox_row" where
  "fail_out r = r\<lparr>ob_status := Some MsgFailed, ob_errorCode := Some SEND_INTERRUPTED_ERROR_CODE,
                  ob_errorDetail := Some interrupted_detail\<rparr>"

definition requeue :: "outbox_row \<Rightarrow> outbox_row" where
  "requeue r = r\<lparr>ob_status := Some MsgQueued, ob_errorCode := None, ob_errorDetail := None\<rparr>"

definition by_id :: "string \<Rightarrow> outbox_row \<Rightarrow> bool" where
  "by_id i r \<longleftrightarrow> ob_id r = i"

definition claim_message_retry ::
  "ms \<Rightarrow> workspace option \<Rightarrow> string option \<Rightarrow> (string \<Rightarrow> bool) \<Rightarrow> string \<Rightarrow> string \<Rightarrow> int \<Rightarrow> outbox \<Rightarrow> usage_ledger
     \<Rightarrow> (sql_error + outbox_row) \<times> outbox" where
  "claim_message_retry now w primary optedOut company i secs t us =
     (if secs < 1 then (Inl SqlInvalid, t)
      else case w of None \<Rightarrow> (Inl SqlNotFound, t)
      | Some c \<Rightarrow>
        (case find_message company i t of None \<Rightarrow> (Inl SqlNotFound, t)
         | Some r \<Rightarrow>
          if ob_direction r \<noteq> DirOutbound \<or> ob_telnyx r \<noteq> None
             \<or> \<not> (ob_status r = Some MsgFailed \<or> ob_status r = Some MsgQueued \<and> older_than now secs r)
            then (Inl SqlConflict, t)
          else (case company_send_block c of Some e \<Rightarrow> (Inl e, t)
           | None \<Rightarrow>
            (case primary of None \<Rightarrow> (Inl SqlNotFound, t)
             | Some phone \<Rightarrow>
               if optedOut phone then (Inl SqlOptedOut, t)
               else
                 let t' = (if ob_status r = Some MsgQueued then upd_out now (by_id i) fail_out t else t) in
                 (case outbound_spend_check now (Some c) company (segs r) t' us of
                    Some e \<Rightarrow> (Inl e, t')
                  | None \<Rightarrow>
                    let t'' = upd_out now (by_id i) requeue t' in
                    (case find_message company i t'' of
                       Some q \<Rightarrow> (Inr q, t'') | None \<Rightarrow> (Inl SqlNotFound, t'')))))))"

definition claim_stuck_sends_for_retry :: "ms \<Rightarrow> int \<Rightarrow> nat \<Rightarrow> nat \<Rightarrow> string list \<Rightarrow> outbox \<Rightarrow> outbox_row list \<times> outbox" where
  "claim_stuck_sends_for_retry now secs attempts limit locked t =
     (let claimed = map ob_id (take limit (sort_key ob_updated
                      (filter (\<lambda>r. stuck now secs r \<and> ob_autoRetries r < attempts \<and> ob_id r \<notin> set locked) t)));
          t' = upd_out now (\<lambda>r. ob_id r \<in> set claimed) (\<lambda>r. r\<lparr>ob_autoRetries := Suc (ob_autoRetries r)\<rparr>) t
      in (filter (\<lambda>r. ob_id r \<in> set claimed) t', t'))"

definition fail_stuck_outbound_sends :: "ms \<Rightarrow> int \<Rightarrow> outbox \<Rightarrow> nat \<times> outbox" where
  "fail_stuck_outbound_sends now secs t =
     (length (filter (stuck now secs) t), upd_out now (stuck now secs) fail_out t)"


section \<open>Texts nobody typed\<close>

text \<open>\<open>lastAuto\<close> is the conversation's throttle stamp; the conversation of a missed call is threaded before.\<close>

definition throttled :: "ms \<Rightarrow> int \<Rightarrow> ms option \<Rightarrow> bool" where
  "throttled now secs lastAuto = (case lastAuto of None \<Rightarrow> False | Some a \<Rightarrow> now - secs * 1000 < a)"

definition claim_auto_reply ::
  "ms \<Rightarrow> workspace option \<Rightarrow> string option \<Rightarrow> (string \<Rightarrow> bool) \<Rightarrow> ms option \<Rightarrow> string \<Rightarrow> string \<Rightarrow> string \<Rightarrow> string \<Rightarrow> int \<Rightarrow> int
     \<Rightarrow> outbox \<Rightarrow> usage_ledger \<Rightarrow> (sql_error + outbox_row) \<times> outbox" where
  "claim_auto_reply now w primary optedOut lastAuto i company thread body est throttle t us =
     (if btrim body = [] \<or> est < 1 \<or> throttle < 0 then (Inl SqlNotFound, t)
      else case w of None \<Rightarrow> (Inl SqlNotFound, t)
      | Some c \<Rightarrow>
        (case primary of None \<Rightarrow> (Inl SqlNotFound, t)
         | Some phone \<Rightarrow>
          (case company_send_block c of Some e \<Rightarrow> (Inl e, t)
           | None \<Rightarrow>
             if optedOut phone then (Inl SqlOptedOut, t)
             else if throttled now throttle lastAuto then (Inl SqlThrottled, t)
             else (case outbound_spend_check now (Some c) company est t us of
                 Some e \<Rightarrow> (Inl e, t)
               | None \<Rightarrow> let r = queued_row now i company thread body est (wk_owner c) None None in (Inr r, r # t)))))"

definition claim_missed_call_text ::
  "ms \<Rightarrow> workspace option \<Rightarrow> bool \<Rightarrow> (string \<Rightarrow> bool) \<Rightarrow> ms option \<Rightarrow> string \<Rightarrow> string \<Rightarrow> string \<Rightarrow> string \<Rightarrow> string \<Rightarrow> string
     \<Rightarrow> int \<Rightarrow> int \<Rightarrow> outbox \<Rightarrow> usage_ledger \<Rightarrow> (sql_error + outbox_row \<times> bool) \<times> outbox" where
  "claim_missed_call_text now w ownNumber optedOut lastAuto i company thread caller call body est throttle t us =
     (if btrim caller = [] \<or> btrim call = [] \<or> btrim body = [] \<or> est < 1 \<or> throttle < 0 then (Inl SqlNotFound, t)
      else case w of None \<Rightarrow> (Inl SqlNotFound, t)
      | Some c \<Rightarrow>
        if \<not> ownNumber then (Inl SqlNotFound, t)
        else (case company_send_block c of Some e \<Rightarrow> (Inl e, t)
         | None \<Rightarrow>
          (case find (\<lambda>r. ob_company r = company \<and> ob_call r = Some call) t of
             Some r \<Rightarrow>
               if ob_telnyx r = None \<and> ob_status r \<in> {Some MsgQueued, Some MsgFailed} then (Inr (r, True), t)
               else (Inl SqlDuplicate, t)
           | None \<Rightarrow>
             if optedOut caller then (Inl SqlOptedOut, t)
             else if throttled now throttle lastAuto then (Inl SqlThrottled, t)
             else (case outbound_spend_check now (Some c) company est t us of
                 Some e \<Rightarrow> (Inl e, t)
               | None \<Rightarrow>
                   let r = queued_row now i company thread body est (wk_owner c) None (Some call)
                   in (Inr (r, False), r # t)))))"

text \<open>The message a fired schedule becomes (\<open>api_fire_scheduled_message\<close>), with the columns \<open>messages\<close> adds.\<close>

definition fired_row :: "ms \<Rightarrow> string \<Rightarrow> int \<Rightarrow> scheduled \<Rightarrow> outbox_row" where
  "fired_row now mid est r =
     queued_row now mid (sc_company r) (sc_thread r) (sc_body r) est (sc_createdBy r) None None"

end
