(* ===== verification/Message_Status.thy ===== *)
theory Message_Status
  imports Message_Store
begin

text \<open>
  What happens to a text after it left: the patches a dispatch writes to its row
  (\<open>messaging/send.ts\<close>), the carrier's status webhooks (\<open>messaging/status.ts\<close>) and the report of a
  metered text to Stripe (\<open>billing/meter.ts\<close>, the hourly re-reporter of \<open>messaging/crons.ts\<close>).
\<close>

section \<open>The patches of a dispatch\<close>

datatype send_patch =
    AcceptPatch string
  | RefusePatch "string option" failure_reason string
  | LimitPatch
  | InterruptPatch string

definition limit_detail :: string where
  "limit_detail = ''Outbound rate limit reached (about 1 message per second per company).''"

fun apply_send_patch :: "send_patch \<Rightarrow> outbox_row \<Rightarrow> outbox_row" where
  "apply_send_patch (AcceptPatch i) r = r\<lparr>ob_telnyx := Some i\<rparr>"
| "apply_send_patch (RefusePatch code reason detail) r =
     r\<lparr>ob_status := Some MsgFailed, ob_errorCode := code, ob_errorReason := Some reason, ob_errorDetail := Some (take 2000 detail)\<rparr>"
| "apply_send_patch LimitPatch r =
     r\<lparr>ob_status := Some MsgFailed, ob_errorCode := Some ''rate_limited'', ob_errorDetail := Some limit_detail\<rparr>"
| "apply_send_patch (InterruptPatch detail) r =
     r\<lparr>ob_status := Some MsgFailed, ob_errorCode := Some SEND_INTERRUPTED_ERROR_CODE, ob_errorDetail := Some (take 2000 detail)\<rparr>"

text \<open>No row, or a Telnyx id another row has (the unique index): the statement throws and writes nothing.\<close>

definition takes_id :: "send_patch \<Rightarrow> string \<Rightarrow> outbox \<Rightarrow> bool" where
  "takes_id p i t = (case p of AcceptPatch x \<Rightarrow> list_ex (\<lambda>r. ob_telnyx r = Some x \<and> ob_id r \<noteq> i) t | _ \<Rightarrow> False)"

definition persistMessagePatch :: "ms \<Rightarrow> string \<Rightarrow> string \<Rightarrow> send_patch \<Rightarrow> outbox \<Rightarrow> outbox option" where
  "persistMessagePatch now i company p t =
     (if find_message company i t = None \<or> takes_id p i t then None
      else Some (upd_out now (\<lambda>r. ob_id r = i \<and> ob_company r = company) (apply_send_patch p) t))"

definition result_patch :: "telnyx_result \<Rightarrow> string \<Rightarrow> send_patch" where
  "result_patch res detail =
     (case res of Accepted i \<Rightarrow> AcceptPatch i | Refused code \<Rightarrow> RefusePatch code (classifySendFailure code) detail)"


section \<open>Status webhooks\<close>

definition markSent :: "ms \<Rightarrow> string \<Rightarrow> outbox \<Rightarrow> outbox" where
  "markSent now x t =
     upd_out now (\<lambda>r. ob_telnyx r = Some x \<and> ob_direction r = DirOutbound \<and> ob_status r = Some MsgQueued)
       (\<lambda>r. r\<lparr>ob_status := Some MsgSent\<rparr>) t"

record message_payload =
  pl_mms :: bool
  pl_parts :: "int option"
  pl_encoding :: "string option"
  pl_cost :: "rat option"
  pl_to :: "string option list"
  pl_errors :: "(string option \<times> string option \<times> string option) list"

definition FAILURE_STATUSES :: "string list" where
  "FAILURE_STATUSES = [''delivery_failed'', ''sending_failed'']"

definition finalStatus :: "message_payload \<Rightarrow> msg_status" where
  "finalStatus p =
     (if list_ex (\<lambda>s. s = Some ''delivered'') (pl_to p) then MsgDelivered
      else if pl_errors p \<noteq> [] \<or> list_ex (\<lambda>s. case s of None \<Rightarrow> False | Some x \<Rightarrow> x \<in> set FAILURE_STATUSES) (pl_to p)
        then MsgFailed
      else MsgSent)"

definition counted_parts :: "message_payload \<Rightarrow> int option" where
  "counted_parts p = (case pl_parts p of Some n \<Rightarrow> if 0 < n then Some n else None | None \<Rightarrow> None)"

definition first_error :: "message_payload \<Rightarrow> (string option \<times> string option \<times> string option) option" where
  "first_error p = (case pl_errors p of [] \<Rightarrow> None | e # es \<Rightarrow> Some e)"

text \<open>An error is its code, its title and its detail; \<open>detail || title || null\<close>.\<close>

definition error_text :: "string option \<times> string option \<times> string option \<Rightarrow> string option" where
  "error_text e = (case e of (c, ti, de) \<Rightarrow> if truthy de then de else if truthy ti then ti else None)"

definition finalize_row :: "message_payload \<Rightarrow> outbox_row \<Rightarrow> outbox_row" where
  "finalize_row p r = r\<lparr>
     ob_status := Some (finalStatus p),
     ob_segments := (case counted_parts p of None \<Rightarrow> ob_segments r | Some n \<Rightarrow> Some n),
     ob_encoding := or_else (pl_encoding p) (ob_encoding r),
     ob_cost := or_else (pl_cost p) (ob_cost r),
     ob_errorCode := (case first_error p of None \<Rightarrow> None | Some e \<Rightarrow> fst e),
     ob_errorDetail := (case first_error p of None \<Rightarrow> None | Some e \<Rightarrow> error_text e)\<rparr>"

definition finalize_update :: "ms \<Rightarrow> string \<Rightarrow> message_payload \<Rightarrow> outbox \<Rightarrow> outbox" where
  "finalize_update now x p t = upd_out now (\<lambda>r. ob_telnyx r = Some x) (finalize_row p) t"

definition find_telnyx :: "string \<Rightarrow> outbox \<Rightarrow> outbox_row option" where
  "find_telnyx x t = find (\<lambda>r. ob_telnyx r = Some x) t"

definition tells_failure :: "message_payload \<Rightarrow> outbox_row \<Rightarrow> bool" where
  "tells_failure p m \<longleftrightarrow> finalStatus p = MsgFailed \<and> ob_status m \<noteq> Some MsgFailed"


section \<open>Metering\<close>

definition MMS_SEGMENTS :: int where "MMS_SEGMENTS = 3"

definition metered_quantity :: "message_payload \<Rightarrow> int" where
  "metered_quantity p = (if pl_mms p then MMS_SEGMENTS else case counted_parts p of None \<Rightarrow> 1 | Some n \<Rightarrow> n)"

definition usage_of :: "ms \<Rightarrow> string \<Rightarrow> string \<Rightarrow> message_payload \<Rightarrow> outbox_row \<Rightarrow> usage_row" where
  "usage_of now uid x p m =
     \<lparr>ug_id = uid, ug_company = ob_company m, ug_message = Some (ob_id m), ug_mms = pl_mms p,
      ug_quantity = metered_quantity p, ug_identifier = Some x, ug_reported = None, ug_created = now\<rparr>"

text \<open>The unique index on the message: a second insert is refused, and the handler takes that for done.\<close>

definition insert_usage :: "usage_row \<Rightarrow> usage_ledger \<Rightarrow> usage_ledger option" where
  "insert_usage u us =
     (case ug_message u of
        Some i \<Rightarrow> if metered us i then None else Some (u # us)
      | None \<Rightarrow> Some (u # us))"

definition stamp_usage :: "ms \<Rightarrow> string \<Rightarrow> usage_ledger \<Rightarrow> usage_ledger" where
  "stamp_usage now uid us = map (\<lambda>u. if ug_id u = uid \<and> ug_reported u = None then u\<lparr>ug_reported := Some now\<rparr> else u) us"

record meter_event =
  me_identifier :: string
  me_customer :: string
  me_value :: int

text \<open>\<open>None\<close> where the value is not a positive integer, which throws.\<close>

definition reportMeterEvent :: "string \<Rightarrow> string \<Rightarrow> int \<Rightarrow> meter_event option" where
  "reportMeterEvent ident customer v =
     (if v < 1 then None else Some \<lparr>me_identifier = ident, me_customer = customer, me_value = v\<rparr>)"

definition usage_identifier :: "usage_row \<Rightarrow> string" where
  "usage_identifier u = (case ug_identifier u of None \<Rightarrow> ug_id u | Some x \<Rightarrow> x)"

record stripe_error =
  er_type :: "string option"
  er_rawType :: "string option"
  er_message :: "string option"

fun ascii_lower :: "char \<Rightarrow> char" where
  "ascii_lower c = (let n = of_char c :: nat in if 65 \<le> n \<and> n \<le> 90 then char_of (n + 32) else c)"

text \<open>\<open>/needle/i.test(hay)\<close> for a lower-case needle.\<close>

fun mentions :: "string \<Rightarrow> string \<Rightarrow> bool" where
  "mentions needle [] = (needle = [])"
| "mentions needle (c # cs) = (take (length needle) (map ascii_lower (c # cs)) = needle \<or> mentions needle cs)"

definition isDuplicateMeterIdentifierError :: "stripe_error \<Rightarrow> bool" where
  "isDuplicateMeterIdentifierError e \<longleftrightarrow>
     (er_type e = Some ''StripeInvalidRequestError'' \<or> er_rawType e = Some ''invalid_request_error'')
     \<and> (case er_message e of None \<Rightarrow> False
        | Some m \<Rightarrow> mentions ''identifier'' m \<and> (mentions ''already'' m \<or> mentions ''duplicate'' m))"

datatype meter_answer = MeterTaken | MeterFailed stripe_error

text \<open>What is taken for success: the webhook's handler stamps only an accepted report, the hourly one a duplicate too.\<close>

definition report_done :: "bool \<Rightarrow> meter_answer \<Rightarrow> bool" where
  "report_done cron a = (case a of MeterTaken \<Rightarrow> True | MeterFailed e \<Rightarrow> cron \<and> isDuplicateMeterIdentifierError e)"

definition REPORT_BATCH :: nat where "REPORT_BATCH = 200"

definition unreported :: "usage_ledger \<Rightarrow> usage_row list" where
  "unreported us = take REPORT_BATCH (sort_key ug_created (filter (\<lambda>u. ug_reported u = None) us))"

end
