(* ===== verification/Message_System.thy ===== *)
theory Message_System
  imports Message_Status
begin

text \<open>
  A text's life as a system: the routes, the worker's sweeps and the carrier's webhooks run as tasks,
  and a task is the rest of one run after an await. \<open>mstep\<close> takes one task to its next await, or runs
  one operation of somebody else. A task may vanish between any two awaits (a worker that died), and
  any statement may throw.

  \<open>mg_carrier\<close> is what Telnyx accepted, each text with its idempotency key and the id it got;
  \<open>mg_meter\<close> what Stripe accepted, \<open>mg_sent\<close> the requests made, \<open>mg_told\<close> the \<open>message.failed\<close> events,
  \<open>mg_ids\<close> every id the database gave out.
\<close>

section \<open>The two vendors\<close>

text \<open>
  What the vendors document, as two switches: a request with a used idempotency key is answered with
  the first request's id and sends nothing, and a used meter identifier is refused. Either may be off.
\<close>

record promises =
  pr_keys :: bool
  pr_meter :: bool

definition carrier_answers ::
  "promises \<Rightarrow> (string \<times> string) list \<Rightarrow> string \<Rightarrow> telnyx_result \<Rightarrow> (string \<times> string) list \<Rightarrow> bool" where
  "carrier_answers P cs key res cs' \<longleftrightarrow>
     cs' = cs \<and> (case res of Accepted x \<Rightarrow> pr_keys P \<and> (key, x) \<in> set cs | Refused code \<Rightarrow> True)
     \<or> (\<exists>x. x \<notin> snd ` set cs \<and> (pr_keys P \<longrightarrow> key \<notin> fst ` set cs) \<and> cs' = (key, x) # cs
          \<and> (res = Accepted x \<or> res = Refused None))"

definition stripe_answers :: "promises \<Rightarrow> meter_event list \<Rightarrow> meter_event \<Rightarrow> meter_answer \<Rightarrow> meter_event list \<Rightarrow> bool" where
  "stripe_answers P es e a es' \<longleftrightarrow>
     es' = es \<and> (\<exists>f. a = MeterFailed f \<and> (isDuplicateMeterIdentifierError f \<longrightarrow> me_identifier e \<in> me_identifier ` set es))
     \<or> (pr_meter P \<longrightarrow> me_identifier e \<notin> me_identifier ` set es) \<and> es' = e # es
       \<and> (a = MeterTaken \<or> (\<exists>f. a = MeterFailed f \<and> \<not> isDuplicateMeterIdentifierError f))"


section \<open>Tasks\<close>

datatype msg_origin = Route | Once | Sweep "outbox_row list"

datatype msg_task =
    SendTask ms outbox_row string string clearance msg_origin
  | PersistTask ms outbox_row send_patch msg_origin
  | SweepTask ms "outbox_row list"
  | SweepClaim ms outbox_row string clearance "outbox_row list"
  | SweepFail ms outbox_row "outbox_row list"
  | FinalizeTask string message_payload outbox_row
  | TellTask string message_payload outbox_row
  | MeterTask string message_payload outbox_row
  | ReportTask bool usage_row "usage_row list"
  | StampTask bool usage_row "usage_row list"

record msg_sys =
  mg_now :: ms
  mg_rows :: outbox
  mg_usage :: usage_ledger
  mg_carrier :: "(string \<times> string) list"
  mg_sent :: "send_effect list"
  mg_meter :: "meter_event list"
  mg_told :: "string list"
  mg_tasks :: "msg_task list"
  mg_ids :: "string set"

definition AUTO_RETRY_LIMIT :: nat where "AUTO_RETRY_LIMIT = 1"
definition RETRY_BATCH :: nat where "RETRY_BATCH = 25"

definition next_sweep :: "ms \<Rightarrow> outbox_row list \<Rightarrow> msg_task list" where
  "next_sweep n rs = (case rs of [] \<Rightarrow> [] | r # rest \<Rightarrow> [SweepTask n (r # rest)])"

definition next_report :: "bool \<Rightarrow> usage_row list \<Rightarrow> msg_task list" where
  "next_report cron us = (case us of [] \<Rightarrow> [] | u # rest \<Rightarrow> [ReportTask cron u rest])"

text \<open>A dispatch returned, or threw.\<close>

fun after_send :: "ms \<Rightarrow> msg_origin \<Rightarrow> msg_task list" where
  "after_send n (Sweep rest) = next_sweep n rest"
| "after_send n Route = []"
| "after_send n Once = []"

fun after_throw :: "ms \<Rightarrow> outbox_row \<Rightarrow> msg_origin \<Rightarrow> msg_task list" where
  "after_throw n r (Sweep rest) = [SweepFail n r rest]"
| "after_throw n r Route = []"
| "after_throw n r Once = []"

text \<open>
  What a throw leaves of a task: the automatic retry catches it for its row and swallows a second one,
  the webhook's handler ends, and so does the hourly report at a stamp.
\<close>

fun thrown :: "msg_task \<Rightarrow> msg_task list" where
  "thrown (SendTask n r d b c og) = after_throw n r og"
| "thrown (PersistTask n r p og) = after_throw n r og"
| "thrown (SweepTask n rs) = (case rs of [] \<Rightarrow> [] | r # rest \<Rightarrow> [SweepFail n r rest])"
| "thrown (SweepClaim n r d c rest) = [SweepFail n r rest]"
| "thrown (SweepFail n r rest) = next_sweep n rest"
| "thrown (FinalizeTask x p m) = []"
| "thrown (TellTask x p m) = []"
| "thrown (MeterTask x p m) = []"
| "thrown (ReportTask cron u rest) = (if cron then next_report cron rest else [])"
| "thrown (StampTask cron u rest) = []"

definition into :: "msg_task \<Rightarrow> msg_task list \<Rightarrow> msg_sys \<Rightarrow> msg_sys" where
  "into k ks s = s\<lparr>mg_tasks := ks @ remove1 k (mg_tasks s)\<rparr>"

definition launch :: "msg_task list \<Rightarrow> msg_sys \<Rightarrow> msg_sys" where
  "launch ks s = s\<lparr>mg_tasks := ks @ mg_tasks s\<rparr>"

definition outbox_to :: "outbox \<Rightarrow> msg_sys \<Rightarrow> msg_sys" where
  "outbox_to t s = s\<lparr>mg_rows := t\<rparr>"

definition gives_id :: "string \<Rightarrow> msg_sys \<Rightarrow> msg_sys" where
  "gives_id i s = s\<lparr>mg_ids := insert i (mg_ids s)\<rparr>"

text \<open>A run of the worker ends before the window after which its row counts as stuck.\<close>

definition alive :: "ms \<Rightarrow> ms \<Rightarrow> bool" where
  "alive now n \<longleftrightarrow> now < n + STUCK_SEND_SECONDS * 1000"

text \<open>
  \<open>dispatchOutbound\<close> up to the answer of the carrier: what it is going to write to the row and what it
  asked Telnyx, or a throw. The write is the next await.
\<close>

definition send_stage ::
  "dispatch_world \<Rightarrow> outbox_row \<Rightarrow> string \<Rightarrow> string \<Rightarrow> clearance \<Rightarrow> string \<Rightarrow> (send_patch \<times> send_effect list) option" where
  "send_stage w r d body c detail =
     (if c \<noteq> Cleared d then None
      else if dw_allowed w = Some False then Some (LimitPatch, [])
      else case telnyxCreateMessage w d body (sendIdempotencyKey (ob_id r)) of
        (res, effs) \<Rightarrow> Some (result_patch res detail, effs))"

definition persisted :: "ms \<Rightarrow> outbox_row \<Rightarrow> send_patch \<Rightarrow> outbox \<Rightarrow> outbox" where
  "persisted now r p t = (case persistMessagePatch now (ob_id r) (ob_company r) p t of None \<Rightarrow> t | Some t' \<Rightarrow> t')"

definition resend_detail :: string where
  "resend_detail = ''The send was interrupted before reaching the carrier and could not be resent automatically.''"


section \<open>Steps\<close>

inductive mstep :: "promises \<Rightarrow> msg_sys \<Rightarrow> msg_sys \<Rightarrow> bool" for P where
  m_tick: "mg_now s \<le> n \<Longrightarrow> mstep P s (s\<lparr>mg_now := n\<rparr>)"
| m_other: "ob_id r \<notin> mg_ids s \<Longrightarrow> ob_direction r \<noteq> DirOutbound \<Longrightarrow> ob_key r = None \<Longrightarrow> ob_call r = None \<Longrightarrow>
     (ob_telnyx r \<noteq> None \<longrightarrow> ob_telnyx r \<notin> ob_telnyx ` set (mg_rows s)) \<Longrightarrow>
     mstep P s (gives_id (ob_id r) (outbox_to (r # mg_rows s) s))"
| m_touch: "mstep P s (outbox_to (upd_out (mg_now s) (by_id i) id (mg_rows s)) s)"
| m_gate: "i \<notin> mg_ids s \<Longrightarrow> runPreSendGates gw n d offRamp = Inr c \<Longrightarrow>
     gate_outbound_send (mg_now s) w primary optedOut early i company thread sender body key est (mg_rows s) (mg_usage s)
       = (GateAdmits r, t) \<Longrightarrow>
     mstep P s (launch [SendTask (mg_now s) r d (ob_body r) c Route] (gives_id i (outbox_to t s)))"
| m_auto: "i \<notin> mg_ids s \<Longrightarrow> runPreSendGates gw n d offRamp = Inr c \<Longrightarrow>
     claim_auto_reply (mg_now s) w primary optedOut lastAuto i company thread body est throttle (mg_rows s) (mg_usage s)
       = (Inr r, t) \<Longrightarrow>
     mstep P s (launch [SendTask (mg_now s) r d body c Once] (gives_id i (outbox_to t s)))"
| m_missed: "i \<notin> mg_ids s \<Longrightarrow> runPreSendGates gw n caller False = Inr c \<Longrightarrow>
     claim_missed_call_text (mg_now s) w own optedOut lastAuto i company thread caller call body est throttle
       (mg_rows s) (mg_usage s) = (Inr (r, replayed), t) \<Longrightarrow>
     mstep P s (launch [SendTask (mg_now s) r caller body c Once] (gives_id i (outbox_to t s)))"
| m_fire: "i \<notin> mg_ids s \<Longrightarrow> runPreSendGates gw n d False = Inr c \<Longrightarrow> find_live j q = Some sr \<Longrightarrow>
     api_fire_scheduled_message (mg_now s) job cal i j q = (Fired m, q') \<Longrightarrow> 1 \<le> est \<Longrightarrow>
     r = fired_row (mg_now s) i est sr \<Longrightarrow>
     mstep P s (launch [SendTask (mg_now s) r d (sc_body sr) c Once] (gives_id i (outbox_to (r # mg_rows s) s)))"
| m_retry: "runPreSendGates gw n d False = Inr c \<Longrightarrow>
     claim_message_retry (mg_now s) w primary optedOut company i STUCK_SEND_SECONDS (mg_rows s) (mg_usage s) = (Inr r, t) \<Longrightarrow>
     mstep P s (launch [SendTask (mg_now s) r d (ob_body r) c Once] (outbox_to t s))"
| m_retry_refused:
     "claim_message_retry (mg_now s) w primary optedOut company i STUCK_SEND_SECONDS (mg_rows s) (mg_usage s) = (Inl e, t) \<Longrightarrow>
     mstep P s (outbox_to t s)"
| m_interrupt: "k = SendTask n r d b c Route \<Longrightarrow> k \<in> set (mg_tasks s) \<Longrightarrow> alive (mg_now s) n \<Longrightarrow>
     mstep P s (into k [] (outbox_to (persisted (mg_now s) r (InterruptPatch interrupted_detail) (mg_rows s)) s))"
| m_send: "k = SendTask n r d b c og \<Longrightarrow> k \<in> set (mg_tasks s) \<Longrightarrow> alive (mg_now s) n \<Longrightarrow>
     send_stage w r d b c detail = Some (p, effs) \<Longrightarrow>
     (if effs = [] then cs = mg_carrier s
      else carrier_answers P (mg_carrier s) (sendIdempotencyKey (ob_id r)) (dw_result w) cs) \<Longrightarrow>
     mstep P s (into k [PersistTask n r p og] (s\<lparr>mg_carrier := cs, mg_sent := effs @ mg_sent s\<rparr>))"
| m_persist: "k = PersistTask n r p og \<Longrightarrow> k \<in> set (mg_tasks s) \<Longrightarrow> alive (mg_now s) n \<Longrightarrow>
     persistMessagePatch (mg_now s) (ob_id r) (ob_company r) p (mg_rows s) = Some t \<Longrightarrow>
     mstep P s (into k (if p = LimitPatch then after_throw n r og else after_send n og) (outbox_to t s))"
| m_throw: "k \<in> set (mg_tasks s) \<Longrightarrow> mstep P s (into k (thrown k) s)"
| m_drop: "k \<in> set (mg_tasks s) \<Longrightarrow> mstep P s (into k [] s)"
| m_claim: "claim_stuck_sends_for_retry (mg_now s) STUCK_SEND_SECONDS AUTO_RETRY_LIMIT RETRY_BATCH locked (mg_rows s) = (rs, t) \<Longrightarrow>
     mstep P s (launch (next_sweep (mg_now s) rs) (outbox_to t s))"
| m_skip: "k = SweepTask n (r # rest) \<Longrightarrow> k \<in> set (mg_tasks s) \<Longrightarrow> mstep P s (into k (next_sweep n rest) s)"
| m_sweep_gate: "k = SweepTask n (r # rest) \<Longrightarrow> k \<in> set (mg_tasks s) \<Longrightarrow> alive (mg_now s) n \<Longrightarrow>
     runPreSendGates gw now d False = Inr c \<Longrightarrow> mstep P s (into k [SweepClaim n r d c rest] s)"
| m_sweep_claim: "k = SweepClaim n r d c rest \<Longrightarrow> k \<in> set (mg_tasks s) \<Longrightarrow> alive (mg_now s) n \<Longrightarrow>
     claim_message_retry (mg_now s) w primary optedOut (ob_company r) (ob_id r) STUCK_SEND_SECONDS (mg_rows s) (mg_usage s)
       = (res, t) \<Longrightarrow>
     mstep P s (into k (case res of Inr q \<Rightarrow> [SendTask n q d (ob_body q) c (Sweep rest)] | Inl e \<Rightarrow> [SweepFail n r rest])
       (outbox_to t s))"
| m_sweep_fail: "k = SweepFail n r rest \<Longrightarrow> k \<in> set (mg_tasks s) \<Longrightarrow> alive (mg_now s) n \<Longrightarrow>
     mstep P s (into k (next_sweep n rest) (outbox_to (persisted (mg_now s) r (InterruptPatch resend_detail) (mg_rows s)) s))"
| m_fail_stuck: "mstep P s (outbox_to (snd (fail_stuck_outbound_sends (mg_now s) STUCK_SEND_SECONDS (mg_rows s))) s)"
| m_sent: "mstep P s (outbox_to (markSent (mg_now s) x (mg_rows s)) s)"
| m_finalized: "find_telnyx x (mg_rows s) = Some m \<Longrightarrow> mstep P s (launch [FinalizeTask x p m] s)"
| m_finalize: "k = FinalizeTask x p m \<Longrightarrow> k \<in> set (mg_tasks s) \<Longrightarrow>
     mstep P s (into k (if ob_direction m = DirOutbound then [TellTask x p m] else [])
       (outbox_to (finalize_update (mg_now s) x p (mg_rows s)) s))"
| m_tell: "k = TellTask x p m \<Longrightarrow> k \<in> set (mg_tasks s) \<Longrightarrow>
     mstep P s (into k [MeterTask x p m]
       (s\<lparr>mg_told := (if tells_failure p m then [ob_id m] else []) @ mg_told s\<rparr>))"
| m_meter: "k = MeterTask x p m \<Longrightarrow> k \<in> set (mg_tasks s) \<Longrightarrow> i \<notin> mg_ids s \<Longrightarrow> u = usage_of (mg_now s) i x p m \<Longrightarrow>
     mstep P s (case insert_usage u (mg_usage s) of
        None \<Rightarrow> into k [] s
      | Some us \<Rightarrow> into k [ReportTask False u []] (gives_id i (s\<lparr>mg_usage := us\<rparr>)))"
| m_hourly: "mstep P s (launch (next_report True (unreported (mg_usage s))) s)"
| m_unbilled: "k = ReportTask cron u rest \<Longrightarrow> k \<in> set (mg_tasks s) \<Longrightarrow> mstep P s (into k (next_report cron rest) s)"
| m_report: "k = ReportTask cron u rest \<Longrightarrow> k \<in> set (mg_tasks s) \<Longrightarrow>
     reportMeterEvent (usage_identifier u) customer (ug_quantity u) = Some e \<Longrightarrow>
     stripe_answers P (mg_meter s) e a es \<Longrightarrow>
     mstep P s (into k (if report_done cron a then [StampTask cron u rest] else next_report cron rest) (s\<lparr>mg_meter := es\<rparr>))"
| m_stamp: "k = StampTask cron u rest \<Longrightarrow> k \<in> set (mg_tasks s) \<Longrightarrow>
     mstep P s (into k (next_report cron rest) (s\<lparr>mg_usage := stamp_usage (mg_now s) (ug_id u) (mg_usage s)\<rparr>))"

definition msg_start :: "ms \<Rightarrow> msg_sys" where
  "msg_start n = \<lparr>mg_now = n, mg_rows = [], mg_usage = [], mg_carrier = [], mg_sent = [], mg_meter = [], mg_told = [],
     mg_tasks = [], mg_ids = {}\<rparr>"

inductive mreach :: "promises \<Rightarrow> msg_sys \<Rightarrow> bool" for P where
  m_start: "mreach P (msg_start n)"
| m_step: "mreach P s \<Longrightarrow> mstep P s s' \<Longrightarrow> mreach P s'"

lemma into_simps [simp]:
  "mg_now (into k ks s) = mg_now s" "mg_rows (into k ks s) = mg_rows s" "mg_usage (into k ks s) = mg_usage s"
  "mg_carrier (into k ks s) = mg_carrier s" "mg_sent (into k ks s) = mg_sent s" "mg_meter (into k ks s) = mg_meter s"
  "mg_told (into k ks s) = mg_told s" "mg_ids (into k ks s) = mg_ids s"
  "mg_tasks (into k ks s) = ks @ remove1 k (mg_tasks s)"
  by (simp_all add: into_def)

lemma launch_simps [simp]:
  "mg_now (launch ks s) = mg_now s" "mg_rows (launch ks s) = mg_rows s" "mg_usage (launch ks s) = mg_usage s"
  "mg_carrier (launch ks s) = mg_carrier s" "mg_sent (launch ks s) = mg_sent s" "mg_meter (launch ks s) = mg_meter s"
  "mg_told (launch ks s) = mg_told s" "mg_ids (launch ks s) = mg_ids s" "mg_tasks (launch ks s) = ks @ mg_tasks s"
  by (simp_all add: launch_def)

lemma outbox_to_simps [simp]:
  "mg_now (outbox_to t s) = mg_now s" "mg_rows (outbox_to t s) = t" "mg_usage (outbox_to t s) = mg_usage s"
  "mg_carrier (outbox_to t s) = mg_carrier s" "mg_sent (outbox_to t s) = mg_sent s" "mg_meter (outbox_to t s) = mg_meter s"
  "mg_told (outbox_to t s) = mg_told s" "mg_ids (outbox_to t s) = mg_ids s" "mg_tasks (outbox_to t s) = mg_tasks s"
  by (simp_all add: outbox_to_def)

lemma gives_id_simps [simp]:
  "mg_now (gives_id i s) = mg_now s" "mg_rows (gives_id i s) = mg_rows s" "mg_usage (gives_id i s) = mg_usage s"
  "mg_carrier (gives_id i s) = mg_carrier s" "mg_sent (gives_id i s) = mg_sent s" "mg_meter (gives_id i s) = mg_meter s"
  "mg_told (gives_id i s) = mg_told s" "mg_tasks (gives_id i s) = mg_tasks s"
  "mg_ids (gives_id i s) = insert i (mg_ids s)"
  by (simp_all add: gives_id_def)

end
