(* ===== verification/Message_Facts.thy ===== *)
theory Message_Facts
  imports Message_System
begin

text \<open>
  What the operations on \<open>messages\<close> keep. \<open>row_edit\<close> is the contract of every update but the one that
  records the carrier's id: a row stays the same text and keeps its Telnyx id. \<open>edited\<close> is what a
  table becomes under such updates, \<open>held\<close> the state in which a live dispatch has its row.
\<close>

section \<open>Edits of rows\<close>

definition same_text :: "outbox_row \<Rightarrow> outbox_row \<Rightarrow> bool" where
  "same_text r q \<longleftrightarrow> ob_id q = ob_id r \<and> ob_company q = ob_company r \<and> ob_thread q = ob_thread r
     \<and> ob_direction q = ob_direction r \<and> ob_body q = ob_body r \<and> ob_key q = ob_key r \<and> ob_call q = ob_call r
     \<and> ob_created q = ob_created r"

lemma same_text_refl [simp]: "same_text r r"
  by (simp add: same_text_def)

lemma same_text_trans: "same_text a b \<Longrightarrow> same_text b c \<Longrightarrow> same_text a c"
  by (simp add: same_text_def)

definition wf_outbox :: "outbox \<Rightarrow> bool" where
  "wf_outbox t \<longleftrightarrow> distinct (map ob_id t)
     \<and> (\<forall>q \<in> set t. \<forall>r \<in> set t. ob_company q = ob_company r \<and> ob_key q = ob_key r \<and> ob_key q \<noteq> None \<longrightarrow> ob_id q = ob_id r)
     \<and> (\<forall>q \<in> set t. \<forall>r \<in> set t. ob_telnyx q = ob_telnyx r \<and> ob_telnyx q \<noteq> None \<longrightarrow> ob_id q = ob_id r)"

lemma wf_outboxD:
  "wf_outbox t \<Longrightarrow> distinct (map ob_id t)"
  "wf_outbox t \<Longrightarrow> \<forall>q \<in> set t. \<forall>r \<in> set t. ob_company q = ob_company r \<and> ob_key q = ob_key r \<and> ob_key q \<noteq> None \<longrightarrow> ob_id q = ob_id r"
  "wf_outbox t \<Longrightarrow> \<forall>q \<in> set t. \<forall>r \<in> set t. ob_telnyx q = ob_telnyx r \<and> ob_telnyx q \<noteq> None \<longrightarrow> ob_id q = ob_id r"
  unfolding wf_outbox_def by blast+

definition known :: "outbox \<Rightarrow> outbox_row \<Rightarrow> bool" where
  "known t r \<longleftrightarrow> (\<exists>q \<in> set t. same_text r q)"

definition edited :: "ms \<Rightarrow> outbox \<Rightarrow> outbox \<Rightarrow> bool" where
  "edited now t t' \<longleftrightarrow> list_all2 (\<lambda>q q'. same_text q q' \<and> ob_telnyx q' = ob_telnyx q \<and> (q' = q \<or> ob_updated q' = now)) t t'"

lemma edited_refl [simp]: "edited now t t"
  by (simp add: edited_def list.rel_refl)

lemma edited_trans:
  assumes "edited now t u" "edited now u v"
  shows "edited now t v"
  unfolding edited_def
  by (rule list_all2_trans [OF _ assms [unfolded edited_def]]) (auto dest: same_text_trans)

lemma edited_ids: "edited now t t' \<Longrightarrow> map ob_id t' = map ob_id t"
  unfolding edited_def by (induction rule: list_all2_induct) (auto simp: same_text_def)

lemma edited_later: "edited now t t' \<Longrightarrow> q' \<in> set t' \<Longrightarrow>
    \<exists>q \<in> set t. same_text q q' \<and> ob_telnyx q' = ob_telnyx q \<and> (q' = q \<or> ob_updated q' = now)"
  unfolding edited_def by (auto simp: list_all2_conv_all_nth in_set_conv_nth) (metis nth_mem)

lemma edited_before: "edited now t t' \<Longrightarrow> q \<in> set t \<Longrightarrow>
    \<exists>q' \<in> set t'. same_text q q' \<and> ob_telnyx q' = ob_telnyx q \<and> (q' = q \<or> ob_updated q' = now)"
  unfolding edited_def by (auto simp: list_all2_conv_all_nth in_set_conv_nth) (metis nth_mem)

lemma edited_known: "edited now t t' \<Longrightarrow> known t r \<Longrightarrow> known t' r"
  unfolding known_def by (meson edited_before same_text_trans)

lemma edited_wf:
  assumes e: "edited now t t'" and w: "wf_outbox t"
  shows "wf_outbox t'"
  unfolding wf_outbox_def
proof (intro conjI ballI impI)
  show "distinct (map ob_id t')" using w edited_ids [OF e] by (simp add: wf_outbox_def)
next
  fix q r assume q: "q \<in> set t'" and r: "r \<in> set t'" and k: "ob_company q = ob_company r \<and> ob_key q = ob_key r \<and> ob_key q \<noteq> None"
  obtain q0 r0 where "q0 \<in> set t" "same_text q0 q" "r0 \<in> set t" "same_text r0 r"
    using edited_later [OF e q] edited_later [OF e r] by blast
  then show "ob_id q = ob_id r" using w k unfolding wf_outbox_def same_text_def by metis
next
  fix q r assume q: "q \<in> set t'" and r: "r \<in> set t'" and k: "ob_telnyx q = ob_telnyx r \<and> ob_telnyx q \<noteq> None"
  obtain q0 r0 where "q0 \<in> set t" "same_text q0 q" "ob_telnyx q = ob_telnyx q0" "r0 \<in> set t" "same_text r0 r" "ob_telnyx r = ob_telnyx r0"
    using edited_later [OF e q] edited_later [OF e r] by blast
  then show "ob_id q = ob_id r" using w k unfolding wf_outbox_def same_text_def by metis
qed

lemma outbox_by_id: "wf_outbox t \<Longrightarrow> q \<in> set t \<Longrightarrow> r \<in> set t \<Longrightarrow> ob_id q = ob_id r \<Longrightarrow> q = r"
  by (auto simp: wf_outbox_def distinct_map inj_on_def)

locale row_edit =
  fixes f :: "outbox_row \<Rightarrow> outbox_row"
  assumes edit_text [simp]: "same_text r (f r)"
    and edit_telnyx [simp]: "ob_telnyx (f r) = ob_telnyx r"
begin

lemma upd_edited: "edited now t (upd_out now P f t)"
proof -
  have "same_text r ((f r)\<lparr>ob_updated := now\<rparr>)" for r using edit_text [of r] by (simp add: same_text_def)
  then show ?thesis by (simp add: edited_def upd_out_def list_all2_map2 list.rel_refl)
qed

end

interpretation touch_edit: row_edit id
  by unfold_locales simp_all
interpretation fail_edit: row_edit fail_out
  by unfold_locales (simp_all add: fail_out_def same_text_def)
interpretation requeue_edit: row_edit requeue
  by unfold_locales (simp_all add: requeue_def same_text_def)
interpretation bump_edit: row_edit "\<lambda>r. r\<lparr>ob_autoRetries := Suc (ob_autoRetries r)\<rparr>"
  by unfold_locales (simp_all add: same_text_def)
interpretation sent_edit: row_edit "\<lambda>r. r\<lparr>ob_status := Some MsgSent\<rparr>"
  by unfold_locales (simp_all add: same_text_def)
interpretation finalize_edit: row_edit "finalize_row p" for p
  by unfold_locales (simp_all add: finalize_row_def same_text_def)
interpretation refuse_edit: row_edit "apply_send_patch (RefusePatch code reason detail)" for code reason detail
  by unfold_locales (simp_all add: same_text_def)
interpretation limit_edit: row_edit "apply_send_patch LimitPatch"
  by unfold_locales (simp_all add: same_text_def)
interpretation interrupt_edit: row_edit "apply_send_patch (InterruptPatch detail)" for detail
  by unfold_locales (simp_all add: same_text_def)

lemma patch_edited: "(\<forall>x. p \<noteq> AcceptPatch x) \<Longrightarrow> edited now t (upd_out now P (apply_send_patch p) t)"
  by (cases p) (simp_all add: refuse_edit.upd_edited limit_edit.upd_edited interrupt_edit.upd_edited)

lemma persisted_edited: "(\<forall>x. p \<noteq> AcceptPatch x) \<Longrightarrow> edited now t (persisted now r p t)"
  by (simp add: persisted_def persistMessagePatch_def patch_edited)

lemma retry_edited: "claim_message_retry now w primary opted company i secs t us = (res, t') \<Longrightarrow> edited now t t'"
  unfolding claim_message_retry_def Let_def
  by (auto split: if_splits option.splits prod.splits
      intro: fail_edit.upd_edited requeue_edit.upd_edited edited_trans [OF fail_edit.upd_edited requeue_edit.upd_edited])

lemma claim_edited: "claim_stuck_sends_for_retry now secs attempts limit locked t = (rs, t') \<Longrightarrow> edited now t t'"
  by (auto simp: claim_stuck_sends_for_retry_def Let_def intro: bump_edit.upd_edited)

lemma fail_stuck_edited: "edited now t (snd (fail_stuck_outbound_sends now secs t))"
  by (simp add: fail_stuck_outbound_sends_def fail_edit.upd_edited)

lemma sent_edited: "edited now t (markSent now x t)"
  by (simp add: markSent_def sent_edit.upd_edited)

lemma finalize_edited: "edited now t (finalize_update now x p t)"
  by (simp add: finalize_update_def finalize_edit.upd_edited)

lemmas table_edits = touch_edit.upd_edited persisted_edited retry_edited claim_edited fail_stuck_edited sent_edited finalize_edited


section \<open>What the admitting functions answer\<close>

lemma find_unique:
  assumes "distinct (map ob_id t)" and P: "\<And>a b. P a \<Longrightarrow> P b \<Longrightarrow> ob_id a = ob_id b"
  shows "find P t = Some r \<longleftrightarrow> r \<in> set t \<and> P r"
  using assms(1)
proof (induction t)
  case (Cons a t)
  have "r \<notin> set t" if "P a" "P r"
  proof
    assume "r \<in> set t"
    then have "ob_id r \<in> ob_id ` set t" by simp
    then show False using Cons.prems unfolding P [OF \<open>P r\<close> \<open>P a\<close>] by simp
  qed
  then show ?case using Cons by (cases "P a") auto
qed simp

lemma find_message_iff:
  assumes "wf_outbox t"
  shows "find_message company i t = Some r \<longleftrightarrow> r \<in> set t \<and> ob_id r = i \<and> ob_company r = company"
  unfolding find_message_def by (rule find_unique) (use assms in \<open>simp_all add: wf_outbox_def\<close>)

lemma gate_admits:
  assumes "gate_outbound_send now w primary optedOut early i company thread sender body key est t us = (GateAdmits r, t')"
  shows "t' = r # t \<and> (\<exists>b n user k. r = queued_row now i company thread b n user (Some k) None \<and> 1 \<le> n
           \<and> est = Some n \<and> key = Some k \<and> find_key company k t = None)"
  using assms unfolding gate_outbound_send_def Let_def
  by (auto split: option.splits if_splits prod.splits)

lemma auto_admits:
  assumes "claim_auto_reply now w primary optedOut lastAuto i company thread body est throttle t us = (Inr r, t')"
  shows "t' = r # t \<and> 1 \<le> est \<and> (\<exists>owner. r = queued_row now i company thread body est owner None None)"
  using assms unfolding claim_auto_reply_def Let_def by (auto split: option.splits if_splits)

lemma missed_admits:
  assumes "claim_missed_call_text now w own optedOut lastAuto i company thread caller call body est throttle t us
             = (Inr (r, replayed), t')"
  shows "if replayed then t' = t \<and> r \<in> set t \<and> ob_call r = Some call \<and> ob_company r = company \<and> ob_telnyx r = None
             \<and> ob_status r \<in> {Some MsgQueued, Some MsgFailed}
         else t' = r # t \<and> 1 \<le> est \<and> (\<exists>owner. r = queued_row now i company thread body est owner None (Some call))"
  using assms unfolding claim_missed_call_text_def Let_def
  by (auto split: option.splits if_splits dest: find_Some_iff [THEN iffD1])



section \<open>A row a live dispatch has\<close>

definition held :: "outbox \<Rightarrow> ms \<Rightarrow> string \<Rightarrow> bool" where
  "held t n i \<longleftrightarrow> (\<exists>q \<in> set t. ob_id q = i \<and> ob_direction q = DirOutbound \<and> ob_call q = None \<and> ob_telnyx q = None
     \<and> ob_status q = Some MsgQueued \<and> n \<le> ob_updated q)"

lemma held_Cons: "held t n i \<Longrightarrow> held (r # t) n i"
  by (auto simp: held_def)

lemma held_new: "1 \<le> est \<Longrightarrow> held (queued_row now i company thread body est sender key None # t) now i"
  by (simp add: held_def queued_row_def)

lemma not_stuck: "alive now n \<Longrightarrow> n \<le> ob_updated q \<Longrightarrow> \<not> older_than now STUCK_SEND_SECONDS q"
  by (simp add: alive_def older_than_def)

context row_edit begin

lemma upd_held:
  assumes h: "held t n i" and n: "n \<le> now"
    and s: "\<And>q. q \<in> set t \<Longrightarrow> ob_id q = i \<Longrightarrow> ob_telnyx q = None \<Longrightarrow> ob_status q = Some MsgQueued \<Longrightarrow> n \<le> ob_updated q \<Longrightarrow>
              P q \<Longrightarrow> ob_status (f q) = Some MsgQueued"
  shows "held (upd_out now P f t) n i"
proof -
  obtain q where q: "q \<in> set t" "ob_id q = i" "ob_direction q = DirOutbound" "ob_call q = None" "ob_telnyx q = None"
    "ob_status q = Some MsgQueued" "n \<le> ob_updated q" using h by (auto simp: held_def)
  have "(if P q then (f q)\<lparr>ob_updated := now\<rparr> else q) \<in> set (upd_out now P f t)"
    using q(1) by (simp add: upd_out_def)
  moreover have "P q \<Longrightarrow> ob_status (f q) = Some MsgQueued" using s q by blast
  ultimately show ?thesis
    using q n edit_text [of q] edit_telnyx [of q] unfolding held_def same_text_def
    by (intro bexI [where x = "if P q then (f q)\<lparr>ob_updated := now\<rparr> else q"]) auto
qed

end

lemma held_apart: "held t n i \<Longrightarrow> (\<And>q. q \<in> set t \<Longrightarrow> ob_id q = i \<Longrightarrow> \<not> P q) \<Longrightarrow> held (upd_out now P f t) n i"
  unfolding held_def upd_out_def by force

lemma retry_held:
  assumes "wf_outbox t" "held t n i" "alive now n"
    and "claim_message_retry now w primary opted company i STUCK_SEND_SECONDS t us = (res, t')"
  shows "t' = t \<and> (\<exists>e. res = Inl e)"
proof (cases "find_message company i t")
  case None
  then show ?thesis using assms(4) by (auto simp: claim_message_retry_def split: if_splits option.splits)
next
  case (Some r)
  then have r: "r \<in> set t" "ob_id r = i" using find_message_iff [OF assms(1)] by auto
  obtain q where q: "q \<in> set t" "ob_id q = i" "ob_status q = Some MsgQueued" "n \<le> ob_updated q"
    using assms(2) by (auto simp: held_def)
  then have "q = r" using outbox_by_id [OF assms(1)] r by metis
  then have "ob_status r = Some MsgQueued" "\<not> older_than now STUCK_SEND_SECONDS r"
    using q not_stuck [OF assms(3)] by auto
  then show ?thesis using assms(4) Some by (auto simp: claim_message_retry_def split: if_splits option.splits)
qed

lemma retry_apart:
  assumes "held t n i" "n \<le> now" "i \<noteq> j" "claim_message_retry now w primary opted company j secs t us = (res, t')"
  shows "held t' n i"
proof -
  have a: "held (upd_out now (by_id j) f u) n i" if "held u n i" for f u
    using held_apart [OF that] assms(3) by (simp add: by_id_def)
  show ?thesis using assms(4) assms(1) unfolding claim_message_retry_def Let_def
    by (auto split: if_splits option.splits intro: a)
qed

lemma retry_keeps:
  assumes "wf_outbox t" "held t n i" "alive now n" "n \<le> now"
    and "claim_message_retry now w primary opted company j STUCK_SEND_SECONDS t us = (res, t')"
  shows "held t' n i"
proof (cases "i = j")
  case True
  then show ?thesis using retry_held [OF assms(1-3), of w primary opted company us res t'] assms(2,5) by simp
qed (rule retry_apart [OF assms(2,4) _ assms(5)])

lemma retry_takes:
  assumes w: "wf_outbox t"
    and c: "claim_message_retry now w primary opted company i secs t us = (Inr r, t')"
  shows "r \<in> set t'" "ob_id r = i" "ob_direction r = DirOutbound" "ob_telnyx r = None" "ob_status r = Some MsgQueued"
    "ob_updated r = now" "\<exists>q \<in> set t. same_text q r"
proof -
  obtain q u where q: "find_message company i t = Some q" "ob_direction q = DirOutbound" "ob_telnyx q = None"
    and u: "u = (if ob_status q = Some MsgQueued then upd_out now (by_id i) fail_out t else t)"
    and r: "find_message company i (upd_out now (by_id i) requeue u) = Some r" "t' = upd_out now (by_id i) requeue u"
    using c unfolding claim_message_retry_def Let_def by (auto split: if_splits option.splits)
  have eu: "edited now t u" using u by (auto intro: fail_edit.upd_edited)
  have e: "edited now t t'" unfolding r(2) using edited_trans [OF eu requeue_edit.upd_edited] .
  have w': "wf_outbox t'" using edited_wf [OF e w] .
  have rr: "r \<in> set t'" "ob_id r = i" using r find_message_iff [OF w'] by auto
  then obtain v where v: "v \<in> set u" "r = (if by_id i v then (requeue v)\<lparr>ob_updated := now\<rparr> else v)"
    unfolding r(2) upd_out_def by auto
  have "by_id i v" using v rr(2) by (auto simp: by_id_def split: if_splits)
  then have rv: "r = (requeue v)\<lparr>ob_updated := now\<rparr>" using v by simp
  obtain q0 where q0: "q0 \<in> set t" "same_text q0 r" "ob_telnyx r = ob_telnyx q0" using edited_later [OF e rr(1)] by blast
  have "q0 = q" using q0 rr(2) q(1) find_message_iff [OF w] outbox_by_id [OF w] unfolding same_text_def by metis
  then show "ob_direction r = DirOutbound" "ob_telnyx r = None" using q0 q by (auto simp: same_text_def)
  show "r \<in> set t'" "ob_id r = i" "\<exists>q \<in> set t. same_text q r" using rr q0 by auto
  show "ob_status r = Some MsgQueued" "ob_updated r = now" unfolding rv by (simp_all add: requeue_def)
qed

lemma retry_new:
  assumes "wf_outbox t" "claim_message_retry now w primary opted company i secs t us = (Inr r, t')" "ob_call r = None"
  shows "held t' now i"
  using retry_takes [OF assms(1,2)] assms(3) unfolding held_def by fastforce

lemma claim_takes:
  assumes w: "wf_outbox t" and c: "claim_stuck_sends_for_retry now secs attempts limit locked t = (rs, t')"
  shows "distinct (map ob_id rs)"
    and "\<And>r. r \<in> set rs \<Longrightarrow> r \<in> set t' \<and> ob_direction r = DirOutbound \<and> ob_telnyx r = None \<and> ob_status r = Some MsgQueued
          \<and> ob_updated r = now \<and> (\<exists>q \<in> set t. same_text q r \<and> stuck now secs q \<and> ob_autoRetries r = Suc (ob_autoRetries q)
                \<and> ob_autoRetries q < attempts)"
proof -
  define F where "F = filter (\<lambda>r. stuck now secs r \<and> ob_autoRetries r < attempts \<and> ob_id r \<notin> set locked) t"
  define C where "C = map ob_id (take limit (sort_key ob_updated F))"
  define g where "g = (\<lambda>r::outbox_row. if ob_id r \<in> set C then (r\<lparr>ob_autoRetries := Suc (ob_autoRetries r)\<rparr>)\<lparr>ob_updated := now\<rparr> else r)"
  have t': "t' = map g t" and rs: "rs = filter (\<lambda>r. ob_id r \<in> set C) t'"
    using c by (auto simp: claim_stuck_sends_for_retry_def Let_def upd_out_def C_def F_def g_def)
  have "wf_outbox t'" using edited_wf [OF claim_edited [OF c] w] .
  then show "distinct (map ob_id rs)" unfolding rs by (simp add: wf_outbox_def distinct_map_filter)
  fix r assume "r \<in> set rs"
  then obtain q where q: "q \<in> set t" "r = g q" "ob_id r \<in> set C" unfolding rs t' by auto
  have "ob_id q \<in> set C" using q by (simp add: g_def split: if_splits)
  then obtain f where f: "f \<in> set F" "ob_id f = ob_id q" unfolding C_def by (auto dest: in_set_takeD)
  then have "f = q" using outbox_by_id [OF w, of f q] q(1) by (simp add: F_def)
  then have s: "stuck now secs q" "ob_autoRetries q < attempts" using f by (auto simp: F_def)
  have g: "r = q\<lparr>ob_autoRetries := Suc (ob_autoRetries q), ob_updated := now\<rparr>" using q \<open>ob_id q \<in> set C\<close> by (simp add: g_def)
  show "r \<in> set t' \<and> ob_direction r = DirOutbound \<and> ob_telnyx r = None \<and> ob_status r = Some MsgQueued
          \<and> ob_updated r = now \<and> (\<exists>q \<in> set t. same_text q r \<and> stuck now secs q \<and> ob_autoRetries r = Suc (ob_autoRetries q)
                \<and> ob_autoRetries q < attempts)"
    using s g imageI [OF q(1), of g] q(2) by (auto simp: stuck_def same_text_def t' intro: bexI [OF _ q(1)])
qed

lemma accepted_rows:
  assumes "persistMessagePatch now i company (AcceptPatch x) t = Some t'" "q' \<in> set t'"
  shows "\<exists>q \<in> set t. same_text q q' \<and> (ob_telnyx q' = ob_telnyx q \<or> ob_id q' = i \<and> ob_telnyx q' = Some x)
           \<and> (q' = q \<or> ob_updated q' = now)"
  using assms by (fastforce simp: persistMessagePatch_def upd_out_def same_text_def split: if_splits)

lemma accepted_ids: "persistMessagePatch now i company p t = Some t' \<Longrightarrow> map ob_id t' = map ob_id t"
  by (cases p) (auto simp: persistMessagePatch_def upd_out_def split: if_splits)

lemma accepted_known:
  assumes "persistMessagePatch now i company p t = Some t'" "known t r"
  shows "known t' r"
proof -
  obtain q where q: "q \<in> set t" "same_text r q" using assms(2) by (auto simp: known_def)
  define q' where "q' = (if ob_id q = i \<and> ob_company q = company then (apply_send_patch p q)\<lparr>ob_updated := now\<rparr> else q)"
  have "same_text q q'" unfolding q'_def by (cases p) (simp_all add: same_text_def)
  moreover have "q' \<in> set t'" using assms(1) q(1) by (auto simp: persistMessagePatch_def upd_out_def q'_def split: if_splits)
  ultimately show ?thesis using q(2) unfolding known_def by (blast intro: same_text_trans)
qed

lemma accepted_wf:
  assumes p: "persistMessagePatch now i company (AcceptPatch x) t = Some t'" and w: "wf_outbox t"
  shows "wf_outbox t'"
  unfolding wf_outbox_def
proof (intro conjI ballI impI)
  show "distinct (map ob_id t')" using w accepted_ids [OF p] by (simp add: wf_outbox_def)
next
  fix q r assume q: "q \<in> set t'" and r: "r \<in> set t'" and k: "ob_company q = ob_company r \<and> ob_key q = ob_key r \<and> ob_key q \<noteq> None"
  obtain q0 r0 where "q0 \<in> set t" "same_text q0 q" "r0 \<in> set t" "same_text r0 r"
    using accepted_rows [OF p q] accepted_rows [OF p r] by blast
  then show "ob_id q = ob_id r" using w k unfolding wf_outbox_def same_text_def by metis
next
  fix q r assume q: "q \<in> set t'" and r: "r \<in> set t'" and k: "ob_telnyx q = ob_telnyx r \<and> ob_telnyx q \<noteq> None"
  have free: "ob_telnyx a = Some x \<Longrightarrow> a \<in> set t \<Longrightarrow> ob_id a = i" for a
    using p by (auto simp: persistMessagePatch_def takes_id_def list_ex_iff split: if_splits)
  obtain q0 r0 where 0: "q0 \<in> set t" "same_text q0 q" "ob_telnyx q = ob_telnyx q0 \<or> ob_id q = i \<and> ob_telnyx q = Some x"
    "r0 \<in> set t" "same_text r0 r" "ob_telnyx r = ob_telnyx r0 \<or> ob_id r = i \<and> ob_telnyx r = Some x"
    using accepted_rows [OF p q] accepted_rows [OF p r] by blast
  have i: "ob_id q0 = ob_id q" "ob_id r0 = ob_id r" using 0 by (simp_all add: same_text_def)
  have "ob_telnyx q0 = ob_telnyx r0 \<Longrightarrow> ob_telnyx q0 \<noteq> None \<Longrightarrow> ob_id q0 = ob_id r0"
    using w 0 unfolding wf_outbox_def by blast
  then show "ob_id q = ob_id r" using 0 i k free by metis
qed

end
