(* ===== verification/Message_Invariants.thy ===== *)
theory Message_Invariants
  imports Message_Facts "HOL-Library.Multiset"
begin

text \<open>
  What holds in every reachable state of a text's life: the table's keys are unique and every id a row
  carries was given to that row's text by the carrier; at most one live dispatch has a row; the ledger
  has one entry for a text, and Stripe accepted nothing the ledger does not hold.
\<close>

section \<open>Rows and what the carrier accepted\<close>

abbreviation text_key :: "string \<Rightarrow> string" where
  "text_key \<equiv> sendIdempotencyKey"

fun rest_known :: "outbox \<Rightarrow> msg_origin \<Rightarrow> bool" where
  "rest_known t (Sweep rest) = (\<forall>r \<in> set rest. known t r)"
| "rest_known t Route = True"
| "rest_known t Once = True"

fun task_known :: "outbox \<Rightarrow> (string \<times> string) set \<Rightarrow> msg_task \<Rightarrow> bool" where
  "task_known t cs (SendTask n r d b c og) = (known t r \<and> rest_known t og)"
| "task_known t cs (PersistTask n r p og) = (known t r \<and> rest_known t og
     \<and> (\<forall>x. p = AcceptPatch x \<longrightarrow> (text_key (ob_id r), x) \<in> cs))"
| "task_known t cs (SweepTask n rs) = (\<forall>r \<in> set rs. known t r)"
| "task_known t cs (SweepClaim n r d c rest) = (\<forall>r \<in> set (r # rest). known t r)"
| "task_known t cs (SweepFail n r rest) = (\<forall>r \<in> set (r # rest). known t r)"
| "task_known t cs (FinalizeTask x p m) = (ob_direction m = DirOutbound \<longrightarrow> (text_key (ob_id m), x) \<in> cs)"
| "task_known t cs (TellTask x p m) = ((text_key (ob_id m), x) \<in> cs)"
| "task_known t cs (MeterTask x p m) = ((text_key (ob_id m), x) \<in> cs)"
| "task_known t cs (ReportTask cron u rest) = True"
| "task_known t cs (StampTask cron u rest) = True"

definition carried :: "outbox \<Rightarrow> (string \<times> string) set \<Rightarrow> bool" where
  "carried t cs \<longleftrightarrow> (\<forall>q \<in> set t. \<forall>x. ob_direction q = DirOutbound \<and> ob_telnyx q = Some x \<longrightarrow> (text_key (ob_id q), x) \<in> cs)"

definition rows_inv :: "msg_sys \<Rightarrow> bool" where
  "rows_inv s \<longleftrightarrow> wf_outbox (mg_rows s) \<and> ob_id ` set (mg_rows s) \<subseteq> mg_ids s
     \<and> carried (mg_rows s) (set (mg_carrier s)) \<and> distinct (map snd (mg_carrier s))
     \<and> (\<forall>k \<in> set (mg_tasks s). task_known (mg_rows s) (set (mg_carrier s)) k)"

lemma rest_known_mono: "rest_known t og \<Longrightarrow> (\<And>r. known t r \<Longrightarrow> known t' r) \<Longrightarrow> rest_known t' og"
  by (cases og) auto

lemma task_known_mono:
  "task_known t cs k \<Longrightarrow> (\<And>r. known t r \<Longrightarrow> known t' r) \<Longrightarrow> cs \<subseteq> cs' \<Longrightarrow> task_known t' cs' k"
  by (cases k) (auto intro: rest_known_mono)

lemma known_Cons: "known t r \<Longrightarrow> known (q # t) r"
  by (auto simp: known_def)

lemma known_head [simp]: "known (r # t) r"
  by (simp add: known_def)

lemma known_self: "r \<in> set t \<Longrightarrow> known t r"
  by (auto simp: known_def intro: bexI [of _ r])

lemma after_known:
  "rest_known t og \<Longrightarrow> k \<in> set (after_send n og) \<Longrightarrow> task_known t cs k"
  "rest_known t og \<Longrightarrow> known t r \<Longrightarrow> k \<in> set (after_throw n r og) \<Longrightarrow> task_known t cs k"
  by (cases og; auto simp: next_sweep_def split: list.splits)+

lemma next_known:
  "(\<forall>r \<in> set rs. known t r) \<Longrightarrow> k \<in> set (next_sweep n rs) \<Longrightarrow> task_known t cs k"
  "k \<in> set (next_report b us) \<Longrightarrow> task_known t cs k"
  by (auto simp: next_sweep_def next_report_def split: list.splits)

lemma thrown_known: "task_known t cs k \<Longrightarrow> k' \<in> set (thrown k) \<Longrightarrow> task_known t cs k'"
  by (cases k) (auto dest: after_known next_known split: if_splits list.splits)

text \<open>What one step does to the table: edits, a new row, or the carrier's id written to its own row.\<close>

definition adds :: "outbox_row \<Rightarrow> msg_sys \<Rightarrow> msg_sys \<Rightarrow> bool" where
  "adds r s s' \<longleftrightarrow> mg_rows s' = r # mg_rows s \<and> ob_id r \<notin> mg_ids s \<and> ob_id r \<in> mg_ids s'
     \<and> (\<forall>k. ob_key r = Some k \<longrightarrow> find_key (ob_company r) k (mg_rows s) = None)
     \<and> (ob_telnyx r \<noteq> None \<longrightarrow> ob_telnyx r \<notin> ob_telnyx ` set (mg_rows s))
     \<and> (ob_direction r = DirOutbound \<longrightarrow> ob_telnyx r = None)"

definition accepts :: "msg_sys \<Rightarrow> msg_sys \<Rightarrow> bool" where
  "accepts s s' \<longleftrightarrow> (\<exists>n r x og. PersistTask n r (AcceptPatch x) og \<in> set (mg_tasks s)
     \<and> persistMessagePatch (mg_now s) (ob_id r) (ob_company r) (AcceptPatch x) (mg_rows s) = Some (mg_rows s'))"

lemma outbox_step:
  assumes "mstep P s s'"
  shows "edited (mg_now s) (mg_rows s) (mg_rows s') \<or> (\<exists>r. adds r s s') \<or> accepts s s'"
  using assms
proof cases
  case (m_gate i gw n d offRamp c w primary optedOut early company thread sender body key est r t)
  have "adds r s s'" using gate_admits [OF m_gate(4)] m_gate(1,2) by (auto simp: adds_def queued_row_def)
  then show ?thesis by blast
next
  case (m_auto i gw n d offRamp c w primary optedOut lastAuto company thread body est throttle r t)
  have "adds r s s'" using auto_admits [OF m_auto(4)] m_auto(1,2) by (auto simp: adds_def queued_row_def)
  then show ?thesis by blast
next
  case (m_missed i gw n caller c w own optedOut lastAuto company thread call body est throttle r replayed t)
  have "replayed \<Longrightarrow> mg_rows s' = mg_rows s" "\<not> replayed \<Longrightarrow> adds r s s'"
    using missed_admits [OF m_missed(4)] m_missed(1,2) by (auto simp: adds_def queued_row_def)
  then show ?thesis by (cases replayed) auto
next
  case (m_persist k n r p og t)
  show ?thesis
  proof (cases "\<exists>x. p = AcceptPatch x")
    case True
    then obtain x where "p = AcceptPatch x" by blast
    then have "accepts s s'" using m_persist(1-3,5) unfolding accepts_def by auto
    then show ?thesis by blast
  next
    case False
    then have "edited (mg_now s) (mg_rows s) t"
      using persisted_edited [of p "mg_now s" "mg_rows s" r] m_persist(5) by (simp add: persisted_def)
    then show ?thesis using m_persist(1) by simp
  qed
next
  case (m_meter k x p m i u)
  then show ?thesis by (simp split: option.splits)
qed (auto simp: adds_def fired_row_def queued_row_def intro: table_edits)

lemma step_carrier:
  assumes "mstep P s s'"
  shows "mg_carrier s' = mg_carrier s \<or> (\<exists>key x. mg_carrier s' = (key, x) # mg_carrier s \<and> x \<notin> snd ` set (mg_carrier s)
           \<and> (pr_keys P \<longrightarrow> key \<notin> fst ` set (mg_carrier s)))"
  using assms by cases (auto simp: carrier_answers_def split: if_splits option.splits)

lemma step_ids: "mstep P s s' \<Longrightarrow> mg_ids s \<subseteq> mg_ids s'"
  by (cases rule: mstep.cases) (auto split: option.splits)

lemma edited_carried:
  assumes e: "edited now t t'" and c: "carried t cs"
  shows "carried t' cs"
  unfolding carried_def
proof (intro ballI allI impI)
  fix q y assume q: "q \<in> set t'" and y: "ob_direction q = DirOutbound \<and> ob_telnyx q = Some y"
  obtain q0 where "q0 \<in> set t" "same_text q0 q" "ob_telnyx q = ob_telnyx q0" using edited_later [OF e q] by blast
  then show "(text_key (ob_id q), y) \<in> cs" using c y by (simp add: carried_def same_text_def)
qed

lemma step_known:
  assumes s: "mstep P s s'" and k: "known (mg_rows s) r"
  shows "known (mg_rows s') r"
proof -
  consider "edited (mg_now s) (mg_rows s) (mg_rows s')" | q where "adds q s s'" | "accepts s s'"
    using outbox_step [OF s] by blast
  then show ?thesis
  proof cases
    case 1
    then show ?thesis by (rule edited_known [OF _ k])
  next
    case 2
    then show ?thesis using known_Cons [OF k] by (simp add: adds_def)
  next
    case 3
    then show ?thesis using accepted_known [OF _ k] by (auto simp: accepts_def)
  qed
qed

lemma unique_Cons:
  assumes u: "\<forall>q \<in> set t. \<forall>p \<in> set t. E q p \<longrightarrow> g q = g p" and sym: "\<And>p. E p r \<Longrightarrow> E r p"
    and n: "\<And>q. q \<in> set t \<Longrightarrow> \<not> E r q"
  shows "\<forall>q \<in> set (r # t). \<forall>p \<in> set (r # t). E q p \<longrightarrow> g q = g p"
proof (intro ballI impI)
  fix q p assume "q \<in> set (r # t)" "p \<in> set (r # t)" "E q p"
  then show "g q = g p" using u n [of p] n [of q] sym [of q] by (cases "q = r"; cases "p = r") auto
qed

lemma adds_wf:
  assumes a: "adds r s s'" and w: "wf_outbox (mg_rows s)" and i: "ob_id ` set (mg_rows s) \<subseteq> mg_ids s"
  shows "wf_outbox (mg_rows s')"
proof -
  have key: "ob_key r = Some k \<Longrightarrow> q \<in> set (mg_rows s) \<Longrightarrow> ob_company q = ob_company r \<Longrightarrow> ob_key q \<noteq> Some k" for q k
    using a by (auto simp: adds_def find_key_def find_None_iff)
  have new: "ob_id r \<notin> ob_id ` set (mg_rows s)" using a i by (auto simp: adds_def)
  have tel: "ob_telnyx r \<noteq> None \<Longrightarrow> q \<in> set (mg_rows s) \<Longrightarrow> ob_telnyx q \<noteq> ob_telnyx r" for q
    using a by (metis adds_def imageI)
  have rows: "mg_rows s' = r # mg_rows s" using a by (simp add: adds_def)
  show ?thesis unfolding wf_outbox_def rows
  proof (intro conjI)
    show "distinct (map ob_id (r # mg_rows s))" using new w by (auto simp: wf_outbox_def)
    show "\<forall>q \<in> set (r # mg_rows s). \<forall>p \<in> set (r # mg_rows s).
        ob_company q = ob_company p \<and> ob_key q = ob_key p \<and> ob_key q \<noteq> None \<longrightarrow> ob_id q = ob_id p"
    proof (rule unique_Cons [OF wf_outboxD(2) [OF w]])
      show "\<not> (ob_company r = ob_company q \<and> ob_key r = ob_key q \<and> ob_key r \<noteq> None)" if "q \<in> set (mg_rows s)" for q
        using key [OF _ that] by (cases "ob_key r") (simp_all, metis)
    qed metis
    show "\<forall>q \<in> set (r # mg_rows s). \<forall>p \<in> set (r # mg_rows s).
        ob_telnyx q = ob_telnyx p \<and> ob_telnyx q \<noteq> None \<longrightarrow> ob_id q = ob_id p"
    proof (rule unique_Cons [OF wf_outboxD(3) [OF w]])
      show "\<not> (ob_telnyx r = ob_telnyx q \<and> ob_telnyx r \<noteq> None)" if "q \<in> set (mg_rows s)" for q
        using tel [OF _ that] by metis
    qed metis
  qed
qed

lemma step_tables:
  assumes s: "mstep P s s'" and i: "rows_inv s"
  shows "wf_outbox (mg_rows s')" "ob_id ` set (mg_rows s') \<subseteq> mg_ids s'" "carried (mg_rows s') (set (mg_carrier s))"
proof -
  have w: "wf_outbox (mg_rows s)" and d: "ob_id ` set (mg_rows s) \<subseteq> mg_ids s"
    and c: "carried (mg_rows s) (set (mg_carrier s))" using i by (simp_all add: rows_inv_def)
  consider (e) "edited (mg_now s) (mg_rows s) (mg_rows s')" | (a) q where "adds q s s'" | (p) "accepts s s'"
    using outbox_step [OF s] by blast
  then have "wf_outbox (mg_rows s') \<and> ob_id ` set (mg_rows s') \<subseteq> mg_ids s' \<and> carried (mg_rows s') (set (mg_carrier s))"
  proof cases
    case e
    have "ob_id ` set (mg_rows s') = ob_id ` set (mg_rows s)" using edited_ids [OF e] by (metis set_map)
    then show ?thesis using edited_wf [OF e w] edited_carried [OF e c] d step_ids [OF s] by auto
  next
    case a
    then show ?thesis using adds_wf [OF a w d] c d step_ids [OF s] by (auto simp: adds_def carried_def)
  next
    case p
    then obtain n r x og where k: "PersistTask n r (AcceptPatch x) og \<in> set (mg_tasks s)"
      and t: "persistMessagePatch (mg_now s) (ob_id r) (ob_company r) (AcceptPatch x) (mg_rows s) = Some (mg_rows s')"
      by (auto simp: accepts_def)
    have x: "(text_key (ob_id r), x) \<in> set (mg_carrier s)" using i k by (fastforce simp: rows_inv_def)
    have "carried (mg_rows s') (set (mg_carrier s))" unfolding carried_def
    proof (intro ballI allI impI)
      fix q y assume q: "q \<in> set (mg_rows s')" and y: "ob_direction q = DirOutbound \<and> ob_telnyx q = Some y"
      obtain q0 where q0: "q0 \<in> set (mg_rows s)" "same_text q0 q"
        "ob_telnyx q = ob_telnyx q0 \<or> ob_id q = ob_id r \<and> ob_telnyx q = Some x"
        using accepted_rows [OF t q] by blast
      show "(text_key (ob_id q), y) \<in> set (mg_carrier s)"
        using q0(3)
      proof
        assume "ob_telnyx q = ob_telnyx q0"
        then show ?thesis using c q0 y by (simp add: carried_def same_text_def)
      qed (use x y in simp)
    qed
    moreover have "ob_id ` set (mg_rows s') = ob_id ` set (mg_rows s)" using accepted_ids [OF t] by (metis set_map)
    ultimately show ?thesis using accepted_wf [OF t w] d step_ids [OF s] by auto
  qed
  then show "wf_outbox (mg_rows s')" "ob_id ` set (mg_rows s') \<subseteq> mg_ids s'" "carried (mg_rows s') (set (mg_carrier s))"
    by blast+
qed

lemma step_task_known:
  assumes s: "mstep P s s'" and i: "rows_inv s" and k: "k' \<in> set (mg_tasks s')"
  shows "task_known (mg_rows s') (set (mg_carrier s')) k'"
proof -
  have T: "task_known (mg_rows s) (set (mg_carrier s)) k" if "k \<in> set (mg_tasks s)" for k
    using i that by (simp add: rows_inv_def)
  have mono: "task_known (mg_rows s') (set (mg_carrier s')) k" if "task_known (mg_rows s) (set (mg_carrier s)) k" for k
  proof -
    have "set (mg_carrier s) \<subseteq> set (mg_carrier s')" using step_carrier [OF s] by auto
    then show ?thesis using task_known_mono [OF that step_known [OF s]] by blast
  qed
  have old: "k' \<in> set (mg_tasks s) \<Longrightarrow> ?thesis" using T mono by blast
  have w: "wf_outbox (mg_rows s)" using i by (simp add: rows_inv_def)
  show ?thesis
    using s
  proof cases
    case (m_gate i gw n d offRamp c w primary optedOut early company thread sender body key est r t)
    then show ?thesis using old k gate_admits [OF m_gate(4)] by (auto intro: known_self)
  next
    case (m_auto i gw n d offRamp c w primary optedOut lastAuto company thread body est throttle r t)
    then show ?thesis using old k auto_admits [OF m_auto(4)] by (auto intro: known_self)
  next
    case (m_missed i gw n caller c w own optedOut lastAuto company thread call body est throttle r replayed t)
    then show ?thesis using old k missed_admits [OF m_missed(4)] by (auto intro: known_self split: if_splits)
  next
    case (m_retry gw n d c w primary optedOut company i r t)
    then show ?thesis using old k retry_takes(1) [OF \<open>wf_outbox (mg_rows s)\<close> m_retry(3)] by (auto intro: known_self)
  next
    case (m_send k n r d b c og w detail p effs cs)
    have "k' = PersistTask n r p og \<or> k' \<in> set (mg_tasks s)" using k m_send(1) by (auto dest: notin_set_remove1)
    moreover have "task_known (mg_rows s) (set cs) (PersistTask n r p og)"
    proof -
      have "(text_key (ob_id r), x) \<in> set cs" if "p = AcceptPatch x" for x
        using m_send(5,6) that
        by (auto simp: send_stage_def telnyxCreateMessage_def result_patch_def carrier_answers_def
            split: if_splits option.splits telnyx_result.splits)
      then show ?thesis using T [OF m_send(3)] m_send(2) by simp
    qed
    ultimately show ?thesis using old m_send(1) by auto
  next
    case (m_persist k n r p og t)
    have "rest_known (mg_rows s) og" "known (mg_rows s) r" using T [OF m_persist(3)] m_persist(2) by simp_all
    then have "k' \<in> set (mg_tasks s) \<or> task_known (mg_rows s) (set (mg_carrier s)) k'"
      using k m_persist(1) by (auto dest: notin_set_remove1 after_known split: if_splits)
    then show ?thesis using old mono by blast
  next
    case (m_throw k)
    then show ?thesis using k old mono thrown_known [OF T [OF m_throw(2)]] by (auto dest: notin_set_remove1)
  next
    case (m_claim locked rs t)
    have "\<forall>r \<in> set rs. known t r" using claim_takes(2) [OF w m_claim(2)] by (auto intro: known_self)
    then show ?thesis using k old m_claim(1) next_known(1) by auto
  next
    case (m_skip k n r rest)
    then show ?thesis using k old mono T [OF m_skip(3)] next_known(1) [of rest "mg_rows s"] by (auto dest: notin_set_remove1)
  next
    case (m_sweep_gate k n r rest gw now d c)
    then show ?thesis using k old mono T [OF m_sweep_gate(3)] by (auto dest: notin_set_remove1)
  next
    case (m_sweep_claim k n r d c rest w primary optedOut res t)
    have kn: "\<forall>q \<in> set (r # rest). known t q"
      using T [OF m_sweep_claim(3)] m_sweep_claim(1,2) edited_known [OF retry_edited [OF m_sweep_claim(5)]] by simp
    have "res = Inr q \<Longrightarrow> known t q" for q
      using retry_takes(1) [OF w] m_sweep_claim(5) by (auto intro: known_self)
    then show ?thesis using k old m_sweep_claim(1) kn by (auto dest: notin_set_remove1 split: sum.splits)
  next
    case (m_sweep_fail k n r rest)
    have "k' \<in> set (mg_tasks s) \<or> task_known (mg_rows s) (set (mg_carrier s)) k'"
      using k T [OF m_sweep_fail(3)] m_sweep_fail(1,2) next_known(1) [of rest "mg_rows s" k' n "set (mg_carrier s)"]
      by (auto dest: set_remove1_subset [THEN subsetD])
    then show ?thesis using old mono by blast
  next
    case (m_finalized x m p)
    have "m \<in> set (mg_rows s)" "ob_telnyx m = Some x"
      using m_finalized(2) by (auto simp: find_telnyx_def dest: find_Some_iff [THEN iffD1])
    then show ?thesis using k old m_finalized(1) i by (auto simp: rows_inv_def carried_def)
  next
    case (m_finalize k x p m)
    then show ?thesis using k old T [OF m_finalize(3)] by (auto dest: notin_set_remove1 split: if_splits)
  next
    case (m_tell k x p m)
    then show ?thesis using k old T [OF m_tell(3)] by (auto dest: notin_set_remove1)
  next
    case (m_meter k x p m i u)
    then show ?thesis using k old by (auto dest: notin_set_remove1 split: option.splits)
  qed (use k old in \<open>auto dest: notin_set_remove1 intro: known_self simp: next_known(2) split: if_splits\<close>)
qed

lemma outbox_step_inv:
  assumes "mstep P s s'" "rows_inv s"
  shows "rows_inv s'"
proof -
  have "carried (mg_rows s') (set (mg_carrier s'))"
    using step_tables(3) [OF assms] step_carrier [OF assms(1)] by (auto simp: carried_def)
  moreover have "distinct (map snd (mg_carrier s'))"
    using assms(2) step_carrier [OF assms(1)] by (auto simp: rows_inv_def)
  ultimately show ?thesis
    using step_tables(1,2) [OF assms] step_task_known [OF assms] by (simp add: rows_inv_def)
qed

lemma reach_rows: "mreach P s \<Longrightarrow> rows_inv s"
proof (induction rule: mreach.induct)
  case (m_start n)
  show ?case by (simp add: rows_inv_def msg_start_def wf_outbox_def carried_def)
next
  case (m_step s s')
  then show ?case by (blast intro: outbox_step_inv)
qed

end
