(* ===== verification/Message_Turns.thy ===== *)
theory Message_Turns
  imports Message_Invariants
begin

text \<open>
  Whose turn a row is. A dispatch, a retry and a row of an automatic retry each have their row from the
  moment they took it until they end or outlive the window of \<open>STUCK_SEND_SECONDS\<close>. Of the live ones at
  most one has a row, and while it does the row stays queued, without the carrier's id and too fresh for
  anybody to take. The text of a missed call is apart: its replay hands a row out again, so it has none.
\<close>

section \<open>What a task has\<close>

definition own_row :: "ms \<Rightarrow> outbox_row \<Rightarrow> (string \<times> ms) list" where
  "own_row n r = (if ob_call r = None then [(ob_id r, n)] else [])"

definition own_rows :: "ms \<Rightarrow> outbox_row list \<Rightarrow> (string \<times> ms) list" where
  "own_rows n rs = concat (map (own_row n) rs)"

fun own_rest :: "ms \<Rightarrow> msg_origin \<Rightarrow> (string \<times> ms) list" where
  "own_rest n (Sweep rest) = own_rows n rest"
| "own_rest n Route = []"
| "own_rest n Once = []"

fun own :: "msg_task \<Rightarrow> (string \<times> ms) list" where
  "own (SendTask n r d b c og) = own_row n r @ own_rest n og"
| "own (PersistTask n r p og) = own_row n r @ own_rest n og"
| "own (SweepTask n rs) = own_rows n rs"
| "own (SweepClaim n r d c rest) = own_row n r @ own_rows n rest"
| "own (SweepFail n r rest) = own_row n r @ own_rows n rest"
| "own (FinalizeTask x p m) = []"
| "own (TellTask x p m) = []"
| "own (MeterTask x p m) = []"
| "own (ReportTask cron u rest) = []"
| "own (StampTask cron u rest) = []"

definition owners :: "msg_task list \<Rightarrow> (string \<times> ms) multiset" where
  "owners ks = mset (concat (map own ks))"

definition turns :: "msg_sys \<Rightarrow> string \<Rightarrow> (string \<times> ms) multiset" where
  "turns s i = filter_mset (\<lambda>(j, n). j = i \<and> alive (mg_now s) n) (owners (mg_tasks s))"

text \<open>No automatic retry is past its claim, but for a missed call's text.\<close>

fun unswept :: "msg_task \<Rightarrow> bool" where
  "unswept (SendTask n r d b c og) = (case og of Sweep rest \<Rightarrow> ob_call r \<noteq> None | _ \<Rightarrow> True)"
| "unswept (PersistTask n r p og) = (case og of Sweep rest \<Rightarrow> ob_call r \<noteq> None | _ \<Rightarrow> True)"
| "unswept k = True"

definition turn_inv :: "msg_sys \<Rightarrow> bool" where
  "turn_inv s \<longleftrightarrow>
     (\<forall>(i, n) \<in># owners (mg_tasks s). n \<le> mg_now s \<and> (alive (mg_now s) n \<longrightarrow> held (mg_rows s) n i))
     \<and> (\<forall>i. size (turns s i) \<le> 1)
     \<and> (\<forall>k \<in> set (mg_tasks s). unswept k)"

lemma own_rows_simps [simp]: "own_rows n [] = []" "own_rows n (r # rs) = own_row n r @ own_rows n rs"
  by (simp_all add: own_rows_def)

lemma owners_append [simp]: "owners (ks @ ks') = owners ks + owners ks'"
  by (simp add: owners_def)

lemma owners_simps [simp]: "owners [] = {#}" "owners [k] = mset (own k)"
  by (simp_all add: owners_def)

lemma owners_Cons [simp]: "owners (k # ks) = mset (own k) + owners ks"
  by (simp add: owners_def)

lemma owners_remove: "k \<in> set ks \<Longrightarrow> owners ks = mset (own k) + owners (remove1 k ks)"
  by (induction ks) (auto simp: ac_simps)

lemma owners_next: "owners (next_sweep n rs) = mset (own_rows n rs)"
  by (simp add: next_sweep_def split: list.splits)

lemma owners_report [simp]: "owners (next_report b us) = {#}"
  by (simp add: next_report_def split: list.splits)

lemma owners_after: "owners (after_send n og) = mset (own_rest n og)" "owners (after_throw n r og) \<subseteq># mset (own_row n r) + mset (own_rest n og)"
  by (cases og; simp add: owners_next)+

lemma owners_thrown: "owners (thrown k) \<subseteq># mset (own k)"
  by (cases k) (auto simp: owners_next owners_after split: list.splits)

lemma own_rows_ids: "mset (own_rows n rs) = image_mset (\<lambda>r. (ob_id r, n)) (mset (filter (\<lambda>r. ob_call r = None) rs))"
  by (induction rs) (auto simp: own_row_def)

lemma turns_later: "mg_now s \<le> n \<Longrightarrow> alive n m \<Longrightarrow> alive (mg_now s) m"
  by (simp add: alive_def)

lemma filter_weaken: "(\<And>x. P x \<Longrightarrow> Q x) \<Longrightarrow> filter_mset P M \<subseteq># filter_mset Q M"
  by (rule mset_subset_eqI) simp

text \<open>The three ways a step changes the turns: some end, one row is taken, or a sweep takes its rows.\<close>

lemma turn_step:
  assumes inv: "turn_inv s" and now: "mg_now s \<le> mg_now s'"
    and sub: "owners (mg_tasks s') \<subseteq># owners (mg_tasks s) + N"
    and new: "\<forall>(i, n) \<in># N. n = mg_now s' \<and> held (mg_rows s') n i \<and> (\<forall>n. (i, n) \<in># owners (mg_tasks s) \<longrightarrow> \<not> alive (mg_now s) n)"
    and once: "\<forall>i. size (filter_mset (\<lambda>(j, n). j = i) N) \<le> 1"
    and keep: "\<And>i n. (i, n) \<in># owners (mg_tasks s') \<Longrightarrow> (i, n) \<in># owners (mg_tasks s) \<Longrightarrow> alive (mg_now s') n \<Longrightarrow>
                 held (mg_rows s) n i \<Longrightarrow> n \<le> mg_now s \<Longrightarrow> held (mg_rows s') n i"
    and un: "\<forall>k \<in> set (mg_tasks s'). unswept k"
  shows "turn_inv s'"
proof -
  have old: "n \<le> mg_now s" "alive (mg_now s) n \<Longrightarrow> held (mg_rows s) n i" if "(i, n) \<in># owners (mg_tasks s)" for i n
    using inv that unfolding turn_inv_def by fastforce+
  have al: "alive (mg_now s') n \<Longrightarrow> alive (mg_now s) n" for n using turns_later [OF now] .
  have one: "n \<le> mg_now s' \<and> (alive (mg_now s') n \<longrightarrow> held (mg_rows s') n i)" if o: "(i, n) \<in># owners (mg_tasks s')" for i n
  proof (cases "(i, n) \<in># owners (mg_tasks s)")
    case True
    then show ?thesis using old [OF True] keep [OF o True] al now by auto
  next
    case False
    then have "(i, n) \<in># N" using mset_subset_eqD [OF sub o] by auto
    then show ?thesis using new by auto
  qed
  have size: "size (turns s' i) \<le> 1" for i
  proof -
    let ?F = "filter_mset (\<lambda>(j, n). j = i \<and> alive (mg_now s') n)"
    have "turns s' i \<subseteq># ?F (owners (mg_tasks s)) + ?F N"
      unfolding turns_def using multiset_filter_mono [OF sub] by auto
    then have le: "size (turns s' i) \<le> size (?F (owners (mg_tasks s))) + size (?F N)"
      using size_mset_mono by fastforce
    have a: "?F (owners (mg_tasks s)) \<subseteq># turns s i" unfolding turns_def
      by (rule filter_weaken) (use al in auto)
    have b: "?F N \<subseteq># filter_mset (\<lambda>(j, n). j = i) N"
      by (rule filter_weaken) auto
    have sa: "size (?F (owners (mg_tasks s))) \<le> 1"
      using size_mset_mono [OF a] inv unfolding turn_inv_def by (meson le_trans)
    have sb: "size (?F N) \<le> 1" using size_mset_mono [OF b] once by (meson le_trans)
    show ?thesis
    proof (cases "?F N = {#}")
      case True
      have "size (?F N) = 0" unfolding True by simp
      then show ?thesis using le sa by linarith
    next
      case False
      then obtain m where "(i, m) \<in># N" by (auto simp: filter_mset_eq_conv)
      then have "\<forall>n. (i, n) \<in># owners (mg_tasks s) \<longrightarrow> \<not> alive (mg_now s) n" using new by auto
      then have e: "?F (owners (mg_tasks s)) = {#}" using al by (auto simp: filter_mset_eq_conv)
      have "size (?F (owners (mg_tasks s))) = 0" unfolding e by simp
      then show ?thesis using le sb by linarith
    qed
  qed
  show ?thesis unfolding turn_inv_def using one size un by auto
qed


section \<open>Every step keeps the turns\<close>

lemma turn_less:
  assumes "turn_inv s" "mg_now s \<le> mg_now s'" "owners (mg_tasks s') \<subseteq># owners (mg_tasks s)"
    and "\<And>i n. (i, n) \<in># owners (mg_tasks s') \<Longrightarrow> (i, n) \<in># owners (mg_tasks s) \<Longrightarrow> alive (mg_now s') n \<Longrightarrow>
           held (mg_rows s) n i \<Longrightarrow> n \<le> mg_now s \<Longrightarrow> held (mg_rows s') n i"
    and "\<forall>k \<in> set (mg_tasks s'). unswept k"
  shows "turn_inv s'"
  by (rule turn_step [OF assms(1,2), of "{#}"]) (use assms(3-5) in auto)

lemma turn_more:
  assumes "turn_inv s" "mg_now s' = mg_now s" "mg_tasks s' = k # mg_tasks s" "unswept k"
    and "own k = [] \<or> own k = [(i, mg_now s)] \<and> held (mg_rows s') (mg_now s) i
          \<and> (\<forall>n. (i, n) \<in># owners (mg_tasks s) \<longrightarrow> \<not> alive (mg_now s) n)"
    and "\<And>j n. alive (mg_now s) n \<Longrightarrow> held (mg_rows s) n j \<Longrightarrow> n \<le> mg_now s \<Longrightarrow> held (mg_rows s') n j"
  shows "turn_inv s'"
  by (rule turn_step [OF assms(1), of s' "mset (own k)"]) (use assms(1-6) in \<open>auto simp: turn_inv_def\<close>)

lemma one_turn:
  assumes "turn_inv s" "(i, n) \<in># owners (mg_tasks s)" "alive (mg_now s) n" "(i, m) \<in># owners (mg_tasks s) - {#(i, n)#}"
  shows "\<not> alive (mg_now s) m"
proof
  assume m: "alive (mg_now s) m"
  let ?F = "filter_mset (\<lambda>(j, n). j = i \<and> alive (mg_now s) n)"
  obtain O' where O': "owners (mg_tasks s) = add_mset (i, n) O'" using assms(2) by (metis mset_add)
  then obtain O'' where "O' = add_mset (i, m) O''" using assms(4) by (metis add_mset_remove_trivial mset_add)
  then have "turns s i = add_mset (i, n) (add_mset (i, m) (?F O''))" using O' assms(3) m by (simp add: turns_def)
  then have "1 < size (turns s i)" by simp
  then show False using assms(1) unfolding turn_inv_def by (meson not_less)
qed

lemma held_not_call: "wf_outbox t \<Longrightarrow> known t r \<Longrightarrow> ob_call r \<noteq> None \<Longrightarrow> held t n i \<Longrightarrow> i \<noteq> ob_id r"
  unfolding known_def held_def by (metis outbox_by_id same_text_def)

lemma persisted_held: "held t n i \<Longrightarrow> i \<noteq> ob_id r \<Longrightarrow> held (persisted now r p t) n i"
  by (auto simp: persisted_def persistMessagePatch_def intro: held_apart)

text \<open>A task that writes to its row gives its turn back, so no other live task has the row.\<close>

lemma turn_writes:
  assumes inv: "turn_inv s" and rows: "rows_inv s" and k: "k \<in> set (mg_tasks s)" and r: "alive (mg_now s) n" "known (mg_rows s) r"
    and own: "mset (own_row n r) + owners ks \<subseteq># mset (own k)"
    and s': "mg_now s' = mg_now s" "mg_tasks s' = ks @ remove1 k (mg_tasks s)" "mg_rows s' = persisted (mg_now s) r p (mg_rows s)"
    and un: "\<forall>k \<in> set ks. unswept k"
  shows "turn_inv s'"
proof (rule turn_less [OF inv])
  have all: "owners (mg_tasks s) = mset (own k) + owners (remove1 k (mg_tasks s))" by (rule owners_remove [OF k])
  have less: "mset (own_row n r) + owners (mg_tasks s') \<subseteq># owners (mg_tasks s)"
    unfolding s'(2) all using own by (simp add: subset_mset.add_mono add.assoc [symmetric])
  then show "owners (mg_tasks s') \<subseteq># owners (mg_tasks s)" by (metis mset_subset_eq_add_right subset_mset.order_trans)
  fix i m assume o: "(i, m) \<in># owners (mg_tasks s')" and a: "alive (mg_now s') m" and h: "held (mg_rows s) m i"
  have "i \<noteq> ob_id r"
  proof (cases "ob_call r")
    case None
    then have sub: "add_mset (ob_id r, n) (owners (mg_tasks s')) \<subseteq># owners (mg_tasks s)" using less by (simp add: own_row_def)
    show ?thesis
    proof
      assume i: "i = ob_id r"
      have "owners (mg_tasks s') \<subseteq># owners (mg_tasks s) - {#(ob_id r, n)#}" using sub by (simp add: insert_subset_eq_iff)
      then have "(ob_id r, m) \<in># owners (mg_tasks s) - {#(ob_id r, n)#}" using o i by (meson mset_subset_eqD)
      moreover have "(ob_id r, n) \<in># owners (mg_tasks s)" using sub by (meson mset_subset_eq_insertD)
      ultimately show False using one_turn [OF inv _ r(1)] a s'(1) by metis
    qed
  next
    case (Some c)
    then show ?thesis using held_not_call [OF _ r(2) _ h] rows by (simp add: rows_inv_def)
  qed
  then show "held (mg_rows s') m i" unfolding s'(3) by (rule persisted_held [OF h])
qed (use s' un inv in \<open>auto simp: turn_inv_def dest: notin_set_remove1\<close>)

lemma unswept_next [simp]: "k \<in> set (next_sweep n rs) \<Longrightarrow> unswept k" "k \<in> set (next_report b us) \<Longrightarrow> unswept k"
  "k \<in> set (after_send n og) \<Longrightarrow> unswept k" "k \<in> set (after_throw n r og) \<Longrightarrow> unswept k"
  by (auto simp: next_sweep_def next_report_def split: list.splits) (cases og; auto simp: next_sweep_def split: list.splits)+

lemma unswept_thrown: "k' \<in> set (thrown k) \<Longrightarrow> unswept k'"
  by (cases k) (auto split: list.splits if_splits)

lemma unswept_old: "turn_inv s \<Longrightarrow> k \<in> set (mg_tasks s) \<Longrightarrow> unswept k"
  by (simp add: turn_inv_def)

lemma turn_remove: "k \<in> set ks \<Longrightarrow> owners ks' \<subseteq># mset (own k) \<Longrightarrow> owners (ks' @ remove1 k ks) \<subseteq># owners ks"
  by (simp add: owners_remove)

text \<open>A task goes on and the table stays, or the table is edited and no live turn is touched.\<close>

lemma turn_into:
  assumes inv: "turn_inv s" and k: "k \<in> set (mg_tasks s)" and o: "owners ks \<subseteq># mset (own k)" and un: "\<forall>k \<in> set ks. unswept k"
    and s': "mg_now s' = mg_now s" "mg_tasks s' = ks @ remove1 k (mg_tasks s)"
    and keep: "\<And>i n. alive (mg_now s) n \<Longrightarrow> held (mg_rows s) n i \<Longrightarrow> n \<le> mg_now s \<Longrightarrow> held (mg_rows s') n i"
  shows "turn_inv s'"
proof (rule turn_less [OF inv])
  show "owners (mg_tasks s') \<subseteq># owners (mg_tasks s)" unfolding s'(2) by (rule turn_remove [OF k o])
  show "\<forall>k \<in> set (mg_tasks s'). unswept k"
    using un unswept_old [OF inv] set_remove1_subset [of k "mg_tasks s"] unfolding s'(2) by auto
qed (use s'(1) keep in auto)

lemma turn_same:
  assumes inv: "turn_inv s" and s': "mg_now s' = mg_now s" "mg_tasks s' = mg_tasks s"
    and keep: "\<And>i n. alive (mg_now s) n \<Longrightarrow> held (mg_rows s) n i \<Longrightarrow> n \<le> mg_now s \<Longrightarrow> held (mg_rows s') n i"
  shows "turn_inv s'"
  by (rule turn_less [OF inv]) (use s' keep inv in \<open>auto simp: turn_inv_def\<close>)

lemma stuck_keeps: "alive now n \<Longrightarrow> held t n i \<Longrightarrow> n \<le> now \<Longrightarrow>
    held (snd (fail_stuck_outbound_sends now STUCK_SEND_SECONDS t)) n i"
  unfolding fail_stuck_outbound_sends_def snd_conv
  by (rule fail_edit.upd_held) (auto simp: stuck_def dest: not_stuck)

lemma owners_limit: "unswept (PersistTask n r p og) \<Longrightarrow> owners (after_throw n r og) \<subseteq># mset (own_rest n og)"
  by (cases og) (auto simp: own_row_def)

lemma claim_keeps: "claim_stuck_sends_for_retry now secs attempts limit locked t = (rs, t') \<Longrightarrow> held t n i \<Longrightarrow> n \<le> now \<Longrightarrow> held t' n i"
  by (auto simp: claim_stuck_sends_for_retry_def Let_def intro: bump_edit.upd_held)

lemma status_keeps: "held t n i \<Longrightarrow> n \<le> now \<Longrightarrow> held (markSent now x t) n i"
  "held t n i \<Longrightarrow> n \<le> now \<Longrightarrow> held (finalize_update now x p t) n i"
  "held t n i \<Longrightarrow> n \<le> now \<Longrightarrow> held (upd_out now (by_id j) id t) n i"
  by (auto simp: markSent_def finalize_update_def intro: sent_edit.upd_held finalize_edit.upd_held touch_edit.upd_held)

lemma fresh_turn: "rows_inv s \<Longrightarrow> i \<notin> mg_ids s \<Longrightarrow> turn_inv s \<Longrightarrow> (i, n) \<in># owners (mg_tasks s) \<Longrightarrow> \<not> alive (mg_now s) n"
  unfolding turn_inv_def rows_inv_def held_def by fastforce

text \<open>A claimed row was stuck, so no live turn is on it.\<close>

lemma stuck_turn: "rows_inv s \<Longrightarrow> turn_inv s \<Longrightarrow> q \<in> set (mg_rows s) \<Longrightarrow> stuck (mg_now s) STUCK_SEND_SECONDS q \<Longrightarrow>
    (ob_id q, n) \<in># owners (mg_tasks s) \<Longrightarrow> \<not> alive (mg_now s) n"
proof
  assume i: "rows_inv s" "turn_inv s" and q: "q \<in> set (mg_rows s)" "stuck (mg_now s) STUCK_SEND_SECONDS q"
    and o: "(ob_id q, n) \<in># owners (mg_tasks s)" and a: "alive (mg_now s) n"
  then have "held (mg_rows s) n (ob_id q)" by (fastforce simp: turn_inv_def)
  then obtain r where "r \<in> set (mg_rows s)" "ob_id r = ob_id q" "n \<le> ob_updated r" by (auto simp: held_def)
  then have "n \<le> ob_updated q" using outbox_by_id [of "mg_rows s" r q] i q(1) by (simp add: rows_inv_def)
  then show False using q(2) not_stuck [OF a] by (simp add: stuck_def)
qed

lemma retry_turn:
  assumes "rows_inv s" "turn_inv s" "(i, n) \<in># owners (mg_tasks s)" "alive (mg_now s) n"
  shows "claim_message_retry (mg_now s) w primary opted company i STUCK_SEND_SECONDS (mg_rows s) us \<noteq> (Inr r, t)"
proof
  assume c: "claim_message_retry (mg_now s) w primary opted company i STUCK_SEND_SECONDS (mg_rows s) us = (Inr r, t)"
  have "held (mg_rows s) n i" using assms(2-4) by (fastforce simp: turn_inv_def)
  then show False using retry_held [OF _ _ assms(4) c] assms(1) by (auto simp: rows_inv_def)
qed

lemma claimed_once:
  "distinct (map ob_id rs) \<Longrightarrow> size (filter_mset (\<lambda>(j, n). j = i) (mset (map (\<lambda>r. (ob_id r, m)) rs))) \<le> 1"
proof (induction rs)
  case (Cons r rs)
  have "filter_mset (\<lambda>(j, n). j = ob_id r) (mset (map (\<lambda>r. (ob_id r, m)) rs)) = {#}"
    using Cons.prems by (auto simp: filter_mset_eq_conv) (metis imageI)
  then have "size (filter_mset (\<lambda>(j, n). j = ob_id r) (mset (map (\<lambda>r. (ob_id r, m)) rs))) = 0" by (metis size_empty)
  then show ?case using Cons by (cases "ob_id r = i") auto
qed simp

lemma step_turns:
  assumes s: "mstep P s s'" and rows: "rows_inv s" and inv: "turn_inv s"
  shows "turn_inv s'"
proof -
  have w: "wf_outbox (mg_rows s)" using rows by (simp add: rows_inv_def)
  have K: "task_known (mg_rows s) (set (mg_carrier s)) k" if "k \<in> set (mg_tasks s)" for k
    using rows that by (simp add: rows_inv_def)
  show ?thesis
    using s
  proof cases
    case (m_tick n)
    show ?thesis by (rule turn_less [OF inv]) (use m_tick inv in \<open>auto simp: turn_inv_def\<close>)
  next
    case (m_gate i gw n d offRamp c w primary optedOut early company thread sender body key est r t)
    obtain b na u k where r: "r = queued_row (mg_now s) i company thread b na u (Some k) None" "t = r # mg_rows s" "1 \<le> na"
      using gate_admits [OF m_gate(4)] by auto
    show ?thesis
    proof (rule turn_more [OF inv, where i = i])
      show "mg_tasks s' = SendTask (mg_now s) r d (ob_body r) c Route # mg_tasks s" using m_gate(1) by simp
    qed (use m_gate r fresh_turn [OF rows m_gate(2) inv] held_new [OF r(3)] in
         \<open>auto simp: own_row_def queued_row_def intro: held_Cons\<close>)
  next
    case (m_auto i gw n d offRamp c w primary optedOut lastAuto company thread body est throttle r t)
    obtain u where r: "r = queued_row (mg_now s) i company thread body est u None None" "t = r # mg_rows s" "1 \<le> est"
      using auto_admits [OF m_auto(4)] by auto
    show ?thesis
    proof (rule turn_more [OF inv, where i = i])
      show "mg_tasks s' = SendTask (mg_now s) r d body c Once # mg_tasks s" using m_auto(1) by simp
    qed (use m_auto r fresh_turn [OF rows m_auto(2) inv] held_new [OF r(3)] in
         \<open>auto simp: own_row_def queued_row_def intro: held_Cons\<close>)
  next
    case (m_missed i gw n caller c w own optedOut lastAuto company thread call body est throttle r replayed t)
    have r: "ob_call r \<noteq> None" "t = mg_rows s \<or> t = r # mg_rows s"
      using missed_admits [OF m_missed(4)] by (auto simp: queued_row_def split: if_splits)
    show ?thesis
    proof (rule turn_more [OF inv])
      show "mg_tasks s' = SendTask (mg_now s) r caller body c Once # mg_tasks s" using m_missed(1) by simp
    qed (use m_missed r in \<open>auto simp: own_row_def intro: held_Cons\<close>)
  next
    case (m_fire i gw n d c j q sr job cal m q' est r)
    show ?thesis
    proof (rule turn_more [OF inv, where i = i])
      show "mg_tasks s' = SendTask (mg_now s) r d (sc_body sr) c Once # mg_tasks s" using m_fire(1) by simp
    qed (use m_fire fresh_turn [OF rows m_fire(2) inv] held_new [OF m_fire(6)] in
         \<open>auto simp: own_row_def fired_row_def queued_row_def intro: held_Cons\<close>)
  next
    case (m_retry gw n d c w primary optedOut company i r t)
    have i: "ob_id r = i" using retry_takes(2) [OF \<open>wf_outbox (mg_rows s)\<close> m_retry(3)] .
    show ?thesis
    proof (rule turn_more [OF inv, where i = i])
      show "mg_tasks s' = SendTask (mg_now s) r d (ob_body r) c Once # mg_tasks s" using m_retry(1) by simp
      show "own (SendTask (mg_now s) r d (ob_body r) c Once) = [] \<or>
        own (SendTask (mg_now s) r d (ob_body r) c Once) = [(i, mg_now s)] \<and> held (mg_rows s') (mg_now s) i \<and>
        (\<forall>n. (i, n) \<in># owners (mg_tasks s) \<longrightarrow> \<not> alive (mg_now s) n)"
        using retry_turn [OF rows inv] m_retry(1,3) i retry_new [OF \<open>wf_outbox (mg_rows s)\<close> m_retry(3)]
        by (cases "ob_call r") (auto simp: own_row_def)
      show "held (mg_rows s') m j" if "alive (mg_now s) m" "held (mg_rows s) m j" "m \<le> mg_now s" for j m
        using retry_keeps [OF \<open>wf_outbox (mg_rows s)\<close> that(2,1,3) m_retry(3)] m_retry(1) by simp
    qed (use m_retry(1) in simp_all)
  next
    case (m_retry_refused w primary optedOut company i e t)
    show ?thesis
      by (rule turn_same [OF inv]) (use m_retry_refused retry_keeps [OF \<open>wf_outbox (mg_rows s)\<close>] in auto)
  next
    case (m_interrupt k n r d b c)
    show ?thesis
      by (rule turn_writes [OF inv rows m_interrupt(3,4), of r "[]"]) (use m_interrupt K [OF m_interrupt(3)] in simp_all)
  next
    case (m_send k n r d b c og w detail p effs cs)
    show ?thesis
      by (rule turn_into [OF inv m_send(3), where ks = "[PersistTask n r p og]"])
         (use m_send(1,2) unswept_old [OF inv m_send(3)] in simp_all)
  next
    case (m_persist k n r p og t)
    show ?thesis
    proof (rule turn_writes [OF inv rows m_persist(3,4)])
      show "mset (own_row n r) + owners (if p = LimitPatch then after_throw n r og else after_send n og) \<subseteq># mset (own k)"
        using owners_limit [of n r p og] unswept_old [OF inv m_persist(3)] m_persist(2) by (simp add: owners_after(1))
      show "mg_rows s' = persisted (mg_now s) r p (mg_rows s)" using m_persist(1,5) by (simp add: persisted_def)
    qed (use m_persist K [OF m_persist(3)] in auto)
  next
    case (m_throw k)
    show ?thesis
      by (rule turn_into [OF inv m_throw(2) owners_thrown]) (use m_throw unswept_thrown in auto)
  next
    case (m_drop k)
    show ?thesis by (rule turn_into [OF inv m_drop(2), of "[]"]) (use m_drop in auto)
  next
    case (m_skip k n r rest)
    show ?thesis
      by (rule turn_into [OF inv m_skip(3), of "next_sweep n rest"]) (use m_skip in \<open>auto simp: owners_next\<close>)
  next
    case (m_sweep_gate k n r rest gw now d c)
    show ?thesis
      by (rule turn_into [OF inv m_sweep_gate(3), of "[SweepClaim n r d c rest]"]) (use m_sweep_gate in auto)
  next
    case (m_sweep_fail k n r rest)
    show ?thesis
      by (rule turn_writes [OF inv rows m_sweep_fail(3,4), of r "next_sweep n rest"])
         (use m_sweep_fail K [OF m_sweep_fail(3)] in \<open>auto simp: owners_next\<close>)
  next
    case (m_finalize k x p m)
    show ?thesis
      by (rule turn_into [OF inv m_finalize(3), of "if ob_direction m = DirOutbound then [TellTask x p m] else []"])
         (use m_finalize status_keeps in auto)
  next
    case (m_tell k x p m)
    show ?thesis by (rule turn_into [OF inv m_tell(3), of "[MeterTask x p m]"]) (use m_tell in auto)
  next
    case (m_unbilled k cron u rest)
    show ?thesis by (rule turn_into [OF inv m_unbilled(3), of "next_report cron rest"]) (use m_unbilled in auto)
  next
    case (m_report k cron u rest customer e a es)
    show ?thesis
      by (rule turn_into [OF inv m_report(3), of "if report_done cron a then [StampTask cron u rest] else next_report cron rest"])
         (use m_report in auto)
  next
    case (m_stamp k cron u rest)
    show ?thesis by (rule turn_into [OF inv m_stamp(3), of "next_report cron rest"]) (use m_stamp in auto)
  next
    case (m_finalized x m p)
    show ?thesis by (rule turn_more [OF inv, of _ "FinalizeTask x p m"]) (use m_finalized in auto)
  next
    case (m_fail_stuck)
    show ?thesis by (rule turn_same [OF inv]) (use m_fail_stuck stuck_keeps in auto)
  next
    case (m_sent x)
    show ?thesis by (rule turn_same [OF inv]) (use m_sent status_keeps in auto)
  next
    case (m_touch i)
    show ?thesis by (rule turn_same [OF inv]) (use m_touch status_keeps in auto)
  next
    case (m_other r)
    show ?thesis by (rule turn_same [OF inv]) (use m_other in \<open>auto intro: held_Cons\<close>)
  next
    case (m_hourly)
    show ?thesis by (rule turn_less [OF inv]) (use m_hourly unswept_old [OF inv] in auto)
  next
    case (m_meter k x p m i u)
    show ?thesis
      by (rule turn_into [OF inv m_meter(3), of "case insert_usage u (mg_usage s) of None \<Rightarrow> [] | Some us \<Rightarrow> [ReportTask False u []]"])
         (use m_meter in \<open>auto split: option.splits\<close>)
  next
    case (m_claim locked rs t)
    note c = claim_takes [OF w m_claim(2)]
    let ?R = "filter (\<lambda>r. ob_call r = None) rs"
    have d: "distinct (map ob_id ?R)" using c(1) by (rule distinct_map_filter)
    have N: "owners (next_sweep (mg_now s) rs) = mset (map (\<lambda>r. (ob_id r, mg_now s)) ?R)"
      by (simp add: owners_next own_rows_ids)
    show ?thesis
    proof (rule turn_step [OF inv, of _ "mset (map (\<lambda>r. (ob_id r, mg_now s)) ?R)"])
      show "owners (mg_tasks s') \<subseteq># owners (mg_tasks s) + mset (map (\<lambda>r. (ob_id r, mg_now s)) ?R)"
        using m_claim(1) N by simp
      have "held (mg_rows s') (mg_now s) (ob_id r) \<and> (\<forall>n. (ob_id r, n) \<in># owners (mg_tasks s) \<longrightarrow> \<not> alive (mg_now s) n)"
        if r: "r \<in> set ?R" for r
      proof -
        obtain q where q: "q \<in> set (mg_rows s)" "same_text q r" "stuck (mg_now s) STUCK_SEND_SECONDS q"
          using c(2) [of r] r by auto
        have "held t (mg_now s) (ob_id r)" using c(2) [of r] r unfolding held_def by fastforce
        then show ?thesis using stuck_turn [OF rows inv q(1,3)] q(2) m_claim(1) by (auto simp: same_text_def)
      qed
      then show "\<forall>(i, n) \<in># mset (map (\<lambda>r. (ob_id r, mg_now s)) ?R). n = mg_now s' \<and> held (mg_rows s') n i
          \<and> (\<forall>n. (i, n) \<in># owners (mg_tasks s) \<longrightarrow> \<not> alive (mg_now s) n)"
        using m_claim(1) by auto
      show "\<forall>i. size (filter_mset (\<lambda>(j, n). j = i) (mset (map (\<lambda>r. (ob_id r, mg_now s)) ?R))) \<le> 1"
        by (rule allI) (rule claimed_once [OF d])
      show "held (mg_rows s') n i" if "held (mg_rows s) n i" "n \<le> mg_now s" for i n
        using claim_keeps [OF m_claim(2) that] m_claim(1) by simp
      show "\<forall>k \<in> set (mg_tasks s'). unswept k" using m_claim(1) unswept_old [OF inv] by auto
    qed (use m_claim(1) in simp)
  next
    case (m_sweep_claim k n r d c rest w primary optedOut res t)
    note keeps = retry_keeps [OF \<open>wf_outbox (mg_rows s)\<close> _ _ _ m_sweep_claim(5)]
    have call: "ob_call q \<noteq> None" if "res = Inr q" for q
    proof
      assume q: "ob_call q = None"
      have c: "claim_message_retry (mg_now s) w primary optedOut (ob_company r) (ob_id r) STUCK_SEND_SECONDS (mg_rows s) (mg_usage s)
          = (Inr q, t)" using m_sweep_claim(5) that by simp
      from retry_takes(7) [OF \<open>wf_outbox (mg_rows s)\<close> c]
      obtain q0 where q0: "q0 \<in> set (mg_rows s)" "same_text q0 q" ..
      have "ob_id q = ob_id r" by (rule retry_takes(2) [OF \<open>wf_outbox (mg_rows s)\<close> c])
      note q0 = q0 this
      obtain r0 where r0: "r0 \<in> set (mg_rows s)" "same_text r r0" using K [OF m_sweep_claim(3)] m_sweep_claim(2) by (auto simp: known_def)
      have "ob_id q0 = ob_id r0" using q0(2,3) r0(2) unfolding same_text_def by metis
      then have "q0 = r0" by (rule outbox_by_id [OF \<open>wf_outbox (mg_rows s)\<close> q0(1) r0(1)])
      then have "ob_call r = None" using q q0(2) r0(2) unfolding same_text_def by metis
      then have "(ob_id r, n) \<in># mset (own k)" using m_sweep_claim(2) by (simp add: own_row_def)
      then have "(ob_id r, n) \<in># owners (mg_tasks s)" using owners_remove [OF m_sweep_claim(3)] by (metis union_iff)
      then show False using retry_turn [OF rows inv _ m_sweep_claim(4)] c by blast
    qed
    show ?thesis
      by (rule turn_into [OF inv m_sweep_claim(3), of
            "case res of Inr q \<Rightarrow> [SendTask n q d (ob_body q) c (Sweep rest)] | Inl e \<Rightarrow> [SweepFail n r rest]"])
         (use m_sweep_claim(1,2) call keeps in \<open>auto simp: own_row_def split: sum.splits\<close>)
  qed
qed

lemma reach_turns: "mreach P s \<Longrightarrow> turn_inv s"
proof (induction rule: mreach.induct)
  case (m_start n)
  show ?case by (simp add: turn_inv_def msg_start_def turns_def)
next
  case (m_step s s')
  then show ?case using step_turns reach_rows by blast
qed

end
