(* ===== verification/Message_Meter.thy ===== *)
theory Message_Meter
  imports Message_Turns
begin

text \<open>
  The ledger of metered texts: one entry for a text, for a text the carrier accepted, and what Stripe
  accepted is in it.
\<close>

definition same_usage :: "usage_row \<Rightarrow> usage_row \<Rightarrow> bool" where
  "same_usage u v \<longleftrightarrow> ug_id v = ug_id u \<and> ug_message v = ug_message u \<and> ug_identifier v = ug_identifier u \<and> ug_quantity v = ug_quantity u"

definition in_ledger :: "usage_ledger \<Rightarrow> usage_row \<Rightarrow> bool" where
  "in_ledger us u \<longleftrightarrow> (\<exists>v \<in> set us. same_usage u v)"

fun task_billed :: "usage_ledger \<Rightarrow> string set \<Rightarrow> msg_task \<Rightarrow> bool" where
  "task_billed us bs (ReportTask cron u rest) = (\<forall>v \<in> set (u # rest). in_ledger us v)"
| "task_billed us bs (StampTask cron u rest) = ((\<forall>v \<in> set (u # rest). in_ledger us v) \<and> usage_identifier u \<in> bs)"
| "task_billed us bs k = True"

definition usage_ok :: "(string \<times> string) set \<Rightarrow> usage_row \<Rightarrow> bool" where
  "usage_ok cs u \<longleftrightarrow> 1 \<le> ug_quantity u
     \<and> (\<exists>i x. ug_message u = Some i \<and> ug_identifier u = Some x \<and> (text_key i, x) \<in> cs)"

abbreviation taken_ids :: "msg_sys \<Rightarrow> string set" where
  "taken_ids s \<equiv> me_identifier ` set (mg_meter s)"

definition meter_inv :: "promises \<Rightarrow> msg_sys \<Rightarrow> bool" where
  "meter_inv P s \<longleftrightarrow>
     distinct (map ug_message (mg_usage s)) \<and> distinct (map ug_id (mg_usage s)) \<and> ug_id ` set (mg_usage s) \<subseteq> mg_ids s
     \<and> (\<forall>u \<in> set (mg_usage s). usage_ok (set (mg_carrier s)) u)
     \<and> (\<forall>u \<in> set (mg_usage s). ug_reported u \<noteq> None \<longrightarrow> usage_identifier u \<in> taken_ids s)
     \<and> (\<forall>e \<in> set (mg_meter s). \<exists>u \<in> set (mg_usage s). usage_identifier u = me_identifier e \<and> ug_quantity u = me_value e)
     \<and> (pr_meter P \<longrightarrow> distinct (map me_identifier (mg_meter s)))
     \<and> (\<forall>k \<in> set (mg_tasks s). task_billed (mg_usage s) (taken_ids s) k)"

lemma meter_stamped: "meter_inv P s \<Longrightarrow> \<forall>u \<in> set (mg_usage s). ug_reported u \<noteq> None \<longrightarrow> usage_identifier u \<in> taken_ids s"
  unfolding meter_inv_def by (elim conjE) assumption

lemma meter_from: "meter_inv P s \<Longrightarrow>
    \<forall>e \<in> set (mg_meter s). \<exists>u \<in> set (mg_usage s). usage_identifier u = me_identifier e \<and> ug_quantity u = me_value e"
  unfolding meter_inv_def by (elim conjE) assumption

lemma meter_unique: "meter_inv P s \<Longrightarrow> distinct (map ug_message (mg_usage s))"
  "meter_inv P s \<Longrightarrow> pr_meter P \<Longrightarrow> distinct (map me_identifier (mg_meter s))"
  unfolding meter_inv_def by (elim conjE, assumption, elim conjE impE, assumption+)

lemma metered_quantity_pos: "1 \<le> metered_quantity p"
  by (auto simp: metered_quantity_def MMS_SEGMENTS_def counted_parts_def split: option.splits)

lemma same_usage_ident: "same_usage u v \<Longrightarrow> usage_identifier v = usage_identifier u"
  by (simp add: same_usage_def usage_identifier_def split: option.splits)

lemma insert_usage_Some: "insert_usage u us = Some us' \<Longrightarrow> us' = u # us \<and> (\<forall>i. ug_message u = Some i \<longrightarrow> \<not> metered us i)"
  by (auto simp: insert_usage_def split: option.splits if_splits)

lemma task_billed_mono:
  "task_billed us bs k \<Longrightarrow> (\<And>u. in_ledger us u \<Longrightarrow> in_ledger us' u) \<Longrightarrow> bs \<subseteq> bs' \<Longrightarrow> task_billed us' bs' k"
  by (cases k) auto

lemma next_billed: "(\<forall>v \<in> set us. in_ledger l v) \<Longrightarrow> k \<in> set (next_report b us) \<Longrightarrow> task_billed l bs k"
  by (auto simp: next_report_def split: list.splits)

lemma other_billed: "k \<in> set (next_sweep n rs) \<Longrightarrow> task_billed l bs k" "k \<in> set (after_send n og) \<Longrightarrow> task_billed l bs k"
  "k \<in> set (after_throw n r og) \<Longrightarrow> task_billed l bs k"
  by (auto simp: next_sweep_def split: list.splits) (cases og; auto simp: next_sweep_def split: list.splits)+

lemma thrown_billed: "task_billed l bs k \<Longrightarrow> k' \<in> set (thrown k) \<Longrightarrow> task_billed l bs k'"
  by (cases k) (auto dest: next_billed [rotated] other_billed split: list.splits if_splits)

lemma in_ledger_Cons: "in_ledger us u \<Longrightarrow> in_ledger (v # us) u"
  by (auto simp: in_ledger_def)

lemma stamp_later: "v \<in> set (stamp_usage now i us) \<Longrightarrow> \<exists>u \<in> set us. same_usage u v \<and> (ug_reported v = ug_reported u \<or> ug_id u = i)"
  by (fastforce simp: stamp_usage_def same_usage_def)

lemma stamp_ledger: "in_ledger us u \<Longrightarrow> in_ledger (stamp_usage now i us) u"
proof -
  assume "in_ledger us u"
  then obtain v where v: "v \<in> set us" "same_usage u v" by (auto simp: in_ledger_def)
  let ?v = "if ug_id v = i \<and> ug_reported v = None then v\<lparr>ug_reported := Some now\<rparr> else v"
  have "?v \<in> set (stamp_usage now i us)" using v(1) by (simp add: stamp_usage_def)
  moreover have "same_usage u ?v" using v(2) by (simp add: same_usage_def)
  ultimately show ?thesis unfolding in_ledger_def by blast
qed

lemma stamp_maps [simp]: "map ug_id (stamp_usage now i us) = map ug_id us" "map ug_message (stamp_usage now i us) = map ug_message us"
  by (simp_all add: stamp_usage_def)

text \<open>A step that leaves the ledger and Stripe alone, and whose new tasks report what the ledger holds.\<close>

lemma meter_frame:
  assumes inv: "meter_inv P s" and s: "mg_usage s' = mg_usage s" "mg_meter s' = mg_meter s"
    and m: "mg_ids s \<subseteq> mg_ids s'" "set (mg_carrier s) \<subseteq> set (mg_carrier s')"
    and k: "\<And>k. k \<in> set (mg_tasks s') \<Longrightarrow> k \<in> set (mg_tasks s) \<or> task_billed (mg_usage s) (taken_ids s) k"
  shows "meter_inv P s'"
proof -
  have "usage_ok (set (mg_carrier s')) u" if "u \<in> set (mg_usage s)" for u
    using inv that m(2) unfolding meter_inv_def usage_ok_def by blast
  moreover have "\<forall>k \<in> set (mg_tasks s'). task_billed (mg_usage s) (taken_ids s) k"
    using inv k unfolding meter_inv_def by blast
  ultimately show ?thesis using inv m(1) unfolding meter_inv_def s by auto
qed

lemma step_meter:
  assumes s: "mstep P s s'" and rows: "rows_inv s" and inv: "meter_inv P s"
  shows "meter_inv P s'"
proof -
  have ids: "mg_ids s \<subseteq> mg_ids s'" using step_ids [OF s] .
  have cs: "set (mg_carrier s) \<subseteq> set (mg_carrier s')" using step_carrier [OF s] by auto
  have B: "task_billed (mg_usage s) (taken_ids s) k" if "k \<in> set (mg_tasks s)" for k
    using inv that by (simp add: meter_inv_def)
  have rem: "k' \<in> set (remove1 k (mg_tasks s)) \<Longrightarrow> k' \<in> set (mg_tasks s)" for k k'
    using set_remove1_subset by fast
  show ?thesis
    using s
  proof cases
    case (m_meter k x p m i u)
    show ?thesis
    proof (cases "insert_usage u (mg_usage s)")
      case None
      show ?thesis by (rule meter_frame [OF inv _ _ ids cs]) (use m_meter None rem in auto)
    next
      case (Some us)
      have us: "us = u # mg_usage s" "\<not> metered (mg_usage s) (ob_id m)"
        using insert_usage_Some [OF Some] m_meter(5) by (auto simp: usage_of_def)
      have s': "mg_usage s' = u # mg_usage s" "mg_meter s' = mg_meter s" "mg_carrier s' = mg_carrier s"
        "mg_ids s' = insert i (mg_ids s)" "mg_tasks s' = ReportTask False u [] # remove1 k (mg_tasks s)"
        using m_meter(1) Some us by simp_all
      have u: "ug_id u = i" "ug_message u = Some (ob_id m)" "ug_identifier u = Some x" "ug_reported u = None" "1 \<le> ug_quantity u"
        using m_meter(5) metered_quantity_pos by (simp_all add: usage_of_def)
      have "(text_key (ob_id m), x) \<in> set (mg_carrier s)"
        using rows m_meter(2,3) by (fastforce simp: rows_inv_def)
      then have ok: "usage_ok (set (mg_carrier s)) u" using u by (simp add: usage_ok_def)
      have new: "Some (ob_id m) \<notin> ug_message ` set (mg_usage s)" "i \<notin> ug_id ` set (mg_usage s)"
        using us(2) m_meter(4) inv by (force simp: metered_def list_ex_iff, auto simp: meter_inv_def)
      have "in_ledger (mg_usage s') v" if "in_ledger (mg_usage s) v" for v
        using in_ledger_Cons [OF that] s'(1) by simp
      then have "task_billed (mg_usage s') (taken_ids s') k'" if "k' \<in> set (mg_tasks s)" for k'
        using task_billed_mono [OF B [OF that]] s'(2) by simp
      moreover have "in_ledger (mg_usage s') u" using s'(1) by (simp add: in_ledger_def same_usage_def)
      ultimately have T: "\<forall>k' \<in> set (mg_tasks s'). task_billed (mg_usage s') (taken_ids s') k'"
        using s'(5) rem by auto
      show ?thesis unfolding meter_inv_def
      proof (intro conjI)
        show "distinct (map ug_message (mg_usage s'))" "distinct (map ug_id (mg_usage s'))"
          using inv new u s'(1) by (simp_all add: meter_inv_def)
        show "ug_id ` set (mg_usage s') \<subseteq> mg_ids s'" using inv u s' by (auto simp: meter_inv_def)
        show "\<forall>u \<in> set (mg_usage s'). usage_ok (set (mg_carrier s')) u" using inv ok s' by (auto simp: meter_inv_def)
        show "\<forall>u \<in> set (mg_usage s'). ug_reported u \<noteq> None \<longrightarrow> usage_identifier u \<in> taken_ids s'"
          using inv u s' by (auto simp: meter_inv_def)
        show "\<forall>e \<in> set (mg_meter s'). \<exists>u \<in> set (mg_usage s'). usage_identifier u = me_identifier e \<and> ug_quantity u = me_value e"
          using inv s' by (auto simp: meter_inv_def)
        show "pr_meter P \<longrightarrow> distinct (map me_identifier (mg_meter s'))" using inv s' by (simp add: meter_inv_def)
      qed (rule T)
    qed
  next
    case (m_report k cron u rest customer e a es)
    have e: "me_identifier e = usage_identifier u" "me_value e = ug_quantity u"
      using m_report(4) by (auto simp: reportMeterEvent_def split: if_splits)
    have L: "\<forall>v \<in> set (u # rest). in_ledger (mg_usage s) v" using B [OF m_report(3)] m_report(2) by simp
    have s': "mg_usage s' = mg_usage s" "mg_meter s' = es" "mg_carrier s' = mg_carrier s" "mg_ids s' = mg_ids s"
      using m_report(1) by simp_all
    have es: "es = mg_meter s \<or> es = e # mg_meter s \<and> (pr_meter P \<longrightarrow> me_identifier e \<notin> taken_ids s)"
      using m_report(5) by (auto simp: stripe_answers_def)
    have don: "report_done cron a \<Longrightarrow> usage_identifier u \<in> me_identifier ` set es"
      using m_report(5) e(1) by (auto simp: stripe_answers_def report_done_def)
    have sub: "taken_ids s \<subseteq> taken_ids s'" using es s' by auto
    have "k' \<in> set (mg_tasks s) \<or> task_billed (mg_usage s') (taken_ids s') k'" if "k' \<in> set (mg_tasks s')" for k'
      using that m_report(1) rem L don next_billed [of rest "mg_usage s" k' cron] s' by (auto split: if_splits)
    then have T: "\<forall>k' \<in> set (mg_tasks s'). task_billed (mg_usage s') (taken_ids s') k'"
      using task_billed_mono [OF B _ sub] s'(1) by metis
    obtain v where v: "v \<in> set (mg_usage s)" "same_usage u v" using L by (auto simp: in_ledger_def)
    then have "usage_identifier v = me_identifier e \<and> ug_quantity v = me_value e"
      using e same_usage_ident [OF v(2)] by (simp add: same_usage_def)
    then have "\<exists>v \<in> set (mg_usage s). usage_identifier v = me_identifier e \<and> ug_quantity v = me_value e" using v(1) by blast
    then have "\<forall>e \<in> set es. \<exists>v \<in> set (mg_usage s). usage_identifier v = me_identifier e \<and> ug_quantity v = me_value e"
      using inv es by (auto simp: meter_inv_def)
    moreover have "pr_meter P \<longrightarrow> distinct (map me_identifier es)" using inv es by (auto simp: meter_inv_def)
    ultimately show ?thesis using inv s' T sub unfolding meter_inv_def by auto
  next
    case (m_stamp k cron u rest)
    have L: "\<forall>v \<in> set (u # rest). in_ledger (mg_usage s) v" "usage_identifier u \<in> taken_ids s"
      using B [OF m_stamp(3)] m_stamp(2) by simp_all
    have s': "mg_usage s' = stamp_usage (mg_now s) (ug_id u) (mg_usage s)" "mg_meter s' = mg_meter s" "mg_carrier s' = mg_carrier s"
      "mg_ids s' = mg_ids s" using m_stamp(1) by simp_all
    have keep: "in_ledger (mg_usage s') v" if "in_ledger (mg_usage s) v" for v using stamp_ledger [OF that] s'(1) by simp
    have "k' \<in> set (mg_tasks s) \<or> task_billed (mg_usage s') (taken_ids s') k'" if "k' \<in> set (mg_tasks s')" for k'
      using that m_stamp(1) rem L keep next_billed [of rest "mg_usage s'" k' cron] by (auto simp: s')
    moreover have "taken_ids s \<subseteq> taken_ids s'" using s'(2) by simp
    ultimately have T: "\<forall>k' \<in> set (mg_tasks s'). task_billed (mg_usage s') (taken_ids s') k'"
      using task_billed_mono [OF B keep] by blast
    have later: "\<exists>w \<in> set (mg_usage s). same_usage w v \<and> (ug_reported v = ug_reported w \<or> ug_id w = ug_id u)"
      if "v \<in> set (mg_usage s')" for v using stamp_later that s'(1) by simp
    obtain w where w: "w \<in> set (mg_usage s)" "same_usage u w" using L(1) by (auto simp: in_ledger_def)
    have ident: "usage_identifier v = usage_identifier u" if "v \<in> set (mg_usage s)" "ug_id v = ug_id u" for v
    proof -
      have "inj_on ug_id (set (mg_usage s))" using inv by (simp add: meter_inv_def distinct_map)
      then have "v = w" using that w by (metis inj_onD same_usage_def)
      then show ?thesis using same_usage_ident [OF w(2)] by simp
    qed
    show ?thesis unfolding meter_inv_def
    proof (intro conjI)
      show "distinct (map ug_message (mg_usage s'))" "distinct (map ug_id (mg_usage s'))"
        using inv s'(1) by (simp_all add: meter_inv_def)
      show "ug_id ` set (mg_usage s') \<subseteq> mg_ids s'" using inv s' unfolding meter_inv_def by (metis stamp_maps(1) set_map)
      show "\<forall>v \<in> set (mg_usage s'). usage_ok (set (mg_carrier s')) v"
      proof
        fix v assume "v \<in> set (mg_usage s')"
        then obtain w where "w \<in> set (mg_usage s)" "same_usage w v" using later by blast
        then show "usage_ok (set (mg_carrier s')) v" using inv s'(3) unfolding meter_inv_def usage_ok_def same_usage_def by metis
      qed
      show "\<forall>v \<in> set (mg_usage s'). ug_reported v \<noteq> None \<longrightarrow> usage_identifier v \<in> taken_ids s'"
      proof (intro ballI impI)
        fix v assume v: "v \<in> set (mg_usage s')" "ug_reported v \<noteq> None"
        obtain w where w: "w \<in> set (mg_usage s)" "same_usage w v" "ug_reported v = ug_reported w \<or> ug_id w = ug_id u"
          using later [OF v(1)] by blast
        then show "usage_identifier v \<in> taken_ids s'"
          using same_usage_ident [OF w(2)] ident [OF w(1)] L(2) s'(2) v(2) inv by (auto simp: meter_inv_def)
      qed
      show "\<forall>e \<in> set (mg_meter s'). \<exists>v \<in> set (mg_usage s'). usage_identifier v = me_identifier e \<and> ug_quantity v = me_value e"
      proof
        fix e assume "e \<in> set (mg_meter s')"
        then obtain w where w: "w \<in> set (mg_usage s)" "usage_identifier w = me_identifier e" "ug_quantity w = me_value e"
          using inv s'(2) by (auto simp: meter_inv_def)
        have "in_ledger (mg_usage s) w" using w(1) by (auto simp: in_ledger_def same_usage_def)
        then obtain v where "v \<in> set (mg_usage s')" "same_usage w v" using keep by (auto simp: in_ledger_def)
        then show "\<exists>v \<in> set (mg_usage s'). usage_identifier v = me_identifier e \<and> ug_quantity v = me_value e"
          using w same_usage_ident by (metis same_usage_def)
      qed
      show "pr_meter P \<longrightarrow> distinct (map me_identifier (mg_meter s'))" using inv s' by (simp add: meter_inv_def)
    qed (rule T)
  next
    case (m_hourly)
    have "in_ledger (mg_usage s) v" if "v \<in> set (unreported (mg_usage s))" for v
    proof -
      have "v \<in> set (mg_usage s)" using in_set_takeD [OF that [unfolded unreported_def]] by simp
      then show ?thesis unfolding in_ledger_def same_usage_def by blast
    qed
    then have "task_billed (mg_usage s) (taken_ids s) k" if "k \<in> set (next_report True (unreported (mg_usage s)))" for k
      using next_billed [OF _ that] by blast
    then show ?thesis by (intro meter_frame [OF inv _ _ ids cs]) (use m_hourly in auto)
  next
    case (m_unbilled k cron u rest)
    show ?thesis
      by (rule meter_frame [OF inv _ _ ids cs])
         (use m_unbilled rem B [OF m_unbilled(3)] next_billed [of rest "mg_usage s" _ cron] in auto)
  next
    case (m_throw k)
    show ?thesis
      by (rule meter_frame [OF inv _ _ ids cs]) (use m_throw rem thrown_billed [OF B [OF m_throw(2)]] in auto)
  qed (rule meter_frame [OF inv _ _ ids cs]; auto dest: rem other_billed split: if_splits sum.splits)+
qed

lemma reach_meter: "mreach P s \<Longrightarrow> meter_inv P s"
proof (induction rule: mreach.induct)
  case (m_start n)
  show ?case by (simp add: meter_inv_def msg_start_def)
next
  case (m_step s s')
  then show ?case using step_meter reach_rows by blast
qed

end
