(* ===== verification/Message_Claims.thy ===== *)
theory Message_Claims
  imports Message_Meter
begin

text \<open>
  What the life of a text guarantees: its properties, each after the number it has in the manifest, and
  the short runs that show their hypotheses can hold.
\<close>

section \<open>A run to apply the properties to\<close>

definition demo_gates :: gate_world where
  "demo_gates = \<lparr>gw_killed = False,
     gw_gates = Some \<lparr>sg_active = True, sg_paused = False, sg_aup = ''none'', sg_usApproved = True, sg_caAllowed = True\<rparr>,
     gw_lastHour = None, gw_offRamp = None, gw_optedOut = Some False\<rparr>"

definition demo_to :: string where "demo_to = ''+14165550100''"

definition demo_workspace :: workspace where
  "demo_workspace = \<lparr>wk_status = ''active'', wk_plan = Some StarterPlan, wk_paused = None, wk_capTimes = Some 3,
     wk_periodStart = Some 0, wk_owner = ''own''\<rparr>"

definition demo_text :: outbox_row where
  "demo_text = queued_row 0 ''m1'' ''co'' ''th'' ''hello'' 1 ''u'' (Some ''k'') None"

definition demo_at :: "ms \<Rightarrow> outbox \<Rightarrow> (string \<times> string) list \<Rightarrow> send_effect list \<Rightarrow> msg_task list \<Rightarrow> msg_sys" where
  "demo_at n rows cs es ks = \<lparr>mg_now = n, mg_rows = rows, mg_usage = [], mg_carrier = cs, mg_sent = es, mg_meter = [],
     mg_told = [], mg_tasks = ks, mg_ids = {''m1''}\<rparr>"

abbreviation demo_clear :: clearance where "demo_clear \<equiv> Cleared demo_to"

definition demo_late :: ms where "demo_late = 900001"

lemma demo_clears: "runPreSendGates demo_gates n demo_to off = Inr demo_clear"
proof -
  have "destination_gate \<lparr>sg_active = True, sg_paused = False, sg_aup = ''none'', sg_usApproved = True, sg_caAllowed = True\<rparr> demo_to
      = None" unfolding demo_to_def by code_simp
  then show ?thesis by (simp add: cleared_iff demo_gates_def)
qed

lemma demo_admits:
  "gate_outbound_send 0 (Some demo_workspace) (Some demo_to) (\<lambda>_. False) [] ''m1'' ''co'' ''th'' (Some ''u'') (Some ''hello'')
     (Some ''k'') (Some 1) [] [] = (GateAdmits demo_text, [demo_text])"
  by (simp add: gate_outbound_send_def demo_workspace_def demo_text_def btrim_def find_key_def company_send_block_def
      HOURLY_SEGMENTS_def hour_segments_def spend_cap_def above_cap_def plan_quota_def period_used_def period_pending_def Let_def)

lemma demo_sending: "mreach P (demo_at 0 [demo_text] [] [] [SendTask 0 demo_text demo_to ''hello'' demo_clear Route])"
proof -
  have "mstep P (msg_start 0) (launch [SendTask (mg_now (msg_start 0)) demo_text demo_to (ob_body demo_text) demo_clear Route]
      (gives_id ''m1'' (outbox_to [demo_text] (msg_start 0))))"
    by (rule m_gate [OF _ demo_clears]) (use demo_admits in \<open>simp_all add: msg_start_def\<close>)
  then have "mreach P (launch [SendTask (mg_now (msg_start 0)) demo_text demo_to (ob_body demo_text) demo_clear Route]
      (gives_id ''m1'' (outbox_to [demo_text] (msg_start 0))))" by (rule m_step [OF m_start])
  moreover have "launch [SendTask (mg_now (msg_start 0)) demo_text demo_to (ob_body demo_text) demo_clear Route]
      (gives_id ''m1'' (outbox_to [demo_text] (msg_start 0)))
      = demo_at 0 [demo_text] [] [] [SendTask 0 demo_text demo_to ''hello'' demo_clear Route]"
    by (simp add: launch_def gives_id_def outbox_to_def msg_start_def demo_at_def demo_text_def queued_row_def)
  ultimately show ?thesis by simp
qed

definition demo_world :: "string \<Rightarrow> dispatch_world" where
  "demo_world x = \<lparr>dw_allowed = None, dw_refusal = None, dw_result = Accepted x\<rparr>"

lemma demo_into: "into k ks (demo_at n rows cs es [k]) = demo_at n rows cs es ks"
  by (simp add: into_def demo_at_def)

text \<open>The worker dies before it calls Telnyx, or after Telnyx took the text and before its id is written.\<close>

lemma demo_drop: "mreach P (demo_at n rows cs es [k]) \<Longrightarrow> mreach P (demo_at n rows cs es [])"
  by (subst demo_into [symmetric, where k = k], erule m_step, rule m_drop) (simp add: demo_at_def)

lemmas demo_died = demo_drop [OF demo_sending]

lemma demo_accepted:
  "mreach P (demo_at 0 [demo_text] [(text_key ''m1'', ''t1'')] [TelnyxSend demo_to ''hello'' (text_key ''m1'')]
     [PersistTask 0 demo_text (AcceptPatch ''t1'') Route])"
proof -
  let ?s = "demo_at 0 [demo_text] [] [] [SendTask 0 demo_text demo_to ''hello'' demo_clear Route]"
  have "mstep P ?s (into (SendTask 0 demo_text demo_to ''hello'' demo_clear Route) [PersistTask 0 demo_text (AcceptPatch ''t1'') Route]
      (?s\<lparr>mg_carrier := [(text_key ''m1'', ''t1'')], mg_sent := [TelnyxSend demo_to ''hello'' (text_key ''m1'')] @ mg_sent ?s\<rparr>))"
    by (rule m_send [OF refl, where w = "demo_world ''t1''"])
       (simp_all add: demo_at_def alive_def STUCK_SEND_SECONDS_def send_stage_def telnyxCreateMessage_def demo_world_def
          result_patch_def carrier_answers_def demo_text_def queued_row_def)
  then show ?thesis using m_step [OF demo_sending] by (fastforce simp: into_def demo_at_def)
qed

lemmas demo_answer_lost = demo_drop [OF demo_accepted]

lemma demo_wait: "mreach P (demo_at 0 rows cs es ks) \<Longrightarrow> mreach P (demo_at demo_late rows cs es ks)"
  using m_step [OF _ m_tick, of P "demo_at 0 rows cs es ks" demo_late] by (simp add: demo_at_def demo_late_def)

lemma demo_stuck: "stuck demo_late STUCK_SEND_SECONDS demo_text"
  by (simp add: stuck_def demo_late_def demo_text_def queued_row_def older_than_def STUCK_SEND_SECONDS_def)

lemmas demo_eval = demo_at_def demo_late_def demo_text_def queued_row_def alive_def STUCK_SEND_SECONDS_def

text \<open>A quarter of an hour later the row is taken for an automatic retry.\<close>

definition demo_taken :: outbox_row where
  "demo_taken = demo_text\<lparr>ob_autoRetries := 1, ob_updated := demo_late\<rparr>"

lemma demo_claim:
  "claim_stuck_sends_for_retry demo_late STUCK_SEND_SECONDS AUTO_RETRY_LIMIT RETRY_BATCH [] [demo_text] = ([demo_taken], [demo_taken])"
  using demo_stuck
  by (simp add: claim_stuck_sends_for_retry_def AUTO_RETRY_LIMIT_def RETRY_BATCH_def demo_text_def queued_row_def upd_out_def demo_taken_def)

lemma demo_swept: "mreach P (demo_at 0 [demo_text] cs es []) \<Longrightarrow>
    mreach P (demo_at demo_late [demo_taken] cs es [SweepClaim demo_late demo_taken demo_to demo_clear []])"
proof -
  assume "mreach P (demo_at 0 [demo_text] cs es [])"
  then have "mreach P (demo_at demo_late [demo_text] cs es [])" by (rule demo_wait)
  then have "mreach P (launch (next_sweep (mg_now (demo_at demo_late [demo_text] cs es [])) [demo_taken])
      (outbox_to [demo_taken] (demo_at demo_late [demo_text] cs es [])))"
    by (rule m_step) (rule m_claim, use demo_claim in \<open>simp add: demo_at_def\<close>)
  then have 1: "mreach P (demo_at demo_late [demo_taken] cs es [SweepTask demo_late [demo_taken]])"
    by (simp add: launch_def outbox_to_def demo_at_def next_sweep_def)
  show ?thesis
    by (subst demo_into [symmetric, where k = "SweepTask demo_late [demo_taken]"], rule m_step [OF 1], rule m_sweep_gate [OF refl _ _ demo_clears])
       (simp_all add: demo_eval)
qed

text \<open>Somebody retries a text that was accepted, and the carrier accepts it again.\<close>

definition demo_again :: outbox_row where
  "demo_again = demo_text\<lparr>ob_updated := demo_late\<rparr>"

lemma demo_retry:
  "claim_message_retry demo_late (Some demo_workspace) (Some demo_to) (\<lambda>_. False) ''co'' ''m1'' STUCK_SEND_SECONDS [demo_text] []
     = (Inr demo_again, [demo_again])"
  by (simp add: claim_message_retry_def find_message_def demo_text_def queued_row_def older_than_def demo_late_def STUCK_SEND_SECONDS_def
      company_send_block_def demo_workspace_def outbound_spend_check_def segs_def HOURLY_SEGMENTS_def hour_segments_def
      spend_cap_def above_cap_def plan_quota_def period_used_def period_pending_def counts_pending_def upd_out_def by_id_def
      fail_out_def requeue_def demo_again_def Let_def)


section \<open>A dispatch in stages\<close>

text \<open>
  The dispatch of \<open>Send_Gates\<close>, which scheduled sends run in one step, is the two stages of this
  system: the request, the patch of the row, and then what is told of it.
\<close>

fun status_name :: "msg_status option \<Rightarrow> string" where
  "status_name None = []"
| "status_name (Some MsgReceived) = ''received''"
| "status_name (Some MsgQueued) = ''queued''"
| "status_name (Some MsgSent) = ''sent''"
| "status_name (Some MsgDelivered) = ''delivered''"
| "status_name (Some MsgFailed) = ''failed''"

definition message_of :: "outbox_row \<Rightarrow> message" where
  "message_of r = \<lparr>m_id = ob_id r, m_company = ob_company r, m_thread = ob_thread r, m_body = ob_body r, m_telnyx = ob_telnyx r,
     m_status = status_name (ob_status r), m_errorCode = ob_errorCode r, m_errorReason = ob_errorReason r\<rparr>"

fun told_after :: "send_patch \<Rightarrow> outbox_row \<Rightarrow> string \<Rightarrow> send_effect list" where
  "told_after (AcceptPatch x) r d = [AcceptedEvents (ob_id r)]"
| "told_after (RefusePatch code reason detail) r d = (if reason = OptOut then [RecordCarrierOptOut (ob_company r) d] else [])"
| "told_after LimitPatch r d = []"
| "told_after (InterruptPatch detail) r d = []"

lemma dispatch_in_stages:
  "snd (dispatchOutbound w (message_of r) d b c) =
     (case send_stage w r d b c detail of
        None \<Rightarrow> []
      | Some (p, effs) \<Rightarrow> effs @ [PatchMessage (message_of (apply_send_patch p r))] @ told_after p r d)"
  by (simp add: dispatchOutbound_def send_stage_def telnyxCreateMessage_def message_of_def result_patch_def Let_def
      split: option.splits telnyx_result.splits)

lemma fired_message_row: "message_of (fired_row now mid est r) = fired_message mid r"
  by (simp add: message_of_def fired_row_def queued_row_def fired_message_def)

text \<open>
  A replayed missed call hands out a row that failed for the limiter, and the carrier's acceptance writes
  only the id: the text went out, the row still reads failed, and \<open>message.sent\<close> does not change that.
\<close>

lemma replayed_text_reads_failed:
  assumes "ob_status r = Some MsgFailed" "persistMessagePatch now (ob_id r) (ob_company r) (AcceptPatch x) [r] = Some [q]"
  shows "ob_telnyx q = Some x \<and> ob_status q = Some MsgFailed \<and> markSent later x [q] = [q]"
  using assms by (auto simp: persistMessagePatch_def upd_out_def find_message_def takes_id_def markSent_def)

section \<open>Retries\<close>

lemma retry_conflict:
  assumes w: "wf_outbox t" and h: "held t n i" and a: "alive now n" and r: "known t r" "ob_id r = i"
  shows "claim_message_retry now (Some c) primary opted (ob_company r) i STUCK_SEND_SECONDS t us = (Inl SqlConflict, t)"
proof -
  obtain q where q: "q \<in> set t" "ob_id q = i" "ob_status q = Some MsgQueued" "n \<le> ob_updated q" using h by (auto simp: held_def)
  obtain q' where q': "q' \<in> set t" "same_text r q'" using r(1) by (auto simp: known_def)
  have "ob_id q = ob_id q'" using q(2) q'(2) r(2) by (simp add: same_text_def)
  then have "q = q'" by (rule outbox_by_id [OF w q(1) q'(1)])
  then have "ob_company q = ob_company r" using q'(2) by (simp add: same_text_def)
  then have "find_message (ob_company r) i t = Some q" using find_message_iff [OF w] q by simp
  moreover have "\<not> older_than now STUCK_SEND_SECONDS q" using not_stuck [OF a q(4)] .
  ultimately show ?thesis using q(3) by (simp add: claim_message_retry_def STUCK_SEND_SECONDS_def)
qed

fun auto_sending :: "msg_task \<Rightarrow> bool" where
  "auto_sending (SendTask n r d b c (Sweep rest)) = (ob_call r = None)"
| "auto_sending (PersistTask n r p (Sweep rest)) = (ob_call r = None)"
| "auto_sending k = False"

lemma unswept_auto: "unswept k \<Longrightarrow> \<not> auto_sending k"
  by (cases k rule: auto_sending.cases) auto

lemma owned_held:
  "mreach P s \<Longrightarrow> k \<in> set (mg_tasks s) \<Longrightarrow> (i, n) \<in> set (own k) \<Longrightarrow> alive (mg_now s) n \<Longrightarrow> held (mg_rows s) n i"
  using reach_turns [of P s] owners_remove [of k "mg_tasks s"] unfolding turn_inv_def by fastforce



fun dispatching :: "ms \<Rightarrow> string \<Rightarrow> msg_task \<Rightarrow> bool" where
  "dispatching now i (SendTask n r d b c og) = (ob_id r = i \<and> ob_call r = None \<and> alive now n)"
| "dispatching now i (PersistTask n r p og) = (ob_id r = i \<and> ob_call r = None \<and> alive now n)"
| "dispatching now i k = False"

lemma dispatching_own: "dispatching now i k \<Longrightarrow> \<exists>n. (i, n) \<in> set (own k) \<and> alive now n"
  by (cases k) (auto simp: own_row_def)

lemma dispatches_le: "length (filter (dispatching now i) ks) \<le> size (filter_mset (\<lambda>(j, n). j = i \<and> alive now n) (owners ks))"
proof (induction ks)
  case (Cons k ks)
  have "1 \<le> size (filter_mset (\<lambda>(j, n). j = i \<and> alive now n) (mset (own k)))" if d: "dispatching now i k"
  proof -
    obtain n where "(i, n) \<in> set (own k)" "alive now n" using dispatching_own [OF d] by blast
    then have "(i, n) \<in># filter_mset (\<lambda>(j, n). j = i \<and> alive now n) (mset (own k))" by simp
    then show ?thesis by (metis One_nat_def Suc_leI nonempty_has_size empty_iff set_mset_empty)
  qed
  then show ?case using Cons.IH by (auto simp del: mset_filter)
qed simp




section \<open>Metering\<close>

lemma key_inj: "text_key i = text_key j \<longleftrightarrow> i = j"
  by (simp add: sendIdempotencyKey_def)

lemma distinct_idents:
  assumes "mreach P s"
  shows "distinct (map usage_identifier (mg_usage s))"
proof -
  note m = reach_meter [OF assms, unfolded meter_inv_def]
  have d: "distinct (map snd (mg_carrier s))" using reach_rows [OF assms] by (simp add: rows_inv_def)
  have "ug_message u = ug_message v" if uv: "u \<in> set (mg_usage s)" "v \<in> set (mg_usage s)" "usage_identifier u = usage_identifier v" for u v
  proof -
    obtain i x where u: "ug_message u = Some i" "ug_identifier u = Some x" "(text_key i, x) \<in> set (mg_carrier s)"
      using m uv(1) by (auto simp: usage_ok_def)
    obtain j y where v: "ug_message v = Some j" "ug_identifier v = Some y" "(text_key j, y) \<in> set (mg_carrier s)"
      using m uv(2) by (auto simp: usage_ok_def)
    have "x = y" using uv(3) u(2) v(2) by (simp add: usage_identifier_def)
    moreover have "inj_on snd (set (mg_carrier s))" using d by (simp add: distinct_map)
    ultimately have "(text_key i, x) = (text_key j, y)" using inj_onD u(3) v(3) by fastforce
    then have "text_key i = text_key j" by simp
    then show ?thesis using u(1) v(1) key_inj by simp
  qed
  moreover have "inj_on ug_message (set (mg_usage s))" "distinct (mg_usage s)" using m by (simp_all add: distinct_map)
  ultimately show ?thesis unfolding distinct_map inj_on_def by blast
qed

lemma billed_sum:
  assumes "distinct (map g us)" "distinct (map f es)" "\<And>u. u \<in> set us \<Longrightarrow> 1 \<le> q u"
    and "\<And>e. e \<in> set es \<Longrightarrow> \<exists>u \<in> set us. g u = f e \<and> q u = v e"
  shows "sum_list (map v es) \<le> (sum_list (map q us) :: int)"
    and "g ` set us \<subseteq> f ` set es \<Longrightarrow> sum_list (map v es) = sum_list (map q us)"
proof -
  define w where "w x = q (THE u. u \<in> set us \<and> g u = x)" for x
  have the: "(THE z. z \<in> set us \<and> g z = g u) = u" if "u \<in> set us" for u
    using assms(1) that by (auto simp: distinct_map inj_on_def)
  have wu: "w (g u) = q u" if "u \<in> set us" for u using the [OF that] by (simp add: w_def)
  have we: "w (f e) = v e \<and> f e \<in> g ` set us" if e: "e \<in> set es" for e
  proof -
    obtain u where "u \<in> set us" "g u = f e" "q u = v e" using assms(4) [OF e] by blast
    then show ?thesis using wu by (metis imageI)
  qed
  have us: "sum_list (map q us) = sum w (g ` set us)"
    using assms(1) wu by (simp add: distinct_map sum_list_distinct_conv_sum_set sum.reindex)
  have es: "sum_list (map v es) = sum w (f ` set es)"
    using assms(2) we by (simp add: distinct_map sum_list_distinct_conv_sum_set sum.reindex)
  have sub: "f ` set es \<subseteq> g ` set us" using we by auto
  show "sum_list (map v es) \<le> sum_list (map q us)"
    unfolding us es by (rule sum_mono2 [OF _ sub]) (use wu assms(3) in force)+
  show "g ` set us \<subseteq> f ` set es \<Longrightarrow> sum_list (map v es) = sum_list (map q us)"
    unfolding us es using sub by (metis subset_antisym)
qed

text \<open>
  C11. A text is metered once. In every reachable state the ledger has at most one entry for a message,
  each of at least one segment and for a text the carrier accepted under that message's own key; every
  report Stripe accepted is one entry's, with its quantity, and a stamped entry was accepted. Where
  Stripe refuses a used identifier, what it has accepted never adds up to more than the ledger, and to
  exactly the ledger once every entry is stamped: through lost answers, crashes, replayed webhooks and
  the hourly re-report.
\<close>

theorem metered_once:
  assumes "mreach P s"
  shows "distinct (map ug_message (mg_usage s))
    \<and> (\<forall>u \<in> set (mg_usage s). 1 \<le> ug_quantity u
         \<and> (\<exists>i x. ug_message u = Some i \<and> ug_identifier u = Some x \<and> (text_key i, x) \<in> set (mg_carrier s)))
    \<and> (\<forall>e \<in> set (mg_meter s). \<exists>!u. u \<in> set (mg_usage s) \<and> usage_identifier u = me_identifier e \<and> ug_quantity u = me_value e)
    \<and> (\<forall>u \<in> set (mg_usage s). ug_reported u \<noteq> None \<longrightarrow> usage_identifier u \<in> me_identifier ` set (mg_meter s))
    \<and> (pr_meter P \<longrightarrow> sum_list (map me_value (mg_meter s)) \<le> sum_list (map ug_quantity (mg_usage s))
         \<and> (list_all (\<lambda>u. ug_reported u \<noteq> None) (mg_usage s) \<longrightarrow>
              sum_list (map me_value (mg_meter s)) = sum_list (map ug_quantity (mg_usage s))))"
proof -
  note m = reach_meter [OF assms, unfolded meter_inv_def]
  note d = distinct_idents [OF assms]
  have one: "\<exists>!u. u \<in> set (mg_usage s) \<and> usage_identifier u = me_identifier e \<and> ug_quantity u = me_value e"
    if e: "e \<in> set (mg_meter s)" for e
  proof -
    obtain u where "u \<in> set (mg_usage s)" "usage_identifier u = me_identifier e" "ug_quantity u = me_value e"
      using meter_from [OF reach_meter [OF assms]] e by blast
    then show ?thesis using d by (auto simp: distinct_map inj_on_def)
  qed
  have sums: "sum_list (map me_value (mg_meter s)) \<le> sum_list (map ug_quantity (mg_usage s))"
    "usage_identifier ` set (mg_usage s) \<subseteq> me_identifier ` set (mg_meter s) \<Longrightarrow>
       sum_list (map me_value (mg_meter s)) = sum_list (map ug_quantity (mg_usage s))" if p: "pr_meter P"
  proof -
    have dm: "distinct (map me_identifier (mg_meter s))" by (rule meter_unique(2) [OF reach_meter [OF assms] p])
    have q: "\<And>u. u \<in> set (mg_usage s) \<Longrightarrow> 1 \<le> ug_quantity u" using m by (simp add: usage_ok_def)
    have v: "\<And>e. e \<in> set (mg_meter s) \<Longrightarrow> \<exists>u \<in> set (mg_usage s). usage_identifier u = me_identifier e \<and> ug_quantity u = me_value e"
      using meter_from [OF reach_meter [OF assms]] by blast
    show "sum_list (map me_value (mg_meter s)) \<le> sum_list (map ug_quantity (mg_usage s))" by (rule billed_sum(1) [OF d dm q v])
    show "usage_identifier ` set (mg_usage s) \<subseteq> me_identifier ` set (mg_meter s) \<Longrightarrow>
       sum_list (map me_value (mg_meter s)) = sum_list (map ug_quantity (mg_usage s))" by (rule billed_sum(2) [OF d dm q v])
  qed
  have stamped: "\<forall>u \<in> set (mg_usage s). ug_reported u \<noteq> None \<longrightarrow> usage_identifier u \<in> me_identifier ` set (mg_meter s)"
    by (rule meter_stamped [OF reach_meter [OF assms]])
  have all: "usage_identifier ` set (mg_usage s) \<subseteq> me_identifier ` set (mg_meter s)"
    if "list_all (\<lambda>u. ug_reported u \<noteq> None) (mg_usage s)"
    using that stamped unfolding list_all_iff by blast
  show ?thesis
  proof (intro conjI impI)
    show "distinct (map ug_message (mg_usage s))" by (rule meter_unique(1) [OF reach_meter [OF assms]])
    show "\<forall>u \<in> set (mg_usage s). 1 \<le> ug_quantity u
         \<and> (\<exists>i x. ug_message u = Some i \<and> ug_identifier u = Some x \<and> (text_key i, x) \<in> set (mg_carrier s))"
      using m by (simp add: usage_ok_def)
    show "\<forall>e \<in> set (mg_meter s). \<exists>!u. u \<in> set (mg_usage s) \<and> usage_identifier u = me_identifier e \<and> ug_quantity u = me_value e"
      by (rule ballI) (rule one)
    show "\<forall>u \<in> set (mg_usage s). ug_reported u \<noteq> None \<longrightarrow> usage_identifier u \<in> me_identifier ` set (mg_meter s)" by (rule stamped)
    assume p: "pr_meter P"
    show "sum_list (map me_value (mg_meter s)) \<le> sum_list (map ug_quantity (mg_usage s))" by (rule sums(1) [OF p])
    assume "list_all (\<lambda>u. ug_reported u \<noteq> None) (mg_usage s)"
    then show "sum_list (map me_value (mg_meter s)) = sum_list (map ug_quantity (mg_usage s))" by (intro sums(2) [OF p] all)
  qed
qed

text \<open>One text from the send to its stamp.\<close>

definition demo_payload :: message_payload where
  "demo_payload = \<lparr>pl_mms = False, pl_parts = Some 2, pl_encoding = None, pl_cost = None, pl_to = [Some ''delivered''], pl_errors = []\<rparr>"

definition demo_usage :: usage_row where
  "demo_usage = usage_of 0 ''u1'' ''t1'' demo_payload (demo_text\<lparr>ob_telnyx := Some ''t1''\<rparr>)"

lemma demo_then: "mreach P s \<Longrightarrow> mstep P s s' \<Longrightarrow> s' = s'' \<Longrightarrow> mreach P s''"
  by (metis m_step)

abbreviation demo_cs :: "(string \<times> string) list" where "demo_cs \<equiv> [(text_key ''m1'', ''t1'')]"
abbreviation demo_es :: "send_effect list" where "demo_es \<equiv> [TelnyxSend demo_to ''hello'' (text_key ''m1'')]"
abbreviation demo_out :: outbox_row where "demo_out \<equiv> demo_text\<lparr>ob_telnyx := Some ''t1''\<rparr>"

lemma demo_patch: "persistMessagePatch 0 (ob_id demo_text) (ob_company demo_text) (AcceptPatch ''t1'') [demo_text] = Some [demo_out]"
  by (simp add: persistMessagePatch_def find_message_def takes_id_def upd_out_def) (simp add: demo_text_def queued_row_def)

lemma demo_persisted: "mreach P (demo_at 0 [demo_out] demo_cs demo_es [])"
  by (rule demo_then [OF demo_accepted m_persist [OF refl, where t = "[demo_out]" and n = 0 and r = demo_text
        and p = "AcceptPatch ''t1''" and og = Route]])
     (simp_all add: demo_patch demo_at_def into_def outbox_to_def alive_def STUCK_SEND_SECONDS_def)

lemma demo_finalizing: "mreach P (demo_at 0 [demo_out] demo_cs demo_es [FinalizeTask ''t1'' demo_payload demo_out])"
  by (rule demo_then [OF demo_persisted m_finalized [where x = "''t1''" and m = demo_out and p = demo_payload]])
     (simp_all add: demo_at_def find_telnyx_def launch_def)

lemma demo_telling: "mreach P (demo_at 0 [finalize_row demo_payload demo_out] demo_cs demo_es [TellTask ''t1'' demo_payload demo_out])"
  by (rule demo_then [OF demo_finalizing m_finalize [OF refl, where x = "''t1''" and p = demo_payload and m = demo_out]])
     (simp_all add: demo_eval finalize_update_def upd_out_def into_def outbox_to_def finalize_row_def)

lemma demo_metering: "mreach P (demo_at 0 [finalize_row demo_payload demo_out] demo_cs demo_es [MeterTask ''t1'' demo_payload demo_out])"
  by (rule demo_then [OF demo_telling m_tell [OF refl, where x = "''t1''" and p = demo_payload and m = demo_out]])
     (simp_all add: demo_at_def into_def tells_failure_def finalStatus_def demo_payload_def)

definition demo_billing :: "usage_ledger \<Rightarrow> meter_event list \<Rightarrow> msg_task list \<Rightarrow> msg_sys" where
  "demo_billing us es ks = (demo_at 0 [finalize_row demo_payload demo_out] demo_cs demo_es ks)
     \<lparr>mg_usage := us, mg_meter := es, mg_ids := {''u1'', ''m1''}\<rparr>"

lemma demo_metered: "mreach P (demo_billing [demo_usage] [] [ReportTask False demo_usage []])"
  by (rule demo_then [OF demo_metering m_meter [OF refl _ _ refl, where i = "''u1''" and x = "''t1''" and p = demo_payload and m = demo_out]])
     (simp_all add: demo_at_def insert_usage_def usage_of_def metered_def into_def gives_id_def demo_billing_def demo_usage_def)

definition demo_event :: meter_event where
  "demo_event = \<lparr>me_identifier = ''t1'', me_customer = ''cus'', me_value = 2\<rparr>"

lemma demo_reported: "mreach P (demo_billing [demo_usage] [demo_event] [StampTask False demo_usage []])"
  by (rule demo_then [OF demo_metered m_report [OF refl, where cron = False and u = demo_usage and rest = "[]" and customer = "''cus''" and e = demo_event and a = MeterTaken and es = "[demo_event]"]])
     (simp_all add: demo_billing_def demo_at_def reportMeterEvent_def demo_usage_def usage_of_def usage_identifier_def
        metered_quantity_def counted_parts_def demo_payload_def demo_event_def stripe_answers_def report_done_def into_def)

theorem metered_once_witness:
  "sum_list (map me_value [demo_event]) = sum_list (map ug_quantity [demo_usage\<lparr>ug_reported := Some 0\<rparr>])"
proof -
  let ?s = "demo_billing [demo_usage\<lparr>ug_reported := Some 0\<rparr>] [demo_event] []"
  have "mreach \<lparr>pr_keys = True, pr_meter = True\<rparr> ?s"
    by (rule demo_then [OF demo_reported m_stamp [OF refl, where cron = False and u = demo_usage and rest = "[]"]])
       (simp_all add: demo_billing_def demo_at_def stamp_usage_def demo_usage_def usage_of_def into_def next_report_def)
  from metered_once [OF this] show ?thesis by (simp add: demo_billing_def)
qed


section \<open>The idempotency key\<close>

lemma reach_keys: "mreach P s \<Longrightarrow> pr_keys P \<Longrightarrow> distinct (map fst (mg_carrier s))"
proof (induction rule: mreach.induct)
  case (m_start n)
  then show ?case by (simp add: msg_start_def)
next
  case (m_step s s')
  then show ?case using step_carrier [OF m_step(2)] by auto
qed

lemma demo_late_lost: "mreach P (demo_at demo_late [demo_text] demo_cs demo_es [])"
  by (rule demo_wait [OF demo_answer_lost])

lemma demo_second:
  assumes "\<not> pr_keys P"
  shows "mreach P (demo_at demo_late [demo_again] ((text_key ''m1'', ''t2'') # demo_cs) (demo_es @ demo_es)
           [PersistTask demo_late demo_again (AcceptPatch ''t2'') Once])"
proof -
  have body: "ob_body demo_again = ''hello''" "ob_id demo_again = ''m1''" by (simp_all add: demo_again_def demo_text_def queued_row_def)
  have "mreach P (demo_at demo_late [demo_again] demo_cs demo_es [SendTask demo_late demo_again demo_to ''hello'' demo_clear Once])"
    by (rule demo_then [OF demo_late_lost m_retry [OF demo_clears, where w = "Some demo_workspace" and primary = "Some demo_to"
          and optedOut = "\<lambda>_. False" and company = "''co''" and i = "''m1''" and r = demo_again and t = "[demo_again]"]])
       (simp_all add: demo_at_def demo_retry launch_def outbox_to_def body)
  then show ?thesis
    by (rule demo_then [OF _ m_send [OF refl, where w = "demo_world ''t2''" and n = demo_late and r = demo_again and d = demo_to
          and b = "''hello''" and c = demo_clear and og = Once and p = "AcceptPatch ''t2''" and effs = demo_es
          and cs = "(text_key ''m1'', ''t2'') # demo_cs" and detail = "[]"]])
       (simp_all add: demo_at_def alive_def STUCK_SEND_SECONDS_def send_stage_def telnyxCreateMessage_def demo_world_def
          result_patch_def carrier_answers_def into_def body assms)
qed

text \<open>
  C12. What keeps a text from going out twice is its key. A row that counts as stuck need not be one
  whose text never reached the carrier: a worker that dies between the carrier's answer and the write
  of its id leaves exactly such a row, and where keys are not honoured a retry then texts the customer
  again. Where they are, the carrier has at most one text under a row's key, whatever is retried,
  replayed or lost, and the id a row carries is that text's.
\<close>

theorem key_carries_the_proof:
  "(\<exists>s q. mreach P s \<and> q \<in> set (mg_rows s) \<and> stuck (mg_now s) STUCK_SEND_SECONDS q \<and> text_key (ob_id q) \<in> fst ` set (mg_carrier s))
   \<and> (\<not> pr_keys P \<longrightarrow> (\<exists>s. mreach P s \<and> \<not> distinct (map fst (mg_carrier s))))
   \<and> (pr_keys P \<longrightarrow> (\<forall>s. mreach P s \<longrightarrow> distinct (map fst (mg_carrier s))
        \<and> (\<forall>q \<in> set (mg_rows s). \<forall>x. ob_direction q = DirOutbound \<and> ob_telnyx q = Some x \<longrightarrow>
             map_of (mg_carrier s) (text_key (ob_id q)) = Some x)))"
proof (intro conjI impI allI ballI)
  have "ob_id demo_text = ''m1''" by (simp add: demo_text_def queued_row_def)
  then show "\<exists>s q. mreach P s \<and> q \<in> set (mg_rows s) \<and> stuck (mg_now s) STUCK_SEND_SECONDS q \<and> text_key (ob_id q) \<in> fst ` set (mg_carrier s)"
    using demo_late_lost demo_stuck
    by (intro exI [of _ "demo_at demo_late [demo_text] demo_cs demo_es []"] exI [of _ demo_text]) (simp add: demo_at_def)
next
  assume "\<not> pr_keys P"
  from demo_second [OF this] show "\<exists>s. mreach P s \<and> \<not> distinct (map fst (mg_carrier s))"
    by (intro exI conjI) (assumption, simp add: demo_at_def)
next
  fix s assume P: "pr_keys P" and s: "mreach P s"
  show d: "distinct (map fst (mg_carrier s))" by (rule reach_keys [OF s P])
  fix q x assume "q \<in> set (mg_rows s)" "ob_direction q = DirOutbound \<and> ob_telnyx q = Some x"
  then have "(text_key (ob_id q), x) \<in> set (mg_carrier s)" using reach_rows [OF s] by (simp add: rows_inv_def carried_def)
  then show "map_of (mg_carrier s) (text_key (ob_id q)) = Some x" using d by simp
qed

theorem key_carries_the_proof_witness:
  "\<exists>s. mreach \<lparr>pr_keys = False, pr_meter = True\<rparr> s \<and> \<not> distinct (map fst (mg_carrier s))"
  using key_carries_the_proof [of "\<lparr>pr_keys = False, pr_meter = True\<rparr>"] by simp


section \<open>Admission\<close>

lemma pending_Cons: "0 \<le> segs r \<Longrightarrow> period_pending st company us (r # t) \<le> period_pending st company us t + segs r"
  by (simp add: period_pending_def)



lemma gate_writes:
  "gate_outbound_send now w primary optedOut early i company thread sender body key est t us = (res, t') \<Longrightarrow>
     t' = t \<or> (\<exists>r. res = GateAdmits r)"
  unfolding gate_outbound_send_def Let_def by (auto split: option.splits if_splits)

text \<open>
  C28. A repeated request is answered with its row. Once a row has a key, in any reachable state a
  request with the same key admits nothing and writes nothing, whatever it asks and wherever its first
  look at the table came too early to see the row; when that look saw it, the row is the answer. And no
  two rows of a company have one key.
\<close>

theorem replay_returns_row:
  assumes "mreach P s" and "r \<in> set (mg_rows s)" and "ob_key r = Some k"
    and "find_key (ob_company r) k early \<in> {None, find_key (ob_company r) k (mg_rows s)}"
  shows "find_key (ob_company r) k (mg_rows s) = Some r
    \<and> snd (gate_outbound_send now w primary optedOut early i (ob_company r) thread sender body (Some k) est (mg_rows s) us) = mg_rows s
    \<and> fst (gate_outbound_send now w primary optedOut early i (ob_company r) thread sender body (Some k) est (mg_rows s) us)
        \<noteq> GateAdmits q
    \<and> (find_key (ob_company r) k early \<noteq> None \<and> btrim k \<noteq> [] \<and> sender = Some user \<and> est = Some n \<and> 1 \<le> n \<longrightarrow>
         fst (gate_outbound_send now w primary optedOut early i (ob_company r) thread sender body (Some k) est (mg_rows s) us)
           = GateExisting r)"
proof -
  have w: "wf_outbox (mg_rows s)" using reach_rows [OF assms(1)] by (simp add: rows_inv_def)
  obtain q0 where q0: "find_key (ob_company r) k (mg_rows s) = Some q0"
    using assms(2,3) by (cases "find_key (ob_company r) k (mg_rows s)") (auto simp: find_key_def find_None_iff)
  then have q: "q0 \<in> set (mg_rows s)" "ob_company q0 = ob_company r" "ob_key q0 = Some k"
    by (auto simp: find_key_def dest: find_Some_iff [THEN iffD1])
  have "ob_id q0 = ob_id r" using bspec [OF bspec [OF wf_outboxD(2) [OF w] q(1)] assms(2)] q(2,3) assms(3) by simp
  then have f: "find_key (ob_company r) k (mg_rows s) = Some r" using outbox_by_id [OF w q(1) assms(2)] q0 by simp
  obtain res t where g: "gate_outbound_send now w primary optedOut early i (ob_company r) thread sender body (Some k) est (mg_rows s) us
      = (res, t)" by fastforce
  have a: "res \<noteq> GateAdmits q" for q
  proof
    assume "res = GateAdmits q"
    from gate_admits [OF g [unfolded this]] show False using f by auto
  qed
  have t: "t = mg_rows s" using gate_writes [OF g] a by blast
  have e: "res = GateExisting r" if "find_key (ob_company r) k early \<noteq> None" "btrim k \<noteq> []" "sender = Some user" "est = Some n" "1 \<le> n"
  proof -
    have "find_key (ob_company r) k early = Some r" using that(1) assms(4) f by auto
    then show ?thesis using g that by (simp add: gate_outbound_send_def)
  qed
  show ?thesis unfolding g fst_conv snd_conv using f a t e by blast
qed

theorem replay_returns_row_witness:
  "fst (gate_outbound_send 5 None None (\<lambda>_. True) [demo_text] ''m2'' ''co'' ''th'' (Some ''u'') None (Some ''k'') (Some 7) [demo_text] [])
     = GateExisting demo_text"
proof -
  have s: "mreach \<lparr>pr_keys = True, pr_meter = True\<rparr> (demo_at 0 [demo_text] [] [] [])" by (rule demo_died)
  have r: "demo_text \<in> set (mg_rows (demo_at 0 [demo_text] [] [] []))" by (simp add: demo_at_def)
  have k: "ob_key demo_text = Some ''k''" "ob_company demo_text = ''co''" by (simp_all add: demo_text_def queued_row_def)
  have e: "find_key (ob_company demo_text) ''k'' [demo_text]
      \<in> {None, find_key (ob_company demo_text) ''k'' (mg_rows (demo_at 0 [demo_text] [] [] []))}" by (simp add: demo_at_def)
  show ?thesis
    using replay_returns_row [OF s r k(1) e, where now = 5 and w = None and primary = None and optedOut = "\<lambda>_. True" and i = "''m2''"
        and thread = "''th''" and sender = "Some ''u''" and body = None and est = "Some 7" and us = "[]" and user = "''u''" and n = 7]
    by (simp add: demo_at_def k find_key_def btrim_def)
qed

end
