(* ===== verification/Thread_Store.thy ===== *)
theory Thread_Store
  imports Message_Store
begin

text \<open>
  How an incoming text or call finds its thread: the contacts with their other numbers, the
  conversations, the opt-outs and the ledger of consent, the daily budget of notifications, and the
  database functions that thread a text (\<open>thread_inbound_message\<close>), a call (\<open>api_thread_call\<close>) and a missed
  call's text (\<open>claim_missed_call_text\<close>), with the triggers they set off.

  A table is a list of rows, fresh ids are arguments, a function is one step and its exception leaves the
  tables as they were. Left out are columns no function here reads, and the triggers that stamp lead
  sources and response clocks and broadcast changes.
\<close>

section \<open>Tables\<close>

datatype consent_source = InboundSms | Attested | WidgetForm

record contact =
  kt_id :: string
  kt_company :: string
  kt_phone :: string
  kt_name :: "string option"
  kt_address :: "string option"
  kt_notes :: "string option"
  kt_consent :: "consent_source option"
  kt_consentAt :: "ms option"
  kt_attestedBy :: "string option"
  kt_deleted :: "ms option"
  kt_mergedInto :: "string option"

record contact_phone =
  kp_id :: string
  kp_company :: string
  kp_contact :: string
  kp_phone :: string

datatype conversation_status = ConvNew | ConvOpen | ConvWaiting | ConvClosed

datatype msg_source = FromCarrier | FromWidget

record conversation =
  vt_id :: string
  vt_company :: string
  vt_contact :: string
  vt_number :: string
  vt_phone :: string
  vt_status :: conversation_status
  vt_spam :: bool
  vt_closed :: "ms option"
  vt_lastMessage :: ms
  vt_lastNotified :: "ms option"
  vt_lastAuto :: "ms option"
  vt_firstSource :: msg_source

datatype opt_out_source = StopKeyword | ManualStop | ImportStop | CarrierStop

record opt_out =
  ot_company :: string
  ot_phone :: string
  ot_source :: opt_out_source
  ot_by :: "string option"
  ot_created :: ms
  ot_revoked :: "ms option"

datatype consent_state = Implied | Express | Revoked

record consent_event =
  le_company :: string
  le_contact :: string
  le_phone :: string
  le_state :: consent_state
  le_source :: string
  le_by :: "string option"
  le_at :: ms

record notify_day =
  ny_company :: string
  ny_day :: int
  ny_count :: nat
  ny_emailWarned :: "ms option"
  ny_emailCapped :: "ms option"
  ny_pushWarned :: "ms option"
  ny_pushCapped :: "ms option"
  ny_emailLimit :: nat
  ny_pushLimit :: nat

record snooze =
  sn_thread :: string
  sn_user :: string
  sn_until :: ms

text \<open>\<open>bx_calls\<close> are the \<open>call_completed\<close> events: the thread and the call session.\<close>

record inbox =
  bx_contacts :: "contact list"
  bx_phones :: "contact_phone list"
  bx_threads :: "conversation list"
  bx_optouts :: "opt_out list"
  bx_ledger :: "consent_event list"
  bx_days :: "notify_day list"
  bx_messages :: outbox
  bx_snoozes :: "snooze list"
  bx_calls :: "(string \<times> string) list"


section \<open>Opt-outs and the ledger of consent\<close>

definition active_opt_out :: "string \<Rightarrow> string \<Rightarrow> opt_out \<Rightarrow> bool" where
  "active_opt_out company phone o1 \<longleftrightarrow> ot_company o1 = company \<and> ot_phone o1 = phone \<and> ot_revoked o1 = None"

definition opted_out :: "string \<Rightarrow> string \<Rightarrow> inbox \<Rightarrow> bool" where
  "opted_out company phone x \<longleftrightarrow> list_ex (active_opt_out company phone) (bx_optouts x)"

fun consent_name :: "consent_source \<Rightarrow> string" where
  "consent_name InboundSms = ''inbound_sms''"
| "consent_name Attested = ''attested''"
| "consent_name WidgetForm = ''widget_form''"

fun opt_out_name :: "opt_out_source \<Rightarrow> string" where
  "opt_out_name StopKeyword = ''stop_keyword''"
| "opt_out_name ManualStop = ''manual''"
| "opt_out_name ImportStop = ''import''"
| "opt_out_name CarrierStop = ''carrier''"

definition contacts_record_consent :: "contact option \<Rightarrow> contact \<Rightarrow> consent_event list" where
  "contacts_record_consent old k =
     (case kt_consentAt k of
        None \<Rightarrow> []
      | Some t \<Rightarrow>
          if (case old of None \<Rightarrow> False | Some k0 \<Rightarrow> kt_consentAt k0 \<noteq> None) then []
          else [\<lparr>le_company = kt_company k, le_contact = kt_id k, le_phone = kt_phone k,
                 le_state = (if kt_consent k = Some InboundSms then Implied else Express),
                 le_source = (case kt_consent k of None \<Rightarrow> ''manual'' | Some s \<Rightarrow> consent_name s),
                 le_by = kt_attestedBy k, le_at = t\<rparr>])"

definition contacts_record_standing_revocation :: "opt_out list \<Rightarrow> contact \<Rightarrow> consent_event list" where
  "contacts_record_standing_revocation os k =
     (case find (active_opt_out (kt_company k) (kt_phone k)) os of
        None \<Rightarrow> []
      | Some o1 \<Rightarrow> [\<lparr>le_company = kt_company k, le_contact = kt_id k, le_phone = kt_phone k, le_state = Revoked,
                     le_source = opt_out_name (ot_source o1), le_by = ot_by o1, le_at = ot_created o1\<rparr>])"

definition contact_of :: "string \<Rightarrow> string \<Rightarrow> contact list \<Rightarrow> contact option" where
  "contact_of company phone ks = find (\<lambda>k. kt_company k = company \<and> kt_phone k = phone) ks"

definition opt_outs_record_consent :: "contact list \<Rightarrow> opt_out option \<Rightarrow> opt_out \<Rightarrow> consent_event list" where
  "opt_outs_record_consent ks old o1 =
     (if (case old of None \<Rightarrow> False | Some o0 \<Rightarrow> (ot_revoked o0 = None) = (ot_revoked o1 = None)) then []
      else
        (case contact_of (ot_company o1) (ot_phone o1) ks of
           None \<Rightarrow> []
         | Some k \<Rightarrow>
             [\<lparr>le_company = ot_company o1, le_contact = kt_id k, le_phone = ot_phone o1,
               le_state = (if ot_revoked o1 = None then Revoked else Express),
               le_source = (if ot_revoked o1 = None then opt_out_name (ot_source o1)
                            else if ot_source o1 = StopKeyword then ''start_keyword'' else ''manual''),
               le_by = ot_by o1,
               le_at = (case ot_revoked o1 of None \<Rightarrow> ot_created o1 | Some t \<Rightarrow> t)\<rparr>]))"


section \<open>Contacts\<close>

definition write_contact :: "(contact \<Rightarrow> contact) \<Rightarrow> string \<Rightarrow> inbox \<Rightarrow> inbox" where
  "write_contact f i x = x\<lparr>
     bx_contacts := map (\<lambda>k. if kt_id k = i then f k else k) (bx_contacts x),
     bx_ledger := bx_ledger x @ concat (map (\<lambda>k. contacts_record_consent (Some k) (f k))
                    (filter (\<lambda>k. kt_id k = i) (bx_contacts x)))\<rparr>"

definition insert_contact :: "contact \<Rightarrow> inbox \<Rightarrow> inbox" where
  "insert_contact k x = x\<lparr>
     bx_contacts := k # bx_contacts x,
     bx_ledger := bx_ledger x @ contacts_record_consent None k @ contacts_record_standing_revocation (bx_optouts x) k\<rparr>"

definition touch_contact :: "ms \<Rightarrow> consent_source \<Rightarrow> contact \<Rightarrow> contact" where
  "touch_contact now src k = k\<lparr>kt_deleted := None,
     kt_consent := or_else (kt_consent k) (Some src),
     kt_consentAt := or_else (kt_consentAt k) (Some now)\<rparr>"

definition bare_contact :: "string \<Rightarrow> string \<Rightarrow> string \<Rightarrow> contact" where
  "bare_contact i company phone = \<lparr>kt_id = i, kt_company = company, kt_phone = phone, kt_name = None,
     kt_address = None, kt_notes = None, kt_consent = None, kt_consentAt = None, kt_attestedBy = None,
     kt_deleted = None, kt_mergedInto = None\<rparr>"

definition upsert_contact :: "ms \<Rightarrow> consent_source \<Rightarrow> string \<Rightarrow> string \<Rightarrow> string \<Rightarrow> inbox \<Rightarrow> string \<times> inbox" where
  "upsert_contact now src fresh company phone x =
     (case contact_of company phone (bx_contacts x) of
        Some k \<Rightarrow> (kt_id k, write_contact (touch_contact now src) (kt_id k) x)
      | None \<Rightarrow> (fresh, insert_contact (touch_contact now src (bare_contact fresh company phone)) x))"

definition phone_row :: "string \<Rightarrow> string \<Rightarrow> contact_phone list \<Rightarrow> contact_phone option" where
  "phone_row company phone ps = find (\<lambda>p. kp_company p = company \<and> kp_phone p = phone) ps"

text \<open>Rule 1: whose number is this? One of somebody's other numbers, a first number, or a new contact's.\<close>

definition sender_contact :: "ms \<Rightarrow> consent_source \<Rightarrow> string \<Rightarrow> string \<Rightarrow> string \<Rightarrow> inbox \<Rightarrow> string \<times> inbox" where
  "sender_contact now src fresh company phone x =
     (case phone_row company phone (bx_phones x) of
        Some p \<Rightarrow> (kp_contact p, write_contact (touch_contact now src) (kp_contact p) x)
      | None \<Rightarrow> upsert_contact now src fresh company phone x)"


section \<open>Threads\<close>

definition same_line :: "string \<Rightarrow> string \<Rightarrow> string \<Rightarrow> string \<Rightarrow> conversation \<Rightarrow> bool" where
  "same_line company number contact1 phone v \<longleftrightarrow>
     vt_company v = company \<and> vt_number v = number \<and> vt_contact v = contact1 \<and> vt_phone v = phone"

definition open_thread :: "string \<Rightarrow> string \<Rightarrow> string \<Rightarrow> string \<Rightarrow> conversation list \<Rightarrow> conversation option" where
  "open_thread company number contact1 phone vs = find (\<lambda>v. same_line company number contact1 phone v \<and> vt_closed v = None) vs"

definition latest_closed :: "(conversation \<Rightarrow> bool) \<Rightarrow> conversation list \<Rightarrow> conversation option" where
  "latest_closed P vs =
     (case sort_key (\<lambda>v. - the (vt_closed v)) (filter (\<lambda>v. vt_closed v \<noteq> None \<and> P v) vs) of [] \<Rightarrow> None | v # _ \<Rightarrow> Some v)"

definition follow_merged_contact :: "contact list \<Rightarrow> string \<Rightarrow> string" where
  "follow_merged_contact ks i =
     (case find (\<lambda>k. kt_id k = i) ks of
        None \<Rightarrow> i
      | Some k \<Rightarrow> (case kt_mergedInto k of None \<Rightarrow> i | Some j \<Rightarrow> j))"

text \<open>The insert with its trigger and the index of open threads; a conflict inserts nothing.\<close>

definition insert_thread :: "conversation \<Rightarrow> inbox \<Rightarrow> (conversation \<times> inbox) option" where
  "insert_thread v x =
     (let w = v\<lparr>vt_contact := follow_merged_contact (bx_contacts x) (vt_contact v)\<rparr> in
      case open_thread (vt_company w) (vt_number w) (vt_contact w) (vt_phone w) (bx_threads x) of
        None \<Rightarrow> Some (w, x\<lparr>bx_threads := w # bx_threads x\<rparr>)
      | Some _ \<Rightarrow> None)"

definition upd_thread :: "string \<Rightarrow> (conversation \<Rightarrow> conversation) \<Rightarrow> inbox \<Rightarrow> inbox" where
  "upd_thread i f x = x\<lparr>bx_threads := map (\<lambda>v. if vt_id v = i then f v else v) (bx_threads x)\<rparr>"

definition new_thread :: "ms \<Rightarrow> conversation_status \<Rightarrow> msg_source \<Rightarrow> string \<Rightarrow> string \<Rightarrow> string \<Rightarrow> string \<Rightarrow> string \<Rightarrow> conversation" where
  "new_thread now st src i company number contact1 phone = \<lparr>vt_id = i, vt_company = company, vt_contact = contact1,
     vt_number = number, vt_phone = phone, vt_status = st, vt_spam = False, vt_closed = None, vt_lastMessage = now,
     vt_lastNotified = None, vt_lastAuto = None, vt_firstSource = src\<rparr>"

definition wake :: "conversation \<Rightarrow> conversation" where
  "wake v = (if vt_status v = ConvWaiting then v\<lparr>vt_status := ConvOpen\<rparr> else v)"

definition reopen :: "conversation \<Rightarrow> conversation" where
  "reopen v = v\<lparr>vt_status := ConvNew, vt_closed := None\<rparr>"

definition REOPEN_WINDOW :: ms where "REOPEN_WINDOW = 30 * day_ms"

datatype landing = Appended | Absorbed | Reopened | Created

text \<open>Rule 5; \<open>None\<close> is the exception of a lost race.\<close>

definition create_thread ::
  "ms \<Rightarrow> msg_source \<Rightarrow> string \<Rightarrow> string \<Rightarrow> string \<Rightarrow> string \<Rightarrow> string \<Rightarrow> inbox \<Rightarrow> (landing \<times> conversation \<times> inbox) option" where
  "create_thread now src i company number contact1 phone x =
     (case insert_thread (new_thread now ConvNew src i company number contact1 phone) x of
        Some (v, y) \<Rightarrow> Some (Created, v, y)
      | None \<Rightarrow>
          (case open_thread company number contact1 phone (bx_threads x) of
             Some v \<Rightarrow> Some (Appended, v, x)
           | None \<Rightarrow> None))"

text \<open>Rules 2 to 5 for a text.\<close>

definition land_text ::
  "ms \<Rightarrow> msg_source \<Rightarrow> string \<Rightarrow> string \<Rightarrow> string \<Rightarrow> string \<Rightarrow> string \<Rightarrow> inbox \<Rightarrow> (landing \<times> conversation \<times> inbox) option" where
  "land_text now src i company number contact1 phone x =
     (case open_thread company number contact1 phone (bx_threads x) of
        Some v \<Rightarrow> Some (Appended, v, upd_thread (vt_id v) wake x)
      | None \<Rightarrow>
          (case latest_closed (same_line company number contact1 phone) (bx_threads x) of
             None \<Rightarrow> create_thread now src i company number contact1 phone x
           | Some v \<Rightarrow>
               if vt_spam v then Some (Absorbed, v, x)
               else if now - REOPEN_WINDOW \<le> the (vt_closed v) then Some (Reopened, reopen v, upd_thread (vt_id v) reopen x)
               else create_thread now src i company number contact1 phone x))"


section \<open>The budget of notifications\<close>

datatype channel = EmailChannel | PushChannel

definition NOTIFY_DEBOUNCE :: ms where "NOTIFY_DEBOUNCE = 15 * minute_ms"

definition due_notice :: "ms \<Rightarrow> conversation \<Rightarrow> bool" where
  "due_notice now v \<longleftrightarrow> \<not> vt_spam v
     \<and> (case vt_lastNotified v of None \<Rightarrow> True | Some t \<Rightarrow> t < now - NOTIFY_DEBOUNCE)"

text \<open>The business's day: a zone that is missing or unknown is UTC.\<close>

definition local_day :: "(ms \<Rightarrow> int) option \<Rightarrow> ms \<Rightarrow> int" where
  "local_day tz now = (case tz of None \<Rightarrow> now div day_ms | Some off \<Rightarrow> (now + off now) div day_ms)"

text \<open>One channel's ladder: what it announces, and its two stamps.\<close>

definition ladder :: "ms \<Rightarrow> nat \<Rightarrow> nat \<Rightarrow> ms option \<times> ms option \<Rightarrow> nat option \<times> ms option \<times> ms option" where
  "ladder now limit n st =
     (if limit \<le> n \<and> snd st = None then (Some 100, fst st, Some now)
      else if limit * 8 div 10 \<le> n \<and> fst st = None then (Some 80, Some now, snd st)
      else (None, st))"

record notice =
  no_email :: bool
  no_push :: bool
  no_alerts :: "(channel \<times> nat) list"
  no_legacy :: "nat option"

definition no_notice :: notice where
  "no_notice = \<lparr>no_email = False, no_push = False, no_alerts = [], no_legacy = None\<rparr>"

definition day_row :: "string \<Rightarrow> int \<Rightarrow> notify_day list \<Rightarrow> notify_day option" where
  "day_row company day ds = find (\<lambda>d. ny_company d = company \<and> ny_day d = day) ds"

definition put_day :: "notify_day \<Rightarrow> notify_day list \<Rightarrow> notify_day list" where
  "put_day d ds = d # filter (\<lambda>e. \<not> (ny_company e = ny_company d \<and> ny_day e = ny_day d)) ds"

definition spend_notice :: "ms \<Rightarrow> int \<Rightarrow> string \<Rightarrow> nat \<Rightarrow> nat \<Rightarrow> notify_day list \<Rightarrow> notice \<times> notify_day list" where
  "spend_notice now day company emailLimit pushLimit ds =
     (let d = (case day_row company day ds of
                 None \<Rightarrow> \<lparr>ny_company = company, ny_day = day, ny_count = 1, ny_emailWarned = None, ny_emailCapped = None,
                          ny_pushWarned = None, ny_pushCapped = None, ny_emailLimit = emailLimit, ny_pushLimit = pushLimit\<rparr>
               | Some d \<Rightarrow> d\<lparr>ny_count := Suc (ny_count d), ny_emailLimit := emailLimit, ny_pushLimit := pushLimit\<rparr>);
          (e, ew, ec) = ladder now emailLimit (ny_count d) (ny_emailWarned d, ny_emailCapped d);
          (p, pw, pc) = ladder now pushLimit (ny_count d) (ny_pushWarned d, ny_pushCapped d)
      in (\<lparr>no_email = ny_count d \<le> emailLimit, no_push = ny_count d \<le> pushLimit,
           no_alerts = (case e of None \<Rightarrow> [] | Some k \<Rightarrow> [(EmailChannel, k)]) @ (case p of None \<Rightarrow> [] | Some k \<Rightarrow> [(PushChannel, k)]),
           no_legacy = e\<rparr>,
          put_day (d\<lparr>ny_emailWarned := ew, ny_emailCapped := ec, ny_pushWarned := pw, ny_pushCapped := pc\<rparr>) ds))"


section \<open>Threading a text\<close>

record inbound =
  ib_company :: string
  ib_number :: string
  ib_from :: string
  ib_body :: "string option"
  ib_telnyx :: "string option"
  ib_zone :: "(ms \<Rightarrow> int) option"
  ib_emailLimit :: nat
  ib_pushLimit :: nat
  ib_source :: msg_source
  ib_key :: "string option"

datatype thread_error = MissingTelnyxId | MissingKey | MissingFrom | ForeignNumber | LostRace

record thread_result =
  rs_message :: string
  rs_thread :: string
  rs_created :: bool
  rs_landing :: landing
  rs_notice :: notice
  rs_optedOut :: bool

text \<open>\<open>notify_reason\<close>, which says whether the text is a lead.\<close>

fun notify_reason :: "landing \<Rightarrow> string" where
  "notify_reason Created = ''new''"
| "notify_reason Reopened = ''reopened''"
| "notify_reason Appended = ''append''"
| "notify_reason Absorbed = ''append''"

definition blank :: "string option \<Rightarrow> bool" where
  "blank s = (case s of None \<Rightarrow> True | Some t \<Rightarrow> btrim t = [])"

definition inbound_invalid :: "inbound \<Rightarrow> thread_error option" where
  "inbound_invalid r =
     (if ib_source r = FromCarrier \<and> blank (ib_telnyx r) then Some MissingTelnyxId
      else if ib_source r = FromWidget \<and> blank (ib_key r) then Some MissingKey
      else if btrim (ib_from r) = [] then Some MissingFrom
      else None)"

definition delivered_before :: "inbound \<Rightarrow> outbox \<Rightarrow> outbox_row option" where
  "delivered_before r t = find (\<lambda>m. case ib_source r of FromCarrier \<Rightarrow> ob_telnyx m = ib_telnyx r | FromWidget \<Rightarrow> ob_key m = ib_key r) t"

definition inbound_row :: "ms \<Rightarrow> string \<Rightarrow> string \<Rightarrow> inbound \<Rightarrow> outbox_row" where
  "inbound_row now i thread r =
     \<lparr>ob_id = i, ob_company = ib_company r, ob_thread = thread, ob_direction = DirInbound,
      ob_body = (case ib_body r of None \<Rightarrow> [] | Some b \<Rightarrow> b),
      ob_telnyx = (if ib_source r = FromCarrier then ib_telnyx r else None), ob_status = Some MsgReceived,
      ob_segments = None, ob_encoding = None, ob_sender = None, ob_errorCode = None, ob_errorReason = None,
      ob_errorDetail = None, ob_key = (if ib_source r = FromWidget then ib_key r else None), ob_cost = None,
      ob_autoRetries = 0, ob_call = None, ob_created = now, ob_updated = now\<rparr>"

text \<open>The insert with the trigger that ends every member's deferral of the thread.\<close>

definition insert_message :: "outbox_row \<Rightarrow> inbox \<Rightarrow> inbox" where
  "insert_message m x = x\<lparr>bx_messages := m # bx_messages x,
     bx_snoozes := (if ob_direction m = DirInbound then filter (\<lambda>z. sn_thread z \<noteq> ob_thread m) (bx_snoozes x)
                    else bx_snoozes x)\<rparr>"

definition bump :: "ms \<Rightarrow> conversation \<Rightarrow> conversation" where
  "bump now v = (if vt_spam v then v else v\<lparr>vt_lastMessage := max (vt_lastMessage v) now\<rparr>)"

definition consent_of :: "msg_source \<Rightarrow> consent_source" where
  "consent_of s = (case s of FromCarrier \<Rightarrow> InboundSms | FromWidget \<Rightarrow> WidgetForm)"

definition wants_notice :: "ms \<Rightarrow> landing \<Rightarrow> conversation \<Rightarrow> bool" where
  "wants_notice now l v = (case l of Created \<Rightarrow> True | Reopened \<Rightarrow> True | Absorbed \<Rightarrow> False | Appended \<Rightarrow> due_notice now v)"

definition claim_notice :: "ms \<Rightarrow> inbound \<Rightarrow> landing \<Rightarrow> conversation \<Rightarrow> inbox \<Rightarrow> notice \<times> inbox" where
  "claim_notice now r l v x =
     (if wants_notice now l v then
        (let (no, ds) = spend_notice now (local_day (ib_zone r) now) (ib_company r) (ib_emailLimit r) (ib_pushLimit r) (bx_days x);
             y = x\<lparr>bx_days := ds\<rparr>
         in (no, if no_email no \<or> no_push no then upd_thread (vt_id v) (\<lambda>v. v\<lparr>vt_lastNotified := Some now\<rparr>) y else y))
      else (no_notice, x))"

text \<open>
  The conflict clause of the message's insert is for a duplicate that commits in between, which one step
  leaves no room for. \<open>owned\<close> says whether the number is the company's; \<open>mi\<close>, \<open>ci\<close> and \<open>vi\<close> are fresh.
\<close>

definition thread_inbound_message ::
  "ms \<Rightarrow> string \<times> string \<times> string \<Rightarrow> bool \<Rightarrow> inbound \<Rightarrow> inbox \<Rightarrow> (thread_error + thread_result) \<times> inbox" where
  "thread_inbound_message now fresh owned r x =
     (case inbound_invalid r of
        Some e \<Rightarrow> (Inl e, x)
      | None \<Rightarrow>
       (case delivered_before r (bx_messages x) of
          Some m \<Rightarrow>
            (Inr \<lparr>rs_message = ob_id m, rs_thread = ob_thread m, rs_created = False, rs_landing = Appended,
                  rs_notice = no_notice, rs_optedOut = opted_out (ib_company r) (ib_from r) x\<rparr>, x)
        | None \<Rightarrow>
          if \<not> owned then (Inl ForeignNumber, x)
          else
            (let (mi, ci, vi) = fresh;
                 (k, y) = sender_contact now (consent_of (ib_source r)) ci (ib_company r) (ib_from r) x
             in case land_text now (ib_source r) vi (ib_company r) (ib_number r) k (ib_from r) y of
                  None \<Rightarrow> (Inl LostRace, x)
                | Some (l, v, z) \<Rightarrow>
                    (let z' = upd_thread (vt_id v) (bump now) (insert_message (inbound_row now mi (vt_id v) r) z);
                         (no, z'') = claim_notice now r l v z'
                     in (Inr \<lparr>rs_message = mi, rs_thread = vt_id v, rs_created = True, rs_landing = l,
                              rs_notice = no, rs_optedOut = opted_out (ib_company r) (ib_from r) z''\<rparr>, z'')))))"


section \<open>Threading a call\<close>

text \<open>The lookup of a call's open thread does not ask for the caller's number.\<close>

definition any_open_thread :: "string \<Rightarrow> string \<Rightarrow> string \<Rightarrow> conversation list \<Rightarrow> conversation option" where
  "any_open_thread company number contact1 vs =
     find (\<lambda>v. vt_company v = company \<and> vt_number v = number \<and> vt_contact v = contact1 \<and> vt_closed v = None) vs"

definition land_call ::
  "ms \<Rightarrow> string \<Rightarrow> string \<Rightarrow> string \<Rightarrow> string \<Rightarrow> string \<Rightarrow> bool \<Rightarrow> inbox \<Rightarrow> (conversation \<times> inbox) option option" where
  "land_call now i company number contact1 phone creates x =
     (case any_open_thread company number contact1 (bx_threads x) of
        Some v \<Rightarrow> Some (Some (v, x))
      | None \<Rightarrow>
          if \<not> creates then Some None
          else
            (case latest_closed (\<lambda>v. same_line company number contact1 phone v \<and> \<not> vt_spam v) (bx_threads x) of
               Some v \<Rightarrow>
                 if now - REOPEN_WINDOW \<le> the (vt_closed v) then Some (Some (reopen v, upd_thread (vt_id v) reopen x))
                 else map_option (\<lambda>(l, v, y). Some (v, y)) (create_thread now FromCarrier i company number contact1 phone x)
             | None \<Rightarrow> map_option (\<lambda>(l, v, y). Some (v, y)) (create_thread now FromCarrier i company number contact1 phone x)))"

definition call_contact :: "ms \<Rightarrow> string \<Rightarrow> string \<Rightarrow> string \<Rightarrow> bool \<Rightarrow> inbox \<Rightarrow> (string \<times> inbox) option" where
  "call_contact now fresh company phone creates x =
     (case phone_row company phone (bx_phones x) of
        Some p \<Rightarrow> Some (sender_contact now InboundSms fresh company phone x)
      | None \<Rightarrow>
          if creates then Some (upsert_contact now InboundSms fresh company phone x)
          else
            (case find (\<lambda>k. kt_company k = company \<and> kt_phone k = phone \<and> kt_deleted k = None) (bx_contacts x) of
               None \<Rightarrow> None
             | Some k \<Rightarrow> Some (kt_id k, x)))"

text \<open>The answer is the contact, the thread and whether the event is new, or nothing; \<open>Inl\<close> is the exception.\<close>

definition api_thread_call ::
  "ms \<Rightarrow> string \<times> string \<Rightarrow> string \<Rightarrow> string \<Rightarrow> string \<Rightarrow> string \<Rightarrow> bool \<Rightarrow> inbox
     \<Rightarrow> (thread_error + (string \<times> string \<times> bool) option) \<times> inbox" where
  "api_thread_call now fresh company number caller session creates x =
     (if caller = [] then (Inr None, x)
      else
       (case call_contact now (fst fresh) company caller creates x of
          None \<Rightarrow> (Inr None, x)
        | Some (k, y) \<Rightarrow>
          (case land_call now (snd fresh) company number k caller creates y of
             None \<Rightarrow> (Inl LostRace, x)
           | Some None \<Rightarrow> (Inr None, y)
           | Some (Some (v, z)) \<Rightarrow>
               if (vt_id v, session) \<in> set (bx_calls z) then (Inr (Some (k, vt_id v, False)), z)
               else
                 (Inr (Some (k, vt_id v, True)),
                  upd_thread (vt_id v) (\<lambda>v. v\<lparr>vt_lastMessage := max (vt_lastMessage v) now\<rparr>)
                    (z\<lparr>bx_calls := (vt_id v, session) # bx_calls z\<rparr>)))))"


section \<open>The text after a missed call\<close>

definition land_missed ::
  "ms \<Rightarrow> string \<Rightarrow> string \<Rightarrow> string \<Rightarrow> string \<Rightarrow> string \<Rightarrow> inbox \<Rightarrow> (landing \<times> conversation \<times> inbox) option" where
  "land_missed now i company number contact1 phone x =
     (case open_thread company number contact1 phone (bx_threads x) of
        Some v \<Rightarrow> Some (Appended, v, upd_thread (vt_id v) wake x)
      | None \<Rightarrow>
          (case latest_closed (\<lambda>v. same_line company number contact1 phone v \<and> \<not> vt_spam v) (bx_threads x) of
             None \<Rightarrow> create_thread now FromCarrier i company number contact1 phone x
           | Some v \<Rightarrow>
               if now - REOPEN_WINDOW \<le> the (vt_closed v) then Some (Reopened, reopen v, upd_thread (vt_id v) reopen x)
               else create_thread now FromCarrier i company number contact1 phone x))"

text \<open>
  What comes before the threading, and what comes after it on the thread it found, is
  \<open>claim_missed_call_text\<close> of the rows; a refusal after the threading keeps the threading.
\<close>

definition missed_call_threads :: "workspace option \<Rightarrow> bool \<Rightarrow> string \<Rightarrow> string \<Rightarrow> string \<Rightarrow> string \<Rightarrow> int \<Rightarrow> int \<Rightarrow> outbox \<Rightarrow> bool" where
  "missed_call_threads w owned company caller call body est throttle t \<longleftrightarrow>
     btrim caller \<noteq> [] \<and> btrim call \<noteq> [] \<and> btrim body \<noteq> [] \<and> 1 \<le> est \<and> 0 \<le> throttle \<and> owned
     \<and> (case w of None \<Rightarrow> False | Some c \<Rightarrow> company_send_block c = None)
     \<and> find (\<lambda>r. ob_company r = company \<and> ob_call r = Some call) t = None"

definition missed_call ::
  "ms \<Rightarrow> string \<times> string \<times> string \<Rightarrow> workspace option \<Rightarrow> bool \<Rightarrow> string \<Rightarrow> string \<Rightarrow> string \<Rightarrow> string \<Rightarrow> string \<Rightarrow> int \<Rightarrow> int
     \<Rightarrow> usage_ledger \<Rightarrow> inbox \<Rightarrow> (thread_error + (sql_error + outbox_row \<times> bool)) \<times> inbox" where
  "missed_call now fresh w owned company number caller call body est throttle us x =
     (let (mi, ci, vi) = fresh in
      if \<not> missed_call_threads w owned company caller call body est throttle (bx_messages x) then
        (Inr (fst (claim_missed_call_text now w owned (\<lambda>p. opted_out company p x) None mi company [] caller call body est
                     throttle (bx_messages x) us)), x)
      else
        (let (k, y) = sender_contact now InboundSms ci company caller x
         in case land_missed now vi company number k caller y of
              None \<Rightarrow> (Inl LostRace, x)
            | Some (l, v, z) \<Rightarrow>
                (case claim_missed_call_text now w owned (\<lambda>p. opted_out company p z) (vt_lastAuto v) mi company (vt_id v)
                        caller call body est throttle (bx_messages z) us of
                   (Inl e, t) \<Rightarrow> (Inr (Inl e), z)
                 | (Inr res, t) \<Rightarrow>
                     (Inr (Inr res),
                      upd_thread (vt_id v) (\<lambda>v. v\<lparr>vt_lastAuto := Some now, vt_lastMessage := max (vt_lastMessage v) now\<rparr>)
                        (z\<lparr>bx_messages := t\<rparr>)))))"

end
