(* ===== verification/Thread_People.thy ===== *)
theory Thread_People
  imports Thread_Store
begin

text \<open>
  What people, carriers and customers do to the tables of threading: the keywords of an inbound text,
  opt-outs by a member or the carrier and their lifting, two contacts merged and parted again, other
  numbers, contacts made and deleted, a thread's status and spam mark, composing to a customer.

  A route that reads before it writes has what it read as an argument: it may be stale. Statements that
  follow one another without a read that matters in between are one step.
\<close>

section \<open>Keywords\<close>

text \<open>\<open>trim().toUpperCase()\<close> of characters below 256; the two whose capital lies above stay, and match no keyword.\<close>

definition js_upper_char :: "char \<Rightarrow> string" where
  "js_upper_char c = (let n = of_char c :: nat in
     if n = 223 then ''SS''
     else if 97 \<le> n \<and> n \<le> 122 \<or> 224 \<le> n \<and> n \<le> 254 \<and> n \<noteq> 247 then [char_of (n - 32)] else [c])"

definition keyword :: "string \<Rightarrow> string" where
  "keyword body = concat (map js_upper_char (trim body))"

definition STOP_KEYWORDS :: "string list" where
  "STOP_KEYWORDS = [''STOP'', ''STOPALL'', ''UNSUBSCRIBE'', ''CANCEL'', ''END'', ''QUIT'', ''ARRET'',
     [CHR ''A'', CHR ''R'', CHR ''R'', CHR 0xCA, CHR ''T'']]"

definition START_KEYWORDS :: "string list" where "START_KEYWORDS = [''START'', ''UNSTOP'', ''YES'']"
definition HELP_KEYWORDS :: "string list" where "HELP_KEYWORDS = [''HELP'', ''INFO'']"
definition FRENCH_HELP_KEYWORDS :: "string list" where "FRENCH_HELP_KEYWORDS = [''AIDE'']"

definition isFrenchHelpKeyword :: "string \<Rightarrow> bool" where
  "isFrenchHelpKeyword body \<longleftrightarrow> keyword body \<in> set FRENCH_HELP_KEYWORDS"

definition isCarrierKeyword :: "string \<Rightarrow> bool" where
  "isCarrierKeyword body \<longleftrightarrow> keyword body \<in> set STOP_KEYWORDS \<or> keyword body \<in> set START_KEYWORDS
     \<or> keyword body \<in> set HELP_KEYWORDS"


section \<open>Opting out and in\<close>

text \<open>An update of \<open>opt_outs\<close> with the trigger that keeps the ledger.\<close>

definition write_optouts :: "(opt_out \<Rightarrow> bool) \<Rightarrow> (opt_out \<Rightarrow> opt_out) \<Rightarrow> inbox \<Rightarrow> inbox" where
  "write_optouts P f x = x\<lparr>
     bx_optouts := map (\<lambda>o1. if P o1 then f o1 else o1) (bx_optouts x),
     bx_ledger := bx_ledger x @ concat (map (\<lambda>o1. opt_outs_record_consent (bx_contacts x) (Some o1) (f o1))
                    (filter P (bx_optouts x)))\<rparr>"

definition insert_optout :: "opt_out \<Rightarrow> inbox \<Rightarrow> inbox" where
  "insert_optout o1 x = x\<lparr>
     bx_optouts := o1 # bx_optouts x,
     bx_ledger := bx_ledger x @ opt_outs_record_consent (bx_contacts x) None o1\<rparr>"

definition of_phone :: "string \<Rightarrow> string \<Rightarrow> opt_out \<Rightarrow> bool" where
  "of_phone company phone o1 \<longleftrightarrow> ot_company o1 = company \<and> ot_phone o1 = phone"

definition fresh_optout :: "ms \<Rightarrow> opt_out_source \<Rightarrow> string option \<Rightarrow> string \<Rightarrow> string \<Rightarrow> opt_out" where
  "fresh_optout now src by company phone = \<lparr>ot_company = company, ot_phone = phone, ot_source = src, ot_by = by,
     ot_created = now, ot_revoked = None\<rparr>"

definition stop_row :: "opt_out_source \<Rightarrow> string option \<Rightarrow> opt_out \<Rightarrow> opt_out" where
  "stop_row src by o1 = o1\<lparr>ot_source := src, ot_by := by, ot_revoked := None\<rparr>"

text \<open>The answer says whether the text was the carrier's business.\<close>

definition handleOptOutKeywords :: "ms \<Rightarrow> string \<Rightarrow> string \<Rightarrow> string \<Rightarrow> inbox \<Rightarrow> bool \<times> inbox" where
  "handleOptOutKeywords now company from body x =
     (if keyword body \<in> set STOP_KEYWORDS then
        (True,
         if list_ex (of_phone company from) (bx_optouts x) then write_optouts (of_phone company from) (stop_row StopKeyword None) x
         else insert_optout (fresh_optout now StopKeyword None company from) x)
      else if keyword body \<in> set START_KEYWORDS then
        (opted_out company from x,
         write_optouts (active_opt_out company from) (\<lambda>o1. o1\<lparr>ot_revoked := Some now\<rparr>) x)
      else (False, x))"

text \<open>
  A member's opt-out and the carrier's: revive a lifted row, or insert one; an active row is left alone.
  The answer says whether anything changed.
\<close>

definition record_opt_out :: "ms \<Rightarrow> opt_out_source \<Rightarrow> string option \<Rightarrow> string \<Rightarrow> string \<Rightarrow> inbox \<Rightarrow> bool \<times> inbox" where
  "record_opt_out now src by company phone x =
     (if list_ex (\<lambda>o1. of_phone company phone o1 \<and> ot_revoked o1 \<noteq> None) (bx_optouts x) then
        (True, write_optouts (\<lambda>o1. of_phone company phone o1 \<and> ot_revoked o1 \<noteq> None) (stop_row src by) x)
      else if list_ex (of_phone company phone) (bx_optouts x) then (False, x)
      else (True, insert_optout (fresh_optout now src by company phone) x))"

definition recordCarrierOptOut :: "ms \<Rightarrow> string \<Rightarrow> string \<Rightarrow> inbox \<Rightarrow> bool \<times> inbox" where
  "recordCarrierOptOut now company phone x = record_opt_out now CarrierStop None company phone x"

definition findContact :: "string \<Rightarrow> string \<Rightarrow> inbox \<Rightarrow> contact option" where
  "findContact company i x = find (\<lambda>k. kt_company k = company \<and> kt_id k = i) (bx_contacts x)"

definition optOutContact :: "ms \<Rightarrow> string \<Rightarrow> string \<Rightarrow> string \<Rightarrow> inbox \<Rightarrow> bool option \<times> inbox" where
  "optOutContact now user company i x =
     (case findContact company i x of
        None \<Rightarrow> (None, x)
      | Some k \<Rightarrow> (let (c, y) = record_opt_out now ManualStop (Some user) company (kt_phone k) x in (Some c, y)))"

datatype revoke_check = NoContact | NotOptedOut | CarrierBlocked | MayRevoke string

text \<open>Lifting one: the route looks at the active row's source, then lifts whatever row is active.\<close>

definition revokeOptOut_check :: "string \<Rightarrow> string \<Rightarrow> inbox \<Rightarrow> revoke_check" where
  "revokeOptOut_check company i x =
     (case findContact company i x of
        None \<Rightarrow> NoContact
      | Some k \<Rightarrow>
          (case find (active_opt_out company (kt_phone k)) (bx_optouts x) of
             None \<Rightarrow> NotOptedOut
           | Some o1 \<Rightarrow> if ot_source o1 \<in> {StopKeyword, CarrierStop} then CarrierBlocked else MayRevoke (kt_phone k)))"

definition revokeOptOut_write :: "ms \<Rightarrow> string \<Rightarrow> string \<Rightarrow> inbox \<Rightarrow> bool \<times> inbox" where
  "revokeOptOut_write now company phone x =
     (opted_out company phone x, write_optouts (active_opt_out company phone) (\<lambda>o1. o1\<lparr>ot_revoked := Some now\<rparr>) x)"


section \<open>Two contacts of one customer\<close>

datatype merge_outcome = SameContact | ContactMissing | AlreadyMerged | Merged nat nat bool | Unmerged | NotMerged

definition open_on :: "string \<Rightarrow> string \<Rightarrow> string \<Rightarrow> conversation list \<Rightarrow> bool" where
  "open_on company number contact1 vs \<longleftrightarrow>
     list_ex (\<lambda>v. vt_company v = company \<and> vt_contact v = contact1 \<and> vt_number v = number \<and> vt_closed v = None) vs"

text \<open>One turn of the loop over the loser's threads.\<close>

definition move_thread :: "ms \<Rightarrow> string \<Rightarrow> string \<Rightarrow> conversation \<Rightarrow> nat \<times> conversation list \<Rightarrow> nat \<times> conversation list" where
  "move_thread now company into1 v s =
     (let (n, vs) = s in
      if vt_closed v = None \<and> open_on company (vt_number v) into1 vs then
        (Suc n, map (\<lambda>w. if vt_id w = vt_id v then w\<lparr>vt_contact := into1, vt_status := ConvClosed, vt_closed := Some now\<rparr> else w) vs)
      else (n, map (\<lambda>w. if vt_id w = vt_id v then w\<lparr>vt_contact := into1\<rparr> else w) vs))"

definition merge_optout :: "ms \<Rightarrow> string option \<Rightarrow> string \<Rightarrow> string \<Rightarrow> inbox \<Rightarrow> inbox" where
  "merge_optout now actor company phone x =
     (if list_ex (of_phone company phone) (bx_optouts x) then write_optouts (of_phone company phone) (\<lambda>o1. o1\<lparr>ot_revoked := None\<rparr>) x
      else insert_optout (fresh_optout now ManualStop actor company phone) x)"

definition keep_or :: "string option \<Rightarrow> string option \<Rightarrow> string option" where
  "keep_or mine theirs = (if blank mine then theirs else map_option btrim mine)"

definition join_notes :: "string option \<Rightarrow> string option \<Rightarrow> string option" where
  "join_notes mine theirs =
     (if blank mine then theirs
      else if blank theirs then mine
      else (case (mine, theirs) of (Some a, Some b) \<Rightarrow> Some (a @ [CHR 0x0A, CHR 0x0A] @ b) | _ \<Rightarrow> None))"

definition inherit :: "contact \<Rightarrow> contact \<Rightarrow> contact" where
  "inherit from k = k\<lparr>kt_name := keep_or (kt_name k) (kt_name from), kt_address := keep_or (kt_address k) (kt_address from),
     kt_notes := join_notes (kt_notes k) (kt_notes from),
     kt_consent := or_else (kt_consent k) (kt_consent from), kt_consentAt := or_else (kt_consentAt k) (kt_consentAt from)\<rparr>"

definition api_merge_contacts :: "ms \<Rightarrow> string option \<Rightarrow> string \<Rightarrow> string \<Rightarrow> string \<Rightarrow> inbox \<Rightarrow> merge_outcome \<times> inbox" where
  "api_merge_contacts now actor company from into1 x =
     (if from = into1 then (SameContact, x)
      else
       (case (findContact company from x, findContact company into1 x) of
          (Some kf, Some ki) \<Rightarrow>
            if kt_mergedInto kf \<noteq> None \<or> kt_mergedInto ki \<noteq> None then (AlreadyMerged, x)
            else
              (let mine = filter (\<lambda>v. vt_company v = company \<and> vt_contact v = from) (bx_threads x);
                   (n, vs) = fold (move_thread now company into1) mine (0, bx_threads x);
                   stop = opted_out company (kt_phone kf) x \<or> opted_out company (kt_phone ki) x;
                   y = x\<lparr>bx_threads := vs\<rparr>;
                   z = (if stop then merge_optout now actor company (kt_phone ki) (merge_optout now actor company (kt_phone kf) y) else y);
                   z' = z\<lparr>bx_contacts := map (\<lambda>k. if kt_id k = from then k\<lparr>kt_mergedInto := Some into1\<rparr> else k) (bx_contacts z)\<rparr>
               in (Merged (length mine) n stop, write_contact (inherit kf) into1 z'))
        | _ \<Rightarrow> (ContactMissing, x)))"

definition api_unmerge_contact :: "string \<Rightarrow> string \<Rightarrow> inbox \<Rightarrow> merge_outcome \<times> inbox" where
  "api_unmerge_contact company i x =
     (case findContact company i x of
        None \<Rightarrow> (ContactMissing, x)
      | Some k \<Rightarrow>
          if kt_mergedInto k = None then (NotMerged, x)
          else (Unmerged, x\<lparr>bx_contacts := map (\<lambda>k. if kt_id k = i then k\<lparr>kt_mergedInto := None\<rparr> else k) (bx_contacts x)\<rparr>))"


section \<open>A contact and its numbers\<close>

definition CONTACT_PHONE_CAP :: nat where "CONTACT_PHONE_CAP = 8"

text \<open>\<open>seen\<close> is what the checks read; the insert meets the index of numbers.\<close>

definition addPhone :: "inbox \<Rightarrow> string \<Rightarrow> string \<Rightarrow> string \<Rightarrow> string \<Rightarrow> inbox \<Rightarrow> bool \<times> inbox" where
  "addPhone seen fresh company i phone x =
     (case findContact company i seen of
        None \<Rightarrow> (False, x)
      | Some k \<Rightarrow>
          if phone = kt_phone k \<or> contact_of company phone (bx_contacts seen) \<noteq> None
             \<or> phone_row company phone (bx_phones seen) \<noteq> None
             \<or> CONTACT_PHONE_CAP \<le> length (filter (\<lambda>p. kp_company p = company \<and> kp_contact p = i) (bx_phones seen))
             \<or> phone_row company phone (bx_phones x) \<noteq> None
            then (False, x)
          else (True, x\<lparr>bx_phones := \<lparr>kp_id = fresh, kp_company = company, kp_contact = i, kp_phone = phone\<rparr> # bx_phones x\<rparr>))"

definition removePhone :: "string \<Rightarrow> string \<Rightarrow> string \<Rightarrow> inbox \<Rightarrow> inbox" where
  "removePhone company i p x = x\<lparr>bx_phones := filter (\<lambda>q. \<not> (kp_company q = company \<and> kp_contact q = i \<and> kp_id q = p)) (bx_phones x)\<rparr>"

text \<open>Only first numbers are looked at; a live contact is edited, a deleted one comes back.\<close>

definition createContact :: "string \<Rightarrow> string \<Rightarrow> string \<Rightarrow> string option \<Rightarrow> inbox \<Rightarrow> inbox" where
  "createContact fresh company phone name x =
     (case contact_of company phone (bx_contacts x) of
        Some k \<Rightarrow> write_contact (\<lambda>k. k\<lparr>kt_deleted := None, kt_name := or_else name (kt_name k)\<rparr>) (kt_id k) x
      | None \<Rightarrow> insert_contact ((bare_contact fresh company phone)\<lparr>kt_name := name\<rparr>) x)"

definition deleteContact :: "ms \<Rightarrow> string \<Rightarrow> string \<Rightarrow> inbox \<Rightarrow> inbox" where
  "deleteContact now company i x =
     x\<lparr>bx_contacts := map (\<lambda>k. if kt_company k = company \<and> kt_id k = i then k\<lparr>kt_deleted := Some now\<rparr> else k) (bx_contacts x)\<rparr>"


section \<open>A thread's status\<close>

text \<open>The index of open threads, as a check of the whole table after an update.\<close>

definition line_of :: "conversation \<Rightarrow> string \<times> string \<times> string \<times> string" where
  "line_of v = (vt_company v, vt_number v, vt_contact v, vt_phone v)"

definition open_lines :: "conversation list \<Rightarrow> (string \<times> string \<times> string \<times> string) list" where
  "open_lines vs = map line_of (filter (\<lambda>v. vt_closed v = None) vs)"

definition write_threads :: "(conversation \<Rightarrow> bool) \<Rightarrow> (conversation \<Rightarrow> conversation) \<Rightarrow> inbox \<Rightarrow> bool \<times> inbox" where
  "write_threads P f x =
     (let vs = map (\<lambda>v. if P v then f v else v) (bx_threads x)
      in if distinct (open_lines vs) then (True, x\<lparr>bx_threads := vs\<rparr>) else (False, x))"

definition patch_status :: "ms \<Rightarrow> conversation \<Rightarrow> conversation_status option \<Rightarrow> bool option \<Rightarrow> conversation \<Rightarrow> conversation" where
  "patch_status now current st spam v =
     (let v1 = (case st of
                  None \<Rightarrow> v
                | Some s \<Rightarrow> if s = vt_status current then v
                            else v\<lparr>vt_status := s, vt_closed := (if s = ConvClosed then Some now else None)\<rparr>)
      in (case spam of
            None \<Rightarrow> v1
          | Some b \<Rightarrow> if b = vt_spam current then v1
                      else if b then v1\<lparr>vt_spam := True, vt_status := ConvClosed, vt_closed := or_else (vt_closed current) (Some now)\<rparr>
                      else v1\<lparr>vt_spam := False\<rparr>))"

text \<open>\<open>PATCH\<close>: the patch is made from the row as it was read.\<close>

definition patchConversation ::
  "ms \<Rightarrow> conversation \<Rightarrow> string \<Rightarrow> string \<Rightarrow> conversation_status option \<Rightarrow> bool option \<Rightarrow> inbox \<Rightarrow> bool \<times> inbox" where
  "patchConversation now current company i st spam x =
     write_threads (\<lambda>v. vt_company v = company \<and> vt_id v = i) (patch_status now current st spam) x"

definition bulk_status :: "ms \<Rightarrow> string list \<Rightarrow> conversation_status \<Rightarrow> inbox \<Rightarrow> bool \<times> inbox" where
  "bulk_status now is1 st x =
     write_threads (\<lambda>v. vt_id v \<in> set is1 \<and> vt_status v \<noteq> st)
       (\<lambda>v. v\<lparr>vt_status := st, vt_closed := (if st = ConvClosed then or_else (vt_closed v) (Some now) else None)\<rparr>) x"

definition bulk_spam :: "string list \<Rightarrow> bool \<Rightarrow> inbox \<Rightarrow> bool \<times> inbox" where
  "bulk_spam is1 b x = write_threads (\<lambda>v. vt_id v \<in> set is1 \<and> vt_spam v \<noteq> b) (\<lambda>v. v\<lparr>vt_spam := b\<rparr>) x"

text \<open>A blocked sender's text closes its thread as spam.\<close>

definition block_thread :: "ms \<Rightarrow> string \<Rightarrow> string \<Rightarrow> inbox \<Rightarrow> bool \<times> inbox" where
  "block_thread now company i x =
     write_threads (\<lambda>v. vt_id v = i \<and> vt_company v = company)
       (\<lambda>v. v\<lparr>vt_spam := True, vt_status := ConvClosed, vt_closed := Some now\<rparr>) x"

definition defer_thread :: "string \<Rightarrow> string \<Rightarrow> ms \<Rightarrow> inbox \<Rightarrow> inbox" where
  "defer_thread i user t x = x\<lparr>bx_snoozes := \<lparr>sn_thread = i, sn_user = user, sn_until = t\<rparr>
     # filter (\<lambda>z. \<not> (sn_thread z = i \<and> sn_user z = user)) (bx_snoozes x)\<rparr>"


section \<open>Composing\<close>

datatype compose_to = ToContact string | ToPhone string

definition resolveComposeContact :: "string \<Rightarrow> string \<Rightarrow> compose_to \<Rightarrow> inbox \<Rightarrow> (contact \<times> inbox) option" where
  "resolveComposeContact fresh company to1 x =
     (let found = (case to1 of ToContact i \<Rightarrow> findContact company i x | ToPhone p \<Rightarrow> contact_of company p (bx_contacts x)) in
      case found of
        Some k \<Rightarrow> Some (k\<lparr>kt_deleted := None\<rparr>, write_contact (\<lambda>k. k\<lparr>kt_deleted := None\<rparr>) (kt_id k) x)
      | None \<Rightarrow>
          (case to1 of
             ToContact i \<Rightarrow> None
           | ToPhone p \<Rightarrow> Some (bare_contact fresh company p, insert_contact (bare_contact fresh company p) x)))"

definition conversations_default_contact_phone :: "contact list \<Rightarrow> string \<Rightarrow> string" where
  "conversations_default_contact_phone ks i = (case find (\<lambda>k. kt_id k = i) ks of None \<Rightarrow> [] | Some k \<Rightarrow> kt_phone k)"

text \<open>On the conflict any open thread of the contact on that number will do, or none is found and it throws.\<close>

definition createOrReuseConversation :: "ms \<Rightarrow> string \<Rightarrow> string \<Rightarrow> string \<Rightarrow> string \<Rightarrow> inbox \<Rightarrow> ((conversation \<times> bool) \<times> inbox) option" where
  "createOrReuseConversation now fresh company number i x =
     (case insert_thread (new_thread now ConvOpen FromCarrier fresh company number i
             (conversations_default_contact_phone (bx_contacts x) i)) x of
        Some (v, y) \<Rightarrow> Some ((v, True), y)
      | None \<Rightarrow> map_option (\<lambda>v. ((v, False), x)) (any_open_thread company number i (bx_threads x)))"

definition reapEmptyConversation :: "string \<Rightarrow> string \<Rightarrow> inbox \<Rightarrow> inbox" where
  "reapEmptyConversation company i x =
     (if list_ex (\<lambda>m. ob_thread m = i) (bx_messages x) then x
      else x\<lparr>bx_threads := filter (\<lambda>v. \<not> (vt_company v = company \<and> vt_id v = i)) (bx_threads x),
             bx_snoozes := filter (\<lambda>z. sn_thread z \<noteq> i) (bx_snoozes x)\<rparr>)"

end
