(* ===== verification/Thread_System.thy ===== *)
theory Thread_System
  imports Thread_People
begin

text \<open>
  Threading as a system: texts, calls, keywords, members' routes and the carrier's refusals in any order,
  at any time, as the step relation \<open>tstep\<close> over \<open>thread_sys\<close>. A member's lifting of an opt-out is cut
  between its look and its write (\<open>th_lifts\<close>), and may end in between. \<open>th_claims\<close> records every notice a
  text claimed: its company and day, the two limits it was held to, and what it was told; \<open>th_ids\<close> the ids
  the database gave out. \<open>own\<close> says which number is which company's.
\<close>

record claimed_notice =
  cn_company :: string
  cn_day :: int
  cn_emailLimit :: nat
  cn_pushLimit :: nat
  cn_notice :: notice

record thread_sys =
  th_now :: ms
  th_box :: inbox
  th_lifts :: "(string \<times> string) list"
  th_claims :: "claimed_notice list"
  th_ids :: "string set"

definition box_to :: "inbox \<Rightarrow> thread_sys \<Rightarrow> thread_sys" where
  "box_to x s = s\<lparr>th_box := x\<rparr>"

definition gives :: "string list \<Rightarrow> thread_sys \<Rightarrow> thread_sys" where
  "gives is1 s = s\<lparr>th_ids := set is1 \<union> th_ids s\<rparr>"

definition new_ids :: "string list \<Rightarrow> thread_sys \<Rightarrow> bool" where
  "new_ids is1 s \<longleftrightarrow> distinct is1 \<and> set is1 \<inter> th_ids s = {}"

text \<open>A text claimed a notice when it was threaded for the first time on a thread that was due one.\<close>

definition claims :: "ms \<Rightarrow> inbound \<Rightarrow> inbox \<Rightarrow> thread_error + thread_result \<Rightarrow> inbox \<Rightarrow> claimed_notice list" where
  "claims now r x res y =
     (case res of
        Inl e \<Rightarrow> []
      | Inr t \<Rightarrow> if bx_days y = bx_days x then []
                else [\<lparr>cn_company = ib_company r, cn_day = local_day (ib_zone r) now, cn_emailLimit = ib_emailLimit r,
                       cn_pushLimit = ib_pushLimit r, cn_notice = rs_notice t\<rparr>])"

definition thread_start :: "thread_sys \<Rightarrow> bool" where
  "thread_start s \<longleftrightarrow> th_box s = \<lparr>bx_contacts = [], bx_phones = [], bx_threads = [], bx_optouts = [], bx_ledger = [],
     bx_days = [], bx_messages = [], bx_snoozes = [], bx_calls = []\<rparr> \<and> th_lifts s = [] \<and> th_claims s = [] \<and> th_ids s = {}"

text \<open>What the rest of the program does to the rows of \<open>messages\<close> leaves the inbound ones as they are.\<close>

definition inbound_rows :: "outbox \<Rightarrow> outbox_row list" where
  "inbound_rows t = filter (\<lambda>m. ob_direction m = DirInbound) t"

inductive tstep :: "(string \<Rightarrow> string \<Rightarrow> bool) \<Rightarrow> thread_sys \<Rightarrow> thread_sys \<Rightarrow> bool" for own s where
  t_text: "new_ids [mi, ci, vi] s \<Longrightarrow>
     thread_inbound_message (th_now s) (mi, ci, vi) (own (ib_company r) (ib_number r)) r (th_box s) = (res, x) \<Longrightarrow>
     tstep own s (gives [mi, ci, vi] (box_to x s)\<lparr>th_claims := claims (th_now s) r (th_box s) res x @ th_claims s\<rparr>)"
| t_call: "new_ids [ci, vi] s \<Longrightarrow>
     api_thread_call (th_now s) (ci, vi) company number caller session creates (th_box s) = (res, x) \<Longrightarrow>
     tstep own s (gives [ci, vi] (box_to x s))"
| t_missed: "new_ids [mi, ci, vi] s \<Longrightarrow>
     missed_call (th_now s) (mi, ci, vi) w (own company number) company number caller call body est throttle us (th_box s) = (res, x) \<Longrightarrow>
     tstep own s (gives [mi, ci, vi] (box_to x s))"
| t_keyword: "handleOptOutKeywords (th_now s) company from body (th_box s) = (b, x) \<Longrightarrow> tstep own s (box_to x s)"
| t_carrier: "recordCarrierOptOut (th_now s) company phone (th_box s) = (b, x) \<Longrightarrow> tstep own s (box_to x s)"
| t_optout: "optOutContact (th_now s) user company i (th_box s) = (b, x) \<Longrightarrow> tstep own s (box_to x s)"
| t_lift_check: "revokeOptOut_check company i (th_box s) = MayRevoke phone \<Longrightarrow>
     tstep own s (s\<lparr>th_lifts := (company, phone) # th_lifts s\<rparr>)"
| t_lift_write: "(company, phone) \<in> set (th_lifts s) \<Longrightarrow> revokeOptOut_write (th_now s) company phone (th_box s) = (b, x) \<Longrightarrow>
     tstep own s ((box_to x s)\<lparr>th_lifts := remove1 (company, phone) (th_lifts s)\<rparr>)"
| t_lift_lost: "(company, phone) \<in> set (th_lifts s) \<Longrightarrow> tstep own s (s\<lparr>th_lifts := remove1 (company, phone) (th_lifts s)\<rparr>)"
| t_merge: "api_merge_contacts (th_now s) actor company from into1 (th_box s) = (res, x) \<Longrightarrow> tstep own s (box_to x s)"
| t_unmerge: "api_unmerge_contact company i (th_box s) = (res, x) \<Longrightarrow> tstep own s (box_to x s)"
| t_add_phone: "new_ids [pj] s \<Longrightarrow> addPhone seen pj company i phone (th_box s) = (b, x) \<Longrightarrow>
     b \<longrightarrow> findContact company i (th_box s) \<noteq> None \<Longrightarrow> tstep own s (gives [pj] (box_to x s))"
| t_remove_phone: "tstep own s (box_to (removePhone company i p (th_box s)) s)"
| t_create: "new_ids [ci] s \<Longrightarrow> tstep own s (gives [ci] (box_to (createContact ci company phone name (th_box s)) s))"
| t_delete: "tstep own s (box_to (deleteContact (th_now s) company i (th_box s)) s)"
| t_patch: "patchConversation (th_now s) current company i st spam (th_box s) = (b, x) \<Longrightarrow> tstep own s (box_to x s)"
| t_bulk_status: "bulk_status (th_now s) is1 st (th_box s) = (b, x) \<Longrightarrow> tstep own s (box_to x s)"
| t_bulk_spam: "bulk_spam is1 sp (th_box s) = (b, x) \<Longrightarrow> tstep own s (box_to x s)"
| t_block: "block_thread (th_now s) company i (th_box s) = (b, x) \<Longrightarrow> tstep own s (box_to x s)"
| t_defer: "tstep own s (box_to (defer_thread i user t (th_box s)) s)"
| t_compose_to: "new_ids [ci] s \<Longrightarrow> resolveComposeContact ci company to1 (th_box s) = Some (k, x) \<Longrightarrow>
     tstep own s (gives [ci] (box_to x s))"
| t_compose: "new_ids [vi] s \<Longrightarrow> findContact company i (th_box s) \<noteq> None \<Longrightarrow>
     createOrReuseConversation (th_now s) vi company number i (th_box s) = Some (v, x) \<Longrightarrow> tstep own s (gives [vi] (box_to x s))"
| t_reap: "tstep own s (box_to (reapEmptyConversation company i (th_box s)) s)"
| t_outbox: "inbound_rows t = inbound_rows (bx_messages (th_box s)) \<Longrightarrow> tstep own s (box_to ((th_box s)\<lparr>bx_messages := t\<rparr>) s)"
| t_wait: "th_now s \<le> now \<Longrightarrow> tstep own s (s\<lparr>th_now := now\<rparr>)"

inductive treach :: "(string \<Rightarrow> string \<Rightarrow> bool) \<Rightarrow> thread_sys \<Rightarrow> bool" for own where
  treach_start: "thread_start s \<Longrightarrow> treach own s"
| treach_step: "treach own s \<Longrightarrow> tstep own s s' \<Longrightarrow> treach own s'"

inductive_cases tstep_elim: "tstep own s s'"

lemma box_to_simps [simp]:
  "th_box (box_to x s) = x" "th_now (box_to x s) = th_now s" "th_lifts (box_to x s) = th_lifts s"
  "th_claims (box_to x s) = th_claims s" "th_ids (box_to x s) = th_ids s"
  by (simp_all add: box_to_def)

lemma gives_simps [simp]:
  "th_box (gives is1 s) = th_box s" "th_now (gives is1 s) = th_now s" "th_lifts (gives is1 s) = th_lifts s"
  "th_claims (gives is1 s) = th_claims s" "th_ids (gives is1 s) = set is1 \<union> th_ids s"
  by (simp_all add: gives_def)

end
