(* ===== verification/Thread_Facts.thy ===== *)
theory Thread_Facts
  imports Thread_System
begin

text \<open>
  What the operations on the tables of threading keep. The tables' keys are split by table
  (\<open>threads_ok\<close>, \<open>people_ok\<close>, \<open>days_ok\<close>); the locale \<open>lander\<close> is the contract between a search for a
  thread and the functions that thread with it, interpreted for a text's search and a missed call's.
\<close>

section \<open>Threads\<close>

definition status_ok :: "conversation \<Rightarrow> bool" where
  "status_ok v \<longleftrightarrow> (vt_status v = ConvClosed \<longleftrightarrow> vt_closed v \<noteq> None)"

definition threads_ok :: "string set \<Rightarrow> conversation list \<Rightarrow> bool" where
  "threads_ok is1 vs \<longleftrightarrow> distinct (map vt_id vs) \<and> vt_id ` set vs \<subseteq> is1 \<and> distinct (open_lines vs) \<and> list_all status_ok vs"

text \<open>An edit that leaves a thread where it is: its id, its line, open or closed.\<close>

definition calm :: "(conversation \<Rightarrow> conversation) \<Rightarrow> bool" where
  "calm f \<longleftrightarrow> (\<forall>v. vt_id (f v) = vt_id v \<and> line_of (f v) = line_of v \<and> vt_closed (f v) = vt_closed v \<and> (status_ok v \<longrightarrow> status_ok (f v)))"

lemma calmD:
  "calm f \<Longrightarrow> vt_id (f v) = vt_id v" "calm f \<Longrightarrow> line_of (f v) = line_of v" "calm f \<Longrightarrow> vt_closed (f v) = vt_closed v"
  "calm f \<Longrightarrow> status_ok v \<Longrightarrow> status_ok (f v)"
  by (simp_all add: calm_def)

lemma calm_edits [simp, intro]:
  "calm wake" "calm (bump now)" "calm (\<lambda>v. v\<lparr>vt_lastNotified := t\<rparr>)" "calm (\<lambda>v. v\<lparr>vt_lastMessage := max (vt_lastMessage v) now\<rparr>)"
  "calm (\<lambda>v. v\<lparr>vt_lastAuto := a, vt_lastMessage := max (vt_lastMessage v) now\<rparr>)"
  by (auto simp: calm_def wake_def bump_def line_of_def status_ok_def)

lemma open_lines_map:
  "(\<And>v. v \<in> set vs \<Longrightarrow> line_of (f v) = line_of v \<and> vt_closed (f v) = vt_closed v) \<Longrightarrow> open_lines (map f vs) = open_lines vs"
  by (induction vs) (auto simp: open_lines_def)

lemma ids_map: "(\<And>v. v \<in> set vs \<Longrightarrow> vt_id (f v) = vt_id v) \<Longrightarrow> map vt_id (map f vs) = map vt_id vs"
  by simp

lemma calm_map:
  assumes "threads_ok is1 vs" and "calm f"
  shows "threads_ok is1 (map (\<lambda>v. if P v then f v else v) vs)"
proof -
  have "map vt_id (map (\<lambda>v. if P v then f v else v) vs) = map vt_id vs" using assms(2) by (simp add: calmD)
  moreover from this have "vt_id ` set (map (\<lambda>v. if P v then f v else v) vs) = vt_id ` set vs" by (metis list.set_map)
  moreover have "open_lines (map (\<lambda>v. if P v then f v else v) vs) = open_lines vs"
    using assms(2) by (intro open_lines_map) (simp add: calmD)
  moreover have "list_all status_ok (map (\<lambda>v. if P v then f v else v) vs)"
    using assms by (auto simp: list_all_iff threads_ok_def calmD)
  ultimately show ?thesis using assms(1) by (simp only: threads_ok_def)
qed

lemma open_thread_line:
  "open_thread company number i phone vs = None \<longleftrightarrow> (company, number, i, phone) \<notin> set (open_lines vs)"
  by (auto simp: open_thread_def find_None_iff open_lines_def same_line_def line_of_def)

lemma open_thread_Some:
  "open_thread company number i phone vs = Some v \<Longrightarrow>
     v \<in> set vs \<and> vt_closed v = None \<and> line_of v = (company, number, i, phone)"
  by (auto simp: open_thread_def find_Some_iff same_line_def line_of_def)

lemma latest_closed_Some:
  assumes "latest_closed P vs = Some v"
  shows "v \<in> set vs \<and> vt_closed v \<noteq> None \<and> P v
    \<and> (\<forall>w \<in> set vs. vt_closed w \<noteq> None \<longrightarrow> P w \<longrightarrow> the (vt_closed w) \<le> the (vt_closed v))"
proof -
  obtain rest where s: "sort_key (\<lambda>v. - the (vt_closed v)) (filter (\<lambda>v. vt_closed v \<noteq> None \<and> P v) vs) = v # rest"
    using assms by (auto simp: latest_closed_def split: list.splits)
  have "set (v # rest) = {v \<in> set vs. vt_closed v \<noteq> None \<and> P v}" unfolding s [symmetric] by simp
  moreover have "sorted (map (\<lambda>v. - the (vt_closed v)) (v # rest))" unfolding s [symmetric] by (rule sorted_sort_key)
  ultimately show ?thesis by auto
qed

lemma latest_closed_None:
  "latest_closed P vs = None \<longleftrightarrow> (\<forall>v \<in> set vs. vt_closed v \<noteq> None \<longrightarrow> \<not> P v)"
proof -
  have "latest_closed P vs = None \<longleftrightarrow> sort_key (\<lambda>v. - the (vt_closed v)) (filter (\<lambda>v. vt_closed v \<noteq> None \<and> P v) vs) = []"
    unfolding latest_closed_def by (simp split: list.split)
  also have "\<dots> \<longleftrightarrow> filter (\<lambda>v. vt_closed v \<noteq> None \<and> P v) vs = []" by (simp only: length_0_conv [symmetric] length_sort)
  finally show ?thesis by (auto simp: filter_empty_conv)
qed

lemma insert_thread_ok:
  assumes "threads_ok is1 (bx_threads x)" and "vt_id v \<notin> is1" and "vt_closed v = None" and "status_ok v"
    and "insert_thread v x = Some (w, y)"
  shows "threads_ok (insert (vt_id v) is1) (bx_threads y) \<and> bx_threads y = w # bx_threads x
    \<and> w = v\<lparr>vt_contact := follow_merged_contact (bx_contacts x) (vt_contact v)\<rparr> \<and> y = x\<lparr>bx_threads := bx_threads y\<rparr>"
proof -
  let ?w = "v\<lparr>vt_contact := follow_merged_contact (bx_contacts x) (vt_contact v)\<rparr>"
  have none: "open_thread (vt_company v) (vt_number v) (vt_contact ?w) (vt_phone v) (bx_threads x) = None"
    and eq: "w = ?w" "y = x\<lparr>bx_threads := ?w # bx_threads x\<rparr>"
    using assms(5) by (auto simp: insert_thread_def Let_def split: option.splits)
  have "line_of ?w \<notin> set (open_lines (bx_threads x))" using none by (simp add: open_thread_line line_of_def)
  then have "distinct (open_lines (?w # bx_threads x))" using assms(1,3) by (simp add: threads_ok_def open_lines_def)
  moreover have "vt_id v \<notin> vt_id ` set (bx_threads x)" using assms(1,2) by (auto simp: threads_ok_def)
  moreover have "status_ok ?w" using assms(4) by (simp add: status_ok_def)
  ultimately have "threads_ok (insert (vt_id v) is1) (?w # bx_threads x)"
    using assms(1) by (auto simp: threads_ok_def)
  then show ?thesis using eq by simp
qed

lemma reopen_ok:
  assumes "threads_ok is1 vs" and "v \<in> set vs" and "line_of v \<notin> set (open_lines vs)"
  shows "threads_ok is1 (map (\<lambda>w. if vt_id w = vt_id v then reopen w else w) vs)"
proof -
  let ?f = "\<lambda>w. if vt_id w = vt_id v then reopen w else w"
  have d: "distinct (map vt_id vs)" using assms(1) by (simp add: threads_ok_def)
  then have only: "w \<in> set vs \<Longrightarrow> vt_id w = vt_id v \<Longrightarrow> w = v" for w
    using assms(2) by (metis distinct_map inj_onD)
  have ids: "map vt_id (map ?f vs) = map vt_id vs" by (simp add: reopen_def)
  obtain as bs where vs: "vs = as @ v # bs" using split_list [OF assms(2)] by blast
  have "map ?f as = as" "map ?f bs = bs" using d unfolding vs by (auto intro!: map_idI simp: image_iff)
  then have "map ?f vs = as @ reopen v # bs" unfolding vs by simp
  moreover have "vt_closed v \<noteq> None" using assms(3) unfolding vs by (auto simp: open_lines_def)
  ultimately have "distinct (open_lines (map ?f vs))"
    using assms(1,3) unfolding vs by (auto simp: threads_ok_def open_lines_def reopen_def line_of_def)
  moreover have "list_all status_ok (map ?f vs)"
    using assms(1) by (auto simp: threads_ok_def list_all_iff reopen_def status_ok_def)
  moreover have "vt_id ` set (map ?f vs) \<subseteq> is1" using assms(1) ids unfolding threads_ok_def by (metis list.set_map)
  ultimately show ?thesis using d ids by (simp only: threads_ok_def)
qed

lemma written_ok:
  assumes "threads_ok is1 (bx_threads x)" and "\<And>v. vt_id (f v) = vt_id v" and "\<And>v. status_ok v \<Longrightarrow> status_ok (f v)"
    and "write_threads P f x = (b, y)"
  shows "threads_ok is1 (bx_threads y) \<and> y = x\<lparr>bx_threads := bx_threads y\<rparr>"
proof -
  let ?g = "\<lambda>v. if P v then f v else v"
  have ids: "map vt_id (map ?g (bx_threads x)) = map vt_id (bx_threads x)" using assms(2) by simp
  have "vt_id ` set (map ?g (bx_threads x)) \<subseteq> is1" using assms(1) ids unfolding threads_ok_def by (metis list.set_map)
  moreover have "list_all status_ok (map ?g (bx_threads x))"
    using assms(1,3) by (auto simp: threads_ok_def list_all_iff)
  ultimately show ?thesis using assms(1,4) ids
    by (auto simp: write_threads_def threads_ok_def Let_def simp del: map_map split: if_splits)
qed

lemma threads_ok_mono: "threads_ok is1 vs \<Longrightarrow> is1 \<subseteq> js \<Longrightarrow> threads_ok js vs"
  by (auto simp: threads_ok_def)

lemma upd_thread_simps [simp]:
  "bx_contacts (upd_thread i f x) = bx_contacts x" "bx_phones (upd_thread i f x) = bx_phones x"
  "bx_optouts (upd_thread i f x) = bx_optouts x" "bx_ledger (upd_thread i f x) = bx_ledger x"
  "bx_days (upd_thread i f x) = bx_days x" "bx_messages (upd_thread i f x) = bx_messages x"
  "bx_snoozes (upd_thread i f x) = bx_snoozes x" "bx_calls (upd_thread i f x) = bx_calls x"
  by (simp_all add: upd_thread_def)

lemma upd_thread_ok: "threads_ok is1 (bx_threads x) \<Longrightarrow> calm f \<Longrightarrow> threads_ok is1 (bx_threads (upd_thread i f x))"
  by (simp add: upd_thread_def calm_map)

lemma upd_thread_only: "upd_thread i f x = x\<lparr>bx_threads := bx_threads (upd_thread i f x)\<rparr>"
  by (simp add: upd_thread_def)


section \<open>The search for a thread\<close>

locale lander =
  fixes land :: "ms \<Rightarrow> string \<Rightarrow> string \<Rightarrow> string \<Rightarrow> string \<Rightarrow> string \<Rightarrow> inbox \<Rightarrow> (landing \<times> conversation \<times> inbox) option"
  assumes keeps: "land now i company number k phone x = Some (l, v, y) \<Longrightarrow> threads_ok is1 (bx_threads x) \<Longrightarrow> i \<notin> is1 \<Longrightarrow>
      threads_ok (insert i is1) (bx_threads y)"
    and only_threads: "land now i company number k phone x = Some (l, v, y) \<Longrightarrow> y = x\<lparr>bx_threads := bx_threads y\<rparr>"
    and found: "land now i company number k phone x = Some (l, v, y) \<Longrightarrow> l \<noteq> Absorbed \<Longrightarrow>
      \<exists>w \<in> set (bx_threads y). vt_id w = vt_id v \<and> vt_closed w = None \<and> vt_company w = company \<and> vt_number w = number \<and> vt_phone w = phone"
    and elsewhere: "land now i company number k phone x = Some (l, v, y) \<Longrightarrow> vt_id w \<noteq> vt_id v \<Longrightarrow>
      w \<in> set (bx_threads y) \<longleftrightarrow> w \<in> set (bx_threads x)"

lemma create_thread_Some:
  assumes "create_thread now src i company number k phone x = Some (l, v, y)"
  shows "l = Created \<and> insert_thread (new_thread now ConvNew src i company number k phone) x = Some (v, y)
    \<or> l = Appended \<and> y = x \<and> open_thread company number k phone (bx_threads x) = Some v"
  using assms by (auto simp: create_thread_def split: option.splits)

lemma new_thread_ok: "status_ok (new_thread now ConvNew src i company number k phone)"
  "vt_id (new_thread now st src i company number k phone) = i" "vt_closed (new_thread now st src i company number k phone) = None"
  by (simp_all add: status_ok_def new_thread_def)

lemma create_thread_keeps:
  assumes "create_thread now src i company number k phone x = Some (l, v, y)" "threads_ok is1 (bx_threads x)" "i \<notin> is1"
  shows "threads_ok (insert i is1) (bx_threads y)"
  using create_thread_Some [OF assms(1)] insert_thread_ok [OF assms(2), of "new_thread now ConvNew src i company number k phone" v y]
    assms(2,3) by (auto simp: new_thread_ok intro: threads_ok_mono)

lemma insert_thread_Some:
  "insert_thread v x = Some (w, y) \<Longrightarrow>
     w = v\<lparr>vt_contact := follow_merged_contact (bx_contacts x) (vt_contact v)\<rparr> \<and> y = x\<lparr>bx_threads := w # bx_threads x\<rparr>"
  by (auto simp: insert_thread_def Let_def split: option.splits)

lemma create_thread_facts:
  assumes "create_thread now src i company number k phone x = Some (l, v, y)"
  shows "y = x\<lparr>bx_threads := bx_threads y\<rparr>"
    and "\<exists>w \<in> set (bx_threads y). vt_id w = vt_id v \<and> vt_closed w = None \<and> vt_company w = company \<and> vt_number w = number \<and> vt_phone w = phone"
    and "vt_id w \<noteq> vt_id v \<Longrightarrow> w \<in> set (bx_threads y) \<longleftrightarrow> w \<in> set (bx_threads x)"
  using create_thread_Some [OF assms]
  by (auto dest!: insert_thread_Some open_thread_Some simp: new_thread_def line_of_def)

lemma upd_elsewhere: "(\<And>v. vt_id (f v) = vt_id v) \<Longrightarrow> vt_id w \<noteq> i \<Longrightarrow> w \<in> set (bx_threads (upd_thread i f x)) \<longleftrightarrow> w \<in> set (bx_threads x)"
  by (auto simp: upd_thread_def image_iff)

lemma upd_here: "v \<in> set (bx_threads x) \<Longrightarrow> vt_id v = i \<Longrightarrow> f v \<in> set (bx_threads (upd_thread i f x))"
  by (force simp: upd_thread_def)

lemma edits_id [simp]: "vt_id (wake v) = vt_id v" "vt_id (reopen v) = vt_id v" "vt_id (bump now v) = vt_id v"
  "line_of (wake v) = line_of v" "vt_closed (wake v) = vt_closed v" "vt_closed (reopen v) = None" "line_of (reopen v) = line_of v"
  by (simp_all add: wake_def reopen_def bump_def line_of_def)

text \<open>A thread is found open, reopened where the line has none open, or created.\<close>

lemma appended_keeps:
  assumes "open_thread company number k phone (bx_threads x) = Some v"
  shows "threads_ok is1 (bx_threads x) \<Longrightarrow> threads_ok (insert i is1) (bx_threads (upd_thread (vt_id v) wake x))"
    and "\<exists>w \<in> set (bx_threads (upd_thread (vt_id v) wake x)). vt_id w = vt_id v \<and> vt_closed w = None \<and> line_of w = (company, number, k, phone)"
  using open_thread_Some [OF assms] upd_here [of v x "vt_id v" wake]
  by (auto intro!: threads_ok_mono [of is1] upd_thread_ok bexI [of _ "wake v"])

lemma reopened_keeps:
  assumes "open_thread company number k phone (bx_threads x) = None" "v \<in> set (bx_threads x)" "same_line company number k phone v"
  shows "threads_ok is1 (bx_threads x) \<Longrightarrow> threads_ok (insert i is1) (bx_threads (upd_thread (vt_id v) reopen x))"
    and "\<exists>w \<in> set (bx_threads (upd_thread (vt_id v) reopen x)). vt_id w = vt_id v \<and> vt_closed w = None \<and> line_of w = (company, number, k, phone)"
proof -
  have l: "line_of v = (company, number, k, phone)" using assms(3) by (simp add: same_line_def line_of_def)
  then have "line_of v \<notin> set (open_lines (bx_threads x))" using assms(1) by (simp add: open_thread_line)
  then show "threads_ok is1 (bx_threads x) \<Longrightarrow> threads_ok (insert i is1) (bx_threads (upd_thread (vt_id v) reopen x))"
    using reopen_ok [of is1 "bx_threads x" v] assms(2) by (auto simp: upd_thread_def intro: threads_ok_mono)
  show "\<exists>w \<in> set (bx_threads (upd_thread (vt_id v) reopen x)). vt_id w = vt_id v \<and> vt_closed w = None \<and> line_of w = (company, number, k, phone)"
    using upd_here [OF assms(2) refl, of reopen] l by (intro bexI [of _ "reopen v"]) auto
qed

text \<open>The two searches differ in what closed threads they look at.\<close>

definition searched :: "(conversation \<Rightarrow> bool) \<Rightarrow> ms \<Rightarrow> msg_source \<Rightarrow> string \<Rightarrow> string \<Rightarrow> string \<Rightarrow> string \<Rightarrow> string \<Rightarrow> inbox
    \<Rightarrow> landing \<times> conversation \<times> inbox \<Rightarrow> bool" where
  "searched absorbs now src i company number k phone x res \<longleftrightarrow>
     (case res of (l, v, y) \<Rightarrow>
        l = Appended \<and> open_thread company number k phone (bx_threads x) = Some v \<and> y = upd_thread (vt_id v) wake x
        \<or> open_thread company number k phone (bx_threads x) = None \<and>
           (l = Absorbed \<and> absorbs v \<and> y = x
            \<or> l = Reopened \<and> (\<exists>w \<in> set (bx_threads x). same_line company number k phone w \<and> v = reopen w \<and> y = upd_thread (vt_id w) reopen x)
            \<or> create_thread now src i company number k phone x = Some (l, v, y)))"

lemma text_searched:
  "land_text now src i company number k phone x = Some res \<Longrightarrow> searched vt_spam now src i company number k phone x res"
  by (cases res) (auto simp: land_text_def searched_def dest: latest_closed_Some split: option.splits if_splits)

lemma missed_searched:
  "land_missed now i company number k phone x = Some res \<Longrightarrow> searched (\<lambda>_. False) now FromCarrier i company number k phone x res"
  by (cases res) (auto simp: land_missed_def searched_def dest: latest_closed_Some split: option.splits if_splits)

lemma searched_lands:
  assumes "searched absorbs now src i company number k phone x (l, v, y)"
  shows "threads_ok is1 (bx_threads x) \<Longrightarrow> i \<notin> is1 \<Longrightarrow> threads_ok (insert i is1) (bx_threads y)"
    and "y = x\<lparr>bx_threads := bx_threads y\<rparr>"
    and "l \<noteq> Absorbed \<Longrightarrow>
      \<exists>w \<in> set (bx_threads y). vt_id w = vt_id v \<and> vt_closed w = None \<and> vt_company w = company \<and> vt_number w = number \<and> vt_phone w = phone"
    and "vt_id w \<noteq> vt_id v \<Longrightarrow> w \<in> set (bx_threads y) \<longleftrightarrow> w \<in> set (bx_threads x)"
proof -
  consider (open1) "l = Appended" "open_thread company number k phone (bx_threads x) = Some v" "y = upd_thread (vt_id v) wake x"
    | (absorbed) "l = Absorbed" "y = x"
    | (closed1) u where "open_thread company number k phone (bx_threads x) = None" "u \<in> set (bx_threads x)"
        "same_line company number k phone u" "v = reopen u" "y = upd_thread (vt_id u) reopen x"
    | (created) "create_thread now src i company number k phone x = Some (l, v, y)"
    using assms by (auto simp: searched_def)
  note cases1 = this
  show "threads_ok is1 (bx_threads x) \<Longrightarrow> i \<notin> is1 \<Longrightarrow> threads_ok (insert i is1) (bx_threads y)"
    by (rule cases1) (simp_all add: appended_keeps reopened_keeps create_thread_keeps threads_ok_mono [of is1] subset_insertI)
  show "y = x\<lparr>bx_threads := bx_threads y\<rparr>"
    by (rule cases1) (auto intro: create_thread_facts(1) simp: upd_thread_def)
  show "l \<noteq> Absorbed \<Longrightarrow>
      \<exists>w \<in> set (bx_threads y). vt_id w = vt_id v \<and> vt_closed w = None \<and> vt_company w = company \<and> vt_number w = number \<and> vt_phone w = phone"
    by (rule cases1) (use appended_keeps(2) [of company number k phone x v] reopened_keeps(2) [of company number k phone x]
        create_thread_facts(2) [of now src i company number k phone x l v y] in \<open>fastforce simp: line_of_def\<close>)+
  show "vt_id w \<noteq> vt_id v \<Longrightarrow> w \<in> set (bx_threads y) \<longleftrightarrow> w \<in> set (bx_threads x)"
    by (rule cases1) (simp_all add: upd_elsewhere create_thread_facts(3))
qed

interpretation text_search: lander "\<lambda>now. land_text now src"
  by unfold_locales
    ((erule (2) text_searched [THEN searched_lands(1)])
     | (erule text_searched [THEN searched_lands(2)])
     | (erule (1) text_searched [THEN searched_lands(3)])
     | (erule (1) text_searched [THEN searched_lands(4)]))+

interpretation missed_search: lander land_missed
  by unfold_locales
    ((erule (2) missed_searched [THEN searched_lands(1)])
     | (erule missed_searched [THEN searched_lands(2)])
     | (erule (1) missed_searched [THEN searched_lands(3)])
     | (erule (1) missed_searched [THEN searched_lands(4)]))+


section \<open>People, their numbers and opt-outs\<close>

definition people_ok :: "string set \<Rightarrow> inbox \<Rightarrow> bool" where
  "people_ok is1 x \<longleftrightarrow> distinct (map kt_id (bx_contacts x)) \<and> kt_id ` set (bx_contacts x) \<subseteq> is1
     \<and> distinct (map (\<lambda>k. (kt_company k, kt_phone k)) (bx_contacts x))
     \<and> distinct (map (\<lambda>p. (kp_company p, kp_phone p)) (bx_phones x))
     \<and> distinct (map (\<lambda>o1. (ot_company o1, ot_phone o1)) (bx_optouts x))"

lemma people_ok_mono: "people_ok is1 x \<Longrightarrow> is1 \<subseteq> js \<Longrightarrow> people_ok js x"
  by (auto simp: people_ok_def)

lemma people_ok_cong:
  "people_ok is1 x \<Longrightarrow> bx_contacts y = bx_contacts x \<Longrightarrow> bx_phones y = bx_phones x \<Longrightarrow> bx_optouts y = bx_optouts x \<Longrightarrow> people_ok is1 y"
  by (simp add: people_ok_def)

definition same_person :: "(contact \<Rightarrow> contact) \<Rightarrow> bool" where
  "same_person f \<longleftrightarrow> (\<forall>k. kt_id (f k) = kt_id k \<and> kt_company (f k) = kt_company k \<and> kt_phone (f k) = kt_phone k)"

lemma same_person_edits [simp, intro]:
  "same_person (touch_contact now src)" "same_person (inherit k0)" "same_person (\<lambda>k. k\<lparr>kt_deleted := d\<rparr>)"
  "same_person (\<lambda>k. k\<lparr>kt_mergedInto := m\<rparr>)" "same_person (\<lambda>k. k\<lparr>kt_deleted := d, kt_name := or_else nm (kt_name k)\<rparr>)"
  by (simp_all add: same_person_def touch_contact_def inherit_def)

lemma people_map:
  assumes "people_ok is1 x" "same_person f" "bx_contacts y = map (\<lambda>k. if P k then f k else k) (bx_contacts x)"
    "bx_phones y = bx_phones x" "bx_optouts y = bx_optouts x"
  shows "people_ok is1 y"
proof -
  let ?g = "\<lambda>k. if P k then f k else k"
  have "map kt_id (map ?g (bx_contacts x)) = map kt_id (bx_contacts x)"
    "map (\<lambda>k. (kt_company k, kt_phone k)) (map ?g (bx_contacts x)) = map (\<lambda>k. (kt_company k, kt_phone k)) (bx_contacts x)"
    using assms(2) by (simp_all add: same_person_def)
  moreover from this(1) have "kt_id ` set (map ?g (bx_contacts x)) = kt_id ` set (bx_contacts x)" by (metis list.set_map)
  ultimately show ?thesis using assms(1,3-5) by (simp only: people_ok_def)
qed

lemma write_contact_simps [simp]:
  "bx_phones (write_contact f i x) = bx_phones x" "bx_optouts (write_contact f i x) = bx_optouts x"
  "bx_threads (write_contact f i x) = bx_threads x" "bx_days (write_contact f i x) = bx_days x"
  "bx_messages (write_contact f i x) = bx_messages x" "bx_snoozes (write_contact f i x) = bx_snoozes x"
  "bx_calls (write_contact f i x) = bx_calls x"
  "bx_contacts (write_contact f i x) = map (\<lambda>k. if kt_id k = i then f k else k) (bx_contacts x)"
  by (simp_all add: write_contact_def)

lemma insert_contact_simps [simp]:
  "bx_phones (insert_contact k x) = bx_phones x" "bx_optouts (insert_contact k x) = bx_optouts x"
  "bx_threads (insert_contact k x) = bx_threads x" "bx_days (insert_contact k x) = bx_days x"
  "bx_messages (insert_contact k x) = bx_messages x" "bx_snoozes (insert_contact k x) = bx_snoozes x"
  "bx_calls (insert_contact k x) = bx_calls x" "bx_contacts (insert_contact k x) = k # bx_contacts x"
  by (simp_all add: insert_contact_def)

lemma write_contact_ok: "people_ok is1 x \<Longrightarrow> same_person f \<Longrightarrow> people_ok is1 (write_contact f i x)"
  by (rule people_map [where f = f and P = "\<lambda>k. kt_id k = i"]) simp_all

lemma insert_contact_ok:
  assumes "people_ok is1 x" "kt_id k \<notin> is1" "contact_of (kt_company k) (kt_phone k) (bx_contacts x) = None"
  shows "people_ok (insert (kt_id k) is1) (insert_contact k x)"
  using assms by (auto simp: people_ok_def contact_of_def find_None_iff)

lemma sender_contact_ok:
  assumes "people_ok is1 x" "fresh \<notin> is1" "sender_contact now src fresh company phone x = (k, y)"
  shows "people_ok (insert fresh is1) y"
proof -
  have "people_ok (insert fresh is1) (insert_contact (touch_contact now src (bare_contact fresh company phone)) x)"
    if "contact_of company phone (bx_contacts x) = None"
    using insert_contact_ok [OF assms(1), of "touch_contact now src (bare_contact fresh company phone)"] that assms(2)
    by (simp add: touch_contact_def bare_contact_def)
  moreover have "people_ok (insert fresh is1) (write_contact (touch_contact now src) i x)" for i
    using write_contact_ok [OF assms(1) same_person_edits(1)] by (rule people_ok_mono) auto
  ultimately show ?thesis using assms(3)
    by (auto simp: sender_contact_def upsert_contact_def split: option.splits)
qed

lemma sender_contact_frame:
  assumes "sender_contact now src fresh company phone x = (k, y)"
  shows "bx_phones y = bx_phones x" "bx_optouts y = bx_optouts x" "bx_threads y = bx_threads x" "bx_days y = bx_days x"
    "bx_messages y = bx_messages x" "bx_snoozes y = bx_snoozes x" "bx_calls y = bx_calls x"
  using assms by (auto simp: sender_contact_def upsert_contact_def split: option.splits)

lemma upsert_contact_is_sender:
  "phone_row company phone (bx_phones x) = None \<Longrightarrow> upsert_contact now src fresh company phone x = sender_contact now src fresh company phone x"
  by (simp add: sender_contact_def)


section \<open>Opt-outs\<close>

definition same_number :: "(opt_out \<Rightarrow> opt_out) \<Rightarrow> bool" where
  "same_number f \<longleftrightarrow> (\<forall>o1. ot_company (f o1) = ot_company o1 \<and> ot_phone (f o1) = ot_phone o1)"

lemma same_number_edits [simp, intro]:
  "same_number (stop_row src by)" "same_number (\<lambda>o1. o1\<lparr>ot_revoked := t\<rparr>)"
  by (simp_all add: same_number_def stop_row_def)

lemma write_optouts_simps [simp]:
  "bx_contacts (write_optouts P f x) = bx_contacts x" "bx_phones (write_optouts P f x) = bx_phones x"
  "bx_threads (write_optouts P f x) = bx_threads x" "bx_days (write_optouts P f x) = bx_days x"
  "bx_messages (write_optouts P f x) = bx_messages x" "bx_snoozes (write_optouts P f x) = bx_snoozes x"
  "bx_optouts (write_optouts P f x) = map (\<lambda>o1. if P o1 then f o1 else o1) (bx_optouts x)"
  by (simp_all add: write_optouts_def)

lemma insert_optout_simps [simp]:
  "bx_contacts (insert_optout o1 x) = bx_contacts x" "bx_phones (insert_optout o1 x) = bx_phones x"
  "bx_threads (insert_optout o1 x) = bx_threads x" "bx_days (insert_optout o1 x) = bx_days x"
  "bx_messages (insert_optout o1 x) = bx_messages x" "bx_snoozes (insert_optout o1 x) = bx_snoozes x"
  "bx_optouts (insert_optout o1 x) = o1 # bx_optouts x"
  by (simp_all add: insert_optout_def)

lemma write_optouts_ok:
  assumes "people_ok is1 x" "same_number f"
  shows "people_ok is1 (write_optouts P f x)"
proof -
  have "map (\<lambda>o1. (ot_company o1, ot_phone o1)) (map (\<lambda>o1. if P o1 then f o1 else o1) (bx_optouts x))
      = map (\<lambda>o1. (ot_company o1, ot_phone o1)) (bx_optouts x)" using assms(2) by (simp add: same_number_def)
  then show ?thesis using assms(1) by (simp only: people_ok_def write_optouts_simps)
qed

lemma insert_optout_ok:
  assumes "people_ok is1 x" "\<not> list_ex (of_phone (ot_company o1) (ot_phone o1)) (bx_optouts x)"
  shows "people_ok is1 (insert_optout o1 x)"
  using assms by (auto simp: people_ok_def list_ex_iff of_phone_def)

lemma keyword_ok: "people_ok is1 x \<Longrightarrow> people_ok is1 (snd (handleOptOutKeywords now company from body x))"
  by (simp add: handleOptOutKeywords_def write_optouts_ok insert_optout_ok fresh_optout_def)

lemma record_opt_out_ok: "people_ok is1 x \<Longrightarrow> people_ok is1 (snd (record_opt_out now src by company phone x))"
  by (simp add: record_opt_out_def write_optouts_ok insert_optout_ok fresh_optout_def)

lemma merge_optout_ok: "people_ok is1 x \<Longrightarrow> people_ok is1 (merge_optout now actor company phone x)"
  by (simp add: merge_optout_def write_optouts_ok insert_optout_ok fresh_optout_def)

lemma optout_frames:
  "bx_threads (snd (handleOptOutKeywords now company from body x)) = bx_threads x"
  "bx_days (snd (handleOptOutKeywords now company from body x)) = bx_days x"
  "bx_threads (snd (record_opt_out now src by company phone x)) = bx_threads x"
  "bx_days (snd (record_opt_out now src by company phone x)) = bx_days x"
  "bx_threads (merge_optout now actor company phone x) = bx_threads x"
  "bx_days (merge_optout now actor company phone x) = bx_days x"
  "bx_contacts (merge_optout now actor company phone x) = bx_contacts x"
  "bx_phones (merge_optout now actor company phone x) = bx_phones x"
  "bx_messages (merge_optout now actor company phone x) = bx_messages x"
  by (simp_all add: handleOptOutKeywords_def record_opt_out_def merge_optout_def)


section \<open>A merge's loop\<close>

lemma open_on_line: "\<not> open_on company number i vs \<Longrightarrow> (company, number, i, phone) \<notin> set (open_lines vs)"
  by (auto simp: open_on_def list_ex_iff open_lines_def line_of_def)

lemma map_one:
  fixes vs :: "conversation list"
  assumes "distinct (map vt_id vs)" "v \<in> set vs"
  obtains as bs where "vs = as @ v # bs" "\<And>f. map (\<lambda>w. if vt_id w = vt_id v then f w else w) vs = as @ f v # bs"
proof -
  obtain as bs where vs: "vs = as @ v # bs" using split_list [OF assms(2)] by blast
  have "map (\<lambda>w. if vt_id w = vt_id v then f w else w) vs = as @ f v # bs" for f :: "conversation \<Rightarrow> conversation"
    using assms(1) unfolding vs by (auto intro!: map_idI simp: image_iff)
  then show ?thesis using that vs by blast
qed

lemma move_thread_ok:
  assumes "threads_ok is1 vs" "v \<in> set vs" "vt_company v = company" "move_thread now company into1 v (n, vs) = (m, ws)"
  shows "threads_ok is1 ws" and "map vt_id ws = map vt_id vs"
    and "\<forall>w \<in> set ws. vt_id w \<noteq> vt_id v \<longrightarrow> w \<in> set vs"
    and "\<forall>w \<in> set vs. vt_id w \<noteq> vt_id v \<longrightarrow> w \<in> set ws"
    and "\<forall>w \<in> set ws. vt_id w = vt_id v \<longrightarrow> vt_contact w = into1"
proof -
  have d: "distinct (map vt_id vs)" using assms(1) by (simp add: threads_ok_def)
  obtain as bs where vs: "vs = as @ v # bs" and one: "\<And>f. map (\<lambda>w. if vt_id w = vt_id v then f w else w) vs = as @ f v # bs"
    using map_one [OF d assms(2)] by blast
  have "vt_id v \<notin> vt_id ` (set as \<union> set bs)" using d unfolding vs by auto
  then have other: "vt_id w \<noteq> vt_id v" if "w \<in> set as \<union> set bs" for w using that by (metis imageI)
  obtain u where ws: "ws = as @ u # bs" and u: "vt_id u = vt_id v" "vt_contact u = into1" and ok: "threads_ok is1 ws"
  proof (cases "vt_closed v = None \<and> open_on company (vt_number v) into1 vs")
    case True
    then have ws: "ws = as @ (v\<lparr>vt_contact := into1, vt_status := ConvClosed, vt_closed := Some now\<rparr>) # bs"
      using assms(4) one by (simp add: move_thread_def)
    have "threads_ok is1 ws" using assms(1) d unfolding ws vs
      by (auto simp: threads_ok_def open_lines_def status_ok_def split: if_splits)
    from that [OF ws _ _ this] show ?thesis by simp
  next
    case False
    then have ws: "ws = as @ (v\<lparr>vt_contact := into1\<rparr>) # bs" using assms(4) one by (simp add: move_thread_def split: if_splits)
    have "vt_closed v = None \<Longrightarrow> (company, vt_number v, into1, vt_phone v) \<notin> set (open_lines vs)"
      using False open_on_line by blast
    then have "threads_ok is1 ws" using assms(1,3) d unfolding ws vs
      by (auto simp: threads_ok_def open_lines_def status_ok_def line_of_def)
    from that [OF ws _ _ this] show ?thesis by simp
  qed
  show "threads_ok is1 ws" by (rule ok)
  show "map vt_id ws = map vt_id vs" using u unfolding ws vs by simp
  show "\<forall>w \<in> set ws. vt_id w \<noteq> vt_id v \<longrightarrow> w \<in> set vs" using u unfolding ws vs by auto
  show "\<forall>w \<in> set vs. vt_id w \<noteq> vt_id v \<longrightarrow> w \<in> set ws" unfolding ws vs by auto
  show "\<forall>w \<in> set ws. vt_id w = vt_id v \<longrightarrow> vt_contact w = into1" using u(2) other unfolding ws by auto
qed

lemma move_threads_ok:
  assumes "threads_ok is1 vs" "set us \<subseteq> set vs" "distinct (map vt_id us)" "\<forall>u \<in> set us. vt_company u = company"
    "fold (move_thread now company into1) us (n, vs) = (m, ws)"
  shows "threads_ok is1 ws \<and> map vt_id ws = map vt_id vs
    \<and> (\<forall>w \<in> set ws. vt_id w \<notin> vt_id ` set us \<longrightarrow> w \<in> set vs)
    \<and> (\<forall>w \<in> set vs. vt_id w \<notin> vt_id ` set us \<longrightarrow> w \<in> set ws)
    \<and> (\<forall>w \<in> set ws. vt_id w \<in> vt_id ` set us \<longrightarrow> vt_contact w = into1)"
  using assms
proof (induction us arbitrary: n vs)
  case (Cons u us)
  obtain n1 vs1 where step: "move_thread now company into1 u (n, vs) = (n1, vs1)" by fastforce
  have u: "u \<in> set vs" "vt_company u = company" using Cons.prems(2,4) by auto
  note one = move_thread_ok [OF Cons.prems(1) u step]
  have apart: "vt_id u \<notin> vt_id ` set us" using Cons.prems(3) by simp
  have here: "\<forall>w \<in> set vs1. vt_id w \<noteq> vt_id u \<longrightarrow> w \<in> set vs" "\<forall>w \<in> set vs. vt_id w \<noteq> vt_id u \<longrightarrow> w \<in> set vs1"
    "\<forall>w \<in> set vs1. vt_id w = vt_id u \<longrightarrow> vt_contact w = into1" "map vt_id vs1 = map vt_id vs"
    by (rule one)+
  have ok1: "threads_ok is1 vs1" by (rule one)
  have sub: "set us \<subseteq> set vs1"
  proof
    fix w assume "w \<in> set us"
    moreover from this apart have "vt_id w \<noteq> vt_id u" by (metis imageI)
    ultimately show "w \<in> set vs1" using here(2) Cons.prems(2) by auto
  qed
  have rest: "threads_ok is1 ws \<and> map vt_id ws = map vt_id vs1
    \<and> (\<forall>w \<in> set ws. vt_id w \<notin> vt_id ` set us \<longrightarrow> w \<in> set vs1)
    \<and> (\<forall>w \<in> set vs1. vt_id w \<notin> vt_id ` set us \<longrightarrow> w \<in> set ws)
    \<and> (\<forall>w \<in> set ws. vt_id w \<in> vt_id ` set us \<longrightarrow> vt_contact w = into1)"
    by (rule Cons.IH [of vs1 n1]) (use ok1 sub Cons.prems(3-5) step in simp_all)
  have later: "\<forall>w \<in> set ws. vt_id w \<notin> vt_id ` set us \<longrightarrow> w \<in> set vs1" "\<forall>w \<in> set vs1. vt_id w \<notin> vt_id ` set us \<longrightarrow> w \<in> set ws"
    "\<forall>w \<in> set ws. vt_id w \<in> vt_id ` set us \<longrightarrow> vt_contact w = into1" "map vt_id ws = map vt_id vs1" "threads_ok is1 ws"
    using rest by blast+
  show ?case
  proof (intro conjI ballI impI)
    show "threads_ok is1 ws" "map vt_id ws = map vt_id vs" using here(4) later(4,5) by simp_all
    fix w
    show "w \<in> set vs" if w: "w \<in> set ws" "vt_id w \<notin> vt_id ` set (u # us)"
    proof -
      have "vt_id w \<noteq> vt_id u" "vt_id w \<notin> vt_id ` set us" using w(2) by simp_all
      then show ?thesis using here(1,2) later(1,2) w(1) by blast
    qed
    show "w \<in> set ws" if w: "w \<in> set vs" "vt_id w \<notin> vt_id ` set (u # us)"
    proof -
      have "vt_id w \<noteq> vt_id u" "vt_id w \<notin> vt_id ` set us" using w(2) by simp_all
      then show ?thesis using here(1,2) later(1,2) w(1) by blast
    qed
    show "vt_contact w = into1" if w: "w \<in> set ws" "vt_id w \<in> vt_id ` set (u # us)"
    proof (cases "vt_id w \<in> vt_id ` set us")
      case True
      then show ?thesis using later(3) w(1) by blast
    next
      case False
      moreover from this w(2) have "vt_id w = vt_id u" by simp
      ultimately show ?thesis using here(3) later(1) w(1) by blast
    qed
  qed
qed simp

end
