(* ===== verification/Spec2Isabelle.thy ===== *)
theory Spec2Isabelle
  imports Call_Claims Call_Flows Client_State Session_Claims Session_Guards
    Csv_Codec Segments Guard_Claims Prepay_Claims Schedule_Claims Message_Claims
    Thread_Facts
begin

text \<open>
  Texturion is a shared business phone: texts and calls of a company's numbers, over Telnyx, in an
  API of Cloudflare workers (\<open>src/apps/api\<close>), with web, Android and iOS clients, a package of
  shared rules (\<open>src/packages/shared\<close>) and a test rig whose every paid request passes a spend guard
  (\<open>src/tools/guard\<close>). This library models the parts of it that keep state across requests
  and hand-overs or compute what money and phone lines depend on, and proves what makes them
  correct. Each definition carries the name of the function or type it translates.


  \<^bold>\<open>Parts, and how they interact.\<close>

  \<^item> A call session. Telnyx webhooks and the app's requests reach one Durable Object per call
    (\<open>calls/session-do.ts\<close>). It admits each event to a journal, gives it to a pure reducer
    (\<open>reduce\<close> in \<open>calls/transitions.ts\<close>), stores the machine the reducer returns and executes the
    effects one by one; an effect may yield further events, which are journalled behind it.
    Commands to Telnyx carry a \<open>client_state\<close> tag by which later webhooks find the session again.
  \<^item> The Telnyx guard. One Durable Object admits the rig's calls and texts under a run lease, caps,
    a money ledger, a concurrency limit and the signals of the account, forwards them to Telnyx
    and settles its counters on the answer. A preemption alarm hangs test calls up when a
    production call appears.
  \<^item> A prepaid year. A company pays twelve months at once; a webhook grants the year as a coupon on
    its Stripe subscription, refunds and disputes take it back, a plan change turns the rest into
    credit, each mirror pass puts a missing coupon back, and a sweep sends credits that never left.
    One row of the database per year is what they all agree on (\<open>billing/prepay.ts\<close>).
  \<^item> Scheduled sends. A text that is not to go now is a row of its own table: one a person schedules,
    the reminders of a job, the question after it. Every minute a worker expires what is past its
    horizon, leases what is due, checks each row (its thread, its job, the job's calendars, the gates
    every send passes) and turns it into a message in one transaction; meanwhile people edit and
    cancel rows, customers answer and opt out (\<open>messaging/scheduled-send.ts\<close>, \<open>messaging/send.ts\<close>).
    The hours a customer may be texted in are those of the destination's own clock, from its area code.
  \<^item> A text's life. Every outgoing text is a row of \<open>messages\<close>: one SQL function per way to send admits
    and inserts it (a person's send, a retry, an auto-reply, the text after a missed call, a fired
    schedule), a dispatch hands it to Telnyx under a key made of its id and writes the answer on the row,
    webhooks carry its delivery, and its segments go once into a ledger that is reported to Stripe. Every
    few minutes stuck rows are retried, then failed (\<open>messaging/send.ts\<close>, \<open>messaging/status.ts\<close>,
    \<open>messaging/retry-interrupted.ts\<close>, \<open>messaging/crons.ts\<close>).
  \<^item> The SMS estimator is what the composer and billing count a text's segments with; the guard
    has an estimate of its own. The CSV codec carries contacts, tags and audit logs in and out.

  \<^bold>\<open>Theories.\<close>

  \<^item> \<open>Prelude\<close>: JavaScript's idioms and standard library (truthiness, \<open>slice\<close>, the UTC calendar and
    \<open>toISOString\<close>, decimals) and the two collections \<open>leg_simps\<close> and \<open>frame_simps\<close>.
  \<^item> \<open>Call_Types\<close>, \<open>Call_Machine\<close>, \<open>Call_Handlers\<close>: the reducer. \<open>session_machine\<close>, \<open>leg_record\<close>,
    \<open>session_event\<close>, \<open>effect\<close> and \<open>reply\<close> are the source's types; one definition per
    \<open>reduce...\<close> function and per case of its switch.
  \<^item> \<open>Call_Facts\<close>: what the shared steps change, emit and leave alone. \<open>Call_Invariants\<close>: the locale
    \<open>call_invariant\<close> between one reduction and runs of them, its interpretations, and the
    abstract call graph \<open>call_edge\<close>. \<open>Call_Properties\<close>, \<open>Call_Claims\<close> (C1 to C4, C6, C8) and
    \<open>Call_Flows\<close> (C16, C17): resolution, voicemail licences, decliners, ring-me, the refinement
    of the graph, bounds, routing, fairness, hand-overs.
  \<^item> \<open>Client_State\<close>: the tags of \<open>messaging/inbound-ring.ts\<close> and \<open>messaging/voice-webhook.ts\<close> with
    base64, their round trips (C18), and the gate on outgoing legs, \<open>calls/outbound-leg-gate.ts\<close>.
  \<^item> \<open>Session_Store\<close>, \<open>Session_Exec\<close>, \<open>Session_Entry\<close>: the Durable Object. \<open>shell\<close> is its storage
    and its in-memory copies; \<open>execute\<close> is one effect, \<open>drain_step\<close> the work between two durable
    writes of the journal, \<open>drain\<close> the loop, and the entry points are its RPCs, \<open>runAlarms\<close> and
    \<open>onTelnyxEvent\<close>.
  \<^item> \<open>Session_Cascade\<close>: the locale \<open>cascade_contract\<close> between reducer and shell, from which every
    cascade ends (C20). \<open>Session_Claims\<close> (C20 to C23) and \<open>Session_Guards\<close> (C24, C26, C29, C30): the locale
    \<open>shell_invariant\<close> over admissions, cascade steps, throws and evictions, and its
    interpretations: exactly-once reduction, deduplication, alarms, the command cap, the mirror,
    lifecycle reports, adoption.
  \<^item> \<open>Csv_Codec\<close>: \<open>routes/core/csv.ts\<close>, its round trip and its formula guard (C32, C33).
  \<^item> \<open>Segments\<close>: \<open>segments.ts\<close> against the least number of in-order segments (C34), and
    \<open>smsParts\<close> of the guard against it.
  \<^item> \<open>Guard_Store\<close>, \<open>Guard_Policy\<close>, \<open>Guard_Admission\<close>, \<open>Guard_Calls\<close>, \<open>Guard_Object\<close>: the guard's
    storage (\<open>guard_store\<close>, one field per key or key family), lease, counters, ledger, balance,
    legs, signals and concurrency modules of \<open>tools/guard/src/state\<close>; admission; call targets and
    contained bodies, dials, texts and leg commands of \<open>tools/guard/src/telnyx\<close>; the object's own
    routes, its alarm and the filed measurements.
  \<^item> \<open>Guard_System\<close>: the requests of all callers interleaved, as the step relation \<open>gstep\<close> over
    \<open>guard_sys\<close>. \<open>Guard_Laws\<close>: the locales \<open>credential_law\<close>, \<open>store_law\<close> and \<open>counting_law\<close>, by
    which a composed operation inherits what the few writes keep. \<open>Guard_Types\<close>: the typed store
    and the interpretations of the laws. \<open>Guard_Invariants\<close>: the locale \<open>guard_invariant\<close> over
    reachable states and its interpretations. \<open>Guard_Runs\<close>: a concrete run, and \<open>room_overrun\<close>.
    \<open>Guard_Claims\<close>: admission, caps, lease and typing (C36 to C39).
  \<^item> \<open>Prepay_Ledger\<close>: the \<open>prepayments\<close> table (\<open>prepayment\<close>, one row) and the SQL functions that
    alone write it, in \<open>supabase/migrations\<close>. \<open>Prepay_Grants\<close>: \<open>billing/prepay.ts\<close> cut at its
    awaits, the gates of \<open>billing/pause.ts\<close> and of the plan change in \<open>routes/billing.ts\<close>.
    \<open>Prepay_System\<close>: all of them interleaved with lost requests and crashes, as the step relation
    \<open>pstep\<close> over \<open>prepay_sys\<close>. \<open>Prepay_Invariants\<close>: the locale \<open>ledger_writer\<close>, the contract of
    the table's writers, and the locale \<open>prepay_invariant\<close> over reachable states, with their
    interpretations. \<open>Prepay_Claims\<close>: credits, coupons, settled years, lost revocations and
    consented changes (C9, C19, C25, C31, C35).
  \<^item> \<open>Nanp\<close>: the area codes of \<open>packages/shared/src/nanp.ts\<close>. \<open>Quiet_Hours\<close>:
    \<open>messaging/destination-clock.ts\<close>, whose searches find the first instant that may be used, and the
    last but for clocks that are not whole hours from UTC. \<open>Civil\<close>: the calendar's round trip.
    \<open>Schedule_Clock\<close>: the presets, the reminders of a job and the question after it, and where they land.
  \<^item> \<open>Send_Gates\<close>: the gates of \<open>messaging/send.ts\<close> in their order, the clearance they mint
    (\<open>cleared_iff\<close>), the dispatch that asks for it, the reasons of a carrier's refusal.
  \<^item> \<open>Schedule_Store\<close>: the \<open>scheduled_messages\<close> table and the SQL functions that write it; the locale
    \<open>waiting_op\<close> is their contract (\<open>evolves\<close>: rows at rest stay, a waiting row keeps its intent and is
    not sent), interpreted for each. \<open>Schedule_Job\<close>: the checks of one row (\<open>decide\<close>) and the three
    routes. \<open>Schedule_System\<close>: all of them interleaved, with crashes, as the step relation \<open>sstep\<close>.
    \<open>Schedule_Invariants\<close>: rows and messages in correspondence, one request for a message.
    \<open>Schedule_Claims\<close>: C10, C13 to C15 and C40, and where the code falls short.
  \<^item> \<open>Message_Store\<close>: the rows of \<open>messages\<close> (\<open>outbox_row\<close>) and the SQL functions that admit, retry and
    fail them. \<open>Message_Status\<close>: the patches of a dispatch, the delivery webhooks, the usage ledger and
    its report. \<open>Message_System\<close>: routes, the two sweeps, webhooks, reports, time and crashes interleaved,
    as the step relation \<open>mstep\<close> over \<open>msg_sys\<close>. \<open>Message_Facts\<close>: the locale \<open>row_edit\<close>, the contract of
    what edits a row (its identity, key and words stay), interpreted for each edit. \<open>Message_Invariants\<close>,
    \<open>Message_Turns\<close>, \<open>Message_Meter\<close>: rows and the carrier's texts, one live dispatch for a row, the
    ledger. \<open>Message_Claims\<close>: C5, C7, C11, C12, C27 and C28, and a run that loses the carrier's answer.

  \<^bold>\<open>Conventions.\<close>

  \<^item> What code outside the repository answers (Telnyx, the database, the push service) is an
    argument: a world per durable step of a session (\<open>world\<close>), a world per request of the guard
    (\<open>call_world\<close>, \<open>guard_world\<close>, \<open>detach_world\<close>, \<open>hang_world\<close>); in a prepaid year the subscription Stripe
    returns is any subscription. Nothing is assumed of it. So are
    \<open>Date.parse\<close>, the origin of a URL and the identifiers drawn at random.
  \<^item> A clock is read once in each stretch that does not await a vendor; a second reading inside
    one reduction (\<open>reduceMemberAnswered\<close>) is an argument of its own.
  \<^item> A session's entry points run one at a time, as the object's queue runs them. The guard has no
    such queue: its requests are cut at each wait for Telnyx where a later write depends on an earlier
    check (a dial is admitted, taken, answered), and any other step may come between. An operation
    of a prepaid year is cut at every await of Stripe into tasks, and a task may be lost. So is a run
    of the scheduled-send worker: the reads of one row's checks are one step, and so are each
    transaction and each dispatch. So is a text's life: an SQL function is one step, as its row locks
    make it, and a request's answer is another. What Telnyx and Stripe promise of repeated keys is not
    taken for granted: \<open>promises\<close> says whether each holds, and a theorem that needs one says so. A worker
    that took a row is gone after a quarter of an hour (\<open>alive\<close>), which is what \<open>STUCK_SEND_SECONDS\<close> rests on.
  \<^item> A thrown error is the left of a sum, with the state as it was left. Machine integers occur in
    the ring rotation's hash, which is a 32-bit word. Sums of money are rationals: the ledger
    rounds to a millionth of a dollar, so the model is the code without the error of binary
    fractions. Strings are 8-bit characters in the tags, UTF-16 units in the CSV codec and
    code points in the estimators.
  \<^item> Bounds come from the code: 88 commands and 24 legs of a session, 256 remembered ids, 12 mirror
    attempts; 18 dials a day and 3 an hour, 20 ceilings, 15 balance samples, leases of 15 minutes.
    The cascade is a \<open>while_option\<close>, whose termination is C20; no definition uses fuel. All other
    recursion is structural or has its measure.

  \<^bold>\<open>Not modelled.\<close>

  \<^item> I/O adapters (\<open>calls/runtime.ts\<close>, the HTTP routes over PostgREST, Stripe, calendars, mail), the
    database's SQL other than that of a prepaid year, of scheduled sends and of messages, the clients and the scripts: they hold little state or logic of their own, or
    are not in the language of this library.
  \<^item> Of the guard: number ordering and set-up, the limit probe's own calls (its result is a step),
    deletion of recordings, the vendors other than Telnyx, mail, the route registry and the shape
    of the health answer. Steps of the system stand for the counters that ordering and the other
    vendors take.
  \<^item> Of a prepaid year: Stripe's own idempotency (the keys of its requests are kept in \<open>p_sent\<close>), the
    mirrored pause columns a grant clears, and the wording of refusals.
  \<^item> Of sending: what the SQL functions write to threads beside the row, media, the emergency
    acknowledgment and analytics; of metering, voice minutes and the ledger of webhook events. Of scheduled sends: the list route, the audience of a disclosure and its wording, what
    deletes a row with its thread or company, the answers to a reminder or a rating question. A zone is
    a function from instants to offsets, which the theorems assume constant where they say \<open>steady\<close>.
  \<^item> Of the CSV codec: the response headers and the byte-order mark's encoding.

  \<^bold>\<open>What comes next.\<close> The rules of the shared package that routing and sending rest on (business
  hours, merge fields, contact import), how an incoming text finds its thread, and the guard's route
  registry and limit probe.
\<close>

end
